(* ===== verification/Prelude.thy ===== *)
theory Prelude
  imports Main "HOL-Library.Word" "HOL-Library.Signed_Division"
begin

text \<open>
  Shared vocabulary of the development: the error codes of the AMM program, the result type
  of its fallible functions, the arithmetic of Rust's fixed-width integers, and the lemmas and
  collections the component theories share.

  Amounts, prices and liquidity are mathematical naturals and ticks and signed deltas are
  mathematical integers; every operation that can leave the machine range is written with
  its check. The program is built with \<open>overflow-checks = true\<close> (\<open>Cargo.toml\<close>), so an
  unchecked \<open>+\<close>, \<open>-\<close> or \<open>*\<close> that overflows panics: that is \<open>Panic\<close> below, and it is kept
  apart from the error codes because the code can match on an error but never on a panic.
  Quantities that the code lets wrap (the Q64.64 fee and reward growth accumulators) are
  128-bit words.
\<close>

section \<open>Errors\<close>

text \<open>
  \<open>ErrorCode\<close> is a field-less enumeration: a value is its position in it (the framework reports
  \<open>6000\<close> plus that position). Each variant of the source has its name here.
\<close>

datatype error_code = ErrorCode nat

abbreviation NotApproved :: error_code where "NotApproved \<equiv> ErrorCode 0"
abbreviation InvalidUpdateConfigFlag :: error_code where "InvalidUpdateConfigFlag \<equiv> ErrorCode 1"
abbreviation AccountLack :: error_code where "AccountLack \<equiv> ErrorCode 2"
abbreviation ClosePositionErr :: error_code where "ClosePositionErr \<equiv> ErrorCode 3"
abbreviation InvalidTickIndex :: error_code where "InvalidTickIndex \<equiv> ErrorCode 4"
abbreviation TickInvalidOrder :: error_code where "TickInvalidOrder \<equiv> ErrorCode 5"
abbreviation TickLowerOverflow :: error_code where "TickLowerOverflow \<equiv> ErrorCode 6"
abbreviation TickUpperOverflow :: error_code where "TickUpperOverflow \<equiv> ErrorCode 7"
abbreviation TickAndSpacingNotMatch :: error_code where "TickAndSpacingNotMatch \<equiv> ErrorCode 8"
abbreviation InvalidTickArray :: error_code where "InvalidTickArray \<equiv> ErrorCode 9"
abbreviation InvalidTickArrayBoundary :: error_code where "InvalidTickArrayBoundary \<equiv> ErrorCode 10"
abbreviation SqrtPriceLimitOverflow :: error_code where "SqrtPriceLimitOverflow \<equiv> ErrorCode 11"
abbreviation SqrtPriceX64 :: error_code where "SqrtPriceX64 \<equiv> ErrorCode 12"
abbreviation LiquiditySubValueErr :: error_code where "LiquiditySubValueErr \<equiv> ErrorCode 13"
abbreviation LiquidityAddValueErr :: error_code where "LiquidityAddValueErr \<equiv> ErrorCode 14"
abbreviation ForbidBothZeroForSupplyLiquidity :: error_code where "ForbidBothZeroForSupplyLiquidity \<equiv> ErrorCode 15"
abbreviation LiquidityInsufficient :: error_code where "LiquidityInsufficient \<equiv> ErrorCode 16"
abbreviation PriceSlippageCheck :: error_code where "PriceSlippageCheck \<equiv> ErrorCode 17"
abbreviation TooLittleOutputReceived :: error_code where "TooLittleOutputReceived \<equiv> ErrorCode 18"
abbreviation TooMuchInputPaid :: error_code where "TooMuchInputPaid \<equiv> ErrorCode 19"
abbreviation ZeroAmountSpecified :: error_code where "ZeroAmountSpecified \<equiv> ErrorCode 20"
abbreviation InvalidInputPoolVault :: error_code where "InvalidInputPoolVault \<equiv> ErrorCode 21"
abbreviation TooSmallInputOrOutputAmount :: error_code where "TooSmallInputOrOutputAmount \<equiv> ErrorCode 22"
abbreviation NotEnoughTickArrayAccount :: error_code where "NotEnoughTickArrayAccount \<equiv> ErrorCode 23"
abbreviation InvalidFirstTickArrayAccount :: error_code where "InvalidFirstTickArrayAccount \<equiv> ErrorCode 24"
abbreviation InvalidRewardIndex :: error_code where "InvalidRewardIndex \<equiv> ErrorCode 25"
abbreviation FullRewardInfo :: error_code where "FullRewardInfo \<equiv> ErrorCode 26"
abbreviation RewardTokenAlreadyInUse :: error_code where "RewardTokenAlreadyInUse \<equiv> ErrorCode 27"
abbreviation ExceptRewardMint :: error_code where "ExceptRewardMint \<equiv> ErrorCode 28"
abbreviation InvalidRewardInitParam :: error_code where "InvalidRewardInitParam \<equiv> ErrorCode 29"
abbreviation InvalidRewardInputAccountNumber :: error_code where "InvalidRewardInputAccountNumber \<equiv> ErrorCode 30"
abbreviation InvalidRewardPeriod :: error_code where "InvalidRewardPeriod \<equiv> ErrorCode 31"
abbreviation NotApproveUpdateRewardEmissions :: error_code where "NotApproveUpdateRewardEmissions \<equiv> ErrorCode 32"
abbreviation UnInitializedRewardInfo :: error_code where "UnInitializedRewardInfo \<equiv> ErrorCode 33"
abbreviation NotSupportMint :: error_code where "NotSupportMint \<equiv> ErrorCode 34"
abbreviation MissingTickArrayBitmapExtensionAccount :: error_code where "MissingTickArrayBitmapExtensionAccount \<equiv> ErrorCode 35"
abbreviation InsufficientLiquidityForDirection :: error_code where "InsufficientLiquidityForDirection \<equiv> ErrorCode 36"
abbreviation MaxTokenOverflow :: error_code where "MaxTokenOverflow \<equiv> ErrorCode 37"
abbreviation CalculateOverflow :: error_code where "CalculateOverflow \<equiv> ErrorCode 38"
abbreviation TransferFeeCalculateNotMatch :: error_code where "TransferFeeCalculateNotMatch \<equiv> ErrorCode 39"
abbreviation OrderAlreadyFilled :: error_code where "OrderAlreadyFilled \<equiv> ErrorCode 40"
abbreviation InvalidOrderPhase :: error_code where "InvalidOrderPhase \<equiv> ErrorCode 41"
abbreviation InvalidLimitOrderAmount :: error_code where "InvalidLimitOrderAmount \<equiv> ErrorCode 42"
abbreviation OrderPhaseSaturated :: error_code where "OrderPhaseSaturated \<equiv> ErrorCode 43"
abbreviation InvalidDynamicFeeConfigParams :: error_code where "InvalidDynamicFeeConfigParams \<equiv> ErrorCode 44"
abbreviation InvalidFeeOn :: error_code where "InvalidFeeOn \<equiv> ErrorCode 45"
abbreviation ZeroSqrtPrice :: error_code where "ZeroSqrtPrice \<equiv> ErrorCode 46"
abbreviation ZeroLiquidity :: error_code where "ZeroLiquidity \<equiv> ErrorCode 47"
abbreviation MissingBaseFlag :: error_code where "MissingBaseFlag \<equiv> ErrorCode 48"
abbreviation MissingMintAccount :: error_code where "MissingMintAccount \<equiv> ErrorCode 49"
abbreviation MissingTokenProgram2022 :: error_code where "MissingTokenProgram2022 \<equiv> ErrorCode 50"
abbreviation MarketPaused :: error_code where "MarketPaused \<equiv> ErrorCode 51"
abbreviation InsufficientCollateral :: error_code where "InsufficientCollateral \<equiv> ErrorCode 52"
abbreviation MaxLeverageExceeded :: error_code where "MaxLeverageExceeded \<equiv> ErrorCode 53"
abbreviation PositionAlreadyExists :: error_code where "PositionAlreadyExists \<equiv> ErrorCode 54"
abbreviation InvalidCommitment :: error_code where "InvalidCommitment \<equiv> ErrorCode 55"
abbreviation MarketNotFound :: error_code where "MarketNotFound \<equiv> ErrorCode 56"
abbreviation FundingRateStale :: error_code where "FundingRateStale \<equiv> ErrorCode 57"
abbreviation InsuranceFundDepleted :: error_code where "InsuranceFundDepleted \<equiv> ErrorCode 58"
abbreviation JitBackRunDetected :: error_code where "JitBackRunDetected \<equiv> ErrorCode 59"
abbreviation ArbDisabled :: error_code where "ArbDisabled \<equiv> ErrorCode 60"
abbreviation ArbCooldownActive :: error_code where "ArbCooldownActive \<equiv> ErrorCode 61"
abbreviation SpreadTooSmall :: error_code where "SpreadTooSmall \<equiv> ErrorCode 62"
abbreviation NoArbProfit :: error_code where "NoArbProfit \<equiv> ErrorCode 63"
abbreviation InsufficientOracleData :: error_code where "InsufficientOracleData \<equiv> ErrorCode 64"
abbreviation InvalidTreasury :: error_code where "InvalidTreasury \<equiv> ErrorCode 65"
abbreviation ArithmeticOverflow :: error_code where "ArithmeticOverflow \<equiv> ErrorCode 66"
abbreviation DivisionByZero :: error_code where "DivisionByZero \<equiv> ErrorCode 67"
abbreviation AmountBelowMin :: error_code where "AmountBelowMin \<equiv> ErrorCode 68"
abbreviation NotSender :: error_code where "NotSender \<equiv> ErrorCode 69"
abbreviation CascadeDetected :: error_code where "CascadeDetected \<equiv> ErrorCode 70"
abbreviation CircuitBreakerActive :: error_code where "CircuitBreakerActive \<equiv> ErrorCode 71"
abbreviation ShieldNotInitialized :: error_code where "ShieldNotInitialized \<equiv> ErrorCode 72"

text \<open>
  \<open>Code\<close> is an error of the program's own enumeration, \<open>RequireViolated\<close> the framework's
  error of a \<open>require_*!\<close> that names no code, \<open>Panic\<close> an abort.
\<close>

datatype error = Panic | RequireViolated | Code error_code

type_synonym 'a res = "error + 'a"

text \<open>Accounts are named by their public keys.\<close>

type_synonym pubkey = nat

section \<open>Sequencing of fallible steps\<close>

text \<open>\<open>and_then m f\<close> is Rust's \<open>f(m?)\<close>: an error of \<open>m\<close> returns at once.\<close>

definition and_then :: "'a res \<Rightarrow> ('a \<Rightarrow> 'b res) \<Rightarrow> 'b res" where
  "and_then m f = (case m of Inl e \<Rightarrow> Inl e | Inr x \<Rightarrow> f x)"

text \<open>\<open>require!(c, code)\<close> followed by the rest \<open>k\<close>; \<open>require_plain\<close> has no code.\<close>

definition require :: "bool \<Rightarrow> error_code \<Rightarrow> 'a res \<Rightarrow> 'a res" where
  "require c code k = (if c then k else Inl (Code code))"

definition require_plain :: "bool \<Rightarrow> 'a res \<Rightarrow> 'a res" where
  "require_plain c k = (if c then k else Inl RequireViolated)"

definition fail :: "error_code \<Rightarrow> 'a res" where
  "fail code = Inl (Code code)"

text \<open>\<open>Option::ok_or(code)\<close>, and \<open>unwrap\<close>, which panics.\<close>

definition ok_or :: "'a option \<Rightarrow> error_code \<Rightarrow> 'a res" where
  "ok_or x code = (case x of Some v \<Rightarrow> Inr v | None \<Rightarrow> Inl (Code code))"

definition unwrap :: "'a option \<Rightarrow> 'a res" where
  "unwrap x = (case x of Some v \<Rightarrow> Inr v | None \<Rightarrow> Inl Panic)"

named_theorems res_simps \<open>when a fallible computation returns a value\<close>

lemma and_then_simps [simp]:
  "and_then (Inl e) f = Inl e"
  "and_then (Inr x) f = f x"
  by (simp_all add: and_then_def)

lemma and_then_cong [fundef_cong]:
  "m = m' \<Longrightarrow> (\<And>x. m' = Inr x \<Longrightarrow> f x = g x) \<Longrightarrow> and_then m f = and_then m' g"
  by (auto simp: and_then_def split: sum.splits)

lemma require_cong [fundef_cong]:
  "c = c' \<Longrightarrow> e = e' \<Longrightarrow> (c' \<Longrightarrow> k = k') \<Longrightarrow> require c e k = require c' e' k'"
  by (simp add: require_def)

lemma and_then_Inr [res_simps]: "and_then m f = Inr y \<longleftrightarrow> (\<exists>x. m = Inr x \<and> f x = Inr y)"
  by (cases m) auto

lemma and_then_pair_Inr:
  "and_then m (\<lambda>(a, b). f a b) = Inr y \<longleftrightarrow> (\<exists>a b. m = Inr (a, b) \<and> f a b = Inr y)"
  by (cases m) auto

lemma and_then_triple_Inr:
  "and_then m (\<lambda>(a, b, c). f a b c) = Inr y \<longleftrightarrow> (\<exists>a b c. m = Inr (a, b, c) \<and> f a b c = Inr y)"
  by (cases m) auto

lemma and_then_quad_Inr:
  "and_then m (\<lambda>(a, b, c, d). f a b c d) = Inr y \<longleftrightarrow> (\<exists>a b c d. m = Inr (a, b, c, d) \<and> f a b c d = Inr y)"
  by (cases m) auto

lemma case_option_Inr:
  "(case x of None \<Rightarrow> a | Some v \<Rightarrow> f v) = Inr y \<longleftrightarrow> (x = None \<and> a = Inr y) \<or> (\<exists>v. x = Some v \<and> f v = Inr y)"
  by (cases x) auto

lemmas and_then_tuples = and_then_pair_Inr and_then_triple_Inr and_then_quad_Inr

lemma require_Inr [res_simps]: "require c e k = Inr y \<longleftrightarrow> c \<and> k = Inr y"
  by (simp add: require_def)

lemma require_plain_Inr [res_simps]: "require_plain c k = Inr y \<longleftrightarrow> c \<and> k = Inr y"
  by (simp add: require_plain_def)

lemma fail_Inr [res_simps]: "fail e = Inr y \<longleftrightarrow> False"
  by (simp add: fail_def)

lemma ok_or_Inr [res_simps]: "ok_or x e = Inr y \<longleftrightarrow> x = Some y"
  by (simp add: ok_or_def split: option.splits)

lemma unwrap_Inr [res_simps]: "unwrap x = Inr y \<longleftrightarrow> x = Some y"
  by (simp add: unwrap_def split: option.splits)

lemma ok_or_simps [simp]: "ok_or (Some v) e = Inr v" "ok_or None e = Inl (Code e)"
  by (simp_all add: ok_or_def)

lemma unwrap_simps [simp]: "unwrap (Some v) = Inr v" "unwrap None = Inl Panic"
  by (simp_all add: unwrap_def)

lemma require_simps [simp]:
  "require True e k = k" "require False e k = Inl (Code e)"
  "require_plain True k = k" "require_plain False k = Inl RequireViolated"
  by (simp_all add: require_def require_plain_def)

text \<open>A postcondition of a fallible computation, if it returns a value, and its rules by the shape of the
  computation.\<close>

definition ensures :: "('a \<Rightarrow> bool) \<Rightarrow> 'a res \<Rightarrow> bool" where
  "ensures P r \<longleftrightarrow> (\<forall>x. r = Inr x \<longrightarrow> P x)"

named_theorems ensures_intros \<open>rules for postconditions of fallible computations\<close>

lemma ensuresD: "ensures P r \<Longrightarrow> r = Inr x \<Longrightarrow> P x"
  by (simp add: ensures_def)

lemma ensuresI: "(\<And>x. r = Inr x \<Longrightarrow> P x) \<Longrightarrow> ensures P r"
  by (simp add: ensures_def)

lemma ensures_value [ensures_intros]: "P x \<Longrightarrow> ensures P (Inr x)"
  by (simp add: ensures_def)

lemma ensures_error [ensures_intros]: "ensures P (Inl e)" "ensures P (fail c)"
  by (simp_all add: ensures_def fail_def)

lemma ensures_and_then [ensures_intros]:
  "(\<And>x. m = Inr x \<Longrightarrow> ensures P (f x)) \<Longrightarrow> ensures P (and_then m f)"
  by (cases m) (simp_all add: ensures_def)

lemma ensures_require [ensures_intros]:
  "(c \<Longrightarrow> ensures P k) \<Longrightarrow> ensures P (require c e k)"
  "(c \<Longrightarrow> ensures P k) \<Longrightarrow> ensures P (require_plain c k)"
  by (simp_all add: ensures_def require_def require_plain_def)

lemma ensures_if [ensures_intros]:
  "(c \<Longrightarrow> ensures P a) \<Longrightarrow> (\<not> c \<Longrightarrow> ensures P b) \<Longrightarrow> ensures P (if c then a else b)"
  by simp

lemma ensures_option [ensures_intros]:
  "(x = None \<Longrightarrow> ensures P a) \<Longrightarrow> (\<And>v. x = Some v \<Longrightarrow> ensures P (f v)) \<Longrightarrow>
     ensures P (case x of None \<Rightarrow> a | Some v \<Rightarrow> f v)"
  by (cases x) simp_all

lemma ensures_prod [ensures_intros]:
  "(\<And>a b. x = (a, b) \<Longrightarrow> ensures P (f a b)) \<Longrightarrow> ensures P (case x of (a, b) \<Rightarrow> f a b)"
  by (cases x) simp

section \<open>Unsigned integers of width \<open>w\<close>\<close>

type_synonym u128w = "128 word"

abbreviation U16_MAX :: nat where "U16_MAX \<equiv> 2 ^ 16 - 1"
abbreviation U32_MAX :: nat where "U32_MAX \<equiv> 2 ^ 32 - 1"
abbreviation U64_MAX :: nat where "U64_MAX \<equiv> 2 ^ 64 - 1"
abbreviation U128_MAX :: nat where "U128_MAX \<equiv> 2 ^ 128 - 1"

definition fits :: "nat \<Rightarrow> nat \<Rightarrow> bool" where
  "fits w n \<longleftrightarrow> n < 2 ^ w"

definition checked_add :: "nat \<Rightarrow> nat \<Rightarrow> nat \<Rightarrow> nat option" where
  "checked_add w a b = (if a + b < 2 ^ w then Some (a + b) else None)"

definition checked_sub :: "nat \<Rightarrow> nat \<Rightarrow> nat option" where
  "checked_sub a b = (if b \<le> a then Some (a - b) else None)"

definition checked_mul :: "nat \<Rightarrow> nat \<Rightarrow> nat \<Rightarrow> nat option" where
  "checked_mul w a b = (if a * b < 2 ^ w then Some (a * b) else None)"

definition checked_div :: "nat \<Rightarrow> nat \<Rightarrow> nat option" where
  "checked_div a b = (if b = 0 then None else Some (a div b))"

definition saturating_add :: "nat \<Rightarrow> nat \<Rightarrow> nat \<Rightarrow> nat" where
  "saturating_add w a b = min (a + b) (2 ^ w - 1)"

definition saturating_sub :: "nat \<Rightarrow> nat \<Rightarrow> nat" where
  "saturating_sub a b = a - b"

definition saturating_mul :: "nat \<Rightarrow> nat \<Rightarrow> nat \<Rightarrow> nat" where
  "saturating_mul w a b = min (a * b) (2 ^ w - 1)"

text \<open>The unchecked operators, which panic out of range, and the two narrowing casts:
  \<open>as_uint\<close> is the big integers' \<open>as_u64\<close>/\<open>as_u128\<close>, which panics; \<open>wrap_uint\<close> is Rust's
  \<open>as\<close> on a primitive, which truncates.\<close>

definition add_u :: "nat \<Rightarrow> nat \<Rightarrow> nat \<Rightarrow> nat res" where
  "add_u w a b = unwrap (checked_add w a b)"

definition sub_u :: "nat \<Rightarrow> nat \<Rightarrow> nat res" where
  "sub_u a b = unwrap (checked_sub a b)"

definition mul_u :: "nat \<Rightarrow> nat \<Rightarrow> nat \<Rightarrow> nat res" where
  "mul_u w a b = unwrap (checked_mul w a b)"

definition div_u :: "nat \<Rightarrow> nat \<Rightarrow> nat res" where
  "div_u a b = unwrap (checked_div a b)"

definition as_uint :: "nat \<Rightarrow> nat \<Rightarrow> nat res" where
  "as_uint w n = (if n < 2 ^ w then Inr n else Inl Panic)"

definition wrap_uint :: "nat \<Rightarrow> nat \<Rightarrow> nat" where
  "wrap_uint w n = n mod 2 ^ w"

lemma checked_simps [res_simps]:
  "checked_add w a b = Some c \<longleftrightarrow> c = a + b \<and> a + b < 2 ^ w"
  "checked_sub a b = Some c \<longleftrightarrow> c = a - b \<and> b \<le> a"
  "checked_mul w a b = Some c \<longleftrightarrow> c = a * b \<and> a * b < 2 ^ w"
  "checked_div a b = Some c \<longleftrightarrow> c = a div b \<and> b \<noteq> 0"
  by (auto simp: checked_add_def checked_sub_def checked_mul_def checked_div_def)

lemma arith_u_Inr [res_simps]:
  "add_u w a b = Inr c \<longleftrightarrow> c = a + b \<and> a + b < 2 ^ w"
  "sub_u a b = Inr c \<longleftrightarrow> c = a - b \<and> b \<le> a"
  "mul_u w a b = Inr c \<longleftrightarrow> c = a * b \<and> a * b < 2 ^ w"
  "div_u a b = Inr c \<longleftrightarrow> c = a div b \<and> b \<noteq> 0"
  by (simp_all add: add_u_def sub_u_def mul_u_def div_u_def unwrap_Inr checked_simps)

lemma as_uint_Inr [res_simps]: "as_uint w n = Inr m \<longleftrightarrow> m = n \<and> n < 2 ^ w"
  by (auto simp: as_uint_def)

lemmas u_defs =
  checked_add_def checked_sub_def checked_mul_def checked_div_def
  add_u_def sub_u_def mul_u_def div_u_def as_uint_def

lemma saturating_add_fits: "saturating_add w a b < 2 ^ w"
proof -
  have "(2 :: nat) ^ w - 1 < 2 ^ w" by simp
  then show ?thesis unfolding saturating_add_def by linarith
qed

section \<open>Signed integers of width \<open>w\<close>\<close>

text \<open>\<open>arith_i\<close> is the result of an unchecked operator, which panics out of range;
  \<open>wrap_int\<close> is Rust's \<open>as\<close> to a signed type. \<open>sdiv\<close> and \<open>smod\<close> are \<open>/\<close> and \<open>%\<close>.\<close>

definition fits_i :: "nat \<Rightarrow> int \<Rightarrow> bool" where
  "fits_i w x \<longleftrightarrow> - (2 ^ (w - 1)) \<le> x \<and> x < 2 ^ (w - 1)"

definition checked_i :: "nat \<Rightarrow> int \<Rightarrow> int option" where
  "checked_i w x = (if fits_i w x then Some x else None)"

definition saturate_i :: "nat \<Rightarrow> int \<Rightarrow> int" where
  "saturate_i w x = max (- (2 ^ (w - 1))) (min x (2 ^ (w - 1) - 1))"

definition arith_i :: "nat \<Rightarrow> int \<Rightarrow> int res" where
  "arith_i w x = unwrap (checked_i w x)"

definition sdiv_i :: "nat \<Rightarrow> int \<Rightarrow> int \<Rightarrow> int res" where
  "sdiv_i w a b = (if b = 0 then Inl Panic else arith_i w (a sdiv b))"

definition smod_i :: "nat \<Rightarrow> int \<Rightarrow> int \<Rightarrow> int res" where
  "smod_i w a b =
     (if b = 0 then Inl Panic else and_then (arith_i w (a sdiv b)) (\<lambda>_. Inr (a smod b)))"

definition wrap_int :: "nat \<Rightarrow> int \<Rightarrow> int" where
  "wrap_int w x = (x + 2 ^ (w - 1)) mod 2 ^ w - 2 ^ (w - 1)"

lemma arith_i_Inr [res_simps]: "arith_i w x = Inr y \<longleftrightarrow> y = x \<and> fits_i w x"
  by (auto simp: arith_i_def checked_i_def)

lemma arith_i_fits: "fits_i w x \<Longrightarrow> arith_i w x = Inr x"
  by (simp add: arith_i_def checked_i_def)

lemma checked_i_Some [res_simps]: "checked_i w x = Some y \<longleftrightarrow> y = x \<and> fits_i w x"
  by (auto simp: checked_i_def)

text \<open>Truncating division by a positive number, against flooring division.\<close>

lemma smod_eq_0_iff: "0 < (s :: int) \<Longrightarrow> t smod s = 0 \<longleftrightarrow> s dvd t"
proof -
  assume s: "0 < s"
  have "t mod s \<noteq> s" using pos_mod_bound [OF s, of t] by linarith
  then show ?thesis using s by (auto simp: signed_modulo_int_eq_modulo_int dvd_eq_mod_eq_0)
qed

lemma floor_sdiv:
  "0 < (s :: int) \<Longrightarrow> (if t smod s = 0 \<or> 0 \<le> t then t sdiv s else t sdiv s - 1) = t div s"
  by (auto simp: smod_eq_0_iff signed_divide_int_eq_divide_int sgn_if)

section \<open>Arithmetic facts the components share\<close>

named_theorems bounds \<open>results stay in their machine range\<close>

lemma mult_div_le_right: "(a * b) div (b :: nat) \<le> a"
  by (cases "b = 0") simp_all

lemma div_mult_le: "(a div b) * (b :: nat) \<le> a"
  by (metis div_times_less_eq_dividend)

lemma less_div_Suc_mult: "0 < (b :: nat) \<Longrightarrow> a < (a div b + 1) * b"
  by (metis add.commute mult.commute mult_Suc_right dividend_less_times_div plus_1_eq_Suc)

lemma int_le_div_iff: "0 < (s :: int) \<Longrightarrow> k \<le> a div s \<longleftrightarrow> k * s \<le> a"
proof
  assume s: "0 < s" and "k \<le> a div s"
  then have "k * s \<le> a div s * s" by simp
  also have "\<dots> \<le> a" using s by (simp add: minus_mod_eq_div_mult [symmetric])
  finally show "k * s \<le> a" .
next
  assume "0 < s" "k * s \<le> a"
  then show "k \<le> a div s" using zdiv_mono1 [of "k * s" a s] by simp
qed

lemma int_div_less_iff: "0 < (s :: int) \<Longrightarrow> a div s < k \<longleftrightarrow> a < k * s"
  using int_le_div_iff [of s k a] by linarith

text \<open>The ceiling \<open>(a + b - 1) div b\<close> of a quotient, by its universal property.\<close>

definition ceil_div :: "nat \<Rightarrow> nat \<Rightarrow> nat" where
  "ceil_div a b = (a + (b - 1)) div b"

lemma ceil_div_le_iff: "0 < b \<Longrightarrow> ceil_div a b \<le> c \<longleftrightarrow> a \<le> c * b"
proof -
  assume b: "0 < b"
  have "ceil_div a b \<le> c \<longleftrightarrow> (a + (b - 1)) div b < c + 1"
    by (simp add: ceil_div_def less_Suc_eq_le)
  also have "\<dots> \<longleftrightarrow> a + (b - 1) < (c + 1) * b"
    using b by (simp only: div_less_iff_less_mult)
  also have "\<dots> \<longleftrightarrow> a \<le> c * b"
    using b by (auto simp: algebra_simps)
  finally show ?thesis .
qed

lemma le_ceil_div_mult: "0 < b \<Longrightarrow> a \<le> ceil_div a b * b"
  using ceil_div_le_iff by blast

lemma le_div_iff: "0 < (b :: nat) \<Longrightarrow> c \<le> a div b \<longleftrightarrow> c * b \<le> a"
  by (simp add: less_eq_div_iff_mult_less_eq)

lemma ceil_div_mult_less: "0 < b \<Longrightarrow> 0 < a \<Longrightarrow> (ceil_div a b - 1) * b < a"
  using ceil_div_le_iff [of b a "ceil_div a b - 1"] ceil_div_le_iff [of b a 0]
  by (cases "ceil_div a b") auto

lemma ceil_div_mono: "a \<le> a' \<Longrightarrow> ceil_div a b \<le> ceil_div a' b"
  by (simp add: ceil_div_def div_le_mono)

lemma ceil_div_zero [simp]: "ceil_div 0 b = 0"
  by (cases "b = 0") (auto simp: ceil_div_def)

lemma div_le_ceil_div: "a div b \<le> ceil_div a b"
  by (simp add: ceil_div_def div_le_mono)

lemma ceil_div_le_Suc_div: "0 < b \<Longrightarrow> ceil_div a b \<le> a div b + 1"
  using less_div_Suc_mult [of b a] by (simp add: ceil_div_le_iff)

lemma ceil_div_exact: "0 < b \<Longrightarrow> ceil_div (a * b) b = a"
  by (metis antisym ceil_div_le_iff div_le_ceil_div nonzero_mult_div_cancel_right
      order_refl less_numeral_extra(3))

lemma ceil_div_ceil_div:
  assumes "0 < a" "0 < b"
  shows "ceil_div (ceil_div x b) a = ceil_div x (b * a)"
proof (rule antisym)
  have "x \<le> ceil_div x (b * a) * (b * a)"
    using assms by (intro le_ceil_div_mult) simp
  then have "ceil_div x b \<le> ceil_div x (b * a) * a"
    using assms by (simp add: ceil_div_le_iff ac_simps)
  then show "ceil_div (ceil_div x b) a \<le> ceil_div x (b * a)"
    using assms by (simp add: ceil_div_le_iff)
  have "x \<le> ceil_div x b * b" using assms by (simp add: le_ceil_div_mult)
  also have "\<dots> \<le> (ceil_div (ceil_div x b) a * a) * b"
    using assms by (intro mult_right_mono le_ceil_div_mult) simp_all
  finally show "ceil_div x (b * a) \<le> ceil_div (ceil_div x b) a"
    using assms by (simp add: ceil_div_le_iff ac_simps)
qed

section \<open>Sums over lists\<close>

lemma sum_list_update_int:
  fixes f :: "'a \<Rightarrow> int"
  shows "i < length xs \<Longrightarrow> sum_list (List.map f (xs[i := x])) = sum_list (List.map f xs) - f (xs ! i) + f x"
  by (induction xs arbitrary: i) (auto split: nat.splits)

lemma sum_list_update_nat:
  "i < length xs \<Longrightarrow> (\<Sum>x\<leftarrow>xs[i := y]. f x) + f (xs ! i) = (\<Sum>x\<leftarrow>xs. f x) + (f y :: nat)"
  by (induction xs arbitrary: i) (auto split: nat.splits)

end
