(* ===== verification/Full_Math.thy ===== *)
theory Full_Math
  imports Prelude
begin

text \<open>
  \<open>libraries/full_math.rs\<close>, \<open>unsafe_math.rs\<close>, \<open>fixed_point_64.rs\<close>: multiply-then-divide with
  a double-width product, and division rounding up. A width argument \<open>w\<close> (64, 128, 256)
  selects the implementation (\<open>u64\<close>, \<open>U128\<close>, \<open>U256\<close>); the product is computed at width
  \<open>2 * w\<close>, where it always fits (\<open>mul_div_product_fits\<close>), so it never panics.

  The interface \<open>rounding\<close> is what the AMM formulas rely on: the floor and the ceiling of a
  quotient, by their universal properties. It is interpreted on the two functions of the code.
\<close>

section \<open>Q64.64 constants\<close>

definition Q64 :: nat where "Q64 = 2 ^ 64"
definition RESOLUTION :: nat where "RESOLUTION = 64"

lemma Q64_pos [simp]: "0 < Q64"
  by (simp add: Q64_def)

section \<open>\<open>MulDiv\<close>\<close>

definition mul_div_floor :: "nat \<Rightarrow> nat \<Rightarrow> nat \<Rightarrow> nat \<Rightarrow> nat option" where
  "mul_div_floor w val num denom =
     (if denom = 0 then None
      else let r = (val * num) div denom
           in if r > 2 ^ w - 1 then None else Some r)"

definition mul_div_ceil :: "nat \<Rightarrow> nat \<Rightarrow> nat \<Rightarrow> nat \<Rightarrow> nat option" where
  "mul_div_ceil w val num denom =
     (if denom = 0 then None
      else let r = (val * num + (denom - 1)) div denom
           in if r > 2 ^ w - 1 then None else Some r)"

text \<open>\<open>to_underflow_u64\<close> of the two big integers: values from \<open>u64::MAX\<close> on give 0.\<close>

definition to_underflow_u64 :: "nat \<Rightarrow> nat" where
  "to_underflow_u64 x = (if x < U64_MAX then x else 0)"

lemma to_underflow_u64_le: "to_underflow_u64 x \<le> x"
  by (simp add: to_underflow_u64_def)

lemma to_underflow_u64_fits [bounds]: "to_underflow_u64 x < 2 ^ 64"
  by (simp add: to_underflow_u64_def)

lemma pow_pred_iff: "(r > 2 ^ w - 1) = (\<not> r < (2 :: nat) ^ w)"
proof -
  have "0 < (2 :: nat) ^ w" by simp
  then show ?thesis by linarith
qed

lemma mul_div_floor_Some [res_simps]:
  "mul_div_floor w a b d = Some r \<longleftrightarrow> d \<noteq> 0 \<and> r = (a * b) div d \<and> (a * b) div d < 2 ^ w"
  unfolding mul_div_floor_def Let_def pow_pred_iff by auto

lemma mul_div_ceil_Some [res_simps]:
  "mul_div_ceil w a b d = Some r \<longleftrightarrow> d \<noteq> 0 \<and> r = ceil_div (a * b) d \<and> ceil_div (a * b) d < 2 ^ w"
  unfolding mul_div_ceil_def Let_def pow_pred_iff ceil_div_def by auto

lemma mul_div_floor_None:
  "mul_div_floor w a b d = None \<longleftrightarrow> d = 0 \<or> \<not> (a * b) div d < 2 ^ w"
  unfolding mul_div_floor_def Let_def pow_pred_iff by auto

lemma mul_div_ceil_None:
  "mul_div_ceil w a b d = None \<longleftrightarrow> d = 0 \<or> \<not> ceil_div (a * b) d \<le> 2 ^ w - 1"
  unfolding mul_div_ceil_def Let_def ceil_div_def by (auto simp: not_le)

lemma mul_div_eq:
  "0 < d \<Longrightarrow> mul_div_floor w a b d = (if (a * b) div d < 2 ^ w then Some ((a * b) div d) else None)"
  "0 < d \<Longrightarrow> mul_div_ceil w a b d = (if ceil_div (a * b) d < 2 ^ w then Some (ceil_div (a * b) d) else None)"
  unfolding mul_div_floor_def mul_div_ceil_def Let_def pow_pred_iff ceil_div_def by auto

lemma mul_div_product_fits:
  assumes "fits w a" "fits w b" "fits w d" "d \<noteq> 0"
  shows "a * b + (d - 1) < 2 ^ (2 * w)"
proof -
  let ?m = "(2 :: nat) ^ w"
  have a: "a \<le> ?m - 1" and b: "b \<le> ?m - 1" and d: "d - 1 \<le> ?m - 1"
    using assms by (simp_all add: fits_def)
  have "a * b + (d - 1) \<le> (?m - 1) * (?m - 1) + (?m - 1)"
    by (rule add_mono [OF mult_le_mono [OF a b] d])
  also have "\<dots> = (?m - 1) * ?m"
    by (cases "?m") simp_all
  also have "\<dots> < ?m * ?m" by simp
  also have "\<dots> = 2 ^ (2 * w)" by (simp add: power_add mult_2)
  finally show ?thesis .
qed

text \<open>
  \<open>div_rounding_up\<close>: \<open>x / y + (x % y > 0)\<close>, which panics for \<open>y = 0\<close>; the sum is at most
  \<open>x\<close> and cannot overflow.
\<close>

definition div_rounding_up :: "nat \<Rightarrow> nat \<Rightarrow> nat res" where
  "div_rounding_up x y =
     and_then (div_u x y) (\<lambda>q. Inr (q + (if x mod y > 0 then 1 else 0)))"

lemma ceil_div_eq_mod: "0 < y \<Longrightarrow> ceil_div x y = x div y + (if x mod y > 0 then 1 else 0)"
proof -
  assume y: "0 < y"
  show ?thesis
  proof (cases "x mod y = 0")
    case True
    then have "x = (x div y) * y" by (metis add.right_neutral div_mult_mod_eq)
    then show ?thesis using True ceil_div_exact [OF y, of "x div y"] by simp
  next
    case False
    have "\<not> ceil_div x y \<le> x div y"
    proof
      assume "ceil_div x y \<le> x div y"
      then have "x \<le> x div y * y" using y by (simp add: ceil_div_le_iff)
      then show False using False div_mult_mod_eq [of x y] by linarith
    qed
    then show ?thesis using False ceil_div_le_Suc_div [OF y, of x] by simp
  qed
qed

lemma div_rounding_up_Inr [res_simps]:
  "div_rounding_up x y = Inr q \<longleftrightarrow> y \<noteq> 0 \<and> q = ceil_div x y"
  by (auto simp: div_rounding_up_def res_simps ceil_div_eq_mod)

section \<open>The rounding interface\<close>

text \<open>
  What a client of the two division routines may assume: with a non-zero denominator a
  result, when there is one, is the greatest (least) integer below (above) the quotient,
  and there is one exactly when that integer fits.
\<close>

locale rounding =
  fixes down :: "nat \<Rightarrow> nat \<Rightarrow> nat \<Rightarrow> nat option"
    and up :: "nat \<Rightarrow> nat \<Rightarrow> nat \<Rightarrow> nat option"
    and bound :: nat
  assumes down_greatest: "down a b d = Some r \<Longrightarrow> c \<le> r \<longleftrightarrow> c * d \<le> a * b"
    and up_least: "up a b d = Some r \<Longrightarrow> r \<le> c \<longleftrightarrow> a * b \<le> c * d"
    and down_bound: "down a b d = Some r \<Longrightarrow> r < bound"
    and up_bound: "up a b d = Some r \<Longrightarrow> r < bound"
    and down_none: "0 < d \<Longrightarrow> down a b d = None \<longleftrightarrow> bound * d \<le> a * b"
    and up_none: "0 < d \<Longrightarrow> 0 < bound \<Longrightarrow> up a b d = None \<longleftrightarrow> (bound - 1) * d < a * b"
begin

lemma down_mult: "down a b d = Some r \<Longrightarrow> r * d \<le> a * b"
  using down_greatest by blast

lemma up_mult: "up a b d = Some r \<Longrightarrow> a * b \<le> r * d"
  using up_least by blast

lemma down_le_up:
  assumes "down a b d = Some r" "up a b d = Some s" "0 < d"
  shows "r \<le> s"
proof -
  have "r * d \<le> s * d"
    using down_mult [OF assms(1)] up_mult [OF assms(2)] by linarith
  then show ?thesis using assms(3) by simp
qed

lemma up_le_Suc_down:
  assumes "down a b d = Some r" "up a b d = Some s"
  shows "s \<le> r + 1"
proof -
  have "a * b < (r + 1) * d"
    using down_greatest [OF assms(1), of "r + 1"] by auto
  then show ?thesis using up_least [OF assms(2), of "r + 1"] by simp
qed

text \<open>
  Converting an amount down and the result back up never asks for more than the amount;
  converting up and back down never gives less.
\<close>

lemma up_of_down: "down a b d = Some r \<Longrightarrow> up r d b = Some s \<Longrightarrow> s \<le> a"
  using down_mult up_least by (simp add: mult.commute)

lemma down_of_up: "up a b d = Some s \<Longrightarrow> down s d b = Some t \<Longrightarrow> a \<le> t"
  using up_mult down_greatest by (simp add: mult.commute)

end

interpretation md: rounding "mul_div_floor w" "mul_div_ceil w" "2 ^ w" for w
proof unfold_locales
  fix a b d r c
  show "mul_div_floor w a b d = Some r \<Longrightarrow> (c \<le> r) = (c * d \<le> a * b)"
    by (auto simp: res_simps le_div_iff)
  show "mul_div_ceil w a b d = Some r \<Longrightarrow> (r \<le> c) = (a * b \<le> c * d)"
    by (auto simp: res_simps ceil_div_le_iff)
  show "mul_div_floor w a b d = Some r \<Longrightarrow> r < 2 ^ w"
    and "mul_div_ceil w a b d = Some r \<Longrightarrow> r < 2 ^ w"
    by (simp_all add: res_simps)
  assume d: "0 < d"
  have "(a * b) div d < 2 ^ w \<longleftrightarrow> a * b < 2 ^ w * d"
    using d by (simp add: div_less_iff_less_mult)
  then show "(mul_div_floor w a b d = None) = (2 ^ w * d \<le> a * b)"
    using d by (simp add: mul_div_floor_None not_less)
  then show "(mul_div_ceil w a b d = None) = ((2 ^ w - 1) * d < a * b)"
    using d ceil_div_le_iff [of d "a * b" "2 ^ w - 1"] by (auto simp: mul_div_ceil_None not_le)
qed

end
