(* ===== verification/Tick_Math.thy ===== *)
theory Tick_Math
  imports Full_Math
begin

text \<open>
  \<open>libraries/tick_math.rs\<close>: the price of a tick, \<open>\<surd>(1.0001 ^ tick)\<close> as a Q64.64 number, by
  multiplying one magic factor per set bit of \<open>|tick|\<close>, and the inverse search.

  The main result is that the price is strictly increasing in the tick over the whole range
  (\<open>sqrt_price_strict_mono\<close>). Consecutive ticks agree above the lowest zero bit of the
  smaller one; below it the two products are fixed numbers, a relative \<open>1/20002\<close> apart
  (19 evaluated cases, \<open>apply_factors_low\<close>), and each truncating step above it preserves the
  gap up to one unit (\<open>apply_factors_gap\<close>).
\<close>

section \<open>Definitions\<close>

definition MIN_TICK :: int where "MIN_TICK = -443636"
definition MAX_TICK :: int where "MAX_TICK = 443636"
definition MIN_SQRT_PRICE_X64 :: nat where "MIN_SQRT_PRICE_X64 = 4295048016"
definition MAX_SQRT_PRICE_X64 :: nat where
  "MAX_SQRT_PRICE_X64 = 79226673521066979257578248091"
definition BIT_PRECISION :: nat where "BIT_PRECISION = 16"

lemmas tick_limits = MIN_TICK_def MAX_TICK_def MIN_SQRT_PRICE_X64_def MAX_SQRT_PRICE_X64_def

definition magic_factors :: "nat list" where
  "magic_factors =
    [0xfffcb933bd6fb800, 0xfff97272373d4000, 0xfff2e50f5f657000, 0xffe5caca7e10f000,
     0xffcb9843d60f7000, 0xff973b41fa98e800, 0xff2ea16466c9b000, 0xfe5dee046a9a3800,
     0xfcbe86c7900bb000, 0xf987a7253ac65800, 0xf3392b0822bb6000, 0xe7159475a2caf000,
     0xd097f3bdfd2f2000, 0xa9f746462d9f8000, 0x70d869a156f31c00, 0x31be135f97ed3200,
     0x9aa508b5b85a500, 0x5d6af8dedc582c, 0x2216e584f5fa]"

text \<open>
  The nineteen \<open>if abs_tick & (1 << i) != 0\<close> of the source, in its order: the first one
  starts from the factor itself or from \<open>2^64\<close>, every later one multiplies and shifts.
\<close>

fun apply_factors :: "nat \<Rightarrow> nat \<Rightarrow> nat list \<Rightarrow> nat \<Rightarrow> nat" where
  "apply_factors abs_tick i [] ratio = ratio"
| "apply_factors abs_tick i (c # cs) ratio =
     apply_factors abs_tick (Suc i) cs
       (if bit abs_tick i then (ratio * c) div 2 ^ 64 else ratio)"

definition tick_ratio :: "nat \<Rightarrow> nat" where
  "tick_ratio abs_tick =
     apply_factors abs_tick 1 (tl magic_factors)
       (if bit abs_tick 0 then hd magic_factors else 2 ^ 64)"

definition get_sqrt_price_at_tick :: "int \<Rightarrow> nat res" where
  "get_sqrt_price_at_tick tick =
     require (MIN_TICK \<le> tick \<and> tick \<le> MAX_TICK) TickUpperOverflow
       (let ratio = tick_ratio (nat \<bar>tick\<bar>)
        in if tick > 0 then div_u U128_MAX ratio else Inr ratio)"

text \<open>
  The inverse: the binary logarithm of the price to \<open>BIT_PRECISION\<close> fractional bits, a change
  of base with an error bound, and one comparison to choose between the two candidates.
  \<open>msb\<close> is the position of the highest set bit, \<open>log2_loop\<close> the \<open>while\<close> of the source with
  its counter \<open>precision\<close> counted down.
\<close>

fun floor_log2 :: "nat \<Rightarrow> nat" where
  "floor_log2 n = (if n < 2 then 0 else Suc (floor_log2 (n div 2)))"

declare floor_log2.simps [simp del]

fun log2_loop :: "nat \<Rightarrow> nat \<Rightarrow> nat \<Rightarrow> int \<Rightarrow> int" where
  "log2_loop 0 r b frac = frac"
| "log2_loop (Suc n) r b frac =
     (if b > 0 then
        let r2 = r * r;
            more_than_two = r2 div 2 ^ 127
        in log2_loop n (r2 div 2 ^ (63 + more_than_two)) (b div 2)
             (frac + int b * int more_than_two)
      else frac)"

definition get_tick_at_sqrt_price :: "nat \<Rightarrow> int res" where
  "get_tick_at_sqrt_price sqrt_price_x64 =
     require (MIN_SQRT_PRICE_X64 \<le> sqrt_price_x64 \<and> sqrt_price_x64 < MAX_SQRT_PRICE_X64)
       SqrtPriceX64
       (let msb = floor_log2 sqrt_price_x64;
            log2p_integer_x32 = (int msb - 64) * 2 ^ 32;
            r = (if msb \<ge> 64 then sqrt_price_x64 div 2 ^ (msb - 63)
                 else sqrt_price_x64 * 2 ^ (63 - msb));
            log2p_fraction_x64 = log2_loop BIT_PRECISION r (2 ^ 63) 0;
            log2p_x32 = log2p_integer_x32 + log2p_fraction_x64 div 2 ^ 32;
            log_sqrt_10001_x64 = log2p_x32 * 59543866431248;
            tick_low = (log_sqrt_10001_x64 - 184467440737095516) div 2 ^ 64;
            tick_high = (log_sqrt_10001_x64 + 15793534762490258745) div 2 ^ 64
        in if tick_low = tick_high then Inr tick_low
           else and_then (get_sqrt_price_at_tick tick_high) (\<lambda>p.
             if p \<le> sqrt_price_x64 then Inr tick_high else Inr tick_low))"

definition get_price_at_tick :: "int \<Rightarrow> bool \<Rightarrow> nat res" where
  "get_price_at_tick tick round_up =
     and_then (get_sqrt_price_at_tick tick) (\<lambda>token_0_sqrt_price.
       if round_up
       then ok_or (mul_div_ceil 128 token_0_sqrt_price token_0_sqrt_price Q64) CalculateOverflow
       else ok_or (mul_div_floor 128 token_0_sqrt_price token_0_sqrt_price Q64) CalculateOverflow)"

section \<open>The price is strictly increasing in the tick\<close>

lemma apply_factors_append:
  "apply_factors t i (xs @ ys) r = apply_factors t (i + length xs) ys (apply_factors t i xs r)"
  by (induction xs arbitrary: i r) simp_all

lemma apply_factors_cong:
  "(\<And>j. j < length cs \<Longrightarrow> bit t (i + j) = bit t' (i + j)) \<Longrightarrow>
   apply_factors t i cs r = apply_factors t' i cs r"
proof (induction cs arbitrary: i r)
  case (Cons c cs)
  have "bit t i = bit t' i" using Cons.prems [of 0] by simp
  moreover have "apply_factors t (Suc i) cs s = apply_factors t' (Suc i) cs s" for s
    using Cons.prems [of "Suc _"] by (intro Cons.IH) simp
  ultimately show ?case by simp
qed simp

lemma tick_ratio_eq: "tick_ratio t = apply_factors t 0 magic_factors (2 ^ 64)"
proof -
  have *: "magic_factors = hd magic_factors # tl magic_factors" by (simp add: magic_factors_def)
  show ?thesis by (subst *) (simp add: tick_ratio_def)
qed

text \<open>
  \<open>gap K m b a\<close>: \<open>a\<close> exceeds \<open>b\<close> by at least \<open>b / K - m\<close>. One truncating step keeps the
  relative gap, up to one unit.
\<close>

definition gap :: "nat \<Rightarrow> nat \<Rightarrow> nat \<Rightarrow> nat \<Rightarrow> bool" where
  "gap K m b a \<longleftrightarrow> (\<exists>d. a = b + d \<and> b \<le> K * (d + m))"

lemma gap_step:
  assumes "gap K m b a" "c \<le> Q" "0 < Q"
  shows "gap K (Suc m) ((b * c) div Q) ((a * c) div Q)"
proof -
  obtain d where d: "a = b + d" "b \<le> K * (d + m)" using assms(1) by (auto simp: gap_def)
  let ?a = "(a * c) div Q" and ?b = "(b * c) div Q"
  have "?b \<le> ?a" using d(1) by (intro div_le_mono mult_le_mono1) simp
  then obtain d' where d': "?a = ?b + d'" using le_Suc_ex by blast
  have "?b * Q \<le> b * c" by (rule div_mult_le)
  moreover have "b * c + d * c < (?b + d' + 1) * Q"
    using less_div_Suc_mult [OF assms(3), of "a * c"] d(1) d' by (simp only: add_mult_distrib)
  ultimately have "d * c \<le> (d' + 1) * Q" by (simp only: add_mult_distrib)
  then have "d * c + m * c \<le> (d' + 1) * Q + m * Q"
    using assms(2) by (intro add_mono mult_le_mono2)
  then have "(d + m) * c \<le> (d' + Suc m) * Q" by (simp add: algebra_simps)
  then have "K * ((d + m) * c) \<le> K * ((d' + Suc m) * Q)" by (rule mult_le_mono2)
  moreover have "b * c \<le> K * (d + m) * c" using d(2) by (rule mult_le_mono1)
  ultimately have "?b * Q \<le> (K * (d' + Suc m)) * Q"
    using div_mult_le [of "b * c" Q] by (simp only: mult.assoc)
  then have "?b \<le> K * (d' + Suc m)" using assms(3) by simp
  then show ?thesis using d' by (auto simp: gap_def)
qed

lemma gap_mono: "gap K m b a \<Longrightarrow> m \<le> n \<Longrightarrow> gap K n b a"
proof -
  assume "gap K m b a" "m \<le> n"
  then obtain d where "a = b + d" "b \<le> K * (d + m)" and "K * (d + m) \<le> K * (d + n)"
    by (auto simp: gap_def)
  then show ?thesis unfolding gap_def by (blast intro: order_trans)
qed

lemma apply_factors_gap:
  "gap K m b a \<Longrightarrow> \<forall>c \<in> set cs. c \<le> 2 ^ 64 \<Longrightarrow>
   (\<And>j. j < length cs \<Longrightarrow> bit t (i + j) = bit t' (i + j)) \<Longrightarrow>
   gap K (m + length cs) (apply_factors t' i cs b) (apply_factors t i cs a)"
proof (induction cs arbitrary: i a b m)
  case (Cons c cs)
  let ?f = "\<lambda>x. if bit t i then (x * c) div 2 ^ 64 else x"
  have bit: "bit t' i = bit t i" using Cons.prems(3) [of 0] by simp
  have "gap K (Suc m) (?f b) (?f a)"
    using gap_step [of K m b a c "2 ^ 64"] gap_mono [of K m b a "Suc m"] Cons.prems(1,2)
    by auto
  moreover have "bit t (Suc i + j) = bit t' (Suc i + j)" if "j < length cs" for j
    using Cons.prems(3) [of "Suc j"] that by simp
  ultimately have "gap K (Suc m + length cs) (apply_factors t' (Suc i) cs (?f b))
      (apply_factors t (Suc i) cs (?f a))"
    using Cons.prems(2) by (intro Cons.IH) auto
  then show ?case using bit by simp
qed simp

text \<open>The lowest zero bit of \<open>t\<close> is where \<open>t\<close> and \<open>t + 1\<close> part.\<close>

lemma succ_bits:
  "\<exists>k. (\<forall>j < k. bit t j \<and> \<not> bit (Suc t) j) \<and> \<not> bit t k \<and> bit (Suc t) k \<and>
       (\<forall>j > k. bit (Suc t) j = bit t j)" for t :: nat
proof (induction t rule: less_induct)
  case (less t)
  show ?case
  proof (cases "even t")
    case True
    then have "Suc t div 2 = t div 2" by simp
    then have "\<forall>j > 0. bit (Suc t) j = bit t j" by (metis bit_Suc gr0_implies_Suc)
    then show ?thesis using True by (intro exI [of _ 0]) (simp add: bit_0)
  next
    case False
    then have "t div 2 < t" and half: "Suc t div 2 = Suc (t div 2)"
      by (auto elim: oddE)
    then obtain k where k: "\<forall>j < k. bit (t div 2) j \<and> \<not> bit (Suc (t div 2)) j"
      "\<not> bit (t div 2) k" "bit (Suc (t div 2)) k"
      "\<forall>j > k. bit (Suc (t div 2)) j = bit (t div 2) j"
      using less.IH by blast
    have "bit t j \<and> \<not> bit (Suc t) j" if "j < Suc k" for j
      using that False k(1) half by (cases j) (simp_all add: bit_Suc bit_0)
    moreover have "bit (Suc t) j = bit t j" if "j > Suc k" for j
      using that k(4) half by (cases j) (simp_all add: bit_Suc)
    ultimately show ?thesis using k(2,3) half
      by (intro exI [of _ "Suc k"]) (simp add: bit_Suc)
  qed
qed

text \<open>Below that bit the two products are constants: 19 cases, evaluated.\<close>

definition low_gap :: "nat \<Rightarrow> bool" where
  "low_gap k \<longleftrightarrow>
     (let cs = take (Suc k) magic_factors;
          a = apply_factors (2 ^ k - 1) 0 cs (2 ^ 64);
          b = apply_factors (2 ^ k) 0 cs (2 ^ 64)
      in b \<le> a \<and> b \<le> 20002 * (a - b))"

lemma low_gap_gap: "b \<le> a \<Longrightarrow> b \<le> K * (a - b) \<Longrightarrow> gap K 0 b a"
  unfolding gap_def by (intro exI [of _ "a - b"]) simp

lemma low_gaps:
  "low_gap 0" "low_gap 1" "low_gap 2" "low_gap 3" "low_gap 4"
  "low_gap 5" "low_gap 6" "low_gap 7" "low_gap 8" "low_gap 9"
  "low_gap 10" "low_gap 11" "low_gap 12" "low_gap 13" "low_gap 14"
  "low_gap 15" "low_gap 16" "low_gap 17" "low_gap 18"
  by (simp_all add: low_gap_def magic_factors_def bit_0)

lemma apply_factors_low: "k < 19 \<Longrightarrow> low_gap k"
proof -
  have "\<forall>k \<in> set [0..<19]. low_gap k" 
    using low_gaps by (simp add: upt_rec eval_nat_numeral)
  then show "k < 19 \<Longrightarrow> low_gap k" by simp
qed

lemma magic_factors_le: "\<forall>c \<in> set magic_factors. c \<le> 2 ^ 64" and
  length_magic_factors [simp]: "length magic_factors = 19"
  by (simp_all add: magic_factors_def)

lemma tick_ratio_step:
  assumes "Suc t \<le> 443636"
  shows "gap 20002 18 (tick_ratio (Suc t)) (tick_ratio t)"
proof -
  obtain k where k: "\<forall>j < k. bit t j \<and> \<not> bit (Suc t) j" "\<not> bit t k" "bit (Suc t) k"
    "\<forall>j > k. bit (Suc t) j = bit t j" using succ_bits by blast
  have "k < 19"
  proof (rule ccontr)
    assume "\<not> k < 19"
    then have "(2 :: nat) ^ 19 \<le> 2 ^ k" by (intro power_increasing) simp_all
    with assms have "Suc t < 2 ^ k" by simp
    then show False using k(3) by (simp add: bit_nat_iff bit_iff_odd)
  qed
  define lo where "lo = take (Suc k) magic_factors"
  define hi where "hi = drop (Suc k) magic_factors"
  have split: "magic_factors = lo @ hi" and len: "length lo = Suc k" "length hi \<le> 18"
    using \<open>k < 19\<close> by (simp_all add: lo_def hi_def)
  have mask: "bit (2 ^ k - 1 :: nat) j \<longleftrightarrow> j < k" for j
    by (subst mask_eq_exp_minus_1 [symmetric]) (simp add: bit_mask_iff)
  define a where "a = apply_factors t 0 lo (2 ^ 64)"
  define b where "b = apply_factors (Suc t) 0 lo (2 ^ 64)"
  have "a = apply_factors (2 ^ k - 1) 0 lo (2 ^ 64)" unfolding a_def
    using k(1,2) len(1) mask by (intro apply_factors_cong)
      (auto simp: less_Suc_eq simp del: One_nat_def)
  moreover have "b = apply_factors (2 ^ k) 0 lo (2 ^ 64)" unfolding b_def
    using k(1,3) len(1) by (intro apply_factors_cong) (auto simp: less_Suc_eq bit_exp_iff)
  ultimately have low: "gap 20002 0 b a"
    using apply_factors_low [OF \<open>k < 19\<close>] unfolding low_gap_def lo_def Let_def
    by (intro low_gap_gap) simp_all
  have "tick_ratio t = apply_factors t (Suc k) hi a"
    and "tick_ratio (Suc t) = apply_factors (Suc t) (Suc k) hi b"
    by (simp_all add: tick_ratio_eq split apply_factors_append a_def b_def len)
  moreover have "\<forall>c \<in> set hi. c \<le> 2 ^ 64"
    using magic_factors_le by (simp add: split)
  moreover have "bit t (Suc k + j) = bit (Suc t) (Suc k + j)" for j
    using k(4) by simp
  ultimately have "gap 20002 (0 + length hi) (tick_ratio (Suc t)) (tick_ratio t)"
    using apply_factors_gap [OF low, of hi t "Suc k" "Suc t"] by simp
  then show ?thesis by (rule gap_mono) (simp add: len)
qed

lemma tick_ratio_values:
  "tick_ratio 0 = 2 ^ 64" "tick_ratio 443636 = MIN_SQRT_PRICE_X64"
  "U128_MAX div tick_ratio 443636 = MAX_SQRT_PRICE_X64"
  "2 ^ 64 < U128_MAX div tick_ratio 1"
  by (simp_all add: tick_ratio_def magic_factors_def tick_limits bit_0)

lemma tick_ratio_antimono: "s \<le> t \<Longrightarrow> t \<le> 443636 \<Longrightarrow> tick_ratio t \<le> tick_ratio s"
proof (induction t rule: dec_induct)
  case (step n)
  then show ?case using tick_ratio_step [of n] by (auto simp: gap_def)
qed simp

lemma tick_ratio_range:
  assumes "t \<le> 443636"
  shows "MIN_SQRT_PRICE_X64 \<le> tick_ratio t" "tick_ratio t \<le> 2 ^ 64"
  using tick_ratio_antimono [OF assms order_refl] tick_ratio_antimono [of 0 t] assms
  by (simp_all add: tick_ratio_values)

lemma tick_ratio_Suc_less: "Suc t \<le> 443636 \<Longrightarrow> tick_ratio (Suc t) < tick_ratio t"
  using tick_ratio_step [of t] tick_ratio_range(1) [of "Suc t"]
  by (auto simp: gap_def tick_limits)

lemma tick_ratio_strict: "s < t \<Longrightarrow> t \<le> 443636 \<Longrightarrow> tick_ratio t < tick_ratio s"
  using tick_ratio_Suc_less [of s] tick_ratio_antimono [of "Suc s" t] by simp

text \<open>The reciprocal branch: prices above \<open>1\<close> are quotients of \<open>u128::MAX\<close>.\<close>

lemma reciprocal_strict:
  fixes a b :: nat
  assumes "b < a" "a \<le> 2 ^ 64" "0 < b"
  shows "U128_MAX div a < U128_MAX div b"
proof -
  let ?q = "U128_MAX div a"
  have "2 ^ 64 - 1 \<le> ?q"
    using div_le_mono2 [of a "2 ^ 64" U128_MAX] assms by simp
  then have "b \<le> ?q" using assms by simp
  obtain d where d: "a = b + d" "1 \<le> d" using assms(1) by (auto simp: less_iff_Suc_add)
  have "b * 1 \<le> ?q * d" using \<open>b \<le> ?q\<close> d(2) by (rule mult_le_mono)
  moreover have "?q * a \<le> U128_MAX" by (rule div_mult_le)
  then have "?q * b + ?q * d \<le> U128_MAX" using d(1) by (simp only: distrib_left)
  ultimately have "(?q + 1) * b \<le> U128_MAX" by (simp only: add_mult_distrib)
  then have "?q + 1 \<le> U128_MAX div b" using assms(3) by (simp add: le_div_iff)
  then show ?thesis by simp
qed

text \<open>The price as a total function of a tick in range.\<close>

definition sqrt_price :: "int \<Rightarrow> nat" where
  "sqrt_price t =
     (if t > 0 then U128_MAX div tick_ratio (nat t) else tick_ratio (nat (- t)))"

definition valid_tick :: "int \<Rightarrow> bool" where
  "valid_tick t \<longleftrightarrow> MIN_TICK \<le> t \<and> t \<le> MAX_TICK"

lemma get_sqrt_price_at_tick_eq:
  "get_sqrt_price_at_tick t = (if valid_tick t then Inr (sqrt_price t) else fail TickUpperOverflow)"
proof (cases "valid_tick t")
  case True
  then have "nat \<bar>t\<bar> \<le> 443636" unfolding valid_tick_def tick_limits by linarith
  then have "0 < tick_ratio (nat \<bar>t\<bar>)"
    using tick_ratio_range(1) [of "nat \<bar>t\<bar>"] by (simp add: tick_limits)
  then show ?thesis using True
    by (auto simp: get_sqrt_price_at_tick_def valid_tick_def sqrt_price_def Let_def u_defs)
next
  case False
  then have "(MIN_TICK \<le> t \<and> t \<le> MAX_TICK) = False" by (simp add: valid_tick_def)
  then show ?thesis using False by (simp only: get_sqrt_price_at_tick_def fail_def require_def if_False)
qed

lemma sqrt_price_less: "valid_tick s \<Longrightarrow> valid_tick t \<Longrightarrow> s < t \<Longrightarrow> sqrt_price s < sqrt_price t"
proof -
  assume *: "valid_tick s" "valid_tick t" "s < t"
  note r = tick_ratio_range
  consider "t \<le> 0" | "s \<le> 0" "0 < t" | "0 < s" using *(3) by linarith
  then show ?thesis
  proof cases
    case 1
    then show ?thesis using * tick_ratio_strict [of "nat (- t)" "nat (- s)"]
      by (simp add: sqrt_price_def valid_tick_def tick_limits)
  next
    case 2
    have "tick_ratio (nat t) \<le> tick_ratio 1"
      using 2 * by (intro tick_ratio_antimono) (simp_all add: valid_tick_def tick_limits)
    then have "U128_MAX div tick_ratio 1 \<le> U128_MAX div tick_ratio (nat t)"
      using r(1) [of "nat t"] * 2
      by (intro div_le_mono2) (simp_all add: valid_tick_def tick_limits nat_le_iff)
    moreover have "tick_ratio (nat (- s)) \<le> 2 ^ 64"
      using r(2) * 2 by (simp add: valid_tick_def tick_limits nat_le_iff)
    ultimately show ?thesis using 2 tick_ratio_values(4) by (simp add: sqrt_price_def)
  next
    case 3
    then have "tick_ratio (nat t) < tick_ratio (nat s)"
      using * by (intro tick_ratio_strict) (simp_all add: valid_tick_def tick_limits)
    then show ?thesis using 3 * r(2) [of "nat s"] r(1) [of "nat t"]
        reciprocal_strict [of "tick_ratio (nat t)" "tick_ratio (nat s)"]
      by (simp add: sqrt_price_def valid_tick_def tick_limits nat_le_iff)
  qed
qed

section \<open>The price scale\<close>

text \<open>What the rest of the program uses of the tick prices: a strictly increasing scale between
  two ticks.\<close>

locale price_scale =
  fixes price :: "int \<Rightarrow> nat" and lo :: int and hi :: int
  assumes scale_less: "lo \<le> s \<Longrightarrow> t \<le> hi \<Longrightarrow> s < t \<Longrightarrow> price s < price t"
begin

lemma scale_le: "lo \<le> s \<Longrightarrow> t \<le> hi \<Longrightarrow> s \<le> t \<Longrightarrow> price s \<le> price t"
  using scale_less [of s t] by (cases "s = t") auto

lemma scale_less_iff:
  "lo \<le> s \<Longrightarrow> s \<le> hi \<Longrightarrow> lo \<le> t \<Longrightarrow> t \<le> hi \<Longrightarrow> price s < price t \<longleftrightarrow> s < t"
  using scale_less [of s t] scale_le [of t s] by linarith

lemma scale_eq_iff:
  "lo \<le> s \<Longrightarrow> s \<le> hi \<Longrightarrow> lo \<le> t \<Longrightarrow> t \<le> hi \<Longrightarrow> price s = price t \<longleftrightarrow> s = t"
  using scale_less_iff [of s t] scale_less_iff [of t s] by auto

lemma scale_bounds: "lo \<le> t \<Longrightarrow> t \<le> hi \<Longrightarrow> price lo \<le> price t \<and> price t \<le> price hi"
  by (simp add: scale_le)

text \<open>At most one tick is the tick of a price.\<close>

lemma scale_tick_unique:
  assumes "lo \<le> s" "s < hi" "lo \<le> t" "t < hi"
    and "price s \<le> p" "p < price (s + 1)" "price t \<le> p" "p < price (t + 1)"
  shows "s = t"
proof (rule ccontr)
  assume "s \<noteq> t"
  then consider "s + 1 \<le> t" | "t + 1 \<le> s" by linarith
  then show False
    using scale_le [of "s + 1" t] scale_le [of "t + 1" s] assms by cases auto
qed

end

interpretation tp: price_scale sqrt_price MIN_TICK MAX_TICK
proof unfold_locales
  fix s t :: int
  assume "MIN_TICK \<le> s" "t \<le> MAX_TICK" "s < t"
  then show "sqrt_price s < sqrt_price t" by (intro sqrt_price_less) (simp_all add: valid_tick_def)
qed

lemma sqrt_price_extremes:
  "sqrt_price MIN_TICK = MIN_SQRT_PRICE_X64" "sqrt_price MAX_TICK = MAX_SQRT_PRICE_X64"
  using tick_ratio_values by (simp_all add: sqrt_price_def MIN_TICK_def MAX_TICK_def)

lemma sqrt_price_bounds:
  "valid_tick t \<Longrightarrow> MIN_SQRT_PRICE_X64 \<le> sqrt_price t \<and> sqrt_price t \<le> MAX_SQRT_PRICE_X64"
  using tp.scale_bounds [of t] by (simp add: valid_tick_def sqrt_price_extremes)

lemma sqrt_price_fits: "valid_tick t \<Longrightarrow> 0 < sqrt_price t \<and> sqrt_price t < 2 ^ 128"
  using sqrt_price_bounds [of t] by (simp add: MIN_SQRT_PRICE_X64_def MAX_SQRT_PRICE_X64_def)

lemma sqrt_price_near:
  "sqrt_price 0 = 18446744073709551616" "sqrt_price 1 = 18447666387855957090"
  "sqrt_price (-1) = 18445821805675395072"
  by (simp_all add: sqrt_price_def tick_ratio_def magic_factors_def bit_0)

section \<open>Properties\<close>

text \<open>
  C1. The price of a tick is strictly increasing over the whole range: among ticks that have a
  price, a larger tick has a strictly larger one.
\<close>

theorem tick_price_strictly_increasing:
  assumes "get_sqrt_price_at_tick s = Inr p" "get_sqrt_price_at_tick t = Inr q"
  shows "p < q \<longleftrightarrow> s < t"
proof -
  have "valid_tick s" "p = sqrt_price s" "valid_tick t" "q = sqrt_price t"
    using assms by (auto simp: get_sqrt_price_at_tick_eq fail_def split: if_split_asm)
  then show ?thesis using tp.scale_less_iff [of s t] by (simp add: valid_tick_def)
qed

theorem tick_price_strictly_increasing_witness:
  "(18446744073709551616 :: nat) < 18447666387855957090 \<longleftrightarrow> (0 :: int) < 1"
  by (rule tick_price_strictly_increasing)
    (simp_all add: get_sqrt_price_at_tick_def tick_limits tick_ratio_def magic_factors_def bit_0 u_defs)

text \<open>
  A tick has a price exactly when it lies in the supported range; the price then lies
  between the two price limits, which the two extreme ticks attain, and every other tick is
  refused with \<open>TickUpperOverflow\<close>.
\<close>

theorem tick_price_range:
  "(case get_sqrt_price_at_tick t of
      Inr p \<Rightarrow> MIN_TICK \<le> t \<and> t \<le> MAX_TICK \<and> MIN_SQRT_PRICE_X64 \<le> p \<and> p \<le> MAX_SQRT_PRICE_X64
    | Inl e \<Rightarrow> e = Code TickUpperOverflow \<and> \<not> (MIN_TICK \<le> t \<and> t \<le> MAX_TICK)) \<and>
   get_sqrt_price_at_tick MIN_TICK = Inr MIN_SQRT_PRICE_X64 \<and>
   get_sqrt_price_at_tick MAX_TICK = Inr MAX_SQRT_PRICE_X64"
proof -
  have "valid_tick MIN_TICK" "valid_tick MAX_TICK"
    by (simp_all add: valid_tick_def MIN_TICK_def MAX_TICK_def)
  then show ?thesis using sqrt_price_bounds [of t]
    by (simp add: get_sqrt_price_at_tick_eq sqrt_price_extremes fail_def)
      (auto simp: valid_tick_def)
qed

end
