(* ===== verification/Liquidity_Math.thy ===== *)
theory Liquidity_Math
  imports Tick_Math
begin

text \<open>
  \<open>libraries/liquidity_math.rs\<close>: liquidity from token amounts and token amounts from liquidity
  over a price range. The code computes the amounts with intermediate divisions and range
  checks; \<open>delta_0\<close> and \<open>delta_1\<close> are the single rounded quotients they equal
  (\<open>get_delta_amount_0_unsigned_eq\<close>, \<open>get_delta_amount_1_unsigned_eq\<close>), from which the later
  theories reason.
\<close>

section \<open>Definitions\<close>

text \<open>\<open>x - y.unsigned_abs()\<close> and \<open>x + y.unsigned_abs()\<close> panic out of range; the two
  \<open>require_g\<close> checks are kept although they then always hold.\<close>

definition add_delta :: "nat \<Rightarrow> int \<Rightarrow> nat res" where
  "add_delta x y =
     (if y < 0
      then and_then (sub_u x (nat \<bar>y\<bar>)) (\<lambda>z. require (x > z) LiquiditySubValueErr (Inr z))
      else and_then (add_u 128 x (nat \<bar>y\<bar>)) (\<lambda>z. require (z \<ge> x) LiquidityAddValueErr (Inr z)))"

text \<open>The \<open>mem::swap\<close> that puts the smaller price first.\<close>

definition ordered :: "nat \<Rightarrow> nat \<Rightarrow> nat \<times> nat" where
  "ordered a b = (if a > b then (b, a) else (a, b))"

definition get_liquidity_from_amount_0 :: "nat \<Rightarrow> nat \<Rightarrow> nat \<Rightarrow> nat res" where
  "get_liquidity_from_amount_0 a b amount_0 =
     (if amount_0 = 0 then Inr 0
      else let (lo, hi) = ordered a b in
        and_then (ok_or (mul_div_floor 128 lo hi Q64) CalculateOverflow) (\<lambda>intermediate.
        ok_or (mul_div_floor 128 amount_0 intermediate (hi - lo)) CalculateOverflow))"

definition get_liquidity_from_amount_1 :: "nat \<Rightarrow> nat \<Rightarrow> nat \<Rightarrow> nat res" where
  "get_liquidity_from_amount_1 a b amount_1 =
     (if amount_1 = 0 then Inr 0
      else let (lo, hi) = ordered a b in
        ok_or (mul_div_floor 128 amount_1 Q64 (hi - lo)) CalculateOverflow)"

definition get_liquidity_from_amounts :: "nat \<Rightarrow> nat \<Rightarrow> nat \<Rightarrow> nat \<Rightarrow> nat \<Rightarrow> nat res" where
  "get_liquidity_from_amounts p a b amount_0 amount_1 =
     (let (lo, hi) = ordered a b in
      if p \<le> lo then get_liquidity_from_amount_0 lo hi amount_0
      else if p < hi then
        and_then (get_liquidity_from_amount_0 p hi amount_0) (\<lambda>l0.
        and_then (get_liquidity_from_amount_1 lo p amount_1) (\<lambda>l1.
        Inr (min l0 l1)))
      else get_liquidity_from_amount_1 lo hi amount_1)"

definition get_liquidity_from_single_amount_0 :: "nat \<Rightarrow> nat \<Rightarrow> nat \<Rightarrow> nat \<Rightarrow> nat res" where
  "get_liquidity_from_single_amount_0 p a b amount_0 =
     (let (lo, hi) = ordered a b in
      if p \<le> lo then get_liquidity_from_amount_0 lo hi amount_0
      else if p < hi then get_liquidity_from_amount_0 p hi amount_0
      else Inr 0)"

definition get_liquidity_from_single_amount_1 :: "nat \<Rightarrow> nat \<Rightarrow> nat \<Rightarrow> nat \<Rightarrow> nat res" where
  "get_liquidity_from_single_amount_1 p a b amount_1 =
     (let (lo, hi) = ordered a b in
      if p \<le> lo then Inr 0
      else if p < hi then get_liquidity_from_amount_1 lo p amount_1
      else get_liquidity_from_amount_1 lo hi amount_1)"

definition get_delta_amount_0_unsigned :: "nat \<Rightarrow> nat \<Rightarrow> nat \<Rightarrow> bool \<Rightarrow> nat res" where
  "get_delta_amount_0_unsigned a b liquidity round_up =
     (let (lo, hi) = ordered a b in
      require (lo > 0) ZeroSqrtPrice
       (let numerator_1 = liquidity * 2 ^ RESOLUTION;
            numerator_2 = hi - lo
        in and_then
            (if round_up
             then and_then (ok_or (mul_div_ceil 256 numerator_1 numerator_2 hi) CalculateOverflow)
                    (\<lambda>q. div_rounding_up q lo)
             else and_then (ok_or (mul_div_floor 256 numerator_1 numerator_2 hi) CalculateOverflow)
                    (\<lambda>q. div_u q lo))
            (\<lambda>result. if result > U64_MAX then fail MaxTokenOverflow else as_uint 64 result)))"

definition get_delta_amount_1_unsigned :: "nat \<Rightarrow> nat \<Rightarrow> nat \<Rightarrow> bool \<Rightarrow> nat res" where
  "get_delta_amount_1_unsigned a b liquidity round_up =
     (let (lo, hi) = ordered a b in
      and_then
        (ok_or (if round_up then mul_div_ceil 256 liquidity (hi - lo) Q64
                else mul_div_floor 256 liquidity (hi - lo) Q64) CalculateOverflow)
        (\<lambda>result. if result > U64_MAX then fail MaxTokenOverflow else as_uint 64 result))"

text \<open>\<open>u128::try_from\<close> of an \<open>i128\<close>.\<close>

definition u128_try_from :: "int \<Rightarrow> nat res" where
  "u128_try_from x = (if x < 0 then fail CalculateOverflow else Inr (nat x))"

definition get_delta_amount_0_signed :: "nat \<Rightarrow> nat \<Rightarrow> int \<Rightarrow> nat res" where
  "get_delta_amount_0_signed a b liquidity =
     (if liquidity < 0
      then and_then (ok_or (checked_i 128 (- liquidity)) CalculateOverflow) (\<lambda>n.
           and_then (u128_try_from n) (\<lambda>l. get_delta_amount_0_unsigned a b l False))
      else and_then (u128_try_from liquidity) (\<lambda>l. get_delta_amount_0_unsigned a b l True))"

definition get_delta_amount_1_signed :: "nat \<Rightarrow> nat \<Rightarrow> int \<Rightarrow> nat res" where
  "get_delta_amount_1_signed a b liquidity =
     (if liquidity < 0
      then and_then (ok_or (checked_i 128 (- liquidity)) CalculateOverflow) (\<lambda>n.
           and_then (u128_try_from n) (\<lambda>l. get_delta_amount_1_unsigned a b l False))
      else and_then (u128_try_from liquidity) (\<lambda>l. get_delta_amount_1_unsigned a b l True))"

definition get_delta_amounts_signed ::
  "int \<Rightarrow> nat \<Rightarrow> int \<Rightarrow> int \<Rightarrow> int \<Rightarrow> (nat \<times> nat) res" where
  "get_delta_amounts_signed tick_current price tick_lower tick_upper liquidity_delta =
     (if tick_current < tick_lower then
        and_then (get_sqrt_price_at_tick tick_lower) (\<lambda>pl.
        and_then (get_sqrt_price_at_tick tick_upper) (\<lambda>pu.
        and_then (get_delta_amount_0_signed pl pu liquidity_delta) (\<lambda>amount_0.
        Inr (amount_0, 0))))
      else if tick_current < tick_upper then
        and_then (get_sqrt_price_at_tick tick_upper) (\<lambda>pu.
        and_then (get_delta_amount_0_signed price pu liquidity_delta) (\<lambda>amount_0.
        and_then (get_sqrt_price_at_tick tick_lower) (\<lambda>pl.
        and_then (get_delta_amount_1_signed pl price liquidity_delta) (\<lambda>amount_1.
        Inr (amount_0, amount_1)))))
      else
        and_then (get_sqrt_price_at_tick tick_lower) (\<lambda>pl.
        and_then (get_sqrt_price_at_tick tick_upper) (\<lambda>pu.
        and_then (get_delta_amount_1_signed pl pu liquidity_delta) (\<lambda>amount_1.
        Inr (0, amount_1)))))"

section \<open>The amounts as single quotients\<close>

definition rounded :: "bool \<Rightarrow> nat \<Rightarrow> nat \<Rightarrow> nat" where
  "rounded up n d = (if up then ceil_div n d else n div d)"

definition delta_0 :: "bool \<Rightarrow> nat \<Rightarrow> nat \<Rightarrow> nat \<Rightarrow> nat" where
  "delta_0 up L a b = rounded up (L * Q64 * (max a b - min a b)) (max a b * min a b)"

definition delta_1 :: "bool \<Rightarrow> nat \<Rightarrow> nat \<Rightarrow> nat \<Rightarrow> nat" where
  "delta_1 up L a b = rounded up (L * (max a b - min a b)) Q64"

lemma ordered_min_max: "ordered a b = (min a b, max a b)"
  by (auto simp: ordered_def min_def max_def)

lemma rounded_down_le_up: "rounded False n d \<le> rounded True n d"
  by (simp add: rounded_def div_le_ceil_div)

lemma rounded_mono: "n \<le> m \<Longrightarrow> rounded up n d \<le> rounded up m d"
  by (simp add: rounded_def ceil_div_mono div_le_mono)

lemma rounded_frac_fits:
  assumes "x < 2 ^ 192" "y \<le> d" "0 < d"
  shows "rounded up (x * y) d < 2 ^ 256"
proof -
  have "ceil_div (x * y) d \<le> ceil_div (x * d) d"
    using assms(2) by (intro ceil_div_mono) simp
  then have "rounded up (x * y) d \<le> x"
    using assms(3) rounded_down_le_up [of "x * y" d] by (cases up) (simp_all add: rounded_def ceil_div_exact)
  then show ?thesis using assms(1) by simp
qed

lemma narrow_u64:
  "(if r > U64_MAX then fail MaxTokenOverflow else as_uint 64 r) =
   (if r < 2 ^ 64 then Inr r else fail MaxTokenOverflow)"
  by (auto simp: as_uint_def)

lemma get_delta_amount_0_unsigned_eq:
  assumes "a < 2 ^ 128" "b < 2 ^ 128" "L < 2 ^ 128"
  shows "get_delta_amount_0_unsigned a b L up =
    (if a = 0 \<or> b = 0 then fail ZeroSqrtPrice
     else if delta_0 up L a b < 2 ^ 64 then Inr (delta_0 up L a b) else fail MaxTokenOverflow)"
proof (cases "a = 0 \<or> b = 0")
  case True
  then show ?thesis
    by (auto simp: get_delta_amount_0_unsigned_def ordered_min_max fail_def)
next
  case False
  let ?hi = "max a b" and ?lo = "min a b" and ?n = "L * 2 ^ RESOLUTION"
  have pos: "0 < ?hi" "0 < ?lo" using False by auto
  have n: "?n = L * Q64" "?n < 2 ^ 192"
    using assms(3) by (simp_all add: RESOLUTION_def Q64_def)
  have fit: "rounded r (?n * (?hi - ?lo)) ?hi < 2 ^ 256" for r
    by (intro rounded_frac_fits n pos) simp
  have up: "div_rounding_up (ceil_div (?n * (?hi - ?lo)) ?hi) ?lo = Inr (delta_0 True L a b)"
    using pos by (simp add: div_rounding_up_Inr delta_0_def rounded_def ceil_div_ceil_div n)
  have down: "div_u ((?n * (?hi - ?lo)) div ?hi) ?lo = Inr (delta_0 False L a b)"
    using pos by (simp add: arith_u_Inr delta_0_def rounded_def div_mult2_eq n)
  have "mul_div_ceil 256 ?n (?hi - ?lo) ?hi = Some (ceil_div (?n * (?hi - ?lo)) ?hi)"
    "mul_div_floor 256 ?n (?hi - ?lo) ?hi = Some ((?n * (?hi - ?lo)) div ?hi)"
    using pos fit [of True] fit [of False] by (simp_all add: res_simps rounded_def)
  then show ?thesis using False pos up down
    by (cases up) (simp_all only: get_delta_amount_0_unsigned_def ordered_min_max Let_def
        prod.case require_simps ok_or_simps and_then_simps narrow_u64 if_True if_False simp_thms)
qed

lemma get_delta_amount_1_unsigned_eq:
  assumes "a < 2 ^ 128" "b < 2 ^ 128" "L < 2 ^ 128"
  shows "get_delta_amount_1_unsigned a b L up =
    (if delta_1 up L a b < 2 ^ 64 then Inr (delta_1 up L a b) else fail MaxTokenOverflow)"
proof -
  let ?d = "max a b - min a b"
  have d: "?d < 2 ^ 128" using assms by (intro le_less_trans [OF diff_le_self]) simp
  have "L * ?d \<le> (2 ^ 128 - 1) * (2 ^ 128 - 1)"
    using d assms(3) by (intro mult_le_mono) simp_all
  also have "\<dots> \<le> (2 ^ 256 - 1) * Q64" by (simp add: Q64_def)
  finally have le: "L * ?d \<le> (2 ^ 256 - 1) * Q64" .
  then have "ceil_div (L * ?d) Q64 \<le> 2 ^ 256 - 1" by (simp add: ceil_div_le_iff)
  then have "rounded r (L * ?d) Q64 < 2 ^ 256" for r
    using rounded_down_le_up [of "L * ?d" Q64] by (cases r) (auto simp: rounded_def)
  from this [of True] this [of False]
  have "(if up then mul_div_ceil 256 L ?d Q64 else mul_div_floor 256 L ?d Q64) =
      Some (delta_1 up L a b)"
    by (auto simp: res_simps rounded_def delta_1_def)
  then show ?thesis
    by (simp only: get_delta_amount_1_unsigned_def ordered_min_max prod.case Let_def
        ok_or_simps and_then_simps narrow_u64)
qed

lemma get_delta_amount_signed_eq:
  "0 \<le> l \<Longrightarrow> get_delta_amount_0_signed a b l = get_delta_amount_0_unsigned a b (nat l) True"
  "0 \<le> l \<Longrightarrow> get_delta_amount_1_signed a b l = get_delta_amount_1_unsigned a b (nat l) True"
  "l < 0 \<Longrightarrow> - (2 ^ 127) < l \<Longrightarrow>
     get_delta_amount_0_signed a b l = get_delta_amount_0_unsigned a b (nat (- l)) False"
  "l < 0 \<Longrightarrow> - (2 ^ 127) < l \<Longrightarrow>
     get_delta_amount_1_signed a b l = get_delta_amount_1_unsigned a b (nat (- l)) False"
  by (simp_all add: get_delta_amount_0_signed_def get_delta_amount_1_signed_def
      u128_try_from_def checked_i_def fits_i_def)

section \<open>Laws of the rounded amounts\<close>

lemma delta_sym: "delta_0 up L a b = delta_0 up L b a" "delta_1 up L a b = delta_1 up L b a"
  by (simp_all add: delta_0_def delta_1_def max.commute min.commute)

lemma delta_same [simp]: "delta_0 up L a a = 0" "delta_1 up L a a = 0"
  by (simp_all add: delta_0_def delta_1_def rounded_def)

lemma delta_no_liquidity [simp]: "delta_0 up 0 a b = 0" "delta_1 up 0 a b = 0"
  by (simp_all add: delta_0_def delta_1_def rounded_def)

lemma delta_down_le_up: "delta_0 False L a b \<le> delta_0 True L a b"
  "delta_1 False L a b \<le> delta_1 True L a b"
  by (simp_all add: delta_0_def delta_1_def rounded_down_le_up)

lemma delta_mono_liquidity: "L \<le> M \<Longrightarrow> delta_0 up L a b \<le> delta_0 up M a b"
  "L \<le> M \<Longrightarrow> delta_1 up L a b \<le> delta_1 up M a b"
  by (simp_all add: delta_0_def delta_1_def rounded_mono)

lemma delta_0_up_le_iff:
  "0 < a \<Longrightarrow> a \<le> b \<Longrightarrow> delta_0 True L a b \<le> c \<longleftrightarrow> L * Q64 * (b - a) \<le> c * (b * a)"
  by (simp add: delta_0_def rounded_def ceil_div_le_iff max_def min_def)

lemma le_delta_0_down_iff:
  "0 < a \<Longrightarrow> a \<le> b \<Longrightarrow> c \<le> delta_0 False L a b \<longleftrightarrow> c * (b * a) \<le> L * Q64 * (b - a)"
  by (simp add: delta_0_def rounded_def le_div_iff max_def min_def)

lemma delta_1_up_le_iff: "a \<le> b \<Longrightarrow> delta_1 True L a b \<le> c \<longleftrightarrow> L * (b - a) \<le> c * Q64"
  by (simp add: delta_1_def rounded_def ceil_div_le_iff max_def min_def)

lemma le_delta_1_down_iff: "a \<le> b \<Longrightarrow> c \<le> delta_1 False L a b \<longleftrightarrow> c * Q64 \<le> L * (b - a)"
  by (simp add: delta_1_def rounded_def le_div_iff max_def min_def)

text \<open>Amounts are superadditive rounding down and subadditive rounding up, so that neither
  splitting a withdrawal nor merging deposits gains anything.\<close>

lemma div_add_le: "(a div d) + (b div d) \<le> (a + b) div (d :: nat)"
proof (cases "d = 0")
  case False
  have "(a div d + b div d) * d \<le> a + b"
    by (simp only: add_mult_distrib add_mono div_mult_le)
  then show ?thesis using False by (simp add: le_div_iff)
qed simp

lemma delta_superadditive:
  "delta_0 False L a b + delta_0 False M a b \<le> delta_0 False (L + M) a b"
  "delta_1 False L a b + delta_1 False M a b \<le> delta_1 False (L + M) a b"
  by (simp_all only: delta_0_def delta_1_def rounded_def if_False add_mult_distrib div_add_le)

text \<open>Liquidity bought with an amount never costs more than the amount.\<close>

lemma liquidity_from_amount_0_cost:
  assumes "get_liquidity_from_amount_0 a b amt = Inr L" "0 < a" "0 < b"
  shows "delta_0 True L a b \<le> amt"
proof (cases "amt = 0")
  case True
  then show ?thesis using assms(1) by (simp add: get_liquidity_from_amount_0_def)
next
  case False
  let ?lo = "min a b" and ?hi = "max a b"
  obtain i where i: "mul_div_floor 128 ?lo ?hi Q64 = Some i"
    and L: "mul_div_floor 128 amt i (?hi - ?lo) = Some L"
    using assms(1) False
    by (auto simp: get_liquidity_from_amount_0_def ordered_min_max res_simps)
  have "L * Q64 * (?hi - ?lo) = L * (?hi - ?lo) * Q64" by (simp only: ac_simps)
  also have "\<dots> \<le> amt * i * Q64" by (intro mult_le_mono1 md.down_mult [OF L])
  also have "\<dots> = amt * (i * Q64)" by (simp only: ac_simps)
  also have "\<dots> \<le> amt * (?lo * ?hi)" by (intro mult_le_mono2 md.down_mult [OF i])
  finally have "delta_0 True L ?lo ?hi \<le> amt"
    using assms(2,3) by (subst delta_0_up_le_iff) (auto simp: ac_simps)
  then show ?thesis by (cases "a \<le> b") (simp_all add: max_def min_def delta_sym)
qed

lemma liquidity_from_amount_1_cost:
  assumes "get_liquidity_from_amount_1 a b amt = Inr L"
  shows "delta_1 True L a b \<le> amt"
proof (cases "amt = 0")
  case True
  then show ?thesis using assms by (simp add: get_liquidity_from_amount_1_def)
next
  case False
  then have "mul_div_floor 128 amt Q64 (max a b - min a b) = Some L"
    using assms by (auto simp: get_liquidity_from_amount_1_def ordered_min_max res_simps)
  then have "L * (max a b - min a b) \<le> amt * Q64" by (rule md.down_mult)
  then have "delta_1 True L (min a b) (max a b) \<le> amt" by (subst delta_1_up_le_iff) auto
  then show ?thesis by (cases "a \<le> b") (simp_all add: max_def min_def delta_sym)
qed

lemma add_delta_Inr [res_simps]:
  "add_delta x y = Inr z \<longleftrightarrow> int z = int x + y \<and> (0 \<le> y \<longrightarrow> z < 2 ^ 128)"
  by (auto simp: add_delta_def res_simps nat_le_iff)

lemma add_delta_errors:
  "add_delta x y = Inl e \<Longrightarrow> e = Panic \<and> (int x + y < 0 \<or> 2 ^ 128 \<le> int x + y)"
  by (auto simp: add_delta_def u_defs nat_le_iff split: if_splits)

section \<open>The amounts of a liquidity change\<close>

text \<open>The two token amounts of a signed liquidity change, as a function of where the current
  tick lies: up for a deposit, down for a withdrawal.\<close>

definition position_amounts :: "int \<Rightarrow> nat \<Rightarrow> int \<Rightarrow> int \<Rightarrow> bool \<Rightarrow> nat \<Rightarrow> nat \<times> nat" where
  "position_amounts tick p lower upper round_up L =
     (let pl = sqrt_price lower; pu = sqrt_price upper in
      (if tick < lower then delta_0 round_up L pl pu
       else if tick < upper then delta_0 round_up L p pu else 0,
       if tick < lower then 0
       else if tick < upper then delta_1 round_up L pl p else delta_1 round_up L pl pu))"

lemma get_delta_amount_signed_Inr:
  assumes "\<bar>l\<bar> < 2 ^ 127" "a < 2 ^ 128" "b < 2 ^ 128"
  shows "get_delta_amount_0_signed a b l = Inr d \<Longrightarrow> d = delta_0 (0 \<le> l) (nat \<bar>l\<bar>) a b \<and> d < 2 ^ 64"
    and "get_delta_amount_1_signed a b l = Inr d \<Longrightarrow> d = delta_1 (0 \<le> l) (nat \<bar>l\<bar>) a b \<and> d < 2 ^ 64"
proof -
  have "nat \<bar>l\<bar> < 2 ^ 128" using assms(1) by simp
  note eqs = get_delta_amount_0_unsigned_eq [OF assms(2,3) this]
    get_delta_amount_1_unsigned_eq [OF assms(2,3) this]
  show "get_delta_amount_0_signed a b l = Inr d \<Longrightarrow> d = delta_0 (0 \<le> l) (nat \<bar>l\<bar>) a b \<and> d < 2 ^ 64"
    "get_delta_amount_1_signed a b l = Inr d \<Longrightarrow> d = delta_1 (0 \<le> l) (nat \<bar>l\<bar>) a b \<and> d < 2 ^ 64"
    using eqs assms(1) by (cases "0 \<le> l";
      simp add: get_delta_amount_signed_eq fail_def split: if_split_asm)+
qed

lemma get_delta_amounts_signed_Inr:
  assumes "get_delta_amounts_signed tick p lower upper l = Inr ds"
    and "\<bar>l\<bar> < 2 ^ 127" "p < 2 ^ 128" "valid_tick lower" "valid_tick upper"
  shows "ds = position_amounts tick p lower upper (0 \<le> l) (nat \<bar>l\<bar>)"
proof -
  note eq = get_delta_amount_signed_Inr [OF assms(2)]
  have pl: "sqrt_price lower < 2 ^ 128" and pu: "sqrt_price upper < 2 ^ 128"
    using sqrt_price_fits assms(4,5) by blast+
  note eqs = eq(1) [OF pl pu] eq(2) [OF pl pu] eq(1) [OF assms(3) pu] eq(2) [OF pl assms(3)]
  show ?thesis
    using assms(1) unfolding get_delta_amounts_signed_def position_amounts_def Let_def
    by (cases "tick < lower"; cases "tick < upper")
      (auto simp: get_sqrt_price_at_tick_eq assms(4,5) res_simps dest!: eqs)
qed

text \<open>The current tick and price of a pool agree, also right after a downward crossing, when the
  tick is one below the boundary the price stands on.\<close>

definition tick_agrees :: "int \<Rightarrow> nat \<Rightarrow> bool" where
  "tick_agrees tick p \<longleftrightarrow> MIN_TICK - 1 \<le> tick \<and> tick \<le> MAX_TICK \<and>
     (MIN_TICK \<le> tick \<longrightarrow> sqrt_price tick \<le> p) \<and> (tick < MAX_TICK \<longrightarrow> p \<le> sqrt_price (tick + 1))"

lemma tick_agrees_below: "tick_agrees tick p \<Longrightarrow> valid_tick t \<Longrightarrow> tick < t \<Longrightarrow> p \<le> sqrt_price t"
  using tp.scale_le [of "tick + 1" t] by (auto simp: tick_agrees_def valid_tick_def)

lemma tick_agrees_above: "tick_agrees tick p \<Longrightarrow> valid_tick t \<Longrightarrow> t \<le> tick \<Longrightarrow> sqrt_price t \<le> p"
  using tp.scale_le [of t tick] by (auto simp: tick_agrees_def valid_tick_def)

lemma position_amounts_cost:
  assumes "valid_tick lower" "valid_tick upper" "lower < upper" "tick_agrees tick p" "0 < p"
    and "get_liquidity_from_amounts p (sqrt_price lower) (sqrt_price upper) amount_0 amount_1 = Inr L"
  shows "fst (position_amounts tick p lower upper True L) \<le> amount_0"
    and "snd (position_amounts tick p lower upper True L) \<le> amount_1"
proof -
  let ?pl = "sqrt_price lower" and ?pu = "sqrt_price upper"
  have pos: "0 < ?pl" "0 < ?pu" using sqrt_price_fits assms(1,2) by auto
  have lu: "?pl < ?pu" using sqrt_price_less assms(1-3) by blast
  have below: "p \<le> ?pl" if "tick < lower" using tick_agrees_below assms(1,4) that by blast
  have above: "?pu \<le> p" if "upper \<le> tick" using tick_agrees_above assms(2,4) that by blast
  have inside: "?pl \<le> p \<and> p \<le> ?pu" if "lower \<le> tick" "tick < upper"
    using tick_agrees_above tick_agrees_below assms(1,2,4) that by blast
  consider (0) "p \<le> ?pl" "get_liquidity_from_amount_0 ?pl ?pu amount_0 = Inr L"
    | (both) l0 l1 where "?pl < p" "p < ?pu" "L = min l0 l1"
        "get_liquidity_from_amount_0 p ?pu amount_0 = Inr l0"
        "get_liquidity_from_amount_1 ?pl p amount_1 = Inr l1"
    | (1) "?pu \<le> p" "get_liquidity_from_amount_1 ?pl ?pu amount_1 = Inr L"
    using assms(6) lu
    by (auto simp: get_liquidity_from_amounts_def ordered_min_max res_simps split: if_split_asm)
  then have "fst (position_amounts tick p lower upper True L) \<le> amount_0 \<and>
      snd (position_amounts tick p lower upper True L) \<le> amount_1"
  proof cases
    case 0
    then have "tick < upper" using above lu by (rule_tac ccontr) auto
    then show ?thesis using 0 inside liquidity_from_amount_0_cost [OF 0(2)] pos
      by (cases "tick < lower") (auto simp: position_amounts_def)
  next
    case both
    then have "lower \<le> tick" "tick < upper" using below above lu by (auto intro: ccontr)
    then show ?thesis
      using both liquidity_from_amount_0_cost [OF both(4)] liquidity_from_amount_1_cost [OF both(5)]
        delta_mono_liquidity(1) [of L l0 True p ?pu] delta_mono_liquidity(2) [of L l1 True ?pl p]
        pos assms(5) by (simp add: position_amounts_def)
  next
    case 1
    then have "lower \<le> tick" using below lu by (rule_tac ccontr) auto
    then show ?thesis using 1 inside liquidity_from_amount_1_cost [OF 1(2)]
      by (cases "tick < upper") (auto simp: position_amounts_def)
  qed
  then show "fst (position_amounts tick p lower upper True L) \<le> amount_0"
    "snd (position_amounts tick p lower upper True L) \<le> amount_1" by simp_all
qed

section \<open>A small position\<close>

text \<open>Values around tick 0, for the concrete instances of the properties.\<close>

lemma example_liquidity:
  "get_liquidity_from_amounts (2 ^ 64) (sqrt_price (-1)) (sqrt_price 1) 1000000 1000000 =
     Inr 20001499987"
  by (simp add: get_liquidity_from_amounts_def get_liquidity_from_amount_0_def
      get_liquidity_from_amount_1_def ordered_def mul_div_floor_def Q64_def sqrt_price_near)

lemma example_amounts:
  "get_delta_amounts_signed 0 (2 ^ 64) (-1) 1 20001499987 = Inr (1000000, 1000000)"
  "get_delta_amounts_signed 0 (2 ^ 64) (-1) 1 (- 10001499987) = Inr (500037, 500037)"
  "get_delta_amounts_signed 0 (2 ^ 64) (-1) 1 (- 10000000000) = Inr (499962, 499962)"
  by (simp_all add: get_delta_amounts_signed_def get_delta_amount_0_signed_def
      get_delta_amount_1_signed_def get_sqrt_price_at_tick_eq valid_tick_def tick_limits
      sqrt_price_near u128_try_from_def checked_i_def fits_i_def get_delta_amount_0_unsigned_def
      get_delta_amount_1_unsigned_def ordered_def mul_div_eq ceil_div_def div_rounding_up_def
      u_defs Q64_def RESOLUTION_def Let_def)

section \<open>Properties\<close>

text \<open>
  C2. The token amounts of a liquidity are the exact curve amounts, rounded to the side asked
  for, and only over-large ones are refused: rounding up gives the least integer covering
  \<open>L (1/a - 1/b)\<close> (in Q64.64), rounding down the greatest integer covered by it.
\<close>

theorem delta_amount_0_exact:
  assumes "0 < a" "a \<le> b" "b < 2 ^ 128" "L < 2 ^ 128"
    and "get_delta_amount_0_unsigned a b L up = Inr r"
  shows "if up then \<forall>c. r \<le> c \<longleftrightarrow> L * Q64 * (b - a) \<le> c * (b * a)
         else \<forall>c. c \<le> r \<longleftrightarrow> c * (b * a) \<le> L * Q64 * (b - a)"
proof -
  have "r = delta_0 up L a b"
    using assms get_delta_amount_0_unsigned_eq [of a b L up] by (auto simp: fail_def split: if_split_asm)
  then show ?thesis using assms(1,2) by (simp add: delta_0_up_le_iff le_delta_0_down_iff)
qed

theorem delta_amount_0_exact_witness:
  "\<forall>c. (2 :: nat) \<le> c \<longleftrightarrow> 10 * Q64 * (20 * Q64 - 5 * Q64) \<le> c * (20 * Q64 * (5 * Q64))"
  using delta_amount_0_exact [of "5 * Q64" "20 * Q64" 10 True 2]
  by (simp add: get_delta_amount_0_unsigned_eq delta_0_def rounded_def ceil_div_def Q64_def)

text \<open>
  Opening a position never costs more than the amounts it was sized from: when the current
  tick and price agree, the liquidity computed from two amounts is charged at most these.
\<close>

theorem deposit_within_amounts:
  assumes "valid_tick lower" "valid_tick upper" "lower < upper" "tick_agrees tick p"
    and "0 < p" "p < 2 ^ 128" "L < 2 ^ 127"
    and "get_liquidity_from_amounts p (sqrt_price lower) (sqrt_price upper) amount_0 amount_1 = Inr L"
    and "get_delta_amounts_signed tick p lower upper (int L) = Inr (d0, d1)"
  shows "d0 \<le> amount_0 \<and> d1 \<le> amount_1"
proof -
  have "position_amounts tick p lower upper True L = (d0, d1)"
    using get_delta_amounts_signed_Inr [OF assms(9)] assms(1,2,6,7) by simp
  then show ?thesis using position_amounts_cost [OF assms(1-5,8)] by simp
qed

theorem deposit_within_amounts_witness:
  "(1000000 :: nat) \<le> 1000000 \<and> (1000000 :: nat) \<le> 1000000"
  using deposit_within_amounts [of "-1" 1 0 "2 ^ 64" 20001499987 1000000 1000000 1000000 1000000]
    example_liquidity example_amounts(1)
  by (simp add: tick_agrees_def valid_tick_def tick_limits sqrt_price_near)

text \<open>
  C3. Liquidity that is deposited and withdrawn at the same price, in any two parts, never
  returns more of either token than was paid for it.
\<close>

theorem withdraw_at_most_deposit:
  assumes "valid_tick lower" "valid_tick upper" "p < 2 ^ 128" "0 < L" "0 < M" "L + M < 2 ^ 127"
    and "get_delta_amounts_signed tick p lower upper (int (L + M)) = Inr (d0, d1)"
    and "get_delta_amounts_signed tick p lower upper (- int L) = Inr (w0, w1)"
    and "get_delta_amounts_signed tick p lower upper (- int M) = Inr (v0, v1)"
  shows "w0 + v0 \<le> d0 \<and> w1 + v1 \<le> d1"
proof -
  have eqs: "(d0, d1) = position_amounts tick p lower upper True (L + M)"
    "(w0, w1) = position_amounts tick p lower upper False L"
    "(v0, v1) = position_amounts tick p lower upper False M"
    using get_delta_amounts_signed_Inr [OF assms(7)] get_delta_amounts_signed_Inr [OF assms(8)]
      get_delta_amounts_signed_Inr [OF assms(9)] assms(1-6)
    by (auto simp: nat_add_distrib simp flip: of_nat_add)
  have "delta_0 False L a b + delta_0 False M a b \<le> delta_0 True (L + M) a b"
    "delta_1 False L a b + delta_1 False M a b \<le> delta_1 True (L + M) a b" for a b
    using delta_superadditive delta_down_le_up le_trans by blast+
  then show ?thesis using eqs by (auto simp: position_amounts_def Let_def)
qed

theorem withdraw_at_most_deposit_witness:
  "(500037 :: nat) + 499962 \<le> 1000000 \<and> (500037 :: nat) + 499962 \<le> 1000000"
  using withdraw_at_most_deposit [of "-1" 1 "2 ^ 64" 10001499987 10000000000 0 1000000 1000000
      500037 500037 499962 499962] example_amounts
  by (simp add: valid_tick_def tick_limits)

end
