(* ===== verification/Sqrt_Price_Math.thy ===== *)
theory Sqrt_Price_Math
  imports Liquidity_Math
begin

text \<open>
  \<open>libraries/sqrt_price_math.rs\<close>: the price after an amount of one token enters or leaves the
  pool. The lemmas at the end relate each rounded price to the amounts of \<open>Liquidity_Math\<close>:
  an input never moves the price further than it pays for, an output price always covers the
  output, and a price never passes a target that the amount cannot reach.
\<close>

section \<open>Definitions\<close>

definition get_next_sqrt_price_from_amount_0_rounding_up ::
  "nat \<Rightarrow> nat \<Rightarrow> nat \<Rightarrow> bool \<Rightarrow> nat res" where
  "get_next_sqrt_price_from_amount_0_rounding_up price liquidity amount add =
     (if amount = 0 then Inr price
      else let numerator_1 = liquidity * 2 ^ RESOLUTION;
               alternate = and_then (div_u numerator_1 price) (\<lambda>q.
                 and_then (ok_or (checked_add 256 q amount) CalculateOverflow) (\<lambda>d.
                 and_then (div_rounding_up numerator_1 d) (as_uint 128)))
      in if add then
           (case checked_mul 256 amount price of
              Some product \<Rightarrow>
                and_then (add_u 256 numerator_1 product) (\<lambda>denominator.
                  if denominator \<ge> numerator_1
                  then and_then (ok_or (mul_div_ceil 256 numerator_1 price denominator)
                         CalculateOverflow) (as_uint 128)
                  else alternate)
            | None \<Rightarrow> alternate)
         else
           and_then (ok_or (checked_mul 256 amount price) CalculateOverflow) (\<lambda>product.
           and_then (ok_or (checked_sub numerator_1 product) CalculateOverflow) (\<lambda>denominator.
           and_then (ok_or (mul_div_ceil 256 numerator_1 price denominator) CalculateOverflow)
             (as_uint 128))))"

definition get_next_sqrt_price_from_amount_1_rounding_down ::
  "nat \<Rightarrow> nat \<Rightarrow> nat \<Rightarrow> bool \<Rightarrow> nat res" where
  "get_next_sqrt_price_from_amount_1_rounding_down price liquidity amount add =
     (if amount = 0 then Inr price
      else if add then
        and_then (div_u (amount * 2 ^ RESOLUTION) liquidity) (\<lambda>quotient.
        and_then (as_uint 128 quotient) (\<lambda>q.
        ok_or (checked_add 128 price q) CalculateOverflow))
      else
        and_then (div_rounding_up (amount * 2 ^ RESOLUTION) liquidity) (\<lambda>quotient.
        and_then (as_uint 128 quotient) (\<lambda>q.
        ok_or (checked_sub price q) CalculateOverflow)))"

definition get_next_sqrt_price_from_input :: "nat \<Rightarrow> nat \<Rightarrow> nat \<Rightarrow> bool \<Rightarrow> nat res" where
  "get_next_sqrt_price_from_input price liquidity amount_in zero_for_one =
     require (price > 0) ZeroSqrtPrice
     (require (liquidity > 0) ZeroLiquidity
       (if zero_for_one
        then get_next_sqrt_price_from_amount_0_rounding_up price liquidity amount_in True
        else get_next_sqrt_price_from_amount_1_rounding_down price liquidity amount_in True))"

definition get_next_sqrt_price_from_output :: "nat \<Rightarrow> nat \<Rightarrow> nat \<Rightarrow> bool \<Rightarrow> nat res" where
  "get_next_sqrt_price_from_output price liquidity amount_out zero_for_one =
     require (price > 0) ZeroSqrtPrice
     (require (liquidity > 0) ZeroLiquidity
       (if zero_for_one
        then get_next_sqrt_price_from_amount_1_rounding_down price liquidity amount_out False
        else get_next_sqrt_price_from_amount_0_rounding_up price liquidity amount_out False))"

section \<open>The rounded prices\<close>

definition next_0_in :: "nat \<Rightarrow> nat \<Rightarrow> nat \<Rightarrow> nat" where
  "next_0_in p L x = ceil_div (L * Q64 * p) (L * Q64 + x * p)"

definition next_1_in :: "nat \<Rightarrow> nat \<Rightarrow> nat \<Rightarrow> nat" where
  "next_1_in p L y = p + (y * Q64) div L"

definition next_0_out :: "nat \<Rightarrow> nat \<Rightarrow> nat \<Rightarrow> nat" where
  "next_0_out p L x = ceil_div (L * Q64 * p) (L * Q64 - x * p)"

definition next_1_out :: "nat \<Rightarrow> nat \<Rightarrow> nat \<Rightarrow> nat" where
  "next_1_out p L y = p - ceil_div (y * Q64) L"

lemma liquidity_shift: "L * 2 ^ RESOLUTION = L * Q64"
  by (simp add: RESOLUTION_def Q64_def)

lemma price_product_less:
  assumes "L < 2 ^ 128" "x < 2 ^ 64" "p < 2 ^ 128"
  shows "L * Q64 + x * p < 2 ^ 193" "x * p < 2 ^ 192" "L * Q64 * p < 2 ^ 320" "L * Q64 < 2 ^ 192"
proof -
  show 1: "L * Q64 < 2 ^ 192" using assms(1) by (simp add: Q64_def)
  have "x * p < 2 ^ 64 * 2 ^ 128" using assms(2,3) by (intro mult_strict_mono) simp_all
  then show 2: "x * p < 2 ^ 192" by simp
  then show "L * Q64 + x * p < 2 ^ 193" using 1 by simp
  have "L * Q64 * p < 2 ^ 192 * 2 ^ 128" using 1 assms(3) by (intro mult_strict_mono) simp_all
  then show "L * Q64 * p < 2 ^ 320" by simp
qed

lemma next_0_in_zero: "0 < L \<Longrightarrow> next_0_in p L 0 = p"
  using ceil_div_exact [of "L * Q64" p] by (simp add: next_0_in_def mult.commute)

lemma next_0_in_le: "0 < L \<Longrightarrow> next_0_in p L x \<le> p"
  by (simp add: next_0_in_def ceil_div_le_iff add_mult_distrib algebra_simps)

lemma next_0_in_pos: "0 < L \<Longrightarrow> 0 < p \<Longrightarrow> 0 < next_0_in p L x"
  using ceil_div_le_iff [of "L * Q64 + x * p" "L * Q64 * p" 0] Q64_pos
  by (auto simp: next_0_in_def simp del: Q64_pos)

lemma get_next_sqrt_price_from_amount_0_add:
  assumes "0 < L" "L < 2 ^ 128" "x < 2 ^ 64" "p < 2 ^ 128"
  shows "get_next_sqrt_price_from_amount_0_rounding_up p L x True = Inr (next_0_in p L x)"
proof (cases "x = 0")
  case True
  then show ?thesis using assms(1)
    by (simp add: get_next_sqrt_price_from_amount_0_rounding_up_def next_0_in_zero)
next
  case False
  note less = price_product_less [OF assms(2,3,4)]
  have n: "next_0_in p L x < 2 ^ 128" using next_0_in_le [OF assms(1)] assms(4)
    by (rule le_less_trans)
  have "checked_mul 256 x p = Some (x * p)" using less(2) by (simp add: checked_mul_def)
  moreover have "add_u 256 (L * Q64) (x * p) = Inr (L * Q64 + x * p)"
    using less(1) by (simp add: arith_u_Inr)
  moreover have "mul_div_ceil 256 (L * Q64) p (L * Q64 + x * p) = Some (next_0_in p L x)"
    using n assms(1) by (auto simp: mul_div_ceil_Some next_0_in_def)
  ultimately show ?thesis using False n
    by (simp add: get_next_sqrt_price_from_amount_0_rounding_up_def liquidity_shift as_uint_def)
qed

lemma get_next_sqrt_price_from_amount_1_add:
  assumes "0 < L" "y < 2 ^ 64"
  shows "get_next_sqrt_price_from_amount_1_rounding_down p L y True =
    ok_or (checked_add 128 p ((y * Q64) div L)) CalculateOverflow \<or> y = 0"
proof -
  have "(y * Q64) div L \<le> y * Q64" by simp
  also have "\<dots> < 2 ^ 128" using assms(2) by (simp add: Q64_def)
  finally show ?thesis using assms
    by (simp add: get_next_sqrt_price_from_amount_1_rounding_down_def liquidity_shift u_defs)
qed

lemma get_next_sqrt_price_from_amount_1_add_fits:
  assumes "0 < L" "y < 2 ^ 64" "next_1_in p L y < 2 ^ 128"
  shows "get_next_sqrt_price_from_amount_1_rounding_down p L y True = Inr (next_1_in p L y)"
  using get_next_sqrt_price_from_amount_1_add [OF assms(1,2), of p] assms(3)
  by (auto simp: next_1_in_def checked_add_def
      get_next_sqrt_price_from_amount_1_rounding_down_def)

lemma get_next_sqrt_price_from_amount_0_sub:
  assumes "0 < x" "L < 2 ^ 128" "x < 2 ^ 64" "p < 2 ^ 128"
    and "x * p < L * Q64" "next_0_out p L x < 2 ^ 128"
  shows "get_next_sqrt_price_from_amount_0_rounding_up p L x False = Inr (next_0_out p L x)"
proof -
  have "checked_mul 256 x p = Some (x * p)"
    using price_product_less(2) [OF assms(2-4)] by (simp add: checked_mul_def)
  moreover have "checked_sub (L * Q64) (x * p) = Some (L * Q64 - x * p)"
    using assms(5) by (simp add: checked_sub_def)
  moreover have "mul_div_ceil 256 (L * Q64) p (L * Q64 - x * p) = Some (next_0_out p L x)"
    using assms(5,6) by (auto simp: mul_div_ceil_Some next_0_out_def)
  ultimately show ?thesis using assms(1,6)
    by (simp add: get_next_sqrt_price_from_amount_0_rounding_up_def liquidity_shift as_uint_def)
qed

lemma get_next_sqrt_price_from_amount_1_sub:
  assumes "0 < L" "y < 2 ^ 64" "ceil_div (y * Q64) L \<le> p"
  shows "get_next_sqrt_price_from_amount_1_rounding_down p L y False = Inr (next_1_out p L y)"
proof -
  have "ceil_div (y * Q64) L \<le> y * Q64" using assms(1) by (simp add: ceil_div_le_iff)
  also have "\<dots> < 2 ^ 128" using assms(2) by (simp add: Q64_def)
  finally have "div_rounding_up (y * Q64) L = Inr (ceil_div (y * Q64) L)"
    "as_uint 128 (ceil_div (y * Q64) L) = Inr (ceil_div (y * Q64) L)"
    using assms(1) by (simp_all add: div_rounding_up_Inr as_uint_def)
  then show ?thesis using assms(3)
    by (simp add: get_next_sqrt_price_from_amount_1_rounding_down_def liquidity_shift
        checked_sub_def next_1_out_def)
qed

section \<open>Prices and amounts\<close>

text \<open>
  The next price on an input is the extreme price whose rounded-up amount the input still
  pays; the next price on an output is the nearest price whose rounded-down amount covers it.
\<close>

lemma delta_0_up_le_iff_next:
  assumes "0 < L" "0 < t" "t \<le> p"
  shows "delta_0 True L t p \<le> x \<longleftrightarrow> next_0_in p L x \<le> t"
proof -
  have "next_0_in p L x \<le> t \<longleftrightarrow> L * Q64 * p \<le> t * (L * Q64 + x * p)"
    using assms(1) by (simp add: next_0_in_def ceil_div_le_iff)
  also have "\<dots> \<longleftrightarrow> L * Q64 * p \<le> L * Q64 * t + x * (p * t)"
    by (simp add: algebra_simps)
  also have "\<dots> \<longleftrightarrow> L * Q64 * (p - t) \<le> x * (p * t)"
    using assms(3) by (auto simp: diff_mult_distrib2)
  finally show ?thesis using assms by (simp add: delta_0_up_le_iff)
qed

lemma delta_1_up_le_iff_next:
  assumes "0 < L" "p \<le> t"
  shows "delta_1 True L p t \<le> y \<longleftrightarrow> t \<le> next_1_in p L y"
proof -
  have "t \<le> next_1_in p L y \<longleftrightarrow> t - p \<le> (y * Q64) div L"
    using assms(2) by (auto simp: next_1_in_def)
  also have "\<dots> \<longleftrightarrow> L * (t - p) \<le> y * Q64"
    using assms(1) by (simp add: le_div_iff mult.commute)
  finally show ?thesis using assms by (simp add: delta_1_up_le_iff)
qed

lemma le_delta_0_down_iff_next:
  assumes "0 < L" "0 < p" "p \<le> t" "0 < x"
  shows "x \<le> delta_0 False L p t \<longleftrightarrow> x * p < L * Q64 \<and> next_0_out p L x \<le> t"
proof -
  let ?n = "L * Q64"
  have "0 < t" using assms by simp
  have *: "x \<le> delta_0 False L p t \<longleftrightarrow> x * p * t + ?n * p \<le> ?n * t"
  proof -
    obtain e where "t = p + e" using assms(3) le_Suc_ex by blast
    then show ?thesis using assms(2)
      by (simp add: le_delta_0_down_iff distrib_left ac_simps)
  qed
  show ?thesis
  proof (cases "x * p < ?n")
    case True
    then obtain d where d: "?n = x * p + d" "0 < d" by (metis less_imp_add_positive)
    have "next_0_out p L x \<le> t \<longleftrightarrow> ?n * p \<le> t * d"
      using d by (simp add: next_0_out_def ceil_div_le_iff)
    moreover have "?n * t = x * p * t + t * d" unfolding d(1) by (simp add: algebra_simps)
    ultimately show ?thesis using * True by linarith
  next
    case False
    then have "?n * t \<le> x * p * t" by simp
    moreover have "0 < ?n * p" using assms by simp
    ultimately have "\<not> x \<le> delta_0 False L p t" unfolding * by linarith
    then show ?thesis using False by simp
  qed
qed

lemma next_0_out_ge: "p \<le> next_0_out p L x" if "x * p < L * Q64"
proof -
  let ?d = "L * Q64 - x * p"
  have d: "0 < ?d" using that by simp
  have "p * ?d \<le> p * (L * Q64)" by (intro mult_le_mono2) simp
  also have "\<dots> = L * Q64 * p" by (rule mult.commute)
  also have "\<dots> \<le> next_0_out p L x * ?d"
    unfolding next_0_out_def using d by (rule le_ceil_div_mult)
  finally show ?thesis using d by simp
qed

lemma next_1_out_covers:
  assumes "0 < L" "t \<le> p" "y \<le> delta_1 False L t p"
  shows "ceil_div (y * Q64) L \<le> p" "t \<le> next_1_out p L y"
proof -
  have "y * Q64 \<le> (p - t) * L" using assms(2,3) by (simp add: le_delta_1_down_iff mult.commute)
  then have "ceil_div (y * Q64) L \<le> p - t" using assms(1) by (simp add: ceil_div_le_iff)
  then show "ceil_div (y * Q64) L \<le> p" "t \<le> next_1_out p L y"
    using assms(2) by (simp_all add: next_1_out_def)
qed

lemma next_1_out_amount:
  assumes "0 < L" "ceil_div (y * Q64) L \<le> p"
  shows "y \<le> delta_1 False L (next_1_out p L y) p"
proof -
  have "p - next_1_out p L y = ceil_div (y * Q64) L" using assms(2) by (simp add: next_1_out_def)
  moreover have "y * Q64 \<le> ceil_div (y * Q64) L * L" using assms(1) by (rule le_ceil_div_mult)
  ultimately show ?thesis
    by (subst le_delta_1_down_iff) (simp_all add: next_1_out_def mult.commute)
qed

lemma next_1_in_ge: "p \<le> next_1_in p L y"
  by (simp add: next_1_in_def)

lemma next_1_out_le: "next_1_out p L y \<le> p"
  by (simp add: next_1_out_def)

end
