(* ===== verification/Swap_Math.thy ===== *)
theory Swap_Math
  imports Sqrt_Price_Math
begin

text \<open>
  \<open>libraries/swap_math.rs\<close>: one step of a swap against constant liquidity, from the current
  price towards a target, by exact input or exact output, with the fee taken on either side.
  \<open>compute_swap\<close> is split at the three phases of the source: the price reached, the amounts
  over that range, and the fee. The lemmas compute each phase on valid arguments and bound
  what the step takes and gives.
\<close>

section \<open>Definitions\<close>

definition FEE_RATE_DENOMINATOR_VALUE :: nat where "FEE_RATE_DENOMINATOR_VALUE = 1000000"

record swap_computation =
  sc_price_next :: nat
  sc_amount_in :: nat
  sc_amount_out :: nat
  sc_fee_amount :: nat

definition new_swap_computation :: "nat \<Rightarrow> swap_computation" where
  "new_swap_computation price =
     \<lparr>sc_price_next = price, sc_amount_in = 0, sc_amount_out = 0, sc_fee_amount = 0\<rparr>"

text \<open>A \<open>MaxTokenOverflow\<close> becomes \<open>None\<close>, every other error \<open>SqrtPriceLimitOverflow\<close>; a panic
  is not an error and passes.\<close>

definition calculate_amount_in_range :: "nat \<Rightarrow> nat \<Rightarrow> nat \<Rightarrow> bool \<Rightarrow> bool \<Rightarrow> nat option res" where
  "calculate_amount_in_range current target liquidity zero_for_one is_base_input =
     (case (if is_base_input then
              (if zero_for_one then get_delta_amount_0_unsigned target current liquidity True
               else get_delta_amount_1_unsigned current target liquidity True)
            else
              (if zero_for_one then get_delta_amount_1_unsigned target current liquidity False
               else get_delta_amount_0_unsigned current target liquidity False)) of
        Inr v \<Rightarrow> Inr (Some v)
      | Inl Panic \<Rightarrow> Inl Panic
      | Inl e \<Rightarrow> if e = Code MaxTokenOverflow then Inr None else fail SqrtPriceLimitOverflow)"

definition compute_swap_price ::
  "nat \<Rightarrow> nat \<Rightarrow> nat \<Rightarrow> nat \<Rightarrow> nat \<Rightarrow> bool \<Rightarrow> bool \<Rightarrow> bool \<Rightarrow> swap_computation res" where
  "compute_swap_price current target liquidity amount_remaining fee_rate is_base_input
     zero_for_one is_fee_on_input =
   (let result = new_swap_computation 0 in
    if is_base_input then
      and_then
        (if is_fee_on_input
         then and_then (sub_u FEE_RATE_DENOMINATOR_VALUE fee_rate) (\<lambda>d.
              ok_or (mul_div_floor 64 amount_remaining d FEE_RATE_DENOMINATOR_VALUE)
                CalculateOverflow)
         else Inr amount_remaining) (\<lambda>amount_for_price_calc.
      and_then (calculate_amount_in_range current target liquidity zero_for_one is_base_input)
        (\<lambda>amount_in.
      let result = (case amount_in of Some v \<Rightarrow> result\<lparr>sc_amount_in := v\<rparr> | None \<Rightarrow> result) in
      and_then
        (if amount_in \<noteq> None \<and> amount_for_price_calc \<ge> sc_amount_in result then Inr target
         else get_next_sqrt_price_from_input current liquidity amount_for_price_calc zero_for_one)
        (\<lambda>next. Inr (result\<lparr>sc_price_next := next\<rparr>))))
    else
      and_then
        (if is_fee_on_input then Inr amount_remaining
         else and_then (sub_u FEE_RATE_DENOMINATOR_VALUE fee_rate) (\<lambda>d.
              ok_or (mul_div_ceil 64 amount_remaining FEE_RATE_DENOMINATOR_VALUE d)
                CalculateOverflow)) (\<lambda>amount_for_price_calc.
      and_then (calculate_amount_in_range current target liquidity zero_for_one is_base_input)
        (\<lambda>amount_out.
      let result = (case amount_out of Some v \<Rightarrow> result\<lparr>sc_amount_out := v\<rparr> | None \<Rightarrow> result) in
      and_then
        (if amount_out \<noteq> None \<and> amount_for_price_calc \<ge> sc_amount_out result then Inr target
         else get_next_sqrt_price_from_output current liquidity amount_for_price_calc zero_for_one)
        (\<lambda>next. Inr (result\<lparr>sc_price_next := next\<rparr>)))))"

definition compute_swap_amounts ::
  "nat \<Rightarrow> nat \<Rightarrow> nat \<Rightarrow> bool \<Rightarrow> bool \<Rightarrow> swap_computation \<Rightarrow> swap_computation res" where
  "compute_swap_amounts current target liquidity is_base_input zero_for_one result =
   (let next = sc_price_next result; max = (target = next) in
    and_then
      (if \<not> (max \<and> is_base_input)
       then and_then
         (if zero_for_one then get_delta_amount_0_unsigned next current liquidity True
          else get_delta_amount_1_unsigned current next liquidity True)
         (\<lambda>v. Inr (result\<lparr>sc_amount_in := v\<rparr>))
       else Inr result) (\<lambda>result.
    if \<not> (max \<and> \<not> is_base_input)
    then and_then
      (if zero_for_one then get_delta_amount_1_unsigned next current liquidity False
       else get_delta_amount_0_unsigned current next liquidity False)
      (\<lambda>v. Inr (result\<lparr>sc_amount_out := v\<rparr>))
    else Inr result))"

definition compute_swap_fee ::
  "nat \<Rightarrow> nat \<Rightarrow> nat \<Rightarrow> bool \<Rightarrow> bool \<Rightarrow> swap_computation \<Rightarrow> swap_computation res" where
  "compute_swap_fee target amount_remaining fee_rate is_base_input is_fee_on_input result =
   (if is_base_input then
      if is_fee_on_input then
        if sc_price_next result \<noteq> target then
          and_then (ok_or (checked_sub amount_remaining (sc_amount_in result)) CalculateOverflow)
            (\<lambda>fee. Inr (result\<lparr>sc_fee_amount := fee\<rparr>))
        else
          and_then (sub_u FEE_RATE_DENOMINATOR_VALUE fee_rate) (\<lambda>d.
          and_then (ok_or (mul_div_ceil 64 (sc_amount_in result) fee_rate d) CalculateOverflow)
            (\<lambda>fee. Inr (result\<lparr>sc_fee_amount := fee\<rparr>)))
      else
        and_then (ok_or (mul_div_ceil 64 (sc_amount_out result) fee_rate
          FEE_RATE_DENOMINATOR_VALUE) CalculateOverflow) (\<lambda>fee.
        and_then (ok_or (checked_sub (sc_amount_out result) fee) CalculateOverflow) (\<lambda>net.
        Inr (result\<lparr>sc_fee_amount := fee, sc_amount_out := net\<rparr>)))
    else
      if is_fee_on_input then
        and_then (sub_u FEE_RATE_DENOMINATOR_VALUE fee_rate) (\<lambda>d.
        and_then (ok_or (mul_div_ceil 64 (sc_amount_in result) fee_rate d) CalculateOverflow)
          (\<lambda>fee. Inr (result\<lparr>sc_amount_out := min (sc_amount_out result) amount_remaining,
                             sc_fee_amount := fee\<rparr>)))
      else
        and_then (ok_or (mul_div_ceil 64 (sc_amount_out result) fee_rate
          FEE_RATE_DENOMINATOR_VALUE) CalculateOverflow) (\<lambda>fee.
        and_then (ok_or (checked_sub (sc_amount_out result) fee) CalculateOverflow) (\<lambda>net_output.
        if net_output > amount_remaining then
          and_then (ok_or (checked_sub (sc_amount_out result) amount_remaining) CalculateOverflow)
            (\<lambda>fee. Inr (result\<lparr>sc_fee_amount := fee, sc_amount_out := amount_remaining\<rparr>))
        else Inr (result\<lparr>sc_fee_amount := fee, sc_amount_out := net_output\<rparr>))))"

definition compute_swap ::
  "nat \<Rightarrow> nat \<Rightarrow> nat \<Rightarrow> nat \<Rightarrow> nat \<Rightarrow> bool \<Rightarrow> bool \<Rightarrow> bool \<Rightarrow> swap_computation res" where
  "compute_swap current target liquidity amount_remaining fee_rate is_base_input
     zero_for_one is_fee_on_input =
   and_then (compute_swap_price current target liquidity amount_remaining fee_rate is_base_input
     zero_for_one is_fee_on_input) (\<lambda>result.
   require_plain
     (if zero_for_one then sc_price_next result \<ge> target else target \<ge> sc_price_next result)
     (and_then (compute_swap_amounts current target liquidity is_base_input zero_for_one result)
       (compute_swap_fee target amount_remaining fee_rate is_base_input is_fee_on_input)))"

section \<open>The curve in the direction of the swap\<close>

definition curve_in :: "bool \<Rightarrow> nat \<Rightarrow> nat \<Rightarrow> nat \<Rightarrow> nat" where
  "curve_in zero_for_one L p q = (if zero_for_one then delta_0 True L q p else delta_1 True L p q)"

definition curve_out :: "bool \<Rightarrow> nat \<Rightarrow> nat \<Rightarrow> nat \<Rightarrow> nat" where
  "curve_out zero_for_one L p q = (if zero_for_one then delta_1 False L q p else delta_0 False L p q)"

definition next_in :: "bool \<Rightarrow> nat \<Rightarrow> nat \<Rightarrow> nat \<Rightarrow> nat" where
  "next_in zero_for_one p L x = (if zero_for_one then next_0_in p L x else next_1_in p L x)"

definition next_out :: "bool \<Rightarrow> nat \<Rightarrow> nat \<Rightarrow> nat \<Rightarrow> nat" where
  "next_out zero_for_one p L x =
     (if x = 0 then p else if zero_for_one then next_1_out p L x else next_0_out p L x)"

text \<open>\<open>towards z p q t\<close>: going from \<open>p\<close> in the direction of the swap, \<open>q\<close> comes no later
  than \<open>t\<close>.\<close>

definition towards :: "bool \<Rightarrow> nat \<Rightarrow> nat \<Rightarrow> nat \<Rightarrow> bool" where
  "towards zero_for_one p q t \<longleftrightarrow> (if zero_for_one then t \<le> q \<and> q \<le> p else p \<le> q \<and> q \<le> t)"

definition swap_args :: "bool \<Rightarrow> nat \<Rightarrow> nat \<Rightarrow> nat \<Rightarrow> nat \<Rightarrow> nat \<Rightarrow> bool" where
  "swap_args zero_for_one p t L rem fee \<longleftrightarrow>
     0 < p \<and> p < 2 ^ 128 \<and> 0 < t \<and> t < 2 ^ 128 \<and> L < 2 ^ 128 \<and> rem < 2 ^ 64 \<and>
     fee < FEE_RATE_DENOMINATOR_VALUE \<and> towards zero_for_one p t t"

lemma calculate_amount_in_range_eq:
  assumes "0 < p" "p < 2 ^ 128" "0 < t" "t < 2 ^ 128" "L < 2 ^ 128"
  shows "calculate_amount_in_range p t L z base =
    (let v = (if base then curve_in z L p t else curve_out z L p t)
     in Inr (if v < 2 ^ 64 then Some v else None))"
  using assms
  by (simp add: calculate_amount_in_range_def curve_in_def curve_out_def fail_def
      get_delta_amount_0_unsigned_eq get_delta_amount_1_unsigned_eq)

lemma curve_no_liquidity [simp]: "curve_in z 0 p q = 0" "curve_out z 0 p q = 0"
  by (simp_all add: curve_in_def curve_out_def)

lemma next_in_towards: "0 < L \<Longrightarrow> 0 < t \<Longrightarrow> towards z p t t \<Longrightarrow> x < curve_in z L p t \<Longrightarrow>
  towards z p (next_in z p L x) t \<and> next_in z p L x \<noteq> t"
  using delta_0_up_le_iff_next [of L t p x] delta_1_up_le_iff_next [of L p t x]
  by (auto simp: towards_def curve_in_def next_in_def next_0_in_le next_1_in_ge split: if_splits)

lemma curve_in_next_in: "0 < L \<Longrightarrow> 0 < p \<Longrightarrow> curve_in z L p (next_in z p L x) \<le> x"
  by (simp add: curve_in_def next_in_def delta_0_up_le_iff_next delta_1_up_le_iff_next
      next_0_in_pos next_0_in_le next_1_in_ge)

lemma next_out_towards:
  assumes "0 < L" "0 < p" "towards z p t t" "x \<le> curve_out z L p t"
  shows "towards z p (next_out z p L x) t"
  using assms next_1_out_covers(2) [of L t p x] le_delta_0_down_iff_next [of L p t x]
  by (auto simp: towards_def curve_out_def next_out_def next_1_out_le next_0_out_ge split: if_splits)

lemma curve_out_next_out:
  assumes "0 < L" "0 < p" "towards z p t t" "x \<le> curve_out z L p t"
  shows "x \<le> curve_out z L p (next_out z p L x)"
  using assms next_1_out_covers(1) [of L t p x] le_delta_0_down_iff_next [of L p t x]
    le_delta_0_down_iff_next [of L p "next_0_out p L x" x]
  by (auto simp: towards_def curve_out_def next_out_def next_1_out_amount next_0_out_ge split: if_splits)

lemma get_next_sqrt_price_from_input_eq:
  assumes "0 < L" "L < 2 ^ 128" "0 < p" "p < 2 ^ 128" "x < 2 ^ 64" "next_in z p L x < 2 ^ 128"
  shows "get_next_sqrt_price_from_input p L x z = Inr (next_in z p L x)"
  using assms get_next_sqrt_price_from_amount_0_add [of L x p]
    get_next_sqrt_price_from_amount_1_add_fits [of L x p]
  by (cases z) (simp_all add: get_next_sqrt_price_from_input_def next_in_def)

lemma get_next_sqrt_price_from_output_eq:
  assumes "0 < L" "L < 2 ^ 128" "0 < p" "p < 2 ^ 128" "x < 2 ^ 64" "t < 2 ^ 128"
    and "towards z p t t" "x \<le> curve_out z L p t"
  shows "get_next_sqrt_price_from_output p L x z = Inr (next_out z p L x)"
proof (cases "x = 0")
  case True
  then show ?thesis using assms(1,3)
    by (simp add: get_next_sqrt_price_from_output_def next_out_def
        get_next_sqrt_price_from_amount_0_rounding_up_def
        get_next_sqrt_price_from_amount_1_rounding_down_def)
next
  case False
  then show ?thesis using assms next_1_out_covers(1) [of L t p x] le_delta_0_down_iff_next [of L p t x]
      get_next_sqrt_price_from_amount_1_sub [of L x p] get_next_sqrt_price_from_amount_0_sub [of x L p]
    by (auto simp: get_next_sqrt_price_from_output_def next_out_def towards_def curve_out_def
        split: if_splits)
qed

section \<open>The three phases on valid arguments\<close>

text \<open>The amount the price is computed for: net of the fee on the input, gross of it on the
  output.\<close>

definition calc_amount :: "bool \<Rightarrow> bool \<Rightarrow> nat \<Rightarrow> nat \<Rightarrow> nat" where
  "calc_amount is_base_input is_fee_on_input rem fee =
     (if is_base_input
      then if is_fee_on_input
           then (rem * (FEE_RATE_DENOMINATOR_VALUE - fee)) div FEE_RATE_DENOMINATOR_VALUE else rem
      else if is_fee_on_input then rem
           else ceil_div (rem * FEE_RATE_DENOMINATOR_VALUE) (FEE_RATE_DENOMINATOR_VALUE - fee))"

definition curve :: "bool \<Rightarrow> bool \<Rightarrow> nat \<Rightarrow> nat \<Rightarrow> nat \<Rightarrow> nat" where
  "curve is_base_input z L p q = (if is_base_input then curve_in z L p q else curve_out z L p q)"

definition reached :: "bool \<Rightarrow> bool \<Rightarrow> nat \<Rightarrow> nat \<Rightarrow> nat \<Rightarrow> nat \<Rightarrow> nat" where
  "reached is_base_input z p t L x =
     (if curve is_base_input z L p t \<le> x then t
      else if is_base_input then next_in z p L x else next_out z p L x)"

lemma fee_denominator_pos [simp]: "0 < FEE_RATE_DENOMINATOR_VALUE"
  by (simp add: FEE_RATE_DENOMINATOR_VALUE_def)

lemma calc_amount_le: "calc_amount True on_input rem fee \<le> rem"
proof (cases on_input)
  case True
  let ?D = FEE_RATE_DENOMINATOR_VALUE
  have "(rem * (?D - fee)) div ?D \<le> (rem * ?D) div ?D" by (intro div_le_mono) simp
  also have "\<dots> \<le> rem" by (rule mult_div_le_right)
  finally show ?thesis using True by (simp add: calc_amount_def)
qed (simp add: calc_amount_def)

lemma towards_refl: "towards z p t t \<Longrightarrow> towards z p p t"
  by (auto simp: towards_def split: if_splits)

lemma reached_towards:
  assumes "swap_args z p t L rem fee"
  shows "towards z p (reached base z p t L x) t"
proof (cases "curve base z L p t \<le> x")
  case True
  then show ?thesis using assms by (simp add: reached_def swap_args_def)
next
  case False
  then have "0 < L" by (cases "L = 0") (auto simp: curve_def split: if_splits)
  then show ?thesis
    using False assms next_in_towards [of L t z p x] next_out_towards [of L p z t x]
    by (auto simp: reached_def curve_def swap_args_def)
qed

lemma reached_price_fits: "swap_args z p t L rem fee \<Longrightarrow>
    0 < reached base z p t L x \<and> reached base z p t L x < 2 ^ 128"
  using reached_towards [of z p t L rem fee base x]
  by (auto simp: swap_args_def towards_def split: if_splits)

text \<open>On an exact input the target is reached only if the amount pays for all of it.\<close>

lemma reached_input_target:
  assumes "swap_args z p t L rem fee" "reached True z p t L x = t"
  shows "curve_in z L p t \<le> x"
proof (rule ccontr)
  assume *: "\<not> curve_in z L p t \<le> x"
  then have "0 < L" by (cases "L = 0") auto
  then show False
    using * assms next_in_towards [of L t z p x] by (simp add: reached_def curve_def swap_args_def)
qed

lemma curve_in_reached:
  assumes "swap_args z p t L rem fee"
  shows "curve_in z L p (reached True z p t L x) \<le> x"
proof (cases "curve_in z L p t \<le> x")
  case False
  then have "0 < L" by (cases "L = 0") auto
  then show ?thesis
    using False assms by (simp add: reached_def curve_def curve_in_next_in swap_args_def)
qed (simp add: reached_def curve_def)

lemma curve_out_reached:
  assumes "swap_args z p t L rem fee" "reached False z p t L x \<noteq> t"
  shows "x \<le> curve_out z L p (reached False z p t L x)"
proof -
  have *: "\<not> curve_out z L p t \<le> x" using assms(2) by (auto simp: reached_def curve_def)
  then have "0 < L" by (cases "L = 0") auto
  then show ?thesis
    using * assms(1) curve_out_next_out [of L p z t x]
    by (simp add: reached_def curve_def swap_args_def)
qed

text \<open>The intermediate result after the price phase.\<close>

definition swap_start :: "bool \<Rightarrow> bool \<Rightarrow> nat \<Rightarrow> nat \<Rightarrow> nat \<Rightarrow> nat \<Rightarrow> swap_computation" where
  "swap_start base z p t L q =
     \<lparr>sc_price_next = q,
      sc_amount_in = (if base \<and> curve_in z L p t < 2 ^ 64 then curve_in z L p t else 0),
      sc_amount_out = (if \<not> base \<and> curve_out z L p t < 2 ^ 64 then curve_out z L p t else 0),
      sc_fee_amount = 0\<rparr>"

lemma compute_swap_price_eq:
  fixes base on_input :: bool
  defines "x \<equiv> \<lambda>fee rem. calc_amount base on_input rem fee"
  assumes "swap_args z p t L rem fee"
  shows "compute_swap_price p t L rem fee base z on_input =
    (if x fee rem < 2 ^ 64 then Inr (swap_start base z p t L (reached base z p t L (x fee rem)))
     else fail CalculateOverflow)"
proof -
  let ?D = FEE_RATE_DENOMINATOR_VALUE and ?x = "x fee rem"
  have args: "0 < p" "p < 2 ^ 128" "0 < t" "t < 2 ^ 128" "L < 2 ^ 128" "rem < 2 ^ 64" "fee < ?D"
    "towards z p t t" using assms by (simp_all add: swap_args_def)
  have amount: "(if base then
        if on_input then and_then (sub_u ?D fee) (\<lambda>d. ok_or (mul_div_floor 64 rem d ?D) CalculateOverflow)
        else Inr rem
      else if on_input then Inr rem
        else and_then (sub_u ?D fee) (\<lambda>d. ok_or (mul_div_ceil 64 rem ?D d) CalculateOverflow))
      = (if ?x < 2 ^ 64 then Inr ?x else fail CalculateOverflow)"
  proof -
    have "sub_u ?D fee = Inr (?D - fee)" using args by (simp add: arith_u_Inr)
    moreover have "mul_div_floor 64 rem (?D - fee) ?D = Some ((rem * (?D - fee)) div ?D)"
      using calc_amount_le [of True rem fee] args(6) by (simp add: mul_div_floor_Some calc_amount_def)
    moreover have "ok_or (mul_div_ceil 64 rem ?D (?D - fee)) CalculateOverflow =
        (if ceil_div (rem * ?D) (?D - fee) < 2 ^ 64 then Inr (ceil_div (rem * ?D) (?D - fee))
         else fail CalculateOverflow)"
      using args(7) by (simp add: fail_def mul_div_eq)
    ultimately show ?thesis using args(6) calc_amount_le [of on_input rem fee]
      by (auto simp: x_def calc_amount_def)
  qed
  have inp: "get_next_sqrt_price_from_input p L ?x z = Inr (next_in z p L ?x)"
    if "\<not> curve_in z L p t \<le> ?x" "?x < 2 ^ 64"
  proof -
    have L: "0 < L" using that by (cases "L = 0") auto
    then have "next_in z p L ?x < 2 ^ 128"
      using next_in_towards [of L t z p ?x] that args by (auto simp: towards_def split: if_splits)
    then show ?thesis using L args that by (simp add: get_next_sqrt_price_from_input_eq)
  qed
  have out: "get_next_sqrt_price_from_output p L ?x z = Inr (next_out z p L ?x)"
    if "\<not> curve_out z L p t \<le> ?x" "?x < 2 ^ 64"
  proof -
    have L: "0 < L" using that by (cases "L = 0") auto
    then show ?thesis using args that get_next_sqrt_price_from_output_eq [of L p ?x t z] by simp
  qed
  note range = calculate_amount_in_range_eq [OF args(1-5), of z base]
  show ?thesis
  proof (cases base)
    case True
    show ?thesis using amount inp True range
      by (auto simp: compute_swap_price_def reached_def curve_def
          new_swap_computation_def swap_start_def Let_def fail_def)
  next
    case False
    show ?thesis using amount out False range
      by (auto simp: compute_swap_price_def reached_def curve_def
          new_swap_computation_def swap_start_def Let_def fail_def)
  qed
qed

text \<open>
  The output before the fee. It is the curve's amount, except in one corner of exact output:
  the amount to the target does not fit 64 bits, so it is not stored, and yet the price of the
  requested amount is the target itself, so it is not computed again; the output stays \<open>0\<close>.
\<close>

definition gross_out :: "bool \<Rightarrow> bool \<Rightarrow> nat \<Rightarrow> nat \<Rightarrow> nat \<Rightarrow> nat \<Rightarrow> nat" where
  "gross_out base z L p t q =
     (if \<not> base \<and> q = t \<and> \<not> curve_out z L p t < 2 ^ 64 then 0 else curve_out z L p q)"

lemma gross_out_le: "gross_out base z L p t q \<le> curve_out z L p q"
  by (simp add: gross_out_def)

lemma curve_swap_sym:
  "curve_in z L p q = (if z then delta_0 True L q p else delta_1 True L p q)"
  "curve_out z L p q = (if z then delta_1 False L q p else delta_0 False L p q)"
  by (simp_all add: curve_in_def curve_out_def)

lemma compute_swap_amounts_eq:
  assumes "0 < q" "q < 2 ^ 128" "0 < p" "p < 2 ^ 128" "L < 2 ^ 128"
    and target: "base \<Longrightarrow> t = q \<Longrightarrow> curve_in z L p q < 2 ^ 64"
  shows "compute_swap_amounts p t L base z (swap_start base z p t L q) =
    (if curve_in z L p q < 2 ^ 64 \<and> gross_out base z L p t q < 2 ^ 64
     then Inr \<lparr>sc_price_next = q, sc_amount_in = curve_in z L p q,
               sc_amount_out = gross_out base z L p t q, sc_fee_amount = 0\<rparr>
     else fail MaxTokenOverflow)"
proof -
  have inp: "(if z then get_delta_amount_0_unsigned q p L True else get_delta_amount_1_unsigned p q L True)
      = (if curve_in z L p q < 2 ^ 64 then Inr (curve_in z L p q) else fail MaxTokenOverflow)"
    using assms(1-5) by (simp add: get_delta_amount_0_unsigned_eq get_delta_amount_1_unsigned_eq curve_swap_sym)
  have out: "(if z then get_delta_amount_1_unsigned q p L False else get_delta_amount_0_unsigned p q L False)
      = (if curve_out z L p q < 2 ^ 64 then Inr (curve_out z L p q) else fail MaxTokenOverflow)"
    using assms(1-5) by (simp add: get_delta_amount_0_unsigned_eq get_delta_amount_1_unsigned_eq curve_swap_sym)
  have price: "sc_price_next (swap_start base z p t L q) = q" by (simp add: swap_start_def)
  show ?thesis
    unfolding compute_swap_amounts_def price inp out Let_def
    using target by (cases base; cases "t = q") (simp_all add: swap_start_def gross_out_def fail_def)
qed

text \<open>What a successful step computed.\<close>

definition swap_result ::
  "bool \<Rightarrow> bool \<Rightarrow> nat \<Rightarrow> nat \<Rightarrow> nat \<Rightarrow> nat \<Rightarrow> nat \<Rightarrow> bool \<Rightarrow> swap_computation \<Rightarrow> bool" where
  "swap_result base on_input p t L rem fee z r \<longleftrightarrow>
     (let q = reached base z p t L (calc_amount base on_input rem fee) in
      calc_amount base on_input rem fee < 2 ^ 64 \<and> curve_in z L p q < 2 ^ 64 \<and>
      compute_swap_fee t rem fee base on_input
        \<lparr>sc_price_next = q, sc_amount_in = curve_in z L p q,
         sc_amount_out = gross_out base z L p t q, sc_fee_amount = 0\<rparr> = Inr r)"

lemma compute_swap_eq:
  fixes base on_input :: bool
  assumes args: "swap_args z p t L rem fee"
  defines "x \<equiv> calc_amount base on_input rem fee"
  defines "q \<equiv> reached base z p t L x"
  shows "compute_swap p t L rem fee base z on_input =
    (if \<not> x < 2 ^ 64 then fail CalculateOverflow
     else if curve_in z L p q < 2 ^ 64 \<and> gross_out base z L p t q < 2 ^ 64
     then compute_swap_fee t rem fee base on_input
        \<lparr>sc_price_next = q, sc_amount_in = curve_in z L p q,
         sc_amount_out = gross_out base z L p t q, sc_fee_amount = 0\<rparr>
     else fail MaxTokenOverflow)"
proof (cases "x < 2 ^ 64")
  case True
  note price = compute_swap_price_eq [OF args, of base on_input, folded x_def, folded q_def]
  have dir: "if z then t \<le> q else q \<le> t"
    using reached_towards [OF args, of base x] by (auto simp: towards_def q_def split: if_splits)
  have q: "0 < q" "q < 2 ^ 128"
    using reached_price_fits [OF args, of base x] unfolding q_def by blast+
  have a: "0 < p" "p < 2 ^ 128" "L < 2 ^ 128" using args unfolding swap_args_def by blast+
  have "curve_in z L p q < 2 ^ 64" if "base" "t = q"
  proof -
    have "reached True z p t L x = t" using that by (simp add: q_def)
    from reached_input_target [OF args this] show ?thesis using that True by simp
  qed
  then have amounts: "compute_swap_amounts p t L base z (swap_start base z p t L q) =
      (if curve_in z L p q < 2 ^ 64 \<and> gross_out base z L p t q < 2 ^ 64
       then Inr \<lparr>sc_price_next = q, sc_amount_in = curve_in z L p q,
                 sc_amount_out = gross_out base z L p t q, sc_fee_amount = 0\<rparr>
       else fail MaxTokenOverflow)"
    by (rule compute_swap_amounts_eq [OF q a])
  from dir have dir': "(if z then sc_price_next (swap_start base z p t L q) \<ge> t
      else t \<ge> sc_price_next (swap_start base z p t L q)) = True"
    by (cases z) (simp_all add: swap_start_def)
  show ?thesis
    unfolding compute_swap_def price if_P [OF True] and_then_simps dir' require_simps amounts
    using True by (simp only: fail_def and_then_simps not_True_eq_False if_False split: if_split) blast
next
  case False
  then show ?thesis
    unfolding compute_swap_def compute_swap_price_eq [OF args] x_def by (simp add: fail_def)
qed

lemma compute_swap_Inr:
  assumes "swap_args z p t L rem fee" "compute_swap p t L rem fee base z on_input = Inr r"
  shows "swap_result base on_input p t L rem fee z r"
  using assms(2) unfolding compute_swap_eq [OF assms(1)] swap_result_def Let_def
  by (simp add: fail_def split: if_split_asm)

text \<open>On valid arguments the only failures are the two overflow errors: no panic, and the
  direction check always passes.\<close>

lemma compute_swap_fee_failure:
  "fee < FEE_RATE_DENOMINATOR_VALUE \<Longrightarrow>
   compute_swap_fee t rem fee base on_input r = Inl e \<Longrightarrow> e = Code CalculateOverflow"
  by (simp add: compute_swap_fee_def u_defs mul_div_eq fail_def Let_def split: if_splits)

lemma compute_swap_failure:
  assumes "swap_args z p t L rem fee" "compute_swap p t L rem fee base z on_input = Inl e"
  shows "e = Code CalculateOverflow \<or> e = Code MaxTokenOverflow"
proof -
  have "fee < FEE_RATE_DENOMINATOR_VALUE" using assms(1) by (simp add: swap_args_def)
  note fee = compute_swap_fee_failure [OF this]
  show ?thesis
    using assms(2) fee unfolding compute_swap_eq [OF assms(1)]
    by (simp only: fail_def sum.inject split: if_split_asm) auto
qed

section \<open>What a step takes and gives\<close>

lemma swap_result_price:
  "swap_result base on_input p t L rem fee z r \<Longrightarrow>
   sc_price_next r = reached base z p t L (calc_amount base on_input rem fee)"
  by (auto simp: swap_result_def compute_swap_fee_def res_simps Let_def split: if_split_asm)

lemma swap_result_in:
  "swap_result base on_input p t L rem fee z r \<Longrightarrow>
   sc_amount_in r = curve_in z L p (sc_price_next r) \<and> sc_amount_in r < 2 ^ 64"
  by (auto simp: swap_result_def compute_swap_fee_def res_simps Let_def split: if_split_asm)

lemma swap_result_out:
  "swap_result base on_input p t L rem fee z r \<Longrightarrow>
   sc_amount_out r + (if on_input then 0 else sc_fee_amount r)
     \<le> gross_out base z L p t (sc_price_next r)"
  by (auto simp: swap_result_def compute_swap_fee_def res_simps Let_def split: if_split_asm)

lemma fee_on_top:
  assumes "fee < D" "a * D \<le> rem * (D - fee)"
  shows "a + ceil_div (a * fee) (D - fee) \<le> rem"
proof -
  obtain e where e: "D = fee + e" "0 < e" using assms(1) by (metis less_imp_add_positive)
  have le: "a * fee + a * e \<le> rem * e" using assms(2) e by (simp add: algebra_simps)
  then have "a * e \<le> rem * e" by linarith
  then have "a \<le> rem" using e by simp
  then obtain d where d: "rem = a + d" using le_Suc_ex by blast
  have "a * fee \<le> d * e" using le by (simp add: d algebra_simps)
  then show ?thesis using e d by (simp add: ceil_div_le_iff)
qed

lemma calc_amount_in_fee:
  "(calc_amount True True rem fee) * FEE_RATE_DENOMINATOR_VALUE
     \<le> rem * (FEE_RATE_DENOMINATOR_VALUE - fee)"
  by (simp add: calc_amount_def div_mult_le)

lemma net_of_gross:
  assumes "fee < D" "ceil_div (rem * D) (D - fee) \<le> gross"
  shows "rem \<le> gross - ceil_div (gross * fee) D"
proof -
  obtain e where e: "D = fee + e" "0 < e" using assms(1) by (metis less_imp_add_positive)
  have "rem * D \<le> gross * e" using assms(2) e by (simp add: ceil_div_le_iff)
  then have "gross * fee + rem * D \<le> gross * D" by (simp add: e algebra_simps)
  then have "gross * fee \<le> (gross - rem) * D" by (simp add: diff_mult_distrib)
  then have fee: "ceil_div (gross * fee) D \<le> gross - rem"
    using e by (simp add: ceil_div_le_iff)
  have "rem * D \<le> gross * D" using \<open>gross * fee + rem * D \<le> gross * D\<close> by linarith
  then have "rem \<le> gross" using e by simp
  then show ?thesis using fee by linarith
qed

lemma swap_result_input_amount:
  assumes "swap_args z p t L rem fee" "swap_result True on_input p t L rem fee z r"
  shows "sc_amount_in r \<le> calc_amount True on_input rem fee"
  using swap_result_in [OF assms(2)] swap_result_price [OF assms(2)] curve_in_reached [OF assms(1)]
  by simp

lemma swap_result_input_net:
  assumes "swap_args z p t L rem fee" "swap_result True True p t L rem fee z r"
  shows "sc_amount_in r * FEE_RATE_DENOMINATOR_VALUE \<le> rem * (FEE_RATE_DENOMINATOR_VALUE - fee)"
  using mult_le_mono1 [OF swap_result_input_amount [OF assms]] calc_amount_in_fee
  by (rule le_trans)

lemma swap_result_fee_on_input:
  assumes "swap_result base True p t L rem fee z r"
  shows "sc_fee_amount r =
    (if base \<and> sc_price_next r \<noteq> t then rem - sc_amount_in r
     else ceil_div (sc_amount_in r * fee) (FEE_RATE_DENOMINATOR_VALUE - fee))"
  using assms
  by (cases base) (auto simp: swap_result_def compute_swap_fee_def res_simps Let_def
      split: if_split_asm)

lemma swap_result_input:
  assumes args: "swap_args z p t L rem fee" and r: "swap_result True on_input p t L rem fee z r"
  shows "sc_amount_in r + (if on_input then sc_fee_amount r else 0) \<le> rem"
    "on_input \<Longrightarrow> sc_price_next r \<noteq> t \<Longrightarrow> sc_amount_in r + sc_fee_amount r = rem"
proof -
  let ?D = FEE_RATE_DENOMINATOR_VALUE
  have fee: "fee < ?D" using args by (simp add: swap_args_def)
  have le: "sc_amount_in r \<le> rem"
    using swap_result_input_amount [OF args r] calc_amount_le le_trans by blast
  have *: "sc_amount_in r + ceil_div (sc_amount_in r * fee) (?D - fee) \<le> rem" if on_input
    using fee_on_top [OF fee] swap_result_input_net [OF args] r that by simp
  have f: "sc_fee_amount r =
      (if sc_price_next r \<noteq> t then rem - sc_amount_in r else ceil_div (sc_amount_in r * fee) (?D - fee))"
    if on_input
    using swap_result_fee_on_input [of True] r that by simp
  show "sc_amount_in r + (if on_input then sc_fee_amount r else 0) \<le> rem" using * f le by auto
  show "sc_amount_in r + sc_fee_amount r = rem" if on_input "sc_price_next r \<noteq> t"
    using that f le by simp
qed

lemma swap_result_output:
  assumes args: "swap_args z p t L rem fee" and r: "swap_result False on_input p t L rem fee z r"
  shows "sc_amount_out r \<le> rem"
    "sc_price_next r \<noteq> t \<Longrightarrow> sc_amount_out r = rem"
proof -
  let ?D = FEE_RATE_DENOMINATOR_VALUE
  let ?x = "calc_amount False on_input rem fee"
  let ?q = "reached False z p t L ?x"
  let ?g = "gross_out False z L p t ?q"
  have fee: "fee < ?D" using args by (simp add: swap_args_def)
  have q: "sc_price_next r = ?q" by (rule swap_result_price [OF r])
  have out: "sc_amount_out r = (if on_input then min ?g rem else min (?g - ceil_div (?g * fee) ?D) rem)"
    using r by (auto simp: swap_result_def compute_swap_fee_def res_simps Let_def split: if_split_asm)
  then show "sc_amount_out r \<le> rem" by simp
  assume "sc_price_next r \<noteq> t"
  then have "?q \<noteq> t" using q by simp
  then have g: "?x \<le> ?g" using curve_out_reached [OF args] by (simp add: gross_out_def)
  show "sc_amount_out r = rem"
  proof (cases on_input)
    case True
    then show ?thesis using out g by (simp add: calc_amount_def)
  next
    case False
    then have "rem \<le> ?g - ceil_div (?g * fee) ?D"
      using g fee by (intro net_of_gross) (simp_all add: calc_amount_def)
    then show ?thesis using out False by simp
  qed
qed

lemma swap_result_fee:
  assumes args: "swap_args z p t L rem fee" and r: "swap_result base on_input p t L rem fee z r"
  shows "on_input \<Longrightarrow>
      sc_amount_in r * fee \<le> sc_fee_amount r * (FEE_RATE_DENOMINATOR_VALUE - fee)"
    and "\<not> on_input \<Longrightarrow>
      (sc_amount_out r + sc_fee_amount r) * fee \<le> sc_fee_amount r * FEE_RATE_DENOMINATOR_VALUE"
proof -
  let ?D = FEE_RATE_DENOMINATOR_VALUE
  have fee: "fee < ?D" using args by (simp add: swap_args_def)
  show "sc_amount_in r * fee \<le> sc_fee_amount r * (?D - fee)" if on_input
  proof (cases "base \<and> sc_price_next r \<noteq> t")
    case True
    have r': "swap_result True True p t L rem fee z r" using r True that by simp
    then have net: "sc_amount_in r * ?D \<le> rem * (?D - fee)" by (rule swap_result_input_net [OF args])
    have rem: "rem = sc_amount_in r + sc_fee_amount r"
      using swap_result_input(2) [OF args r'] True by simp
    obtain e where e: "?D = fee + e" using fee by (metis less_imp_add_positive)
    have "sc_amount_in r * fee \<le> sc_fee_amount r * e"
      using net unfolding rem e by (simp add: algebra_simps)
    moreover have "?D - fee = e" unfolding e by simp
    ultimately show ?thesis by simp
  next
    case False
    then have "sc_fee_amount r = ceil_div (sc_amount_in r * fee) (?D - fee)"
      using swap_result_fee_on_input [of base] r that by auto
    then show ?thesis using fee by (simp add: le_ceil_div_mult)
  qed
  show "(sc_amount_out r + sc_fee_amount r) * fee \<le> sc_fee_amount r * ?D" if "\<not> on_input"
  proof -
    let ?g = "gross_out base z L p t (reached base z p t L (calc_amount base on_input rem fee))"
    have "sc_amount_out r + sc_fee_amount r = ?g" "ceil_div (?g * fee) ?D \<le> sc_fee_amount r"
      using r that by (auto simp: swap_result_def compute_swap_fee_def res_simps Let_def split: if_split_asm)
    then show ?thesis by (simp add: ceil_div_le_iff)
  qed
qed

section \<open>A small swap\<close>

lemmas swap_evaluation =
  compute_swap_def compute_swap_price_def compute_swap_amounts_def compute_swap_fee_def
  new_swap_computation_def calculate_amount_in_range_def get_delta_amount_0_unsigned_def
  get_delta_amount_1_unsigned_def get_next_sqrt_price_from_input_def
  get_next_sqrt_price_from_output_def get_next_sqrt_price_from_amount_0_rounding_up_def
  get_next_sqrt_price_from_amount_1_rounding_down_def ordered_def mul_div_eq ceil_div_def
  div_rounding_up_def u_defs Q64_def RESOLUTION_def FEE_RATE_DENOMINATOR_VALUE_def fail_def Let_def

lemma example_exact_input:
  "compute_swap (2 ^ 64) 18445821805675395072 20001499987 500000 2500 True True True =
    Inr \<lparr>sc_price_next = 18446284103997137639, sc_amount_in = 498750, sc_amount_out = 498737,
         sc_fee_amount = 1250\<rparr>"
  by (simp add: swap_evaluation)

lemma example_exact_output:
  "compute_swap (2 ^ 64) 18445821805675395072 20001499987 500000 2500 False True False =
    Inr \<lparr>sc_price_next = 18446281783168345557, sc_amount_in = 501267, sc_amount_out = 500000,
         sc_fee_amount = 1254\<rparr>"
  by (simp add: swap_evaluation)

lemma example_swap_args:
  "swap_args True (2 ^ 64) 18445821805675395072 20001499987 500000 2500"
  by (simp add: swap_args_def FEE_RATE_DENOMINATOR_VALUE_def towards_def)

section \<open>Properties\<close>

text \<open>
  An exact-input step never consumes more than the input that remains, the fee on the input
  included, and consumes all of it when it stops short of the target; the price moves towards
  the target and not past it.
\<close>

theorem compute_swap_exact_input:
  assumes "swap_args z p t L rem fee"
    and "compute_swap p t L rem fee True z on_input = Inr r"
  shows "towards z p (sc_price_next r) t \<and>
    sc_amount_in r + (if on_input then sc_fee_amount r else 0) \<le> rem \<and>
    (on_input \<and> sc_price_next r \<noteq> t \<longrightarrow> sc_amount_in r + sc_fee_amount r = rem)"
proof -
  note r = compute_swap_Inr [OF assms]
  show ?thesis
    using swap_result_input [OF assms(1) r] swap_result_price [OF r] reached_towards [OF assms(1)]
    by auto
qed

theorem compute_swap_exact_input_witness:
  "towards True (2 ^ 64) 18446284103997137639 18445821805675395072 \<and>
   (498750 :: nat) + 1250 \<le> 500000 \<and> (498750 :: nat) + 1250 = 500000"
  using compute_swap_exact_input [OF example_swap_args example_exact_input] by simp

text \<open>
  An exact-output step never pays out more than the output that remains, and pays all of it
  when it stops short of the target, whichever side the fee is taken on.
\<close>

theorem compute_swap_exact_output:
  assumes "swap_args z p t L rem fee"
    and "compute_swap p t L rem fee False z on_input = Inr r"
  shows "towards z p (sc_price_next r) t \<and> sc_amount_out r \<le> rem \<and>
    (sc_price_next r \<noteq> t \<longrightarrow> sc_amount_out r = rem)"
proof -
  note r = compute_swap_Inr [OF assms]
  show ?thesis
    using swap_result_output [OF assms(1) r] swap_result_price [OF r] reached_towards [OF assms(1)]
    by simp
qed

theorem compute_swap_exact_output_witness:
  "towards True (2 ^ 64) 18446281783168345557 18445821805675395072 \<and> (500000 :: nat) \<le> 500000"
  using compute_swap_exact_output [OF example_swap_args example_exact_output] by simp

text \<open>
  C4. Every step favours the pool: the trader pays at least the curve amount (rounded up) for
  the price move, and the output together with a fee taken from it is at most the curve amount
  (rounded down); and the fee is never below the fee rate.
\<close>

theorem compute_swap_favours_pool:
  assumes "swap_args z p t L rem fee" "compute_swap p t L rem fee base z on_input = Inr r"
  shows "sc_amount_in r = curve_in z L p (sc_price_next r) \<and>
    sc_amount_out r + (if on_input then 0 else sc_fee_amount r) \<le> curve_out z L p (sc_price_next r) \<and>
    (if on_input
     then sc_amount_in r * fee \<le> sc_fee_amount r * (FEE_RATE_DENOMINATOR_VALUE - fee)
     else (sc_amount_out r + sc_fee_amount r) * fee \<le> sc_fee_amount r * FEE_RATE_DENOMINATOR_VALUE)"
proof -
  note r = compute_swap_Inr [OF assms]
  show ?thesis
    using swap_result_in [OF r] le_trans [OF swap_result_out [OF r] gross_out_le]
      swap_result_fee [OF assms(1) r] by simp
qed

theorem compute_swap_favours_pool_witness:
  "(501267 :: nat) = curve_in True 20001499987 (2 ^ 64) 18446281783168345557 \<and>
   (500000 :: nat) + 1254 \<le> curve_out True 20001499987 (2 ^ 64) 18446281783168345557 \<and>
   ((500000 :: nat) + 1254) * 2500 \<le> 1254 * 1000000"
  using compute_swap_favours_pool [OF example_swap_args example_exact_output]
  by (simp add: FEE_RATE_DENOMINATOR_VALUE_def)

text \<open>
  On valid arguments a step fails only with one of the two overflow errors: it never panics,
  and its direction check never fires.
\<close>

theorem compute_swap_errors:
  assumes "swap_args z p t L rem fee" "compute_swap p t L rem fee base z on_input = Inl e"
  shows "e = Code CalculateOverflow \<or> e = Code MaxTokenOverflow"
  using compute_swap_failure [OF assms] .

theorem compute_swap_errors_witness:
  "Code CalculateOverflow = Code CalculateOverflow \<or> Code CalculateOverflow = Code MaxTokenOverflow"
proof (rule compute_swap_errors)
  show "swap_args True (2 ^ 64) 18445821805675395072 20001499987 U64_MAX 2500"
    by (simp add: swap_args_def FEE_RATE_DENOMINATOR_VALUE_def towards_def)
  show "compute_swap (2 ^ 64) 18445821805675395072 20001499987 U64_MAX 2500 False True False =
      Inl (Code CalculateOverflow)"
    by (simp add: swap_evaluation)
qed

text \<open>
  A corner of exact output in which the trader pays for nothing: the output to the target
  exceeds 64 bits, so it is dropped, but the price of the requested output is the target, so it
  is not recomputed. The step charges an input and a fee and returns an output of \<open>0\<close>.
\<close>

theorem exact_output_pays_nothing:
  "compute_swap 1237940039285380274899124224 1237940039285380274899124222 (2 ^ 127) (2 ^ 63 + 1) 2500
     False True True =
    Inr \<lparr>sc_price_next = 1237940039285380274899124222, sc_amount_in = 4097, sc_amount_out = 0,
         sc_fee_amount = 11\<rparr>"
  by (simp add: swap_evaluation)

end
