(* ===== verification/Tick_State.thy ===== *)
theory Tick_State
  imports Swap_Math
begin

text \<open>
  \<open>TickState\<close> and \<open>RewardInfo\<close> of \<open>states/tick_array.rs\<close> and \<open>states/pool.rs\<close>: liquidity
  referencing a tick, the growth accumulators seen from its other side, and the limit orders
  queued on it. Growth accumulators wrap and are 128-bit words. Tick indices in a \<open>tick_state\<close>
  are multiples of the pool's spacing.
\<close>

section \<open>Data\<close>

type_synonym growth = "128 word"

definition REWARD_NUM :: nat where "REWARD_NUM = 3"

record reward_info =
  ri_reward_state :: nat
  ri_open_time :: nat
  ri_end_time :: nat
  ri_last_update_time :: nat
  ri_emissions_per_second_x64 :: nat
  ri_reward_total_emitted :: nat
  ri_reward_claimed :: nat
  ri_token_mint :: nat
  ri_token_vault :: nat
  ri_authority :: nat
  ri_reward_growth_global_x64 :: growth

text \<open>The default public key is \<open>0\<close>.\<close>

definition reward_initialized :: "reward_info \<Rightarrow> bool" where
  "reward_initialized r \<longleftrightarrow> ri_token_mint r \<noteq> 0"

definition get_reward_growths :: "reward_info list \<Rightarrow> growth list" where
  "get_reward_growths = List.map ri_reward_growth_global_x64"

record tick_state =
  t_tick :: int
  t_liquidity_net :: int
  t_liquidity_gross :: nat
  t_fee_growth_outside_0 :: growth
  t_fee_growth_outside_1 :: growth
  t_reward_growths_outside :: "growth list"
  t_order_phase :: nat
  t_orders_amount :: nat
  t_part_filled_orders_remaining :: nat
  t_unfilled_ratio_x64 :: nat

definition default_tick_state :: tick_state where
  "default_tick_state =
     \<lparr>t_tick = 0, t_liquidity_net = 0, t_liquidity_gross = 0, t_fee_growth_outside_0 = 0,
      t_fee_growth_outside_1 = 0, t_reward_growths_outside = replicate REWARD_NUM 0,
      t_order_phase = 0, t_orders_amount = 0, t_part_filled_orders_remaining = 0,
      t_unfilled_ratio_x64 = 0\<rparr>"

record limit_order_match_result =
  lm_amount_in :: nat
  lm_amount_out :: nat
  lm_amm_fee_amount :: nat

section \<open>Liquidity and growth\<close>

definition has_limit_orders :: "tick_state \<Rightarrow> bool" where
  "has_limit_orders t \<longleftrightarrow> t_orders_amount t > 0 \<or> t_part_filled_orders_remaining t > 0"

definition has_liquidity :: "tick_state \<Rightarrow> bool" where
  "has_liquidity t \<longleftrightarrow> t_liquidity_gross t > 0"

definition is_initialized :: "tick_state \<Rightarrow> bool" where
  "is_initialized t \<longleftrightarrow> has_liquidity t \<or> has_limit_orders t"

definition check_is_out_of_boundary :: "int \<Rightarrow> bool" where
  "check_is_out_of_boundary tick \<longleftrightarrow> tick < MIN_TICK \<or> tick > MAX_TICK"

definition tick_initialize :: "int \<Rightarrow> nat \<Rightarrow> tick_state \<Rightarrow> tick_state res" where
  "tick_initialize tick tick_spacing t =
     (if check_is_out_of_boundary tick then fail InvalidTickIndex
      else and_then (smod_i 32 tick (int tick_spacing)) (\<lambda>r.
        require (r = 0) TickAndSpacingNotMatch (Inr (t\<lparr>t_tick := tick\<rparr>))))"

definition limit_order_unfilled_amount :: "tick_state \<Rightarrow> nat res" where
  "limit_order_unfilled_amount t =
     ok_or (checked_add 64 (t_orders_amount t) (t_part_filled_orders_remaining t)) CalculateOverflow"

definition tick_update ::
  "int \<Rightarrow> int \<Rightarrow> growth \<Rightarrow> growth \<Rightarrow> bool \<Rightarrow> reward_info list \<Rightarrow> tick_state
     \<Rightarrow> (tick_state \<times> bool) res" where
  "tick_update tick_current liquidity_delta fee_growth_global_0 fee_growth_global_1 upper
     reward_infos t =
   (let liquidity_gross_before = t_liquidity_gross t in
    and_then (add_delta liquidity_gross_before liquidity_delta) (\<lambda>liquidity_gross_after.
    and_then (limit_order_unfilled_amount t) (\<lambda>unfilled.
    let no_unfilled_orders = (unfilled = 0);
        flipped = ((liquidity_gross_after = 0) \<noteq> (liquidity_gross_before = 0)) \<and> no_unfilled_orders;
        t = (if liquidity_gross_before = 0 \<and> t_tick t \<le> tick_current
             then t\<lparr>t_fee_growth_outside_0 := fee_growth_global_0,
                    t_fee_growth_outside_1 := fee_growth_global_1,
                    t_reward_growths_outside := get_reward_growths reward_infos\<rparr>
             else t);
        t = t\<lparr>t_liquidity_gross := liquidity_gross_after\<rparr>
    in and_then (ok_or (checked_i 128
            (if upper then t_liquidity_net t - liquidity_delta else t_liquidity_net t + liquidity_delta))
          CalculateOverflow) (\<lambda>net.
       Inr (t\<lparr>t_liquidity_net := net\<rparr>, flipped)))))"

text \<open>The reward loop of \<open>cross\<close>: slot \<open>i\<close> is flipped when reward \<open>i\<close> is initialized.\<close>

definition flip_rewards :: "reward_info list \<Rightarrow> growth list \<Rightarrow> growth list" where
  "flip_rewards reward_infos outside =
     map2 (\<lambda>r g. if reward_initialized r then ri_reward_growth_global_x64 r - g else g)
       reward_infos outside"

definition tick_cross :: "growth \<Rightarrow> growth \<Rightarrow> reward_info list \<Rightarrow> tick_state \<Rightarrow> tick_state \<times> int" where
  "tick_cross fee_growth_global_0 fee_growth_global_1 reward_infos t =
     (t\<lparr>t_fee_growth_outside_0 := fee_growth_global_0 - t_fee_growth_outside_0 t,
        t_fee_growth_outside_1 := fee_growth_global_1 - t_fee_growth_outside_1 t,
        t_reward_growths_outside := flip_rewards reward_infos (t_reward_growths_outside t)\<rparr>,
      t_liquidity_net t)"

definition tick_clear :: "tick_state \<Rightarrow> tick_state" where
  "tick_clear t =
     t\<lparr>t_liquidity_net := 0, t_liquidity_gross := 0, t_fee_growth_outside_0 := 0,
       t_fee_growth_outside_1 := 0, t_reward_growths_outside := replicate REWARD_NUM 0\<rparr>"

definition get_fee_growth_inside ::
  "tick_state \<Rightarrow> tick_state \<Rightarrow> int \<Rightarrow> growth \<Rightarrow> growth \<Rightarrow> growth \<times> growth" where
  "get_fee_growth_inside lower upper tick_current global_0 global_1 =
     (let (below_0, below_1) =
            (if tick_current \<ge> t_tick lower
             then (t_fee_growth_outside_0 lower, t_fee_growth_outside_1 lower)
             else (global_0 - t_fee_growth_outside_0 lower, global_1 - t_fee_growth_outside_1 lower));
          (above_0, above_1) =
            (if tick_current < t_tick upper
             then (t_fee_growth_outside_0 upper, t_fee_growth_outside_1 upper)
             else (global_0 - t_fee_growth_outside_0 upper, global_1 - t_fee_growth_outside_1 upper))
      in (global_0 - below_0 - above_0, global_1 - below_1 - above_1))"

definition get_reward_growths_inside ::
  "tick_state \<Rightarrow> tick_state \<Rightarrow> int \<Rightarrow> reward_info list \<Rightarrow> growth list" where
  "get_reward_growths_inside lower upper tick_current reward_infos =
     List.map (\<lambda>i.
       let r = reward_infos ! i; global = ri_reward_growth_global_x64 r in
       if \<not> reward_initialized r then 0
       else let below = (if tick_current \<ge> t_tick lower then t_reward_growths_outside lower ! i
                         else global - t_reward_growths_outside lower ! i);
                above = (if tick_current < t_tick upper then t_reward_growths_outside upper ! i
                         else global - t_reward_growths_outside upper ! i)
            in global - below - above) [0..<REWARD_NUM]"

definition check_ticks_order :: "int \<Rightarrow> int \<Rightarrow> unit res" where
  "check_ticks_order tick_lower_index tick_upper_index =
     require (tick_lower_index < tick_upper_index) TickInvalidOrder (Inr ())"

section \<open>Limit orders on a tick\<close>

definition get_limit_order_output :: "nat \<Rightarrow> int \<Rightarrow> bool \<Rightarrow> nat res" where
  "get_limit_order_output amount_in tick zero_for_one =
     (if zero_for_one then
        and_then (get_price_at_tick tick False) (\<lambda>token_0_price_x64.
        and_then (ok_or (mul_div_floor 128 amount_in token_0_price_x64 Q64) CalculateOverflow)
          (as_uint 64))
      else
        and_then (get_price_at_tick tick True) (\<lambda>token_0_price_x64.
        and_then (ok_or (mul_div_floor 128 amount_in Q64 token_0_price_x64) CalculateOverflow)
          (as_uint 64)))"

definition get_limit_order_input :: "nat \<Rightarrow> int \<Rightarrow> bool \<Rightarrow> nat res" where
  "get_limit_order_input amount_out tick zero_for_one =
     (if zero_for_one then
        and_then (get_price_at_tick tick True) (\<lambda>token_0_price_x64.
        and_then (ok_or (mul_div_ceil 128 amount_out token_0_price_x64 Q64) CalculateOverflow)
          (as_uint 64))
      else
        and_then (get_price_at_tick tick False) (\<lambda>token_0_price_x64.
        and_then (ok_or (mul_div_ceil 128 amount_out Q64 token_0_price_x64) CalculateOverflow)
          (as_uint 64)))"

text \<open>\<open>match_limit_order\<close> in its three parts: the amounts before any fee on the output, the
  consumption of the queue by the gross output, and the fee on the output.\<close>

definition match_amounts ::
  "nat \<Rightarrow> nat \<Rightarrow> bool \<Rightarrow> bool \<Rightarrow> nat \<Rightarrow> bool \<Rightarrow> int \<Rightarrow> limit_order_match_result res" where
  "match_amounts total_unfilled_amount swap_amount zero_for_one is_base_input fee_rate
     is_fee_on_input tick =
   (if is_base_input then
      and_then
        (if is_fee_on_input
         then and_then (ok_or (mul_div_ceil 64 swap_amount fee_rate FEE_RATE_DENOMINATOR_VALUE)
                CalculateOverflow) (\<lambda>fee.
              and_then (sub_u swap_amount fee) (\<lambda>amount_in. Inr (amount_in, fee)))
         else Inr (swap_amount, 0)) (\<lambda>(amount_in, fee).
      and_then (get_limit_order_output amount_in tick zero_for_one) (\<lambda>amount_out.
      if amount_out > total_unfilled_amount then
        and_then (get_limit_order_input total_unfilled_amount tick (\<not> zero_for_one)) (\<lambda>amount_in.
        and_then
          (if is_fee_on_input
           then and_then (sub_u FEE_RATE_DENOMINATOR_VALUE fee_rate) (\<lambda>d.
                ok_or (mul_div_ceil 64 amount_in fee_rate d) CalculateOverflow)
           else Inr fee) (\<lambda>fee.
        Inr \<lparr>lm_amount_in = amount_in, lm_amount_out = total_unfilled_amount,
             lm_amm_fee_amount = fee\<rparr>))
      else
        Inr \<lparr>lm_amount_in = amount_in, lm_amount_out = amount_out, lm_amm_fee_amount = fee\<rparr>))
    else
      let net_output = min swap_amount total_unfilled_amount in
      and_then
        (if is_fee_on_input then Inr net_output
         else and_then (sub_u FEE_RATE_DENOMINATOR_VALUE fee_rate) (\<lambda>d.
              and_then (ok_or (mul_div_ceil 64 net_output FEE_RATE_DENOMINATOR_VALUE d)
                CalculateOverflow) (\<lambda>gross. Inr (min gross total_unfilled_amount)))) (\<lambda>amount_out.
      and_then (get_limit_order_input amount_out tick (\<not> zero_for_one)) (\<lambda>amount_in.
      and_then
        (if is_fee_on_input
         then and_then (sub_u FEE_RATE_DENOMINATOR_VALUE fee_rate) (\<lambda>d.
              ok_or (mul_div_ceil 64 amount_in fee_rate d) CalculateOverflow)
         else Inr 0) (\<lambda>fee.
      Inr \<lparr>lm_amount_in = amount_in, lm_amount_out = amount_out, lm_amm_fee_amount = fee\<rparr>))))"

definition consume_limit_orders :: "nat \<Rightarrow> tick_state \<Rightarrow> tick_state res" where
  "consume_limit_orders amount_out t =
   (let part = t_part_filled_orders_remaining t;
        consumed = (if part > 0 then min part amount_out else 0)
    in and_then
      (if part > 0 then
         and_then
           (if consumed > 0
            then and_then (ok_or (mul_div_floor 128 (t_unfilled_ratio_x64 t) (part - consumed) part)
                   CalculateOverflow) (\<lambda>ratio. Inr (t\<lparr>t_unfilled_ratio_x64 := ratio\<rparr>))
            else Inr t) (\<lambda>t.
         Inr (t\<lparr>t_part_filled_orders_remaining := saturating_sub part consumed\<rparr>))
       else Inr t) (\<lambda>t.
    let rest = saturating_sub amount_out consumed in
    if rest > 0 then
      require_plain (t_part_filled_orders_remaining t = 0)
      (require (t_orders_amount t \<ge> rest) InvalidLimitOrderAmount
      (and_then (sub_u (t_orders_amount t) rest) (\<lambda>left.
       and_then (ok_or (mul_div_floor 128 Q64 left (t_orders_amount t)) CalculateOverflow) (\<lambda>ratio.
       Inr (t\<lparr>t_order_phase := saturating_add 64 (t_order_phase t) 1,
              t_unfilled_ratio_x64 := ratio,
              t_part_filled_orders_remaining := left,
              t_orders_amount := 0\<rparr>)))))
    else Inr t))"

definition match_limit_order ::
  "nat \<Rightarrow> bool \<Rightarrow> bool \<Rightarrow> nat \<Rightarrow> bool \<Rightarrow> tick_state
     \<Rightarrow> (tick_state \<times> limit_order_match_result) res" where
  "match_limit_order swap_amount zero_for_one is_base_input fee_rate is_fee_on_input t =
   and_then (limit_order_unfilled_amount t) (\<lambda>total_unfilled_amount.
   if swap_amount = 0 \<or> total_unfilled_amount = 0
   then Inr (t, \<lparr>lm_amount_in = 0, lm_amount_out = 0, lm_amm_fee_amount = 0\<rparr>)
   else
     and_then (match_amounts total_unfilled_amount swap_amount zero_for_one is_base_input fee_rate
       is_fee_on_input (t_tick t)) (\<lambda>result.
     and_then (consume_limit_orders (lm_amount_out result) t) (\<lambda>t.
     if \<not> is_fee_on_input then
       and_then (ok_or (mul_div_ceil 64 (lm_amount_out result) fee_rate FEE_RATE_DENOMINATOR_VALUE)
         CalculateOverflow) (\<lambda>fee.
       and_then (ok_or (checked_sub (lm_amount_out result) fee) CalculateOverflow) (\<lambda>net.
       Inr (t, result\<lparr>lm_amm_fee_amount := fee, lm_amount_out := net\<rparr>)))
     else Inr (t, result))))"

section \<open>Consuming the queue\<close>

definition unfilled :: "tick_state \<Rightarrow> nat" where
  "unfilled t = t_orders_amount t + t_part_filled_orders_remaining t"

lemma limit_order_unfilled_amount_Inr [res_simps]:
  "limit_order_unfilled_amount t = Inr n \<longleftrightarrow> n = unfilled t \<and> unfilled t < 2 ^ 64"
  by (auto simp: limit_order_unfilled_amount_def unfilled_def res_simps)

text \<open>What consumption changes: first in first out, the part-filled cohort before the queue; the
  unfilled ratio shrinks with the cohort, or restarts from \<open>Q64\<close> with a new phase.\<close>

lemma consume_limit_orders_Inr:
  assumes "consume_limit_orders x t = Inr t'"
  shows "unfilled t' + x = unfilled t"
    and "x \<le> t_part_filled_orders_remaining t \<Longrightarrow>
      t_order_phase t' = t_order_phase t \<and> t_orders_amount t' = t_orders_amount t \<and>
      t_part_filled_orders_remaining t' = t_part_filled_orders_remaining t - x \<and>
      t_unfilled_ratio_x64 t' =
        (if x = 0 then t_unfilled_ratio_x64 t
         else (t_unfilled_ratio_x64 t * (t_part_filled_orders_remaining t - x))
                div t_part_filled_orders_remaining t)"
    and "t_part_filled_orders_remaining t < x \<Longrightarrow>
      t_order_phase t' = saturating_add 64 (t_order_phase t) 1 \<and> t_orders_amount t' = 0 \<and>
      t_part_filled_orders_remaining t' = unfilled t - x \<and>
      t_unfilled_ratio_x64 t' = (Q64 * (unfilled t - x)) div t_orders_amount t"
  using assms
  by (auto simp: consume_limit_orders_def unfilled_def res_simps saturating_sub_def Let_def min_def
      split: if_split_asm)

lemma consume_limit_orders_frame:
  "consume_limit_orders x t = Inr t' \<Longrightarrow>
   t_tick t' = t_tick t \<and> t_liquidity_net t' = t_liquidity_net t \<and>
   t_liquidity_gross t' = t_liquidity_gross t \<and>
   t_fee_growth_outside_0 t' = t_fee_growth_outside_0 t \<and>
   t_fee_growth_outside_1 t' = t_fee_growth_outside_1 t \<and>
   t_reward_growths_outside t' = t_reward_growths_outside t"
  by (auto simp: consume_limit_orders_def res_simps Let_def split: if_split_asm)

lemma match_limit_order_Inr:
  assumes "match_limit_order amt z base fee on_input t = Inr (t', r)"
    and "amt \<noteq> 0" "unfilled t \<noteq> 0"
  obtains m where
    "match_amounts (unfilled t) amt z base fee on_input (t_tick t) = Inr m"
    "consume_limit_orders (lm_amount_out m) t = Inr t'"
    "lm_amount_in r = lm_amount_in m"
    "if on_input then r = m
     else lm_amm_fee_amount r = ceil_div (lm_amount_out m * fee) FEE_RATE_DENOMINATOR_VALUE \<and>
          lm_amount_out r + lm_amm_fee_amount r = lm_amount_out m"
  using assms by (cases on_input) (auto simp: match_limit_order_def res_simps split: if_split_asm)

section \<open>The exchange rate of a tick\<close>

definition price_value :: "bool \<Rightarrow> int \<Rightarrow> nat" where
  "price_value round_up tick = rounded round_up (sqrt_price tick * sqrt_price tick) Q64"

lemma price_value_bounds:
  assumes "valid_tick tick"
  shows "0 < price_value up tick" "price_value up tick < 2 ^ 128"
proof -
  let ?p = "sqrt_price tick"
  note b = sqrt_price_bounds [OF assms]
  have "MIN_SQRT_PRICE_X64 * MIN_SQRT_PRICE_X64 \<le> ?p * ?p" using b by (intro mult_le_mono) auto
  then have "1 * Q64 \<le> ?p * ?p" by (simp add: MIN_SQRT_PRICE_X64_def Q64_def)
  then have "1 \<le> rounded False (?p * ?p) Q64" by (simp add: rounded_def le_div_iff)
  then show "0 < price_value up tick"
    using rounded_down_le_up [of "?p * ?p" Q64] by (cases up) (auto simp: price_value_def)
  have "?p * ?p \<le> MAX_SQRT_PRICE_X64 * MAX_SQRT_PRICE_X64" using b by (intro mult_le_mono) auto
  then have "rounded True (?p * ?p) Q64 \<le> rounded True (MAX_SQRT_PRICE_X64 * MAX_SQRT_PRICE_X64) Q64"
    by (rule rounded_mono)
  also have "\<dots> < 2 ^ 128" by (simp add: rounded_def ceil_div_def MAX_SQRT_PRICE_X64_def Q64_def)
  finally show "price_value up tick < 2 ^ 128"
    using rounded_down_le_up [of "?p * ?p" Q64] by (cases up) (auto simp: price_value_def)
qed

lemma get_price_at_tick_eq:
  "get_price_at_tick tick up =
     (if valid_tick tick then Inr (price_value up tick) else fail TickUpperOverflow)"
proof (cases "valid_tick tick")
  case True
  then show ?thesis using price_value_bounds(2) [OF True, of up]
    by (cases up) (simp_all add: get_price_at_tick_def get_sqrt_price_at_tick_eq mul_div_eq
        price_value_def rounded_def)
qed (simp add: get_price_at_tick_def get_sqrt_price_at_tick_eq fail_def)

text \<open>A swap in direction \<open>z\<close> gets \<open>num/den\<close> of the other token per token, rounded against
  it in both directions.\<close>

definition rate_num :: "bool \<Rightarrow> int \<Rightarrow> nat" where
  "rate_num z tick = (if z then price_value False tick else Q64)"

definition rate_den :: "bool \<Rightarrow> int \<Rightarrow> nat" where
  "rate_den z tick = (if z then Q64 else price_value True tick)"

lemma rate_pos: "valid_tick tick \<Longrightarrow> 0 < rate_num z tick" "valid_tick tick \<Longrightarrow> 0 < rate_den z tick"
  by (simp_all add: rate_num_def rate_den_def price_value_bounds)

lemma get_limit_order_output_Inr [res_simps]:
  "get_limit_order_output x tick z = Inr y \<longleftrightarrow>
     valid_tick tick \<and> y = (x * rate_num z tick) div rate_den z tick \<and> y < 2 ^ 64"
  using price_value_bounds(1) [of tick True]
  by (auto simp: get_limit_order_output_def get_price_at_tick_eq res_simps rate_num_def rate_den_def
      fail_def split: if_split_asm)

lemma get_limit_order_input_Inr [res_simps]:
  "get_limit_order_input y tick (\<not> z) = Inr x \<longleftrightarrow>
     valid_tick tick \<and> x = ceil_div (y * rate_den z tick) (rate_num z tick) \<and> x < 2 ^ 64"
  using price_value_bounds(1) [of tick False]
  by (auto simp: get_limit_order_input_def get_price_at_tick_eq res_simps rate_num_def rate_den_def
      fail_def split: if_split_asm)

section \<open>The amounts of a match\<close>

text \<open>On an exact input, the input of the smaller output never exceeds the input offered.\<close>

lemma input_of_smaller_output:
  assumes "valid_tick tick" "y < (x * rate_num z tick) div rate_den z tick"
  shows "ceil_div (y * rate_den z tick) (rate_num z tick) \<le> x"
proof -
  have "y * rate_den z tick \<le> x * rate_num z tick"
    using less_imp_le [OF assms(2)] by (simp only: le_div_iff [OF rate_pos(2) [OF assms(1)]])
  then show ?thesis using rate_pos(1) [OF assms(1), of z] by (simp add: ceil_div_le_iff)
qed

lemma input_after_fee:
  assumes "fee < D" "fee_amount = ceil_div (amt * fee) D" "fee_amount \<le> amt"
  shows "(amt - fee_amount) * D \<le> amt * (D - fee)"
proof -
  have "amt * fee \<le> fee_amount * D" using assms by (simp add: le_ceil_div_mult)
  then show ?thesis by (simp add: diff_mult_distrib diff_mult_distrib2)
qed

lemma match_amounts_input:
  assumes "match_amounts avail amt z True fee on_input tick = Inr m" "fee < FEE_RATE_DENOMINATOR_VALUE"
  shows "lm_amount_in m + (if on_input then lm_amm_fee_amount m else 0) \<le> amt"
    and "lm_amount_out m \<le> avail"
    and "lm_amount_out m * rate_den z tick \<le> lm_amount_in m * rate_num z tick"
    and "valid_tick tick"
proof -
  let ?D = FEE_RATE_DENOMINATOR_VALUE
  define paid where "paid = (if on_input then ceil_div (amt * fee) ?D else 0)"
  let ?in = "amt - paid"
  let ?out = "(?in * rate_num z tick) div rate_den z tick"
  let ?in' = "ceil_div (avail * rate_den z tick) (rate_num z tick)"
  have m: "valid_tick tick" "paid \<le> amt"
    "if ?out > avail
     then lm_amount_in m = ?in' \<and> lm_amount_out m = avail \<and>
          (on_input \<longrightarrow> lm_amm_fee_amount m = ceil_div (?in' * fee) (?D - fee))
     else lm_amount_in m = ?in \<and> lm_amount_out m = ?out \<and> lm_amm_fee_amount m = paid"
    using assms(1) by (auto simp: match_amounts_def res_simps paid_def split: if_split_asm)
  note pos = rate_pos [OF m(1), of z]
  have "lm_amount_in m + (if on_input then lm_amm_fee_amount m else 0) \<le> amt \<and>
    lm_amount_out m * rate_den z tick \<le> lm_amount_in m * rate_num z tick \<and> lm_amount_out m \<le> avail"
  proof (cases "?out > avail")
    case True
    then have le: "?in' \<le> ?in" using m(1) by (intro input_of_smaller_output)
    have "?in' + ceil_div (?in' * fee) (?D - fee) \<le> amt" if on_input
    proof (rule fee_on_top [OF assms(2)])
      have "?in' * ?D \<le> ?in * ?D" using le by (rule mult_le_mono1)
      also have "\<dots> \<le> amt * (?D - fee)"
        using m(2) that by (intro input_after_fee assms(2)) (simp_all add: paid_def)
      finally show "?in' * ?D \<le> amt * (?D - fee)" .
    qed
    then show ?thesis using True m le pos by (auto simp: le_ceil_div_mult)
  next
    case False
    then show ?thesis using m pos by (auto simp: div_mult_le paid_def)
  qed
  then show "lm_amount_in m + (if on_input then lm_amm_fee_amount m else 0) \<le> amt"
    "lm_amount_out m \<le> avail"
    "lm_amount_out m * rate_den z tick \<le> lm_amount_in m * rate_num z tick" by auto
  show "valid_tick tick" by (rule m(1))
qed

lemma gross_of_net:
  assumes "fee < D" "g \<le> ceil_div (net * D) (D - fee)"
  shows "g - ceil_div (g * fee) D \<le> net"
proof (rule ccontr)
  assume "\<not> ?thesis"
  define h where "h = g - (net + 1)"
  have h: "g = net + 1 + h" "ceil_div (g * fee) D \<le> h"
    using \<open>\<not> g - ceil_div (g * fee) D \<le> net\<close> unfolding h_def by linarith+
  obtain e where e: "D = fee + e" "0 < e" using assms(1) by (metis less_imp_add_positive)
  have "g * fee \<le> h * D" using h(2) e by (simp add: ceil_div_le_iff)
  then have "(net + 1) * D \<le> g * e" unfolding e(1) by (simp add: h(1) algebra_simps)
  moreover have "(g - 1) * e < net * D" if "0 < g"
  proof -
    have "g - 1 < ceil_div (net * D) e" using assms(2) that e(1) by simp
    then show ?thesis using e(2) ceil_div_le_iff [of e "net * D" "g - 1"] by linarith
  qed
  moreover have "0 < g" using h(1) by simp
  moreover have "g * e = (g - 1) * e + e" using \<open>0 < g\<close> by (cases g) auto
  ultimately have "(net + 1) * D < net * D + e" by linarith
  then show False using e(1) by (simp add: algebra_simps)
qed

lemma match_amounts_output:
  assumes "match_amounts avail amt z False fee on_input tick = Inr m" "fee < FEE_RATE_DENOMINATOR_VALUE"
  shows "lm_amount_out m - (if on_input then 0
            else ceil_div (lm_amount_out m * fee) FEE_RATE_DENOMINATOR_VALUE) \<le> amt"
    and "lm_amount_out m \<le> avail"
    and "lm_amount_out m * rate_den z tick \<le> lm_amount_in m * rate_num z tick"
    and "valid_tick tick"
proof -
  let ?D = FEE_RATE_DENOMINATOR_VALUE
  let ?net = "min amt avail"
  have m: "valid_tick tick"
    "lm_amount_out m = (if on_input then ?net else min (ceil_div (?net * ?D) (?D - fee)) avail)"
    "lm_amount_in m = ceil_div (lm_amount_out m * rate_den z tick) (rate_num z tick)"
    using assms(1) by (auto simp: match_amounts_def res_simps Let_def split: if_split_asm)
  have "lm_amount_out m - ceil_div (lm_amount_out m * fee) ?D \<le> ?net" if "\<not> on_input"
    using gross_of_net [OF assms(2), of "lm_amount_out m" ?net] m(2) that by simp
  then show "lm_amount_out m - (if on_input then 0 else ceil_div (lm_amount_out m * fee) ?D) \<le> amt"
    using m(2) by auto
  show "lm_amount_out m \<le> avail" using m(2) by auto
  show "valid_tick tick" by (rule m(1))
  show "lm_amount_out m * rate_den z tick \<le> lm_amount_in m * rate_num z tick"
    unfolding m(3) using rate_pos(1) [OF m(1)] by (rule le_ceil_div_mult)
qed

section \<open>Growth on the two sides of a tick\<close>

lemma has_limit_orders_unfilled: "has_limit_orders t \<longleftrightarrow> unfilled t \<noteq> 0"
  by (auto simp: has_limit_orders_def unfilled_def)

lemma flip_rewards_twice: "flip_rewards rs (flip_rewards rs gs) = (if length gs \<le> length rs then gs else take (length rs) gs)"
  by (induction gs arbitrary: rs; case_tac rs) (auto simp: flip_rewards_def)

lemma tick_cross_twice:
  "length (t_reward_growths_outside t) \<le> length rs \<Longrightarrow>
   fst (tick_cross g0 g1 rs (fst (tick_cross g0 g1 rs t))) = t"
  by (simp add: tick_cross_def flip_rewards_twice)

text \<open>Inside growth as a difference of the growths at the two ends, each read on the side the
  current tick is not on.\<close>

definition below :: "bool \<Rightarrow> growth \<Rightarrow> growth \<Rightarrow> growth" where
  "below at_or_above global outside = (if at_or_above then outside else global - outside)"

lemma get_fee_growth_inside_eq:
  "get_fee_growth_inside lower upper tick g0 g1 =
    (below (t_tick upper \<le> tick) g0 (t_fee_growth_outside_0 upper)
       - below (t_tick lower \<le> tick) g0 (t_fee_growth_outside_0 lower),
     below (t_tick upper \<le> tick) g1 (t_fee_growth_outside_1 upper)
       - below (t_tick lower \<le> tick) g1 (t_fee_growth_outside_1 lower))"
  by (auto simp: get_fee_growth_inside_def below_def not_le)

lemma below_cross: "below b g (g - x) = below (\<not> b) g x"
  by (simp add: below_def)

lemma below_accrue: "below b (g + d) x = below b g x + (if b then 0 else d)"
  by (simp add: below_def)

lemma tick_update_Inr:
  assumes "tick_update tick d g0 g1 upper rs t = Inr (t', flipped)"
  shows "unfilled t' = unfilled t" "int (t_liquidity_gross t') = int (t_liquidity_gross t) + d"
    "t_liquidity_net t' = t_liquidity_net t + (if upper then - d else d)"
    "flipped \<longleftrightarrow> ((t_liquidity_gross t' = 0) \<noteq> (t_liquidity_gross t = 0)) \<and> unfilled t = 0"
    "t_tick t' = t_tick t"
proof -
  define t0 where "t0 = (if t_liquidity_gross t = 0 \<and> t_tick t \<le> tick
    then t\<lparr>t_fee_growth_outside_0 := g0, t_fee_growth_outside_1 := g1,
           t_reward_growths_outside := get_reward_growths rs\<rparr> else t)"
  have t0: "unfilled t0 = unfilled t" "t_liquidity_net t0 = t_liquidity_net t" "t_tick t0 = t_tick t"
    by (simp_all add: t0_def unfilled_def)
  have "unfilled t' = unfilled t0 \<and> int (t_liquidity_gross t') = int (t_liquidity_gross t) + d \<and>
      t_liquidity_net t' = t_liquidity_net t0 + (if upper then - d else d) \<and>
      (flipped \<longleftrightarrow> ((t_liquidity_gross t' = 0) \<noteq> (t_liquidity_gross t = 0)) \<and> unfilled t = 0) \<and>
      t_tick t' = t_tick t0"
    using assms unfolding tick_update_def Let_def t0_def [symmetric]
    by (simp only: res_simps prod.inject sum.inject) (clarify, simp add: unfilled_def)
  then show "unfilled t' = unfilled t" "int (t_liquidity_gross t') = int (t_liquidity_gross t) + d"
    "t_liquidity_net t' = t_liquidity_net t + (if upper then - d else d)"
    "flipped \<longleftrightarrow> ((t_liquidity_gross t' = 0) \<noteq> (t_liquidity_gross t = 0)) \<and> unfilled t = 0"
    "t_tick t' = t_tick t"
    using t0 by simp_all
qed

section \<open>A small tick\<close>

definition example_tick :: "int \<Rightarrow> tick_state" where
  "example_tick i = default_tick_state\<lparr>t_tick := i, t_orders_amount := 1000\<rparr>"

lemma example_match:
  "match_limit_order 500 True True 2500 True (example_tick 0) =
    Inr (example_tick 0\<lparr>t_order_phase := 1, t_orders_amount := 0,
           t_part_filled_orders_remaining := 502, t_unfilled_ratio_x64 := 9260265525002194911\<rparr>,
         \<lparr>lm_amount_in = 498, lm_amount_out = 498, lm_amm_fee_amount = 2\<rparr>)"
  by (simp add: match_limit_order_def limit_order_unfilled_amount_def example_tick_def
      default_tick_state_def match_amounts_def consume_limit_orders_def get_limit_order_output_def
      get_price_at_tick_eq valid_tick_def tick_limits price_value_def rounded_def sqrt_price_near
      mul_div_eq ceil_div_def u_defs Q64_def FEE_RATE_DENOMINATOR_VALUE_def saturating_sub_def
      saturating_add_def Let_def)

lemma example_consume:
  "consume_limit_orders 498 (example_tick 0) =
    Inr (example_tick 0\<lparr>t_order_phase := 1, t_orders_amount := 0,
           t_part_filled_orders_remaining := 502, t_unfilled_ratio_x64 := 9260265525002194911\<rparr>)"
  by (simp add: example_tick_def default_tick_state_def consume_limit_orders_def mul_div_eq u_defs
      Q64_def saturating_sub_def saturating_add_def Let_def)

lemma example_tick_update:
  "tick_update 5 700 11 12 False [] (example_tick 0) =
    Inr (example_tick 0\<lparr>t_liquidity_gross := 700, t_liquidity_net := 700,
           t_fee_growth_outside_0 := 11, t_fee_growth_outside_1 := 12,
           t_reward_growths_outside := []\<rparr>, False)"
  by (simp add: example_tick_def default_tick_state_def tick_update_def add_delta_def
      limit_order_unfilled_amount_def get_reward_growths_def checked_i_def fits_i_def u_defs Let_def)

section \<open>Properties\<close>

text \<open>
  C7. Matching limit orders conserves the queue and honours the maker's price: the queue shrinks
  by exactly the gross output, the swap pays at least the tick's price for it, and an exact-input
  swap spends at most the amount it offered while an exact-output one receives at most what it
  asked for.
\<close>

theorem match_limit_order_sound:
  assumes "fee < FEE_RATE_DENOMINATOR_VALUE"
    and "match_limit_order amt z base fee on_input t = Inr (t', r)"
  shows "unfilled t' + (lm_amount_out r + (if on_input then 0 else lm_amm_fee_amount r)) = unfilled t \<and>
    (if base then lm_amount_in r + (if on_input then lm_amm_fee_amount r else 0) \<le> amt
     else lm_amount_out r \<le> amt) \<and>
    (lm_amount_out r + (if on_input then 0 else lm_amm_fee_amount r)) * rate_den z (t_tick t)
      \<le> lm_amount_in r * rate_num z (t_tick t)"
proof (cases "amt = 0 \<or> unfilled t = 0")
  case True
  then show ?thesis using assms(2) by (auto simp: match_limit_order_def res_simps)
next
  case False
  then obtain m where m: "match_amounts (unfilled t) amt z base fee on_input (t_tick t) = Inr m"
    "consume_limit_orders (lm_amount_out m) t = Inr t'" "lm_amount_in r = lm_amount_in m"
    "if on_input then r = m
     else lm_amm_fee_amount r = ceil_div (lm_amount_out m * fee) FEE_RATE_DENOMINATOR_VALUE \<and>
          lm_amount_out r + lm_amm_fee_amount r = lm_amount_out m"
    using match_limit_order_Inr [OF assms(2)] by blast
  have gross: "lm_amount_out r + (if on_input then 0 else lm_amm_fee_amount r) = lm_amount_out m"
    using m(4) by (auto split: if_split_asm)
  show ?thesis
  proof (cases base)
    case True
    then have "match_amounts (unfilled t) amt z True fee on_input (t_tick t) = Inr m" using m(1) by simp
    note bounds = match_amounts_input [OF this assms(1)]
    show ?thesis unfolding gross m(3)
      using True consume_limit_orders_Inr(1) [OF m(2)] m(4) bounds by (cases on_input) auto
  next
    case False
    then have "match_amounts (unfilled t) amt z False fee on_input (t_tick t) = Inr m" using m(1) by simp
    note bounds = match_amounts_output [OF this assms(1)]
    have "lm_amount_out r \<le> amt" using bounds(1) m(4) by (cases on_input) auto
    then show ?thesis unfolding gross m(3)
      using False consume_limit_orders_Inr(1) [OF m(2)] bounds(3) by simp
  qed
qed

theorem match_limit_order_sound_witness:
  "(502 :: nat) + 498 = 1000 \<and> (498 :: nat) + 2 \<le> 500"
  using match_limit_order_sound [OF _ example_match]
  by (simp add: FEE_RATE_DENOMINATOR_VALUE_def unfilled_def example_tick_def default_tick_state_def)


text \<open>
  The queue is served first in, first out: the part-filled cohort is exhausted before an
  order of the waiting cohort is touched, and a phase ends exactly when that happens; then no
  order is left waiting, and otherwise none of the waiting ones has moved.
\<close>

theorem consume_limit_orders_fifo:
  assumes "consume_limit_orders x t = Inr t'"
  shows "if x \<le> t_part_filled_orders_remaining t
    then t_order_phase t' = t_order_phase t \<and> t_orders_amount t' = t_orders_amount t \<and>
         t_part_filled_orders_remaining t' + x = t_part_filled_orders_remaining t
    else t_order_phase t' = saturating_add 64 (t_order_phase t) 1 \<and> t_orders_amount t' = 0 \<and>
         t_part_filled_orders_remaining t' + x = t_part_filled_orders_remaining t + t_orders_amount t"
  using consume_limit_orders_Inr [OF assms] by (auto simp: unfilled_def)

theorem consume_limit_orders_fifo_witness:
  "(1 :: nat) = saturating_add 64 0 1 \<and> (502 :: nat) + 498 = 0 + 1000"
  using consume_limit_orders_fifo [OF example_consume]
  by (simp add: example_tick_def default_tick_state_def)


text \<open>
  Updating the liquidity of a tick reports a flip exactly when the tick's being initialized
  changes, limit orders included.
\<close>

theorem tick_update_flipped:
  assumes "tick_update tick d g0 g1 upper rs t = Inr (t', flipped)"
  shows "(flipped \<longleftrightarrow> is_initialized t' \<noteq> is_initialized t) \<and>
    int (t_liquidity_gross t') = int (t_liquidity_gross t) + d \<and>
    t_liquidity_net t' = t_liquidity_net t + (if upper then - d else d) \<and>
    unfilled t' = unfilled t"
  using tick_update_Inr [OF assms]
  by (auto simp: is_initialized_def has_limit_orders_unfilled has_liquidity_def)

theorem tick_update_flipped_witness:
  "is_initialized (example_tick 0\<lparr>t_liquidity_gross := 700, t_liquidity_net := 700,
     t_fee_growth_outside_0 := 11, t_fee_growth_outside_1 := 12, t_reward_growths_outside := []\<rparr>) =
   is_initialized (example_tick 0)"
  using tick_update_flipped [OF example_tick_update] by simp


text \<open>
  C8. Crossing a tick does not change the fees inside a position that ends there: when the
  current tick moves to the other side of the crossed tick and stays on the same side of the
  other end, the inside growth is the same before and after, for either end.
\<close>

theorem fee_growth_inside_cross:
  assumes "t_tick lower \<le> c \<longleftrightarrow> \<not> t_tick lower \<le> c'" "t_tick upper \<le> c \<longleftrightarrow> t_tick upper \<le> c'"
    and "t_tick lower' \<le> d \<longleftrightarrow> t_tick lower' \<le> d'" "t_tick upper' \<le> d \<longleftrightarrow> \<not> t_tick upper' \<le> d'"
  shows "get_fee_growth_inside (fst (tick_cross g0 g1 rs lower)) upper c' g0 g1 =
      get_fee_growth_inside lower upper c g0 g1 \<and>
    get_fee_growth_inside lower' (fst (tick_cross g0 g1 rs upper')) d' g0 g1 =
      get_fee_growth_inside lower' upper' d g0 g1"
  using assms by (simp add: get_fee_growth_inside_eq tick_cross_def below_cross)

theorem fee_growth_inside_cross_witness:
  "get_fee_growth_inside (fst (tick_cross 100 200 [] (example_tick (-10)))) (example_tick 10) (-11) 100 200 =
     get_fee_growth_inside (example_tick (-10)) (example_tick 10) 0 100 200 \<and>
   get_fee_growth_inside (example_tick (-10)) (fst (tick_cross 100 200 [] (example_tick 10))) 10 100 200 =
     get_fee_growth_inside (example_tick (-10)) (example_tick 10) 0 100 200"
  by (rule fee_growth_inside_cross) (simp_all add: example_tick_def)


text \<open>
  Fees accrue to a position exactly while the current tick is in its range: adding to the
  global growth adds the same to the inside growth in range and nothing out of range, also when
  the 128-bit accumulators wrap.
\<close>

theorem fee_growth_inside_accrues:
  assumes "t_tick lower < t_tick upper"
  shows "get_fee_growth_inside lower upper c (g0 + d0) (g1 + d1) =
    (let (i0, i1) = get_fee_growth_inside lower upper c g0 g1 in
     if t_tick lower \<le> c \<and> c < t_tick upper then (i0 + d0, i1 + d1) else (i0, i1))"
  using assms by (auto simp: get_fee_growth_inside_eq below_accrue Let_def not_le)

theorem fee_growth_inside_accrues_witness:
  "get_fee_growth_inside (example_tick (-10)) (example_tick 10) 0 (-1 + 5) (7 + 0) =
    (let (i0, i1) = get_fee_growth_inside (example_tick (-10)) (example_tick 10) 0 (-1) 7 in
     (i0 + 5, i1 + 0))"
  using fee_growth_inside_accrues [of "example_tick (-10)" "example_tick 10" 0 "-1" 5 7 0]
  by (simp add: example_tick_def)


end
