(* ===== verification/Limit_Order.thy ===== *)
theory Limit_Order
  imports Complex_Main Tick_State
begin

text \<open>
  \<open>states/limit_order.rs\<close> with the checks of \<open>instructions/limit_order\<close>: an order joins the
  waiting cohort of its tick, is filled pro rata with its cohort, and is settled, increased or
  decreased against the tick. The order book of one tick is a step relation over the tick and
  its orders; its invariant says that what the orders of a cohort may still claim never exceeds
  what the tick holds for them.
\<close>

section \<open>Data and operations\<close>

record limit_order =
  lo_pool_id :: nat
  lo_owner :: nat
  lo_tick_index :: int
  lo_zero_for_one :: bool
  lo_order_phase :: nat
  lo_total_amount :: nat
  lo_filled_amount :: nat
  lo_settle_base :: nat
  lo_settled_output :: nat
  lo_open_time :: nat
  lo_unfilled_ratio_x64 :: nat

record decrease_amount_result =
  da_settled_output_amount :: nat
  da_real_decrease_amount :: nat

definition order_initialize :: "nat \<Rightarrow> nat \<Rightarrow> int \<Rightarrow> bool \<Rightarrow> nat \<Rightarrow> nat \<Rightarrow> nat \<Rightarrow> limit_order" where
  "order_initialize pool_id owner tick zero_for_one amount order_phase timestamp =
     \<lparr>lo_pool_id = pool_id, lo_owner = owner, lo_tick_index = tick,
      lo_zero_for_one = zero_for_one, lo_order_phase = order_phase, lo_total_amount = amount,
      lo_filled_amount = 0, lo_settle_base = amount, lo_settled_output = 0,
      lo_open_time = timestamp, lo_unfilled_ratio_x64 = Q64\<rparr>"

definition is_fully_filled :: "limit_order \<Rightarrow> bool" where
  "is_fully_filled order \<longleftrightarrow> lo_total_amount order = lo_filled_amount order"

definition get_unfilled_amount :: "limit_order \<Rightarrow> nat res" where
  "get_unfilled_amount order =
     ok_or (checked_sub (lo_total_amount order) (lo_filled_amount order)) CalculateOverflow"

text \<open>The product is 256-bit and cannot overflow; a zero ratio snapshot panics at the division.\<close>

definition settle_filled_order :: "tick_state \<Rightarrow> limit_order \<Rightarrow> (limit_order \<times> nat) res" where
  "settle_filled_order tick order =
   (if lo_settle_base order = 0 then Inr (order, 0)
    else if lo_order_phase order = t_order_phase tick then Inr (order, 0)
    else if saturating_add 64 (lo_order_phase order) 1 = t_order_phase tick then
      let numerator = lo_settle_base order * t_unfilled_ratio_x64 tick;
          denominator = lo_unfilled_ratio_x64 order
      in and_then (div_u numerator denominator) (\<lambda>q.
         and_then (as_uint 64 q) (\<lambda>ideal_remaining.
         let is_exact = (numerator mod denominator = 0);
             total_filled = saturating_sub (lo_settle_base order) ideal_remaining
         in if total_filled = 0 then Inr (order, 0)
            else
              let effective_filled = (if is_exact then total_filled else saturating_sub total_filled 1)
              in and_then (get_limit_order_output effective_filled (t_tick tick) (lo_zero_for_one order))
                   (\<lambda>total_output.
                 let payout = saturating_sub total_output (lo_settled_output order)
                 in and_then (ok_or (checked_sub (lo_total_amount order) ideal_remaining)
                      CalculateOverflow) (\<lambda>filled.
                    Inr (order\<lparr>lo_filled_amount := filled, lo_settled_output := total_output\<rparr>,
                         payout)))))
    else if saturating_add 64 (lo_order_phase order) 2 \<le> t_order_phase tick then
      and_then (get_limit_order_output (lo_settle_base order) (t_tick tick) (lo_zero_for_one order))
        (\<lambda>total_output.
      let payout = saturating_sub total_output (lo_settled_output order)
      in Inr (order\<lparr>lo_filled_amount := lo_total_amount order, lo_settle_base := 0,
                    lo_settled_output := 0\<rparr>, payout))
    else fail InvalidOrderPhase)"

definition increase_amount :: "nat \<Rightarrow> tick_state \<Rightarrow> limit_order \<Rightarrow> (tick_state \<times> limit_order) res" where
  "increase_amount amount tick order =
   (if lo_order_phase order \<noteq> t_order_phase tick then fail InvalidOrderPhase
    else
      and_then (ok_or (checked_add 64 (lo_total_amount order) amount) CalculateOverflow) (\<lambda>total.
      and_then (ok_or (checked_add 64 (lo_settle_base order) amount) CalculateOverflow) (\<lambda>base.
      and_then (ok_or (checked_add 64 (t_orders_amount tick) amount) CalculateOverflow) (\<lambda>orders.
      Inr (tick\<lparr>t_orders_amount := orders\<rparr>,
           order\<lparr>lo_total_amount := total, lo_settle_base := base\<rparr>)))))"

definition check_limit_order_amount :: "nat \<Rightarrow> int \<Rightarrow> bool \<Rightarrow> unit res" where
  "check_limit_order_amount amount tick_index zero_for_one =
   (if amount = 0 then fail ZeroAmountSpecified
    else
      and_then
        (if zero_for_one then
           and_then (get_price_at_tick tick_index False) (\<lambda>token_0_price_x64.
           ok_or (mul_div_floor 128 amount token_0_price_x64 Q64) CalculateOverflow)
         else
           and_then (get_price_at_tick tick_index True) (\<lambda>token_0_price_x64.
           ok_or (mul_div_floor 128 amount Q64 token_0_price_x64) CalculateOverflow)) (\<lambda>amount_out.
      if amount_out < 1 \<or> amount_out \<ge> U64_MAX - 2 then fail InvalidLimitOrderAmount
      else Inr ()))"

definition decrease_amount ::
  "nat \<Rightarrow> tick_state \<Rightarrow> limit_order \<Rightarrow> (tick_state \<times> limit_order \<times> decrease_amount_result) res" where
  "decrease_amount amount tick order =
   and_then (settle_filled_order tick order) (\<lambda>(order, settled).
   and_then (get_unfilled_amount order) (\<lambda>unfilled_amount.
   if unfilled_amount = 0
   then Inr (tick, order, \<lparr>da_settled_output_amount = settled, da_real_decrease_amount = 0\<rparr>)
   else
     and_then
       (if lo_order_phase order = t_order_phase tick then
          let decrease = min amount unfilled_amount in
          and_then (ok_or (checked_sub (t_orders_amount tick) decrease) CalculateOverflow) (\<lambda>left.
          Inr (tick\<lparr>t_orders_amount := left\<rparr>, decrease))
        else if saturating_add 64 (lo_order_phase order) 1 = t_order_phase tick then
          let decrease = min (min amount unfilled_amount) (t_part_filled_orders_remaining tick) in
          and_then (ok_or (checked_sub (t_part_filled_orders_remaining tick) decrease)
            CalculateOverflow) (\<lambda>left.
          Inr (tick\<lparr>t_part_filled_orders_remaining := left\<rparr>, decrease))
        else fail OrderAlreadyFilled) (\<lambda>(tick, real_decrease_amount).
     if real_decrease_amount = 0
     then Inr (tick, order, \<lparr>da_settled_output_amount = settled, da_real_decrease_amount = 0\<rparr>)
     else
       and_then (ok_or (checked_sub (lo_total_amount order) real_decrease_amount)
         CalculateOverflow) (\<lambda>total.
       let order = order\<lparr>lo_total_amount := total\<rparr> in
       and_then
         (if saturating_add 64 (lo_order_phase order) 1 = t_order_phase tick then
            and_then (get_unfilled_amount order) (\<lambda>new_unfilled.
            Inr (order\<lparr>lo_settle_base := new_unfilled,
                       lo_unfilled_ratio_x64 := t_unfilled_ratio_x64 tick,
                       lo_settled_output := 0\<rparr>))
          else Inr (order\<lparr>lo_settle_base := lo_total_amount order\<rparr>)) (\<lambda>order.
       and_then (get_unfilled_amount order) (\<lambda>remaining_amount.
       and_then
         (if remaining_amount > 0
          then check_limit_order_amount remaining_amount (lo_tick_index order) (lo_zero_for_one order)
          else Inr ()) (\<lambda>_.
       Inr (tick, order, \<lparr>da_settled_output_amount = settled,
                          da_real_decrease_amount = real_decrease_amount\<rparr>))))))))"

definition check_tick_index :: "int \<Rightarrow> bool \<Rightarrow> int \<Rightarrow> nat \<Rightarrow> unit res" where
  "check_tick_index tick_index zero_for_one tick_current tick_spacing =
     require (tick_index > MIN_TICK \<and> tick_index < MAX_TICK) InvalidTickIndex
     (and_then (smod_i 32 tick_index (int tick_spacing)) (\<lambda>r.
      if r \<noteq> 0 then fail TickAndSpacingNotMatch
      else if (zero_for_one \<and> tick_index \<le> tick_current) \<or>
              (\<not> zero_for_one \<and> tick_index \<ge> tick_current)
      then fail InvalidTickIndex
      else Inr ()))"

text \<open>The part of \<open>open_limit_order\<close> that places the order on its tick.\<close>

definition place_order ::
  "nat \<Rightarrow> nat \<Rightarrow> int \<Rightarrow> bool \<Rightarrow> nat \<Rightarrow> nat \<Rightarrow> tick_state \<Rightarrow> (tick_state \<times> limit_order) res" where
  "place_order pool_id owner tick_index zero_for_one amount timestamp tick =
     require (t_order_phase tick < U64_MAX) OrderPhaseSaturated
     (let tick = tick\<lparr>t_tick := tick_index\<rparr>;
          order = order_initialize pool_id owner tick_index zero_for_one amount
                    (t_order_phase tick) timestamp
      in and_then (ok_or (checked_add 64 (t_orders_amount tick) amount) CalculateOverflow) (\<lambda>orders.
         Inr (tick\<lparr>t_orders_amount := orders\<rparr>, order)))"

record limit_order_nonce =
  ln_user_wallet :: nat
  ln_nonce_index :: nat
  ln_order_nonce :: nat

definition increase_order_nonce :: "limit_order_nonce \<Rightarrow> limit_order_nonce" where
  "increase_order_nonce n = n\<lparr>ln_order_nonce := saturating_add 64 (ln_order_nonce n) 1\<rparr>"

section \<open>One order against its tick\<close>

lemma saturating_add_phase: "k < U64_MAX \<Longrightarrow> saturating_add 64 k 1 = k + 1"
  by (simp add: saturating_add_def)

text \<open>What an order of the current cohort may still claim of the tick, before rounding.\<close>

definition claim :: "tick_state \<Rightarrow> limit_order \<Rightarrow> real" where
  "claim t o' = real (lo_settle_base o') * real (t_unfilled_ratio_x64 t) / real (lo_unfilled_ratio_x64 o')"

definition waiting :: "tick_state \<Rightarrow> limit_order \<Rightarrow> bool" where
  "waiting t o' \<longleftrightarrow> lo_order_phase o' = t_order_phase t"

definition in_cohort :: "tick_state \<Rightarrow> limit_order \<Rightarrow> bool" where
  "in_cohort t o' \<longleftrightarrow> lo_order_phase o' + 1 = t_order_phase t"

definition order_ok :: "tick_state \<Rightarrow> limit_order \<Rightarrow> bool" where
  "order_ok t o' \<longleftrightarrow>
     lo_filled_amount o' \<le> lo_total_amount o' \<and> lo_settle_base o' \<le> lo_total_amount o' \<and>
     lo_total_amount o' \<le> lo_filled_amount o' + lo_settle_base o' \<and>
     0 < lo_unfilled_ratio_x64 o' \<and> lo_order_phase o' \<le> t_order_phase t \<and>
     lo_order_phase o' < U64_MAX \<and>
     (waiting t o' \<longrightarrow> lo_filled_amount o' = 0 \<and> lo_settle_base o' = lo_total_amount o' \<and>
        lo_unfilled_ratio_x64 o' = Q64)"

lemma waiting_not_cohort: "waiting t o' \<Longrightarrow> \<not> in_cohort t o'"
  by (simp add: waiting_def in_cohort_def)

lemma claim_nonneg: "0 \<le> claim t o'"
  by (simp add: claim_def)

lemma floor_claim:
  "real ((lo_settle_base o' * t_unfilled_ratio_x64 t) div lo_unfilled_ratio_x64 o') \<le> claim t o'"
  using of_nat_div_le_of_nat [of "lo_settle_base o' * t_unfilled_ratio_x64 t" "lo_unfilled_ratio_x64 o'"]
  by (simp add: claim_def)

lemma settle_filled_order_cohort:
  assumes "in_cohort t o'" "lo_order_phase o' < U64_MAX" "lo_settle_base o' \<noteq> 0"
    and "settle_filled_order t o' = Inr (o'', paid)"
  shows "(let q = (lo_settle_base o' * t_unfilled_ratio_x64 t) div lo_unfilled_ratio_x64 o' in
    if lo_settle_base o' \<le> q then o'' = o'
    else \<exists>outp. o'' = o'\<lparr>lo_filled_amount := lo_total_amount o' - q, lo_settled_output := outp\<rparr>)"
proof -
  have "lo_order_phase o' \<noteq> t_order_phase t" "saturating_add 64 (lo_order_phase o') 1 = t_order_phase t"
    using assms(1) saturating_add_phase [OF assms(2)] by (auto simp: in_cohort_def)
  then show ?thesis
    using assms(3,4) unfolding settle_filled_order_def Let_def
    by (simp add: saturating_sub_def res_simps split: if_split_asm) (elim exE conjE, auto)
qed

lemma settle_filled_order_past:
  assumes "\<not> in_cohort t o'" "\<not> waiting t o'" "lo_order_phase o' < U64_MAX" "lo_settle_base o' \<noteq> 0"
    and "settle_filled_order t o' = Inr (o'', paid)"
  shows "o'' = o'\<lparr>lo_filled_amount := lo_total_amount o', lo_settle_base := 0, lo_settled_output := 0\<rparr>"
proof -
  have "lo_order_phase o' \<noteq> t_order_phase t" "saturating_add 64 (lo_order_phase o') 1 \<noteq> t_order_phase t"
    using assms(1,2) saturating_add_phase [OF assms(3)] by (auto simp: in_cohort_def waiting_def)
  then show ?thesis
    using assms(4,5) unfolding settle_filled_order_def Let_def
    by (simp add: res_simps split: if_split_asm)
qed

lemma settle_filled_order_cases:
  assumes s: "settle_filled_order t o' = Inr (o'', paid)" and ok: "order_ok t o'"
  defines "q \<equiv> (lo_settle_base o' * t_unfilled_ratio_x64 t) div lo_unfilled_ratio_x64 o'"
  obtains (same) "o'' = o'" "lo_settle_base o' = 0 \<or> waiting t o' \<or> in_cohort t o' \<and> lo_settle_base o' \<le> q"
    | (part) outp where "in_cohort t o'" "q < lo_settle_base o'"
        "o'' = o'\<lparr>lo_filled_amount := lo_total_amount o' - q, lo_settled_output := outp\<rparr>"
    | (full) "\<not> waiting t o'" "\<not> in_cohort t o'"
        "o'' = o'\<lparr>lo_filled_amount := lo_total_amount o', lo_settle_base := 0, lo_settled_output := 0\<rparr>"
proof -
  have phase: "lo_order_phase o' < U64_MAX" using ok by (simp add: order_ok_def)
  consider "lo_settle_base o' = 0 \<or> waiting t o'" | "lo_settle_base o' \<noteq> 0" "in_cohort t o'"
    | "lo_settle_base o' \<noteq> 0" "\<not> waiting t o'" "\<not> in_cohort t o'" by blast
  then show ?thesis
  proof cases
    case 1
    then have "o'' = o'"
      using s unfolding settle_filled_order_def waiting_def
      by (cases "lo_settle_base o' = 0") simp_all
    then show ?thesis using same 1 by blast
  next
    case 2
    then show ?thesis
      using settle_filled_order_cohort [OF 2(2) phase 2(1) s, folded q_def] same part
      by (cases "lo_settle_base o' \<le> q") auto
  next
    case 3
    then show ?thesis using settle_filled_order_past [OF 3(3,2) phase 3(1) s] full by blast
  qed
qed

text \<open>A settlement changes neither the cohort's claims nor the queue, and leaves the order's
  unfilled amount below its claim.\<close>

lemma settle_filled_order_ok:
  assumes ok: "order_ok t o'" and s: "settle_filled_order t o' = Inr (o'', paid)"
  shows "order_ok t o''" "lo_order_phase o'' = lo_order_phase o'"
    "lo_total_amount o'' = lo_total_amount o'" "waiting t o' \<Longrightarrow> o'' = o'"
    "in_cohort t o' \<Longrightarrow> claim t o'' = claim t o'"
    "in_cohort t o' \<Longrightarrow> real (lo_total_amount o'' - lo_filled_amount o'') \<le> claim t o'"
proof -
  let ?q = "(lo_settle_base o' * t_unfilled_ratio_x64 t) div lo_unfilled_ratio_x64 o'"
  have "order_ok t o'' \<and> lo_order_phase o'' = lo_order_phase o' \<and>
    lo_total_amount o'' = lo_total_amount o' \<and> (waiting t o' \<longrightarrow> o'' = o') \<and>
    (in_cohort t o' \<longrightarrow> claim t o'' = claim t o' \<and>
       real (lo_total_amount o'' - lo_filled_amount o'') \<le> claim t o')"
  proof (cases rule: settle_filled_order_cases [OF s ok, case_names same part full])
    case same
    have "real (lo_total_amount o' - lo_filled_amount o') \<le> claim t o'" if "in_cohort t o'"
    proof -
      have "lo_total_amount o' - lo_filled_amount o' \<le> lo_settle_base o'"
        using ok by (auto simp: order_ok_def)
      moreover have "lo_settle_base o' \<le> ?q"
        using same(2) waiting_not_cohort that by auto
      ultimately have "real (lo_total_amount o' - lo_filled_amount o') \<le> real ?q" by simp
      then show ?thesis using floor_claim by (rule order_trans)
    qed
    then show ?thesis using same ok by simp
  next
    case part
    then have "\<not> waiting t o'" using waiting_not_cohort by blast
    then show ?thesis using part ok floor_claim [of o' t]
      by (auto simp: order_ok_def claim_def waiting_def)
  next
    case full
    then show ?thesis using ok by (simp add: order_ok_def waiting_def)
  qed
  then show "order_ok t o''" "lo_order_phase o'' = lo_order_phase o'"
    "lo_total_amount o'' = lo_total_amount o'" "waiting t o' \<Longrightarrow> o'' = o'"
    "in_cohort t o' \<Longrightarrow> claim t o'' = claim t o'"
    "in_cohort t o' \<Longrightarrow> real (lo_total_amount o'' - lo_filled_amount o'') \<le> claim t o'" by blast+
qed

text \<open>A decrease takes from the queue what it takes from the order, and from a cohort at most
  what the order can claim of it.\<close>

lemma decrease_amount_settled:
  assumes "decrease_amount x t o' = Inr (t', o'', r)"
  obtains o1 paid where "settle_filled_order t o' = Inr (o1, paid)"
    "lo_filled_amount o1 = lo_total_amount o1 \<Longrightarrow> t' = t \<and> o'' = o1"
    "lo_filled_amount o1 \<noteq> lo_total_amount o1 \<Longrightarrow> waiting t o1 \<Longrightarrow>
       saturating_add 64 (lo_order_phase o1) 1 \<noteq> t_order_phase t \<Longrightarrow> \<exists>d.
       d \<le> lo_total_amount o1 - lo_filled_amount o1 \<and> d \<le> t_orders_amount t \<and>
       t' = t\<lparr>t_orders_amount := t_orders_amount t - d\<rparr> \<and>
       (d = 0 \<and> o'' = o1 \<or> o'' = o1\<lparr>lo_total_amount := lo_total_amount o1 - d,
                                 lo_settle_base := lo_total_amount o1 - d\<rparr>)"
    "lo_filled_amount o1 \<noteq> lo_total_amount o1 \<Longrightarrow> \<not> waiting t o1 \<Longrightarrow> \<exists>d.
       saturating_add 64 (lo_order_phase o1) 1 = t_order_phase t \<and>
       d \<le> lo_total_amount o1 - lo_filled_amount o1 \<and> d \<le> t_part_filled_orders_remaining t \<and>
       t' = t\<lparr>t_part_filled_orders_remaining := t_part_filled_orders_remaining t - d\<rparr> \<and>
       (d = 0 \<and> o'' = o1 \<or> 0 < d \<and>
        o'' = o1\<lparr>lo_total_amount := lo_total_amount o1 - d,
                 lo_settle_base := lo_total_amount o1 - d - lo_filled_amount o1,
                 lo_unfilled_ratio_x64 := t_unfilled_ratio_x64 t, lo_settled_output := 0\<rparr>)"
proof -
  obtain o1 paid where s: "settle_filled_order t o' = Inr (o1, paid)"
    using assms by (auto simp: decrease_amount_def res_simps)
  note d = assms [unfolded decrease_amount_def s and_then_simps prod.case]
  have u: "get_unfilled_amount o1 = Inr (lo_total_amount o1 - lo_filled_amount o1)"
    "lo_filled_amount o1 \<le> lo_total_amount o1"
    using d by (auto simp: get_unfilled_amount_def res_simps)
  note d = d [unfolded u(1) and_then_simps]
  show ?thesis
  proof (rule that [OF s])
    assume "lo_filled_amount o1 = lo_total_amount o1"
    then show "t' = t \<and> o'' = o1" using d by simp
  next
    assume n: "lo_filled_amount o1 \<noteq> lo_total_amount o1" "waiting t o1"
      and p: "saturating_add 64 (lo_order_phase o1) 1 \<noteq> t_order_phase t"
    let ?d = "min x (lo_total_amount o1 - lo_filled_amount o1)"
    have "lo_order_phase o1 = t_order_phase t" "lo_total_amount o1 - lo_filled_amount o1 \<noteq> 0"
      using n u(2) by (auto simp: waiting_def)
    then show "\<exists>d. d \<le> lo_total_amount o1 - lo_filled_amount o1 \<and> d \<le> t_orders_amount t \<and>
       t' = t\<lparr>t_orders_amount := t_orders_amount t - d\<rparr> \<and>
       (d = 0 \<and> o'' = o1 \<or> o'' = o1\<lparr>lo_total_amount := lo_total_amount o1 - d,
                                 lo_settle_base := lo_total_amount o1 - d\<rparr>)"
      using d p unfolding Let_def
      by (intro exI [of _ ?d]) (auto simp: res_simps split: if_split_asm)
  next
    assume n: "lo_filled_amount o1 \<noteq> lo_total_amount o1" "\<not> waiting t o1"
    let ?d = "min (min x (lo_total_amount o1 - lo_filled_amount o1)) (t_part_filled_orders_remaining t)"
    have w: "lo_order_phase o1 \<noteq> t_order_phase t" "lo_total_amount o1 - lo_filled_amount o1 \<noteq> 0"
      using n u(2) by (auto simp: waiting_def)
    then have "saturating_add 64 (lo_order_phase o1) 1 = t_order_phase t"
      using d by (auto simp: res_simps split: if_split_asm)
    then show "\<exists>d. saturating_add 64 (lo_order_phase o1) 1 = t_order_phase t \<and>
       d \<le> lo_total_amount o1 - lo_filled_amount o1 \<and> d \<le> t_part_filled_orders_remaining t \<and>
       t' = t\<lparr>t_part_filled_orders_remaining := t_part_filled_orders_remaining t - d\<rparr> \<and>
       (d = 0 \<and> o'' = o1 \<or> 0 < d \<and>
        o'' = o1\<lparr>lo_total_amount := lo_total_amount o1 - d,
                 lo_settle_base := lo_total_amount o1 - d - lo_filled_amount o1,
                 lo_unfilled_ratio_x64 := t_unfilled_ratio_x64 t, lo_settled_output := 0\<rparr>)"
      using d w unfolding Let_def
      by (intro exI [of _ ?d]) (auto simp: res_simps get_unfilled_amount_def split: if_split_asm)
  qed
qed

lemma order_ok_cong:
  "t_order_phase t' = t_order_phase t \<Longrightarrow> order_ok t' o' = order_ok t o'"
  by (simp add: order_ok_def waiting_def)

lemma claim_cong:
  "t_unfilled_ratio_x64 t' = t_unfilled_ratio_x64 t \<Longrightarrow> claim t' o' = claim t o'"
  by (simp add: claim_def)

lemma claim_pos_ratio: "0 < claim t o' \<Longrightarrow> 0 < t_unfilled_ratio_x64 t"
  by (auto simp: claim_def intro: Nat.gr0I)

text \<open>\<open>decreased t o t' o'\<close>: how a tick and an order may change together in a decrease.\<close>

definition decreased :: "tick_state \<Rightarrow> limit_order \<Rightarrow> tick_state \<Rightarrow> limit_order \<Rightarrow> bool" where
  "decreased t o' t' o'' \<longleftrightarrow>
     order_ok t o'' \<and> lo_order_phase o'' = lo_order_phase o' \<and>
     t_order_phase t' = t_order_phase t \<and> t_unfilled_ratio_x64 t' = t_unfilled_ratio_x64 t \<and>
     (if waiting t o'
      then t_orders_amount t' + lo_total_amount o' = t_orders_amount t + lo_total_amount o'' \<and>
           t_part_filled_orders_remaining t' = t_part_filled_orders_remaining t
      else if in_cohort t o'
      then t_orders_amount t' = t_orders_amount t \<and>
           t_part_filled_orders_remaining t' \<le> t_part_filled_orders_remaining t \<and>
           claim t o'' + real (t_part_filled_orders_remaining t - t_part_filled_orders_remaining t')
             \<le> claim t o'
      else t' = t)"

lemma decreased_settled:
  assumes "order_ok t o'" "settle_filled_order t o' = Inr (o1, paid)"
  shows "decreased t o' t o1"
  using settle_filled_order_ok [OF assms] by (auto simp: decreased_def)

lemma decreased_waiting:
  assumes "order_ok t o'" "waiting t o'" "d \<le> lo_total_amount o'" "d \<le> t_orders_amount t"
  shows "decreased t o' (t\<lparr>t_orders_amount := t_orders_amount t - d\<rparr>)
    (o'\<lparr>lo_total_amount := lo_total_amount o' - d, lo_settle_base := lo_total_amount o' - d\<rparr>)"
  using assms by (auto simp: decreased_def order_ok_def waiting_def)

lemma decreased_cohort:
  assumes ok: "order_ok t o'" and s: "settle_filled_order t o' = Inr (o1, paid)"
    and c: "in_cohort t o'" and d: "0 < d" "d \<le> lo_total_amount o1 - lo_filled_amount o1"
      "d \<le> t_part_filled_orders_remaining t"
  shows "decreased t o' (t\<lparr>t_part_filled_orders_remaining := t_part_filled_orders_remaining t - d\<rparr>)
    (o1\<lparr>lo_total_amount := lo_total_amount o1 - d,
        lo_settle_base := lo_total_amount o1 - d - lo_filled_amount o1,
        lo_unfilled_ratio_x64 := t_unfilled_ratio_x64 t, lo_settled_output := 0\<rparr>)"
    (is "decreased t o' ?t ?o")
proof -
  note s1 = settle_filled_order_ok [OF ok s]
  have nw: "\<not> waiting t o'" using c waiting_not_cohort by blast
  have bound: "real (lo_total_amount o1 - lo_filled_amount o1) \<le> claim t o'" by (rule s1(6) [OF c])
  then have pos: "0 < t_unfilled_ratio_x64 t" using d(1,2) by (intro claim_pos_ratio [of t o']) simp
  then have "claim t ?o = real (lo_total_amount o1 - d - lo_filled_amount o1)" by (simp add: claim_def)
  then have "claim t ?o + real d \<le> claim t o'" using bound d(2) by linarith
  moreover have "order_ok t ?o" using s1(1,2) pos d(2) nw by (auto simp: order_ok_def waiting_def)
  ultimately show ?thesis using nw c d(3) s1(2) by (simp add: decreased_def)
qed

lemma decrease_amount_ok:
  assumes ok: "order_ok t o'" and dec: "decrease_amount x t o' = Inr (t', o'', r)"
  shows "decreased t o' t' o''"
proof (rule decrease_amount_settled [OF dec])
  fix o1 paid
  assume s: "settle_filled_order t o' = Inr (o1, paid)"
    and none: "lo_filled_amount o1 = lo_total_amount o1 \<Longrightarrow> t' = t \<and> o'' = o1"
    and wait: "lo_filled_amount o1 \<noteq> lo_total_amount o1 \<Longrightarrow> waiting t o1 \<Longrightarrow>
       saturating_add 64 (lo_order_phase o1) 1 \<noteq> t_order_phase t \<Longrightarrow> \<exists>d.
       d \<le> lo_total_amount o1 - lo_filled_amount o1 \<and> d \<le> t_orders_amount t \<and>
       t' = t\<lparr>t_orders_amount := t_orders_amount t - d\<rparr> \<and>
       (d = 0 \<and> o'' = o1 \<or> o'' = o1\<lparr>lo_total_amount := lo_total_amount o1 - d,
                                 lo_settle_base := lo_total_amount o1 - d\<rparr>)"
    and part: "lo_filled_amount o1 \<noteq> lo_total_amount o1 \<Longrightarrow> \<not> waiting t o1 \<Longrightarrow> \<exists>d.
       saturating_add 64 (lo_order_phase o1) 1 = t_order_phase t \<and>
       d \<le> lo_total_amount o1 - lo_filled_amount o1 \<and> d \<le> t_part_filled_orders_remaining t \<and>
       t' = t\<lparr>t_part_filled_orders_remaining := t_part_filled_orders_remaining t - d\<rparr> \<and>
       (d = 0 \<and> o'' = o1 \<or> 0 < d \<and>
        o'' = o1\<lparr>lo_total_amount := lo_total_amount o1 - d,
                 lo_settle_base := lo_total_amount o1 - d - lo_filled_amount o1,
                 lo_unfilled_ratio_x64 := t_unfilled_ratio_x64 t, lo_settled_output := 0\<rparr>)"
  note s1 = settle_filled_order_ok [OF ok s]
  have phase: "saturating_add 64 (lo_order_phase o1) 1 = lo_order_phase o1 + 1"
    using s1(1) saturating_add_phase by (simp add: order_ok_def)
  have same: "waiting t o1 = waiting t o'" "in_cohort t o1 = in_cohort t o'"
    using s1(2) by (simp_all add: waiting_def in_cohort_def)
  consider "lo_filled_amount o1 = lo_total_amount o1"
    | "lo_filled_amount o1 \<noteq> lo_total_amount o1" "waiting t o1"
    | "lo_filled_amount o1 \<noteq> lo_total_amount o1" "\<not> waiting t o1" by blast
  then show ?thesis
  proof cases
    case 1
    then show ?thesis using none decreased_settled [OF ok s] by simp
  next
    case 2
    then have "o1 = o'" "waiting t o'" using s1(4) same by auto
    moreover have "saturating_add 64 (lo_order_phase o1) 1 \<noteq> t_order_phase t"
      using 2 phase by (simp add: waiting_def)
    ultimately show ?thesis
      using wait [OF 2] decreased_waiting [OF ok] decreased_settled [OF ok s] by auto
  next
    case 3
    then show ?thesis
      using part [OF 3] phase same(2) decreased_cohort [OF ok s] decreased_settled [OF ok s]
      by (auto simp: in_cohort_def)
  qed
qed

section \<open>The order book of a tick\<close>

text \<open>
  A tick with the orders placed on it. The steps are the five instructions on limit orders and
  a fill by a swap; \<open>close\<close> removes an order without an unfilled amount. An order is always
  opened with a positive amount (\<open>check_limit_order_amount\<close>).
\<close>

type_synonym book = "tick_state \<times> limit_order list"

inductive book_step :: "book \<Rightarrow> book \<Rightarrow> bool" where
  place: "place_order pool owner tick z amount now t = Inr (t', o') \<Longrightarrow>
    book_step (t, os) (t', os @ [o'])"
| fill: "consume_limit_orders x t = Inr t' \<Longrightarrow> book_step (t, os) (t', os)"
| settle: "i < length os \<Longrightarrow> settle_filled_order t (os ! i) = Inr (o', paid) \<Longrightarrow>
    book_step (t, os) (t, os[i := o'])"
| increase: "i < length os \<Longrightarrow> increase_amount amount t (os ! i) = Inr (t', o') \<Longrightarrow>
    book_step (t, os) (t', os[i := o'])"
| decrease: "i < length os \<Longrightarrow> decrease_amount amount t (os ! i) = Inr (t', o', r) \<Longrightarrow>
    book_step (t, os) (t', os[i := o'])"
| close: "get_unfilled_amount o' = Inr 0 \<Longrightarrow> book_step (t, xs @ o' # ys) (t, xs @ ys)"

inductive_cases book_stepE: "book_step (t, os) b"

inductive book_reachable :: "book \<Rightarrow> bool" where
  empty: "t_orders_amount t = 0 \<Longrightarrow> t_part_filled_orders_remaining t = 0 \<Longrightarrow>
    book_reachable (t, [])"
| step: "book_reachable b \<Longrightarrow> book_step b b' \<Longrightarrow> book_reachable b'"

definition waiting_total :: "tick_state \<Rightarrow> limit_order list \<Rightarrow> nat" where
  "waiting_total t os = (\<Sum>x\<leftarrow>os. if waiting t x then lo_total_amount x else 0)"

definition cohort_claims :: "tick_state \<Rightarrow> limit_order list \<Rightarrow> real" where
  "cohort_claims t os = (\<Sum>x\<leftarrow>os. if in_cohort t x then claim t x else 0)"

definition book_inv :: "tick_state \<Rightarrow> limit_order list \<Rightarrow> bool" where
  "book_inv t os \<longleftrightarrow> (\<forall>x \<in> set os. order_ok t x) \<and>
     waiting_total t os = t_orders_amount t \<and>
     cohort_claims t os \<le> real (t_part_filled_orders_remaining t)"

lemma book_inv_tick:
  assumes "t_order_phase t' = t_order_phase t" "t_unfilled_ratio_x64 t' = t_unfilled_ratio_x64 t"
  shows "book_inv t' os \<longleftrightarrow> (\<forall>x \<in> set os. order_ok t x) \<and>
    waiting_total t os = t_orders_amount t' \<and>
    cohort_claims t os \<le> real (t_part_filled_orders_remaining t')"
proof -
  have w: "waiting t' = waiting t" "in_cohort t' = in_cohort t" "claim t' = claim t" "order_ok t' = order_ok t"
    using assms by (auto simp: fun_eq_iff waiting_def in_cohort_def claim_def order_ok_def)
  show ?thesis unfolding book_inv_def waiting_total_def cohort_claims_def w by blast
qed

lemma sum_list_update_real:
  "i < length xs \<Longrightarrow> (\<Sum>x\<leftarrow>xs[i := y]. f x) = (\<Sum>x\<leftarrow>xs. f x) - f (xs ! i) + (f y :: real)"
  by (induction xs arbitrary: i) (auto split: nat.splits)

lemma book_inv_update:
  assumes inv: "book_inv t os" and i: "i < length os" and ok: "order_ok t o'"
    and phase: "lo_order_phase o' = lo_order_phase (os ! i)"
    and tick: "t_order_phase t' = t_order_phase t" "t_unfilled_ratio_x64 t' = t_unfilled_ratio_x64 t"
    and wait: "t_orders_amount t' + (if waiting t (os ! i) then lo_total_amount (os ! i) else 0) =
      t_orders_amount t + (if waiting t (os ! i) then lo_total_amount o' else 0)"
    and part: "real (t_part_filled_orders_remaining t) + (if in_cohort t (os ! i) then claim t o' else 0)
      \<le> real (t_part_filled_orders_remaining t') + (if in_cohort t (os ! i) then claim t (os ! i) else 0)"
  shows "book_inv t' (os[i := o'])"
proof -
  have same: "waiting t o' = waiting t (os ! i)" "in_cohort t o' = in_cohort t (os ! i)"
    using phase by (simp_all add: waiting_def in_cohort_def)
  have "\<forall>x \<in> set (os[i := o']). order_ok t x"
    using inv ok set_update_subset_insert by (fastforce simp: book_inv_def)
  moreover have "waiting_total t (os[i := o']) = t_orders_amount t'"
    using sum_list_update_nat [OF i, of "\<lambda>x. if waiting t x then lo_total_amount x else 0" o'] inv wait same
    by (simp add: waiting_total_def book_inv_def)
  moreover have "cohort_claims t (os[i := o']) \<le> real (t_part_filled_orders_remaining t')"
    using sum_list_update_real [OF i, of "\<lambda>x. if in_cohort t x then claim t x else 0" o'] inv part same
    by (simp add: cohort_claims_def book_inv_def)
  ultimately show ?thesis unfolding book_inv_tick [OF tick] by blast
qed

lemma decreased_book_inv:
  assumes "book_inv t os" "i < length os" "decreased t (os ! i) t' o'"
  shows "book_inv t' (os[i := o'])"
proof (rule book_inv_update [OF assms(1,2)])
  note d = assms(3) [unfolded decreased_def]
  show "order_ok t o'" "lo_order_phase o' = lo_order_phase (os ! i)"
    "t_order_phase t' = t_order_phase t" "t_unfilled_ratio_x64 t' = t_unfilled_ratio_x64 t"
    using d by blast+
  show "t_orders_amount t' + (if waiting t (os ! i) then lo_total_amount (os ! i) else 0) =
      t_orders_amount t + (if waiting t (os ! i) then lo_total_amount o' else 0)"
    using d by (auto split: if_split_asm)
  show "real (t_part_filled_orders_remaining t) + (if in_cohort t (os ! i) then claim t o' else 0)
      \<le> real (t_part_filled_orders_remaining t') + (if in_cohort t (os ! i) then claim t (os ! i) else 0)"
    using d waiting_not_cohort by (auto split: if_split_asm)
qed

lemma cohort_claims_scale:
  assumes "\<And>x. in_cohort t' x = in_cohort t x" "\<And>x. x \<in> set os \<Longrightarrow> claim t' x \<le> claim t x * c"
  shows "cohort_claims t' os \<le> cohort_claims t os * c"
  using assms(2) unfolding cohort_claims_def assms(1)
  by (induction os) (auto simp: distrib_right intro!: add_mono)

lemma fill_cohort_inv:
  assumes inv: "book_inv t os" and f: "consume_limit_orders x t = Inr t'"
    and x: "x \<le> t_part_filled_orders_remaining t"
  shows "book_inv t' os"
proof (cases "x = 0")
  case True
  then have "t_order_phase t' = t_order_phase t" "t_orders_amount t' = t_orders_amount t"
    "t_part_filled_orders_remaining t' = t_part_filled_orders_remaining t"
    "t_unfilled_ratio_x64 t' = t_unfilled_ratio_x64 t"
    using consume_limit_orders_Inr(2) [OF f x] by auto
  then show ?thesis using inv book_inv_tick [of t' t os] by (simp add: book_inv_def)
next
  case False
  let ?R = "t_part_filled_orders_remaining t"
  let ?c = "real (?R - x) / real ?R"
  have t': "t_order_phase t' = t_order_phase t" "t_orders_amount t' = t_orders_amount t"
    "t_part_filled_orders_remaining t' = ?R - x"
    "t_unfilled_ratio_x64 t' = (t_unfilled_ratio_x64 t * (?R - x)) div ?R"
    using consume_limit_orders_Inr(2) [OF f x] False by auto
  have R: "0 < ?R" using False x by simp
  have "real (t_unfilled_ratio_x64 t') \<le> real (t_unfilled_ratio_x64 t) * ?c"
    using of_nat_div_le_of_nat [of "t_unfilled_ratio_x64 t * (?R - x)" ?R] by (simp add: t'(4))
  then have "real (lo_settle_base o') / real (lo_unfilled_ratio_x64 o') * real (t_unfilled_ratio_x64 t')
      \<le> real (lo_settle_base o') / real (lo_unfilled_ratio_x64 o') * (real (t_unfilled_ratio_x64 t) * ?c)" for o'
    by (intro mult_left_mono) simp_all
  then have "claim t' o' \<le> claim t o' * ?c" for o' by (simp add: claim_def mult.assoc)
  then have "cohort_claims t' os \<le> cohort_claims t os * ?c"
    by (intro cohort_claims_scale) (simp_all add: in_cohort_def t'(1))
  also have "\<dots> \<le> real ?R * ?c"
    using inv by (intro mult_right_mono) (simp_all add: book_inv_def)
  also have "\<dots> = real (t_part_filled_orders_remaining t')" using R by (simp add: t'(3))
  finally show ?thesis using inv t'(1,2)
    by (simp add: book_inv_def waiting_total_def waiting_def order_ok_def)
qed

lemma waiting_total_pos: "0 < waiting_total t os \<Longrightarrow> \<exists>x \<in> set os. waiting t x"
  by (induction os) (auto simp: waiting_total_def split: if_split_asm)

lemma fill_phase_inv:
  assumes inv: "book_inv t os" and f: "consume_limit_orders x t = Inr t'"
    and x: "t_part_filled_orders_remaining t < x"
  shows "book_inv t' os"
proof -
  let ?N = "t_orders_amount t" and ?L = "unfilled t - x"
  note t' = conjunct1 [OF consume_limit_orders_Inr(3) [OF f x]]
    conjunct2 [OF consume_limit_orders_Inr(3) [OF f x]]
  have N: "0 < ?N" using consume_limit_orders_Inr(1) [OF f] x by (simp add: unfilled_def)
  obtain w where "w \<in> set os" "waiting t w"
    using waiting_total_pos [of t os] inv N by (auto simp: book_inv_def)
  then have phase: "t_order_phase t < U64_MAX" using inv by (auto simp: book_inv_def order_ok_def waiting_def)
  then have p: "t_order_phase t' = t_order_phase t + 1" using t'(1) by (simp only: saturating_add_phase)
  have ok: "order_ok t x'" if "x' \<in> set os" for x' using inv that by (simp add: book_inv_def)
  have none: "\<not> waiting t' x'" if "x' \<in> set os" for x'
    using ok [OF that] p by (simp add: order_ok_def waiting_def)
  have cohort: "in_cohort t' x' = waiting t x'" for x' using p by (simp add: in_cohort_def waiting_def)
  have "claim t' x' = real (lo_total_amount x') * (real (t_unfilled_ratio_x64 t') / real Q64)"
    if "x' \<in> set os" "waiting t x'" for x'
    using ok [OF that(1)] that(2) by (simp add: claim_def order_ok_def)
  then have "cohort_claims t' os = real (waiting_total t os) * (real (t_unfilled_ratio_x64 t') / real Q64)"
    unfolding cohort_claims_def waiting_total_def cohort
    by (induction os) (auto simp: distrib_right add_divide_distrib)
  also have "waiting_total t os = ?N" using inv by (simp add: book_inv_def)
  also have "real (t_unfilled_ratio_x64 t') \<le> real Q64 * real ?L / real ?N"
    using of_nat_div_le_of_nat [of "Q64 * ?L" ?N] t'(2) by simp
  then have "real ?N * (real (t_unfilled_ratio_x64 t') / real Q64) \<le> real ?L"
    using N by (simp add: field_simps)
  finally have "cohort_claims t' os \<le> real (t_part_filled_orders_remaining t')" using t'(2) by simp
  moreover have "waiting_total t' os = 0" unfolding waiting_total_def using none by (induction os) auto
  moreover have "order_ok t' x'" if "x' \<in> set os" for x'
    using ok [OF that] none [OF that] p by (simp add: order_ok_def)
  ultimately show ?thesis using t'(2) by (simp add: book_inv_def)
qed

lemma place_inv:
  assumes inv: "book_inv t os" and p: "place_order pool owner tick z amount now t = Inr (t', o')"
  shows "book_inv t' (os @ [o'])"
proof -
  have t': "t' = t\<lparr>t_tick := tick, t_orders_amount := t_orders_amount t + amount\<rparr>"
    "o' = order_initialize pool owner tick z amount (t_order_phase t) now" "t_order_phase t < U64_MAX"
    using p by (simp_all add: place_order_def res_simps Let_def)
  have o': "order_ok t o'" "waiting t o'" "lo_total_amount o' = amount"
    using t'(2,3) by (simp_all add: order_initialize_def order_ok_def waiting_def)
  have "t_order_phase t' = t_order_phase t" "t_unfilled_ratio_x64 t' = t_unfilled_ratio_x64 t"
    "t_orders_amount t' = t_orders_amount t + amount"
    "t_part_filled_orders_remaining t' = t_part_filled_orders_remaining t"
    by (simp_all add: t'(1))
  with book_inv_tick [OF this(1,2), of "os @ [o']"] show ?thesis
    using inv o' waiting_not_cohort [OF o'(2)]
    by (simp add: book_inv_def waiting_total_def cohort_claims_def)
qed

lemma increase_inv:
  assumes inv: "book_inv t os" and i: "i < length os"
    and s: "increase_amount amount t (os ! i) = Inr (t', o')"
  shows "book_inv t' (os[i := o'])"
proof -
  have ok: "order_ok t (os ! i)" using inv i by (simp add: book_inv_def)
  have i': "waiting t (os ! i)" "t' = t\<lparr>t_orders_amount := t_orders_amount t + amount\<rparr>"
    "o' = (os ! i)\<lparr>lo_total_amount := lo_total_amount (os ! i) + amount,
                 lo_settle_base := lo_settle_base (os ! i) + amount\<rparr>"
    using s by (auto simp: increase_amount_def res_simps waiting_def split: if_split_asm)
  have nc: "\<not> in_cohort t (os ! i)" by (rule waiting_not_cohort [OF i'(1)])
  show ?thesis
    using ok i' nc by (intro book_inv_update [OF inv i]) (simp_all add: order_ok_def waiting_def)
qed

lemma close_inv:
  assumes inv: "book_inv t (xs @ o' # ys)" and c: "get_unfilled_amount o' = Inr 0"
  shows "book_inv t (xs @ ys)"
proof -
  have "waiting t o' \<Longrightarrow> lo_total_amount o' = 0"
    using inv c by (auto simp: book_inv_def order_ok_def get_unfilled_amount_def res_simps)
  then show ?thesis using inv claim_nonneg [of t o']
    by (auto simp: book_inv_def waiting_total_def cohort_claims_def split: if_split_asm)
qed

lemma fill_inv:
  assumes "book_inv t os" "consume_limit_orders x t = Inr t'"
  shows "book_inv t' os"
proof (cases "x \<le> t_part_filled_orders_remaining t")
  case True
  with assms show ?thesis by (rule fill_cohort_inv)
next
  case False
  then have "t_part_filled_orders_remaining t < x" by simp
  with assms show ?thesis by (rule fill_phase_inv)
qed

lemma book_inv_nth: "book_inv t os \<Longrightarrow> i < length os \<Longrightarrow> order_ok t (os ! i)"
  by (simp add: book_inv_def)

lemma settle_inv:
  assumes "book_inv t os" "i < length os" "settle_filled_order t (os ! i) = Inr (o', paid)"
  shows "book_inv t (os[i := o'])"
  by (rule decreased_book_inv [OF assms(1,2)], rule decreased_settled [OF book_inv_nth [OF assms(1,2)] assms(3)])

lemma decrease_inv:
  assumes "book_inv t os" "i < length os" "decrease_amount amount t (os ! i) = Inr (t', o', r)"
  shows "book_inv t' (os[i := o'])"
  by (rule decreased_book_inv [OF assms(1,2)], rule decrease_amount_ok [OF book_inv_nth [OF assms(1,2)] assms(3)])

lemma book_step_inv:
  assumes "book_step (t, os) b" "book_inv t os"
  shows "book_inv (fst b) (snd b)"
  using assms(1)
proof (cases rule: book_stepE [consumes 1, case_names place fill settle increase decrease close])
  case place
  then show ?thesis using place_inv [OF assms(2)] by simp
next
  case fill
  then show ?thesis using fill_inv [OF assms(2)] by simp
next
  case settle
  then show ?thesis using settle_inv [OF assms(2)] by simp
next
  case increase
  then show ?thesis using increase_inv [OF assms(2)] by simp
next
  case decrease
  then show ?thesis using decrease_inv [OF assms(2)] by simp
next
  case close
  then show ?thesis using close_inv assms(2) by simp
qed

lemma book_reachable_inv: "book_reachable b \<Longrightarrow> book_inv (fst b) (snd b)"
proof (induction rule: book_reachable.induct)
  case (empty t)
  then show ?case by (simp add: book_inv_def waiting_total_def cohort_claims_def)
next
  case (step b b')
  then show ?case using book_step_inv [of "fst b" "snd b" b'] by simp
qed

section \<open>Settling twice\<close>

lemma settle_cohort_value:
  fixes o' :: limit_order and t :: tick_state
  defines "q \<equiv> (lo_settle_base o' * t_unfilled_ratio_x64 t) div lo_unfilled_ratio_x64 o'"
    and "r \<equiv> (lo_settle_base o' * t_unfilled_ratio_x64 t) mod lo_unfilled_ratio_x64 o'"
  assumes "in_cohort t o'" "lo_order_phase o' < U64_MAX" "lo_settle_base o' \<noteq> 0"
    and "lo_unfilled_ratio_x64 o' \<noteq> 0" "q < 2 ^ 64"
  shows "settle_filled_order t o' =
    (if lo_settle_base o' \<le> q then Inr (o', 0)
     else and_then (get_limit_order_output
          (if r = 0 then lo_settle_base o' - q else lo_settle_base o' - q - 1) (t_tick t) (lo_zero_for_one o'))
       (\<lambda>outp. and_then (ok_or (checked_sub (lo_total_amount o') q) CalculateOverflow) (\<lambda>filled.
          Inr (o'\<lparr>lo_filled_amount := filled, lo_settled_output := outp\<rparr>,
               outp - lo_settled_output o'))))"
proof -
  have "lo_order_phase o' \<noteq> t_order_phase t" "saturating_add 64 (lo_order_phase o') 1 = t_order_phase t"
    using assms(3) saturating_add_phase [OF assms(4)] by (auto simp: in_cohort_def)
  moreover have "div_u (lo_settle_base o' * t_unfilled_ratio_x64 t) (lo_unfilled_ratio_x64 o') = Inr q"
    "as_uint 64 q = Inr q"
    using assms(6,7) by (simp_all add: q_def u_defs)
  ultimately show ?thesis using assms(5)
    by (simp add: settle_filled_order_def saturating_sub_def Let_def r_def)
qed

lemma settle_twice_cohort:
  assumes "in_cohort t o'" "order_ok t o'" "lo_settle_base o' \<noteq> 0"
    and s: "settle_filled_order t o' = Inr (o1, p1)"
    and q: "(lo_settle_base o' * t_unfilled_ratio_x64 t) div lo_unfilled_ratio_x64 o' < lo_settle_base o'"
      "lo_settle_base o' < 2 ^ 64"
  shows "settle_filled_order t o1 = Inr (o1, 0)"
proof -
  let ?q = "(lo_settle_base o' * t_unfilled_ratio_x64 t) div lo_unfilled_ratio_x64 o'"
  let ?r = "(lo_settle_base o' * t_unfilled_ratio_x64 t) mod lo_unfilled_ratio_x64 o'"
  let ?e = "if ?r = 0 then lo_settle_base o' - ?q else lo_settle_base o' - ?q - 1"
  have ok: "lo_order_phase o' < U64_MAX" "lo_unfilled_ratio_x64 o' \<noteq> 0" "?q < 2 ^ 64"
    using assms(2) less_trans [OF q] by (auto simp: order_ok_def)
  note v = settle_cohort_value [OF assms(1) ok(1) assms(3) ok(2,3)]
  obtain outp where out: "get_limit_order_output ?e (t_tick t) (lo_zero_for_one o') = Inr outp"
    "?q \<le> lo_total_amount o'"
    "o1 = o'\<lparr>lo_filled_amount := lo_total_amount o' - ?q, lo_settled_output := outp\<rparr>"
    using s q(1) unfolding v by (auto simp: res_simps)
  have o1: "in_cohort t o1" "lo_order_phase o1 < U64_MAX" "lo_settle_base o1 \<noteq> 0"
    "lo_unfilled_ratio_x64 o1 \<noteq> 0"
    "(lo_settle_base o1 * t_unfilled_ratio_x64 t) div lo_unfilled_ratio_x64 o1 < 2 ^ 64"
    using assms(1,3) ok by (simp_all add: out(3) in_cohort_def)
  have "checked_sub (lo_total_amount o') ?q = Some (lo_total_amount o' - ?q)"
    using out(2) by (simp add: checked_sub_def)
  then show ?thesis
    unfolding settle_cohort_value [OF o1] using q(1) out(1)
    by (cases "?r = 0") (simp_all add: out(3))
qed

lemma settle_twice:
  assumes ok: "order_ok t o'" and s: "settle_filled_order t o' = Inr (o1, p1)"
    and fit: "lo_total_amount o' < 2 ^ 64"
  shows "settle_filled_order t o1 = Inr (o1, 0)"
proof (cases rule: settle_filled_order_cases [OF s ok, case_names same part full])
  case same
  show ?thesis
  proof (cases "lo_settle_base o' = 0 \<or> waiting t o'")
    case True
    then show ?thesis using same(1) by (auto simp: settle_filled_order_def waiting_def)
  next
    case False
    then have c: "in_cohort t o'" "lo_settle_base o' \<noteq> 0"
      "lo_settle_base o' \<le> (lo_settle_base o' * t_unfilled_ratio_x64 t) div lo_unfilled_ratio_x64 o'"
      using same(2) by auto
    have p: "lo_order_phase o' < U64_MAX" using ok by (simp add: order_ok_def)
    have "lo_order_phase o' \<noteq> t_order_phase t" "saturating_add 64 (lo_order_phase o') 1 = t_order_phase t"
      using c(1) saturating_add_phase [OF p] by (auto simp: in_cohort_def)
    then have "p1 = 0"
      using s c(2,3) unfolding settle_filled_order_def Let_def
      by (simp add: saturating_sub_def res_simps split: if_split_asm)
    then show ?thesis using s same(1) by simp
  qed
next
  case part
  have "lo_settle_base o' \<noteq> 0" "lo_settle_base o' < 2 ^ 64"
    using part(2) ok fit by (auto simp: order_ok_def)
  then show ?thesis using settle_twice_cohort [OF part(1) ok _ s part(2)] by blast
next
  case full
  then show ?thesis by (simp add: settle_filled_order_def)
qed

section \<open>A small book\<close>

definition example_order :: limit_order where
  "example_order = order_initialize 1 2 0 True 1000 0 100"

definition example_filled :: tick_state where
  "example_filled = example_tick 0\<lparr>t_order_phase := 1, t_orders_amount := 0,
     t_part_filled_orders_remaining := 502, t_unfilled_ratio_x64 := 9260265525002194911\<rparr>"

lemma example_book: "book_reachable (example_filled, [example_order])"
proof -
  have "place_order 1 2 0 True 1000 100 default_tick_state = Inr (example_tick 0, example_order)"
    by (simp add: place_order_def default_tick_state_def example_tick_def example_order_def
        order_initialize_def u_defs Let_def)
  then have "book_step (default_tick_state, []) (example_tick 0, [] @ [example_order])"
    by (rule book_step.place)
  moreover have "book_reachable (default_tick_state, [])"
    by (rule book_reachable.empty) (simp_all add: default_tick_state_def)
  ultimately have "book_reachable (example_tick 0, [example_order])"
    using book_reachable.step by simp
  moreover have "book_step (example_tick 0, [example_order]) (example_filled, [example_order])"
    using example_consume unfolding example_filled_def by (rule book_step.fill)
  ultimately show ?thesis by (rule book_reachable.step)
qed

lemma example_settle:
  "settle_filled_order example_filled example_order =
    Inr (example_order\<lparr>lo_filled_amount := 499, lo_settled_output := 498\<rparr>, 498)"
  by (simp add: settle_filled_order_def example_filled_def example_order_def order_initialize_def
      example_tick_def default_tick_state_def saturating_add_def saturating_sub_def u_defs Q64_def
      get_limit_order_output_def get_price_at_tick_eq valid_tick_def tick_limits price_value_def
      rounded_def sqrt_price_near mul_div_eq Let_def)

section \<open>Properties\<close>

text \<open>
  C9. The order book is solvent: in every state the instructions and swaps can reach, what all
  orders together may still withdraw unfilled (a waiting order its whole amount, an order of the
  current cohort its rounded share) is at most what the tick holds, so the cap on a decrease by
  the cohort's remainder never binds.
\<close>

definition refundable :: "tick_state \<Rightarrow> limit_order \<Rightarrow> nat" where
  "refundable t o' =
     (if lo_order_phase o' = t_order_phase t then lo_total_amount o'
      else if lo_order_phase o' + 1 = t_order_phase t
      then (lo_settle_base o' * t_unfilled_ratio_x64 t) div lo_unfilled_ratio_x64 o'
      else 0)"

lemma refundable_split:
  "real (\<Sum>x\<leftarrow>os. refundable t x) \<le> real (waiting_total t os) + cohort_claims t os"
proof (induction os)
  case (Cons x os)
  have "real (refundable t x) \<le> real (if waiting t x then lo_total_amount x else 0) +
      (if in_cohort t x then claim t x else 0)"
    using floor_claim [of x t] by (auto simp: refundable_def waiting_def in_cohort_def)
  then show ?case using Cons by (simp add: waiting_total_def cohort_claims_def)
qed (simp add: waiting_total_def cohort_claims_def)

theorem order_book_solvent:
  assumes "book_reachable (t, os)"
  shows "(\<Sum>x\<leftarrow>os. refundable t x) \<le> t_orders_amount t + t_part_filled_orders_remaining t \<and>
    (\<forall>x \<in> set os. lo_order_phase x + 1 = t_order_phase t \<longrightarrow>
      refundable t x \<le> t_part_filled_orders_remaining t)"
proof -
  have inv: "book_inv t os" using book_reachable_inv [OF assms] by simp
  then have "real (\<Sum>x\<leftarrow>os. refundable t x) \<le> real (t_orders_amount t + t_part_filled_orders_remaining t)"
    using refundable_split [where os = os and t = t] by (simp add: book_inv_def)
  moreover have "refundable t x \<le> t_part_filled_orders_remaining t"
    if "x \<in> set os" "lo_order_phase x + 1 = t_order_phase t" for x
  proof -
    have "(if in_cohort t x then claim t x else 0) \<le> cohort_claims t os"
      unfolding cohort_claims_def using that(1) claim_nonneg
      by (intro member_le_sum_list) (auto)
    then have "real (refundable t x) \<le> real (t_part_filled_orders_remaining t)"
      using floor_claim [of x t] that(2) inv by (auto simp: refundable_def in_cohort_def book_inv_def)
    then show ?thesis by simp
  qed
  ultimately show ?thesis by (simp only: of_nat_le_iff) blast
qed

theorem order_book_solvent_witness:
  "(1000 * 9260265525002194911) div Q64 \<le> (0 :: nat) + 502"
  using order_book_solvent [OF example_book]
  by (simp add: refundable_def example_filled_def example_order_def order_initialize_def
      example_tick_def default_tick_state_def)

text \<open>
  Settling is idempotent: a second settlement with no fill in between changes nothing and
  pays nothing, for every order of a reachable book.
\<close>

theorem settle_idempotent:
  assumes "book_reachable (t, os)" "x \<in> set os" "lo_total_amount x < 2 ^ 64"
    and "settle_filled_order t x = Inr (x', paid)"
  shows "settle_filled_order t x' = Inr (x', 0)"
proof -
  have "order_ok t x" using book_reachable_inv [OF assms(1)] assms(2) by (simp add: book_inv_def)
  then show ?thesis using assms(4,3) by (rule settle_twice)
qed

theorem settle_idempotent_witness:
  "settle_filled_order example_filled (example_order\<lparr>lo_filled_amount := 499, lo_settled_output := 498\<rparr>) =
    Inr (example_order\<lparr>lo_filled_amount := 499, lo_settled_output := 498\<rparr>, 0)"
  using settle_idempotent [OF example_book _ _ example_settle]
  by (simp add: example_order_def order_initialize_def)

end
