(* ===== verification/Pool_Fee.thy ===== *)
theory Pool_Fee
  imports Full_Math
begin

text \<open>
  \<open>states/pool_fee.rs\<close>, \<open>states/dynamic_fee_config.rs\<close> and the fee-rate part of
  \<open>instructions/swap.rs\<close>: which side pays the fee, the volatility accumulator with its
  time-decayed reference, and the fee rate it gives. The lemmas show that validated parameters
  keep every computation in range and the rate at most 10 percent.
\<close>

section \<open>Constants and data\<close>

definition MAX_FEE_RATE_NUMERATOR :: nat where "MAX_FEE_RATE_NUMERATOR = 100000"
definition VOLATILITY_ACCUMULATOR_SCALE :: nat where "VOLATILITY_ACCUMULATOR_SCALE = 10000"
definition REDUCTION_FACTOR_DENOMINATOR :: nat where "REDUCTION_FACTOR_DENOMINATOR = 10000"
definition DYNAMIC_FEE_CONTROL_DENOMINATOR :: nat where "DYNAMIC_FEE_CONTROL_DENOMINATOR = 100000"

lemmas fee_constants = MAX_FEE_RATE_NUMERATOR_def VOLATILITY_ACCUMULATOR_SCALE_def
  REDUCTION_FACTOR_DENOMINATOR_def DYNAMIC_FEE_CONTROL_DENOMINATOR_def

record dynamic_fee_info =
  df_filter_period :: nat
  df_decay_period :: nat
  df_reduction_factor :: nat
  df_dynamic_fee_control :: nat
  df_max_volatility_accumulator :: nat
  df_tick_spacing_index_reference :: int
  df_volatility_reference :: nat
  df_volatility_accumulator :: nat
  df_last_update_timestamp :: nat

definition default_dynamic_fee_info :: dynamic_fee_info where
  "default_dynamic_fee_info =
     \<lparr>df_filter_period = 0, df_decay_period = 0, df_reduction_factor = 0,
      df_dynamic_fee_control = 0, df_max_volatility_accumulator = 0,
      df_tick_spacing_index_reference = 0, df_volatility_reference = 0,
      df_volatility_accumulator = 0, df_last_update_timestamp = 0\<rparr>"

section \<open>Operations\<close>

definition validate_params :: "nat \<Rightarrow> nat \<Rightarrow> nat \<Rightarrow> nat \<Rightarrow> nat \<Rightarrow> nat \<Rightarrow> bool" where
  "validate_params tick_spacing filter_period decay_period reduction_factor
     dynamic_fee_control max_volatility_accumulator =
   (if filter_period = 0 then False
    else if decay_period = 0 \<or> decay_period \<le> filter_period then False
    else if reduction_factor = 0 \<or> reduction_factor \<ge> REDUCTION_FACTOR_DENOMINATOR then False
    else if dynamic_fee_control = 0 \<or> dynamic_fee_control \<ge> DYNAMIC_FEE_CONTROL_DENOMINATOR
    then False
    else if max_volatility_accumulator * tick_spacing > U32_MAX then False
    else True)"

text \<open>The sum and product are 64-bit in the source and cannot overflow there; the clamp makes
  the cast back to 32 bits exact.\<close>

definition update_volatility_accumulator :: "int \<Rightarrow> dynamic_fee_info \<Rightarrow> dynamic_fee_info res" where
  "update_volatility_accumulator tick_spacing_index info =
     and_then (arith_i 32 (df_tick_spacing_index_reference info - tick_spacing_index)) (\<lambda>d.
     let index_delta = nat \<bar>d\<bar>;
         acc = df_volatility_reference info + index_delta * VOLATILITY_ACCUMULATOR_SCALE
     in Inr (info\<lparr>df_volatility_accumulator :=
               wrap_uint 32 (min acc (df_max_volatility_accumulator info))\<rparr>))"

definition update_reference :: "int \<Rightarrow> nat \<Rightarrow> dynamic_fee_info \<Rightarrow> dynamic_fee_info" where
  "update_reference tick_spacing_index current_timestamp info =
     (let elapsed = saturating_sub current_timestamp (df_last_update_timestamp info) in
      if elapsed < df_filter_period info then info
      else if elapsed < df_decay_period info then
        info\<lparr>df_tick_spacing_index_reference := tick_spacing_index,
             df_volatility_reference :=
               wrap_uint 32 ((df_volatility_accumulator info * df_reduction_factor info)
                              div REDUCTION_FACTOR_DENOMINATOR),
             df_last_update_timestamp := current_timestamp\<rparr>
      else
        info\<lparr>df_tick_spacing_index_reference := tick_spacing_index,
             df_volatility_reference := 0,
             df_last_update_timestamp := current_timestamp\<rparr>)"

definition is_fee_on_input :: "nat \<Rightarrow> bool \<Rightarrow> bool" where
  "is_fee_on_input fee_on zero_for_one =
     (if fee_on = 0 then True
      else if fee_on = 1 then zero_for_one
      else if fee_on = 2 then \<not> zero_for_one
      else True)"

definition is_fee_on_token0 :: "nat \<Rightarrow> bool \<Rightarrow> bool" where
  "is_fee_on_token0 fee_on zero_for_one =
     (if fee_on = 0 then zero_for_one
      else if fee_on = 1 then True
      else if fee_on = 2 then False
      else zero_for_one)"

definition tick_spacing_index_from_tick :: "int \<Rightarrow> nat \<Rightarrow> int res" where
  "tick_spacing_index_from_tick tick_index spacing =
     (let tick_spacing = int spacing in
      if tick_spacing = 0 then Inl Panic
      else if tick_index smod tick_spacing = 0 \<or> tick_index \<ge> 0
      then Inr (tick_index sdiv tick_spacing)
      else Inr (tick_index sdiv tick_spacing - 1))"

definition compute_dynamic_fee_rate :: "dynamic_fee_info \<Rightarrow> nat \<Rightarrow> nat res" where
  "compute_dynamic_fee_rate info tick_spacing =
     and_then (mul_u 32 (df_volatility_accumulator info) tick_spacing) (\<lambda>crossed.
     and_then (mul_u 64 crossed crossed) (\<lambda>squared.
     let denominator = DYNAMIC_FEE_CONTROL_DENOMINATOR * VOLATILITY_ACCUMULATOR_SCALE
                         * VOLATILITY_ACCUMULATOR_SCALE
     in and_then (ok_or (mul_div_ceil 128 (df_dynamic_fee_control info) squared denominator)
          CalculateOverflow) (\<lambda>fee_rate.
        if fee_rate > MAX_FEE_RATE_NUMERATOR then Inr MAX_FEE_RATE_NUMERATOR
        else Inr (wrap_uint 32 fee_rate))))"

definition get_total_fee_rate :: "dynamic_fee_info option \<Rightarrow> nat \<Rightarrow> nat \<Rightarrow> nat res" where
  "get_total_fee_rate dynamic_fee_info base_fee_rate tick_spacing =
     (case dynamic_fee_info of
        Some info \<Rightarrow>
          and_then (compute_dynamic_fee_rate info tick_spacing) (\<lambda>dynamic_fee_rate.
          and_then (add_u 32 base_fee_rate dynamic_fee_rate) (\<lambda>total.
          Inr (min total MAX_FEE_RATE_NUMERATOR)))
      | None \<Rightarrow> Inr base_fee_rate)"

text \<open>\<open>DynamicFeeConfig\<close>: its parameters are validated for a tick spacing of 1000.\<close>

record dynamic_fee_config =
  dc_index :: nat
  dc_filter_period :: nat
  dc_decay_period :: nat
  dc_reduction_factor :: nat
  dc_dynamic_fee_control :: nat
  dc_max_volatility_accumulator :: nat

definition update_dynamic_fee_config ::
  "nat \<Rightarrow> nat \<Rightarrow> nat \<Rightarrow> nat \<Rightarrow> nat \<Rightarrow> dynamic_fee_config \<Rightarrow> dynamic_fee_config res" where
  "update_dynamic_fee_config filter_period decay_period reduction_factor dynamic_fee_control
     max_volatility_accumulator config =
   (if \<not> validate_params 1000 filter_period decay_period reduction_factor dynamic_fee_control
          max_volatility_accumulator
    then fail InvalidDynamicFeeConfigParams
    else Inr (config\<lparr>dc_filter_period := filter_period, dc_decay_period := decay_period,
                dc_reduction_factor := reduction_factor,
                dc_dynamic_fee_control := dynamic_fee_control,
                dc_max_volatility_accumulator := max_volatility_accumulator\<rparr>))"

definition initialize_dynamic_fee_config ::
  "nat \<Rightarrow> nat \<Rightarrow> nat \<Rightarrow> nat \<Rightarrow> nat \<Rightarrow> nat \<Rightarrow> dynamic_fee_config \<Rightarrow> dynamic_fee_config res" where
  "initialize_dynamic_fee_config index filter_period decay_period reduction_factor
     dynamic_fee_control max_volatility_accumulator config =
   update_dynamic_fee_config filter_period decay_period reduction_factor dynamic_fee_control
     max_volatility_accumulator (config\<lparr>dc_index := index\<rparr>)"

section \<open>Spacing indices\<close>

lemma tick_spacing_index_eq:
  "0 < s \<Longrightarrow> tick_spacing_index_from_tick t s = Inr (t div int s)"
  using floor_sdiv [of "int s" t] by (auto simp: tick_spacing_index_from_tick_def split: if_splits)

section \<open>The fee rate stays in range\<close>

definition valid_dynamic_fee :: "nat \<Rightarrow> dynamic_fee_info \<Rightarrow> bool" where
  "valid_dynamic_fee spacing info \<longleftrightarrow>
     validate_params spacing (df_filter_period info) (df_decay_period info)
       (df_reduction_factor info) (df_dynamic_fee_control info)
       (df_max_volatility_accumulator info) \<and>
     df_max_volatility_accumulator info < 2 ^ 32 \<and>
     df_volatility_accumulator info \<le> df_max_volatility_accumulator info \<and>
     df_volatility_reference info \<le> df_max_volatility_accumulator info"

lemma valid_dynamic_feeD:
  assumes "valid_dynamic_fee spacing info"
  shows "df_volatility_accumulator info * spacing < 2 ^ 32"
    "df_reduction_factor info < REDUCTION_FACTOR_DENOMINATOR"
    "df_dynamic_fee_control info < DYNAMIC_FEE_CONTROL_DENOMINATOR"
    "0 < df_filter_period info" "df_filter_period info < df_decay_period info"
proof -
  note v = assms [unfolded valid_dynamic_fee_def validate_params_def]
  have "df_volatility_accumulator info * spacing \<le> df_max_volatility_accumulator info * spacing"
    using v by (intro mult_le_mono1) simp
  moreover have "df_max_volatility_accumulator info * spacing < 2 ^ 32"
    using v by (simp split: if_split_asm)
  ultimately show "df_volatility_accumulator info * spacing < 2 ^ 32" by (rule le_less_trans)
qed (use assms in \<open>auto simp: valid_dynamic_fee_def validate_params_def split: if_split_asm\<close>)

text \<open>An accumulator update clamps at the maximum, a decay shrinks the reference.\<close>

lemma update_volatility_accumulator_Inr:
  assumes "update_volatility_accumulator i info = Inr info'" "df_max_volatility_accumulator info < 2 ^ 32"
  shows "info' = info\<lparr>df_volatility_accumulator :=
    min (df_volatility_reference info +
         nat \<bar>df_tick_spacing_index_reference info - i\<bar> * VOLATILITY_ACCUMULATOR_SCALE)
      (df_max_volatility_accumulator info)\<rparr>"
  using assms by (auto simp: update_volatility_accumulator_def res_simps wrap_uint_def min_def)

lemma update_volatility_accumulator_valid:
  assumes "valid_dynamic_fee s info" "update_volatility_accumulator i info = Inr info'"
  shows "valid_dynamic_fee s info'"
  using assms update_volatility_accumulator_Inr [OF assms(2)]
  by (simp add: valid_dynamic_fee_def)

lemma decayed_reference_le:
  assumes "valid_dynamic_fee s info"
  shows "(df_volatility_accumulator info * df_reduction_factor info) div REDUCTION_FACTOR_DENOMINATOR
    \<le> df_volatility_accumulator info"
proof -
  have "(df_volatility_accumulator info * df_reduction_factor info) div REDUCTION_FACTOR_DENOMINATOR
      \<le> (df_volatility_accumulator info * REDUCTION_FACTOR_DENOMINATOR) div REDUCTION_FACTOR_DENOMINATOR"
    using valid_dynamic_feeD(2) [OF assms] by (intro div_le_mono mult_le_mono2) simp
  then show ?thesis by (simp add: REDUCTION_FACTOR_DENOMINATOR_def)
qed

lemma update_reference_valid:
  assumes "valid_dynamic_fee s info"
  shows "valid_dynamic_fee s (update_reference i now info)"
proof -
  have "wrap_uint 32 x \<le> x" for x by (simp add: wrap_uint_def)
  then have "wrap_uint 32 ((df_volatility_accumulator info * df_reduction_factor info)
      div REDUCTION_FACTOR_DENOMINATOR) \<le> df_max_volatility_accumulator info"
    using decayed_reference_le [OF assms] assms by (meson le_trans valid_dynamic_fee_def)
  then show ?thesis using assms by (simp add: update_reference_def valid_dynamic_fee_def Let_def)
qed

text \<open>The quadratic rate, rounded up and capped.\<close>

definition dynamic_rate :: "dynamic_fee_info \<Rightarrow> nat \<Rightarrow> nat" where
  "dynamic_rate info spacing =
     min MAX_FEE_RATE_NUMERATOR
       (ceil_div (df_dynamic_fee_control info * (df_volatility_accumulator info * spacing) ^ 2)
         (DYNAMIC_FEE_CONTROL_DENOMINATOR * VOLATILITY_ACCUMULATOR_SCALE ^ 2))"

lemma compute_dynamic_fee_rate_eq:
  assumes "valid_dynamic_fee spacing info"
  shows "compute_dynamic_fee_rate info spacing = Inr (dynamic_rate info spacing)"
proof -
  let ?c = "df_volatility_accumulator info * spacing"
  note v = valid_dynamic_feeD [OF assms]
  have sq: "?c * ?c < 2 ^ 32 * 2 ^ 32" using v(1) by (intro mult_strict_mono) simp_all
  let ?n = "df_dynamic_fee_control info * (?c * ?c)"
  let ?d = "DYNAMIC_FEE_CONTROL_DENOMINATOR * VOLATILITY_ACCUMULATOR_SCALE * VOLATILITY_ACCUMULATOR_SCALE"
  have "?n \<le> 100000 * 2 ^ 64"
    using v(3) sq by (intro mult_le_mono) (simp_all add: DYNAMIC_FEE_CONTROL_DENOMINATOR_def)
  moreover have "ceil_div ?n ?d \<le> ?n" by (simp add: ceil_div_le_iff fee_constants)
  ultimately have "ceil_div ?n ?d < 2 ^ 128" by simp
  then have "mul_div_ceil 128 (df_dynamic_fee_control info) (?c * ?c) ?d = Some (ceil_div ?n ?d)"
    by (simp add: mul_div_ceil_Some fee_constants)
  then show ?thesis using v(1) sq
    by (auto simp: compute_dynamic_fee_rate_def dynamic_rate_def arith_u_Inr Let_def u_defs
        power2_eq_square mult.assoc wrap_uint_def fee_constants min_def)
qed

lemma get_total_fee_rate_eq:
  assumes "base < 2 ^ 31" "case info of Some i \<Rightarrow> valid_dynamic_fee spacing i | None \<Rightarrow> True"
  shows "get_total_fee_rate info base spacing =
    Inr (case info of Some i \<Rightarrow> min (base + dynamic_rate i spacing) MAX_FEE_RATE_NUMERATOR | None \<Rightarrow> base)"
proof (cases info)
  case (Some i)
  have "dynamic_rate i spacing \<le> 100000"
    by (simp add: dynamic_rate_def MAX_FEE_RATE_NUMERATOR_def)
  then show ?thesis using assms Some
    by (simp add: get_total_fee_rate_def compute_dynamic_fee_rate_eq u_defs)
qed (simp add: get_total_fee_rate_def)

section \<open>Properties\<close>

text \<open>
  C6. The dynamic fee stays valid and bounded: from validated parameters, a reference update
  followed by an accumulator update keeps them valid, and the total fee rate is computed without
  overflow, is at least the base rate up to the cap, and never exceeds 10 percent.
\<close>

theorem dynamic_fee_bounded:
  assumes "valid_dynamic_fee spacing info" "base < 2 ^ 31"
    and "update_volatility_accumulator i (update_reference j now info) = Inr info'"
  shows "valid_dynamic_fee spacing info' \<and>
    (\<exists>r. get_total_fee_rate (Some info') base spacing = Inr r \<and>
         min base MAX_FEE_RATE_NUMERATOR \<le> r \<and> r \<le> MAX_FEE_RATE_NUMERATOR)"
proof -
  have "valid_dynamic_fee spacing info'"
    using update_reference_valid [OF assms(1)] assms(3) by (rule update_volatility_accumulator_valid)
  then show ?thesis using get_total_fee_rate_eq [OF assms(2), of spacing "Some info'"] by simp
qed

definition example_dynamic_fee :: dynamic_fee_info where
  "example_dynamic_fee =
     \<lparr>df_filter_period = 30, df_decay_period = 600, df_reduction_factor = 5000,
      df_dynamic_fee_control = 40000, df_max_volatility_accumulator = 350000,
      df_tick_spacing_index_reference = 5, df_volatility_reference = 0,
      df_volatility_accumulator = 30000, df_last_update_timestamp = 1000\<rparr>"

lemma example_dynamic_fee_valid: "valid_dynamic_fee 10 example_dynamic_fee"
  by (simp add: valid_dynamic_fee_def validate_params_def example_dynamic_fee_def fee_constants)

lemma example_dynamic_fee_update:
  "update_volatility_accumulator 9 (update_reference 7 1100 example_dynamic_fee) =
    Inr (example_dynamic_fee
      \<lparr>df_tick_spacing_index_reference := 7, df_volatility_reference := 15000,
       df_volatility_accumulator := 35000, df_last_update_timestamp := 1100\<rparr>)"
  by (simp add: update_volatility_accumulator_def update_reference_def example_dynamic_fee_def
      fee_constants saturating_sub_def wrap_uint_def arith_i_def checked_i_def fits_i_def)

theorem dynamic_fee_bounded_witness:
  "\<exists>r. get_total_fee_rate (Some (example_dynamic_fee
      \<lparr>df_tick_spacing_index_reference := 7, df_volatility_reference := 15000,
       df_volatility_accumulator := 35000, df_last_update_timestamp := 1100\<rparr>)) 2500 10 = Inr r \<and>
     min 2500 MAX_FEE_RATE_NUMERATOR \<le> r \<and> r \<le> MAX_FEE_RATE_NUMERATOR"
  using dynamic_fee_bounded [OF example_dynamic_fee_valid _ example_dynamic_fee_update, of 2500]
  by simp

text \<open>
  The spacing index of a tick is the flooring quotient, for negative ticks as well, although
  the code divides with truncation.
\<close>

theorem tick_spacing_index_floor:
  "tick_spacing_index_from_tick t spacing = (if spacing = 0 then Inl Panic else Inr (t div int spacing))"
  using tick_spacing_index_eq [of spacing t] by (simp add: tick_spacing_index_from_tick_def)

end
