(* ===== verification/Amm_Config.thy ===== *)
theory Amm_Config
  imports Swap_Math
begin

text \<open>
  \<open>states/config.rs\<close> and the handlers of \<open>instructions/admin\<close> that create and change it. The
  invariant is what the swap relies on: a trade fee below 100 percent and a protocol and fund
  share that together do not exceed the fee. Accounts are named by their public keys; a
  handler's account constraints come first, in the order of its \<open>Accounts\<close> struct.
\<close>

record amm_config =
  ac_index :: nat
  ac_owner :: pubkey
  ac_protocol_fee_rate :: nat
  ac_trade_fee_rate :: nat
  ac_tick_spacing :: nat
  ac_fund_fee_rate :: nat
  ac_fund_owner :: pubkey

definition is_authorized :: "amm_config \<Rightarrow> pubkey \<Rightarrow> pubkey \<Rightarrow> unit res" where
  "is_authorized config signer expect_pubkey =
     require (signer = ac_owner config \<or> expect_pubkey = signer) NotApproved (Inr ())"

definition create_amm_config ::
  "pubkey \<Rightarrow> pubkey \<Rightarrow> nat \<Rightarrow> nat \<Rightarrow> nat \<Rightarrow> nat \<Rightarrow> nat \<Rightarrow> amm_config res" where
  "create_amm_config admin owner index tick_spacing trade_fee_rate protocol_fee_rate fund_fee_rate =
     require (owner = admin) NotApproved
     (require_plain (FEE_RATE_DENOMINATOR_VALUE > trade_fee_rate)
     (and_then (add_u 32 fund_fee_rate protocol_fee_rate) (\<lambda>sum.
      require_plain (FEE_RATE_DENOMINATOR_VALUE \<ge> sum)
      (Inr \<lparr>ac_index = index, ac_owner = owner, ac_protocol_fee_rate = protocol_fee_rate,
            ac_trade_fee_rate = trade_fee_rate, ac_tick_spacing = tick_spacing,
            ac_fund_fee_rate = fund_fee_rate, ac_fund_owner = owner\<rparr>))))"

definition update_protocol_fee_rate :: "amm_config \<Rightarrow> nat \<Rightarrow> amm_config res" where
  "update_protocol_fee_rate config protocol_fee_rate =
     require_plain (FEE_RATE_DENOMINATOR_VALUE \<ge> protocol_fee_rate)
     (and_then (add_u 32 protocol_fee_rate (ac_fund_fee_rate config)) (\<lambda>sum.
      require_plain (FEE_RATE_DENOMINATOR_VALUE \<ge> sum)
      (Inr (config\<lparr>ac_protocol_fee_rate := protocol_fee_rate\<rparr>))))"

definition update_trade_fee_rate :: "amm_config \<Rightarrow> nat \<Rightarrow> amm_config res" where
  "update_trade_fee_rate config trade_fee_rate =
     require_plain (FEE_RATE_DENOMINATOR_VALUE > trade_fee_rate)
       (Inr (config\<lparr>ac_trade_fee_rate := trade_fee_rate\<rparr>))"

definition update_fund_fee_rate :: "amm_config \<Rightarrow> nat \<Rightarrow> amm_config res" where
  "update_fund_fee_rate config fund_fee_rate =
     require_plain (FEE_RATE_DENOMINATOR_VALUE \<ge> fund_fee_rate)
     (and_then (add_u 32 fund_fee_rate (ac_protocol_fee_rate config)) (\<lambda>sum.
      require_plain (FEE_RATE_DENOMINATOR_VALUE \<ge> sum)
      (Inr (config\<lparr>ac_fund_fee_rate := fund_fee_rate\<rparr>))))"

definition set_new_owner :: "amm_config \<Rightarrow> pubkey \<Rightarrow> amm_config" where
  "set_new_owner config new_owner = config\<lparr>ac_owner := new_owner\<rparr>"

definition set_new_fund_owner :: "amm_config \<Rightarrow> pubkey \<Rightarrow> amm_config" where
  "set_new_fund_owner config new_fund_owner = config\<lparr>ac_fund_owner := new_fund_owner\<rparr>"

text \<open>\<open>remaining\<close> is the list of further accounts of the instruction, of which only the first
  is read.\<close>

definition update_amm_config ::
  "pubkey \<Rightarrow> pubkey \<Rightarrow> pubkey list \<Rightarrow> nat \<Rightarrow> nat \<Rightarrow> amm_config \<Rightarrow> amm_config res" where
  "update_amm_config admin owner remaining param value config =
     require (owner = admin) NotApproved
     (if param = 0 then update_trade_fee_rate config value
      else if param = 1 then update_protocol_fee_rate config value
      else if param = 2 then update_fund_fee_rate config value
      else if param = 3 then
        (case remaining of [] \<Rightarrow> fail AccountLack | k # _ \<Rightarrow> Inr (set_new_owner config k))
      else if param = 4 then
        (case remaining of [] \<Rightarrow> fail AccountLack | k # _ \<Rightarrow> Inr (set_new_fund_owner config k))
      else fail InvalidUpdateConfigFlag)"

section \<open>The fee invariant\<close>

definition valid_config :: "amm_config \<Rightarrow> bool" where
  "valid_config config \<longleftrightarrow>
     ac_trade_fee_rate config < FEE_RATE_DENOMINATOR_VALUE \<and>
     ac_protocol_fee_rate config + ac_fund_fee_rate config \<le> FEE_RATE_DENOMINATOR_VALUE"

inductive config_reachable :: "pubkey \<Rightarrow> amm_config \<Rightarrow> bool" for admin where
  created: "create_amm_config admin owner i s t p f = Inr c \<Longrightarrow> config_reachable admin c"
| updated: "config_reachable admin c \<Longrightarrow> update_amm_config admin owner ks param v c = Inr c' \<Longrightarrow>
    config_reachable admin c'"

lemma create_amm_config_valid: "create_amm_config admin owner i s t p f = Inr c \<Longrightarrow> valid_config c"
  by (auto simp: create_amm_config_def res_simps valid_config_def)

lemma update_amm_config_valid:
  "valid_config c \<Longrightarrow> update_amm_config admin owner ks param v c = Inr c' \<Longrightarrow> valid_config c'"
  by (auto simp: update_amm_config_def update_trade_fee_rate_def update_protocol_fee_rate_def
      update_fund_fee_rate_def set_new_owner_def set_new_fund_owner_def res_simps valid_config_def
      split: if_split_asm list.split_asm)

lemma config_reachable_valid: "config_reachable admin c \<Longrightarrow> valid_config c"
  by (induction rule: config_reachable.induct)
    (blast intro: create_amm_config_valid update_amm_config_valid)+

text \<open>
  Every configuration the admin handlers can produce is valid, whatever the sequence of
  updates, and only the admin can produce one: the trade fee is below 100 percent and the
  protocol and fund shares never take more than the whole fee.
\<close>

theorem config_always_valid:
  assumes "config_reachable admin c"
  shows "ac_trade_fee_rate c < FEE_RATE_DENOMINATOR_VALUE \<and>
    ac_protocol_fee_rate c + ac_fund_fee_rate c \<le> FEE_RATE_DENOMINATOR_VALUE \<and>
    (\<forall>owner ks param v c'. update_amm_config admin owner ks param v c = Inr c' \<longrightarrow> owner = admin)"
  using config_reachable_valid [OF assms]
  by (auto simp: valid_config_def update_amm_config_def res_simps)

theorem config_always_valid_witness:
  "ac_trade_fee_rate \<lparr>ac_index = 0, ac_owner = 7, ac_protocol_fee_rate = 120000,
      ac_trade_fee_rate = 2500, ac_tick_spacing = 10, ac_fund_fee_rate = 880000, ac_fund_owner = 7\<rparr>
    < FEE_RATE_DENOMINATOR_VALUE"
proof -
  have "create_amm_config 7 7 0 10 2500 120000 40000 = Inr \<lparr>ac_index = 0, ac_owner = 7,
      ac_protocol_fee_rate = 120000, ac_trade_fee_rate = 2500, ac_tick_spacing = 10,
      ac_fund_fee_rate = 40000, ac_fund_owner = 7\<rparr>" (is "_ = Inr ?c")
    by (simp add: create_amm_config_def u_defs FEE_RATE_DENOMINATOR_VALUE_def)
  then have "config_reachable 7 ?c" by (rule config_reachable.created)
  moreover have "update_amm_config 7 7 [] 2 880000 ?c = Inr (?c\<lparr>ac_fund_fee_rate := 880000\<rparr>)"
    by (simp add: update_amm_config_def update_fund_fee_rate_def u_defs FEE_RATE_DENOMINATOR_VALUE_def)
  ultimately have "config_reachable 7 (?c\<lparr>ac_fund_fee_rate := 880000\<rparr>)"
    by (rule config_reachable.updated)
  from config_always_valid [OF this] show ?thesis by simp
qed

end
