(* ===== verification/Tick_Array.thy ===== *)
theory Tick_Array
  imports Tick_State
begin

text \<open>
  \<open>TickArrayState\<close> of \<open>states/tick_array.rs\<close>: sixty consecutive multiples of the tick spacing,
  addressed by the start index of the array, with the search for the next initialized tick in
  the direction of a swap. The code divides with truncation and corrects negative ticks; the
  lemmas show that this is the flooring division and that every index stays inside the array.
  \<open>epoch\<close> is the current epoch of the chain, stored by the operations that touch an array.
\<close>

section \<open>Definitions\<close>

definition TICK_ARRAY_SIZE :: nat where "TICK_ARRAY_SIZE = 60"

record tick_array_state =
  ta_pool_id :: nat
  ta_start_tick_index :: int
  ta_ticks :: "tick_state list"
  ta_initialized_tick_count :: nat
  ta_recent_epoch :: nat

definition default_tick_array_state :: tick_array_state where
  "default_tick_array_state =
     \<lparr>ta_pool_id = 0, ta_start_tick_index = 0,
      ta_ticks = replicate TICK_ARRAY_SIZE default_tick_state, ta_initialized_tick_count = 0,
      ta_recent_epoch = 0\<rparr>"

definition tick_count :: "nat \<Rightarrow> int" where
  "tick_count tick_spacing = int TICK_ARRAY_SIZE * int tick_spacing"

definition get_array_start_index :: "int \<Rightarrow> nat \<Rightarrow> int res" where
  "get_array_start_index tick_index tick_spacing =
     (let ticks_in_array = tick_count tick_spacing in
      and_then (sdiv_i 32 tick_index ticks_in_array) (\<lambda>start.
      and_then (if tick_index < 0
                then and_then (smod_i 32 tick_index ticks_in_array) (\<lambda>r.
                     if r \<noteq> 0 then arith_i 32 (start - 1) else Inr start)
                else Inr start) (\<lambda>start.
      arith_i 32 (start * ticks_in_array))))"

definition check_is_valid_start_index :: "int \<Rightarrow> nat \<Rightarrow> bool res" where
  "check_is_valid_start_index tick_index tick_spacing =
     (if check_is_out_of_boundary tick_index then
        if tick_index > MAX_TICK then Inr False
        else and_then (get_array_start_index MIN_TICK tick_spacing) (\<lambda>min_start_index.
          Inr (tick_index = min_start_index))
      else and_then (smod_i 32 tick_index (tick_count tick_spacing)) (\<lambda>r. Inr (r = 0)))"

definition tick_array_initialize ::
  "nat \<Rightarrow> int \<Rightarrow> nat \<Rightarrow> nat \<Rightarrow> tick_array_state \<Rightarrow> tick_array_state res" where
  "tick_array_initialize epoch start_index tick_spacing pool_key ta =
     and_then (check_is_valid_start_index start_index tick_spacing) (\<lambda>_.
     Inr (ta\<lparr>ta_start_tick_index := start_index, ta_pool_id := pool_key, ta_recent_epoch := epoch\<rparr>))"

definition update_initialized_tick_count :: "bool \<Rightarrow> tick_array_state \<Rightarrow> tick_array_state res" where
  "update_initialized_tick_count add ta =
     and_then (ok_or (if add then checked_add 8 (ta_initialized_tick_count ta) 1
                      else checked_sub (ta_initialized_tick_count ta) 1) CalculateOverflow)
       (\<lambda>n. Inr (ta\<lparr>ta_initialized_tick_count := n\<rparr>))"

definition get_tick_offset_in_array :: "tick_array_state \<Rightarrow> int \<Rightarrow> nat \<Rightarrow> nat res" where
  "get_tick_offset_in_array ta tick_index tick_spacing =
     and_then (get_array_start_index tick_index tick_spacing) (\<lambda>start_tick_index.
     require (start_tick_index = ta_start_tick_index ta) InvalidTickArray
     (and_then (arith_i 32 (tick_index - ta_start_tick_index ta)) (\<lambda>d.
      and_then (sdiv_i 32 d (int tick_spacing)) (\<lambda>offset.
      Inr (nat (offset mod 2 ^ 64))))))"

text \<open>Indexing the sixty ticks panics out of range.\<close>

definition get_tick_state :: "tick_array_state \<Rightarrow> int \<Rightarrow> nat \<Rightarrow> tick_state res" where
  "get_tick_state ta tick_index tick_spacing =
     and_then (get_tick_offset_in_array ta tick_index tick_spacing) (\<lambda>offset.
     if offset < length (ta_ticks ta) then Inr (ta_ticks ta ! offset) else Inl Panic)"

text \<open>Writing back through \<open>get_tick_state_mut\<close>.\<close>

definition set_tick_state :: "int \<Rightarrow> nat \<Rightarrow> tick_state \<Rightarrow> tick_array_state \<Rightarrow> tick_array_state res" where
  "set_tick_state tick_index tick_spacing t ta =
     and_then (get_tick_offset_in_array ta tick_index tick_spacing) (\<lambda>offset.
     if offset < length (ta_ticks ta) then Inr (ta\<lparr>ta_ticks := (ta_ticks ta)[offset := t]\<rparr>)
     else Inl Panic)"

definition update_tick_state ::
  "nat \<Rightarrow> int \<Rightarrow> nat \<Rightarrow> tick_state \<Rightarrow> tick_array_state \<Rightarrow> tick_array_state res" where
  "update_tick_state epoch tick_index tick_spacing t ta =
     and_then (set_tick_state tick_index tick_spacing t ta) (\<lambda>ta.
     Inr (ta\<lparr>ta_recent_epoch := epoch\<rparr>))"

definition first_initialized_tick :: "tick_array_state \<Rightarrow> bool \<Rightarrow> tick_state res" where
  "first_initialized_tick ta zero_for_one =
     ok_or (List.find is_initialized (if zero_for_one then rev (ta_ticks ta) else ta_ticks ta))
       InvalidTickArray"

definition next_initialized_tick ::
  "tick_array_state \<Rightarrow> int \<Rightarrow> nat \<Rightarrow> bool \<Rightarrow> tick_state option res" where
  "next_initialized_tick ta current_tick_index tick_spacing zero_for_one =
     and_then (get_array_start_index current_tick_index tick_spacing) (\<lambda>current_start.
     if current_start \<noteq> ta_start_tick_index ta then Inr None
     else
       and_then (arith_i 32 (current_tick_index - ta_start_tick_index ta)) (\<lambda>d.
       and_then (sdiv_i 32 d (int tick_spacing)) (\<lambda>offset_in_array.
       Inr (map_option (\<lambda>i. ta_ticks ta ! i)
         (List.find (\<lambda>i. is_initialized (ta_ticks ta ! i))
           (if zero_for_one then rev [0..<nat (offset_in_array + 1)]
            else [nat (offset_in_array + 1)..<TICK_ARRAY_SIZE]))))))"

definition next_tick_arrary_start_index :: "tick_array_state \<Rightarrow> nat \<Rightarrow> bool \<Rightarrow> int res" where
  "next_tick_arrary_start_index ta tick_spacing zero_for_one =
     (let ticks_in_array = tick_count tick_spacing in
      if zero_for_one then arith_i 32 (ta_start_tick_index ta - ticks_in_array)
      else arith_i 32 (ta_start_tick_index ta + ticks_in_array))"

definition check_tick_array_start_index :: "int \<Rightarrow> int \<Rightarrow> nat \<Rightarrow> unit res" where
  "check_tick_array_start_index tick_array_start_index tick_index tick_spacing =
     require (tick_index \<ge> MIN_TICK) TickLowerOverflow
     (require (tick_index \<le> MAX_TICK) TickUpperOverflow
     (and_then (smod_i 32 tick_index (int tick_spacing)) (\<lambda>r.
      require_plain (0 = r)
      (and_then (get_array_start_index tick_index tick_spacing) (\<lambda>expect_start_index.
       require_plain (tick_array_start_index = expect_start_index) (Inr ()))))))"

section \<open>Start indices\<close>

text \<open>Spacings are 16-bit and positive, ticks far inside 32 bits.\<close>

definition spacing_ok :: "nat \<Rightarrow> bool" where
  "spacing_ok s \<longleftrightarrow> 0 < s \<and> s < 2 ^ 16"

definition tick_near :: "int \<Rightarrow> bool" where
  "tick_near t \<longleftrightarrow> \<bar>t\<bar> \<le> 2 ^ 24"

definition array_start :: "nat \<Rightarrow> int \<Rightarrow> int" where
  "array_start s t = (t div tick_count s) * tick_count s"

lemma tick_count_bounds: "spacing_ok s \<Longrightarrow> 0 < tick_count s \<and> tick_count s < 2 ^ 22 \<and> int s \<le> tick_count s"
  by (auto simp: spacing_ok_def tick_count_def TICK_ARRAY_SIZE_def)

lemma valid_tick_near: "valid_tick t \<Longrightarrow> tick_near t"
  by (simp add: valid_tick_def tick_near_def tick_limits abs_le_iff)

lemma array_start_le: "spacing_ok s \<Longrightarrow> array_start s t \<le> t"
  using tick_count_bounds [of s] by (simp add: array_start_def minus_mod_eq_div_mult [symmetric])

lemma array_start_gt: "spacing_ok s \<Longrightarrow> t < array_start s t + tick_count s"
  using tick_count_bounds [of s] pos_mod_bound [of "tick_count s" t]
  by (simp add: array_start_def minus_mod_eq_div_mult [symmetric])

lemma array_start_unique:
  "spacing_ok s \<Longrightarrow> array_start s t = k * tick_count s \<longleftrightarrow>
    k * tick_count s \<le> t \<and> t < k * tick_count s + tick_count s"
proof
  assume s: "spacing_ok s" and "array_start s t = k * tick_count s"
  then show "k * tick_count s \<le> t \<and> t < k * tick_count s + tick_count s"
    using array_start_le [OF s, of t] array_start_gt [OF s, of t] by simp
next
  assume s: "spacing_ok s" and t: "k * tick_count s \<le> t \<and> t < k * tick_count s + tick_count s"
  have "t div tick_count s = k"
    using t tick_count_bounds [OF s]
    by (intro int_div_pos_eq [of t _ k "t - k * tick_count s"]) (auto simp: algebra_simps)
  then show "array_start s t = k * tick_count s" by (simp add: array_start_def)
qed

lemma array_start_near: "spacing_ok s \<Longrightarrow> tick_near t \<Longrightarrow> \<bar>array_start s t\<bar> \<le> 2 ^ 25"
  using array_start_le [of s t] array_start_gt [of s t] tick_count_bounds [of s]
  by (simp add: tick_near_def abs_le_iff)

lemma sdiv_near:
  assumes "0 < (n :: int)" "\<bar>t\<bar> \<le> b"
  shows "\<bar>t sdiv n\<bar> \<le> b"
proof -
  have "\<bar>t\<bar> div n \<le> \<bar>t\<bar> div 1" using assms(1) by (intro zdiv_mono2) auto
  moreover have "\<bar>t sdiv n\<bar> \<le> \<bar>t\<bar> div n"
    using assms(1) by (auto simp: signed_divide_int_def abs_mult sgn_if pos_imp_zdiv_nonneg_iff)
  ultimately show ?thesis using assms(2) by simp
qed

lemma smod_i_eq: "b \<noteq> 0 \<Longrightarrow> fits_i w (a sdiv b) \<Longrightarrow> smod_i w a b = Inr (a smod b)"
  by (simp add: smod_i_def arith_i_fits)

lemma sdiv_i_eq: "b \<noteq> 0 \<Longrightarrow> fits_i w (a sdiv b) \<Longrightarrow> sdiv_i w a b = Inr (a sdiv b)"
  by (simp add: sdiv_i_def arith_i_fits)

lemma fits_i_32: "\<bar>x\<bar> \<le> 2 ^ 26 \<Longrightarrow> fits_i 32 x"
  by (auto simp: fits_i_def abs_le_iff)

lemma get_array_start_index_eq:
  assumes "spacing_ok s" "tick_near t"
  shows "get_array_start_index t s = Inr (array_start s t)"
proof -
  let ?n = "tick_count s"
  have n: "0 < ?n" "?n < 2 ^ 22" using tick_count_bounds [OF assms(1)] by simp_all
  have q: "\<bar>t sdiv ?n\<bar> \<le> 2 ^ 24"
    using assms(2) n(1) by (intro sdiv_near) (simp_all add: tick_near_def)
  have fit: "fits_i 32 (t sdiv ?n)" "fits_i 32 (t sdiv ?n - 1)"
    using q by (intro fits_i_32; simp)+
  have fl: "(if t smod ?n = 0 \<or> 0 \<le> t then t sdiv ?n else t sdiv ?n - 1) = t div ?n"
    by (rule floor_sdiv [OF n(1)])
  have "fits_i 32 (t div ?n * ?n)"
    using array_start_near [OF assms] by (intro fits_i_32) (simp add: array_start_def)
  then show ?thesis
    using fl fit n(1)
    by (auto simp: get_array_start_index_def sdiv_i_eq smod_i_eq arith_i_fits array_start_def Let_def
        split: if_split_asm)
qed

lemma array_start_same: "spacing_ok s \<Longrightarrow> array_start s (k * tick_count s) = k * tick_count s"
  using tick_count_bounds [of s] by (simp add: array_start_def)

lemma tick_offset:
  assumes "spacing_ok s" "array_start s t = start"
  shows "0 \<le> (t - start) div int s" "(t - start) div int s < 60" "(t - start) sdiv int s = (t - start) div int s"
proof -
  have b: "0 \<le> t - start" "t - start < 60 * int s"
    using array_start_le [OF assms(1), of t] array_start_gt [OF assms(1), of t] assms(2)
    by (simp_all add: tick_count_def TICK_ARRAY_SIZE_def)
  have s: "0 < int s" using assms(1) by (simp add: spacing_ok_def)
  show "0 \<le> (t - start) div int s" using b(1) s by (simp add: pos_imp_zdiv_nonneg_iff)
  show "(t - start) div int s < 60" using b(2) s by (simp add: int_div_less_iff)
  show "(t - start) sdiv int s = (t - start) div int s"
    using b(1) s by (simp add: signed_divide_int_eq_divide_int sgn_if)
qed

text \<open>The offset of a tick in its array, and what reading and writing at it give.\<close>

definition offset_of :: "tick_array_state \<Rightarrow> nat \<Rightarrow> int \<Rightarrow> nat" where
  "offset_of ta s t = nat ((t - ta_start_tick_index ta) div int s)"

lemma get_tick_offset_in_array_eq:
  assumes "spacing_ok s" "tick_near t"
  shows "get_tick_offset_in_array ta t s =
    (if array_start s t = ta_start_tick_index ta then Inr (offset_of ta s t) else fail InvalidTickArray)"
proof (cases "array_start s t = ta_start_tick_index ta")
  case True
  note o = tick_offset [OF assms(1) True]
  have "\<bar>t - ta_start_tick_index ta\<bar> \<le> 2 ^ 26"
    using array_start_near [OF assms] assms(2) True by (simp add: tick_near_def)
  moreover have "fits_i 32 ((t - ta_start_tick_index ta) sdiv int s)"
    using o by (intro fits_i_32) simp
  moreover have "int s \<noteq> 0" using assms(1) by (simp add: spacing_ok_def)
  ultimately show ?thesis using True o
    by (simp add: get_tick_offset_in_array_def get_array_start_index_eq assms arith_i_fits fits_i_32
        sdiv_i_eq offset_of_def)
qed (simp add: get_tick_offset_in_array_def get_array_start_index_eq assms fail_def)

section \<open>Well-formed arrays\<close>

text \<open>Slot \<open>i\<close> of an array, when it is in use, holds the tick \<open>start + i * spacing\<close>, and the
  counter counts the slots in use.\<close>

definition array_ok :: "nat \<Rightarrow> tick_array_state \<Rightarrow> bool" where
  "array_ok s ta \<longleftrightarrow> length (ta_ticks ta) = 60 \<and> ta_start_tick_index ta mod tick_count s = 0 \<and>
     (\<forall>i < 60. is_initialized (ta_ticks ta ! i) \<longrightarrow>
        t_tick (ta_ticks ta ! i) = ta_start_tick_index ta + int i * int s) \<and>
     ta_initialized_tick_count ta = length (filter is_initialized (ta_ticks ta))"

definition tick_in_array :: "tick_array_state \<Rightarrow> tick_state \<Rightarrow> bool" where
  "tick_in_array ta t \<longleftrightarrow> t \<in> set (ta_ticks ta) \<and> is_initialized t"

lemma find_Some_iff_upt:
  "List.find P [m..<n] = Some i \<longleftrightarrow> m \<le> i \<and> i < n \<and> P i \<and> (\<forall>j. m \<le> j \<and> j < i \<longrightarrow> \<not> P j)"
proof (induction "n - m" arbitrary: m)
  case (Suc k)
  then have "m < n" by simp
  then have "[m..<n] = m # [Suc m..<n]" by (rule upt_conv_Cons)
  moreover have "List.find P [Suc m..<n] = Some i \<longleftrightarrow>
      Suc m \<le> i \<and> i < n \<and> P i \<and> (\<forall>j. Suc m \<le> j \<and> j < i \<longrightarrow> \<not> P j)"
    using Suc by (intro Suc.hyps(1)) simp
  ultimately show ?case using \<open>m < n\<close> by (auto simp: Suc_le_eq) (metis Suc_le_eq le_neq_implies_less)+
qed auto

lemma find_Some_iff_rev_upt:
  "List.find P (rev [0..<n]) = Some i \<longleftrightarrow> i < n \<and> P i \<and> (\<forall>j. i < j \<and> j < n \<longrightarrow> \<not> P j)"
  by (induction n) (auto simp: less_Suc_eq)

lemma find_None_upt: "List.find P [m..<n] = None \<longleftrightarrow> (\<forall>j. m \<le> j \<and> j < n \<longrightarrow> \<not> P j)"
  by (auto simp: find_None_iff)

lemma find_None_rev_upt: "List.find P (rev [0..<n]) = None \<longleftrightarrow> (\<forall>j < n. \<not> P j)"
  by (auto simp: find_None_iff)

lemma next_initialized_tick_eq:
  assumes "spacing_ok s" "tick_near c"
  shows "next_initialized_tick ta c s z =
    Inr (if array_start s c \<noteq> ta_start_tick_index ta then None
         else map_option (\<lambda>i. ta_ticks ta ! i)
           (List.find (\<lambda>i. is_initialized (ta_ticks ta ! i))
             (if z then rev [0..<Suc (offset_of ta s c)] else [Suc (offset_of ta s c)..<60])))"
proof (cases "array_start s c = ta_start_tick_index ta")
  case True
  note o = tick_offset [OF assms(1) True]
  have "\<bar>c - ta_start_tick_index ta\<bar> \<le> 2 ^ 26"
    using array_start_near [OF assms] assms(2) True by (simp add: tick_near_def)
  moreover have "fits_i 32 ((c - ta_start_tick_index ta) sdiv int s)" using o by (intro fits_i_32) simp
  moreover have "int s \<noteq> 0" using assms(1) by (simp add: spacing_ok_def)
  moreover have "nat ((c - ta_start_tick_index ta) div int s + 1) = Suc (offset_of ta s c)"
    using o(1) by (simp add: offset_of_def nat_add_distrib)
  ultimately show ?thesis using True o
    by (simp add: next_initialized_tick_def get_array_start_index_eq assms arith_i_fits fits_i_32
        sdiv_i_eq TICK_ARRAY_SIZE_def del: upt_Suc)
qed (simp add: next_initialized_tick_def get_array_start_index_eq assms)

text \<open>Slots in use are ordered by their ticks.\<close>

lemma array_ok_tick:
  assumes "array_ok s ta" "tick_in_array ta t"
  obtains i where "i < 60" "ta_ticks ta ! i = t" "t_tick t = ta_start_tick_index ta + int i * int s"
  using assms by (auto simp: array_ok_def tick_in_array_def in_set_conv_nth)

lemma slot_le_iff:
  assumes "spacing_ok s" "array_start s c = ta_start_tick_index ta"
  shows "ta_start_tick_index ta + int i * int s \<le> c \<longleftrightarrow> i \<le> offset_of ta s c"
proof -
  have s: "0 < int s" using assms(1) by (simp add: spacing_ok_def)
  have "ta_start_tick_index ta + int i * int s \<le> c \<longleftrightarrow> int i * int s \<le> c - ta_start_tick_index ta" by auto
  also have "\<dots> \<longleftrightarrow> int i \<le> (c - ta_start_tick_index ta) div int s"
    using s by (simp add: int_le_div_iff)
  also have "\<dots> \<longleftrightarrow> i \<le> offset_of ta s c"
    using tick_offset(1) [OF assms] by (simp add: offset_of_def nat_le_eq_zle le_nat_iff)
  finally show ?thesis .
qed


lemma slots_differ:
  assumes "spacing_ok s" "array_start s t = ta_start_tick_index ta" "array_start s u = ta_start_tick_index ta"
    and "t mod int s = 0" "u mod int s = 0" "u \<noteq> t"
  shows "offset_of ta s u \<noteq> offset_of ta s t"
proof -
  have "ta_start_tick_index ta mod int s = 0"
    unfolding assms(2) [symmetric] array_start_def
    by (simp add: tick_count_def mult.assoc [symmetric])
  then have "int s dvd t - ta_start_tick_index ta" "int s dvd u - ta_start_tick_index ta"
    using assms(4,5) by (simp_all add: mod_0_imp_dvd)
  moreover have "(t - ta_start_tick_index ta) div int s \<noteq> (u - ta_start_tick_index ta) div int s"
    using calculation assms(6) by (metis diff_add_cancel dvd_div_mult_self)
  ultimately show ?thesis
    using tick_offset(1) [OF assms(1,2)] tick_offset(1) [OF assms(1,3)] by (simp add: offset_of_def)
qed

section \<open>Properties\<close>

text \<open>
  Every tick of the protocol belongs to exactly one tick array: \<open>get_array_start_index\<close> returns,
  without overflow, a multiple of the array width that is at most the tick and less than one width
  below it, and it is the only such multiple, for negative ticks as well although the code divides
  with truncation.
\<close>
theorem array_start_index_unique:
  assumes "spacing_ok s" "valid_tick t"
  shows "\<exists>start. get_array_start_index t s = Inr start \<and> start mod tick_count s = 0 \<and>
    start \<le> t \<and> t < start + tick_count s \<and>
    (\<forall>k. k mod tick_count s = 0 \<longrightarrow> k \<le> t \<longrightarrow> t < k + tick_count s \<longrightarrow> k = start)"
proof (intro exI conjI allI impI)
  show "get_array_start_index t s = Inr (array_start s t)"
    using assms by (simp add: get_array_start_index_eq valid_tick_near)
  show "array_start s t mod tick_count s = 0" by (simp add: array_start_def)
  show "array_start s t \<le> t" "t < array_start s t + tick_count s"
    using assms(1) by (simp_all add: array_start_le array_start_gt)
next
  fix k assume k: "k mod tick_count s = 0" "k \<le> t" "t < k + tick_count s"
  then have "k = (k div tick_count s) * tick_count s" by (simp add: minus_mod_eq_div_mult [symmetric])
  then show "k = array_start s t"
    using array_start_unique [OF assms(1), of t "k div tick_count s"] k(2,3) by simp
qed

theorem array_start_index_unique_witness:
  "\<exists>start. get_array_start_index (- 1) 10 = Inr start \<and> start mod tick_count 10 = 0 \<and>
    start \<le> - 1 \<and> - 1 < start + tick_count 10 \<and>
    (\<forall>k. k mod tick_count 10 = 0 \<longrightarrow> k \<le> - 1 \<longrightarrow> - 1 < k + tick_count 10 \<longrightarrow> k = start)"
  using array_start_index_unique [of 10 "- 1"] by (simp add: spacing_ok_def valid_tick_def tick_limits)

text \<open>
  Access to a tick of an array: on an array of sixty ticks, \<open>get_tick_state\<close> and the write
  through \<open>get_tick_state_mut\<close> fail with \<open>InvalidTickArray\<close> exactly when the tick belongs to another
  array and never index out of range; what was written at a tick is what is read there, and a write
  leaves every other tick of the array as it was.
\<close>
theorem tick_access:
  assumes "spacing_ok s" "valid_tick t" "length (ta_ticks ta) = 60"
  shows "if array_start s t = ta_start_tick_index ta
    then \<exists>ta'. set_tick_state t s x ta = Inr ta' \<and> get_tick_state ta' t s = Inr x \<and>
      (\<forall>u. valid_tick u \<and> t mod int s = 0 \<and> u mod int s = 0 \<and> u \<noteq> t \<longrightarrow>
         get_tick_state ta' u s = get_tick_state ta u s)
    else set_tick_state t s x ta = fail InvalidTickArray \<and> get_tick_state ta t s = fail InvalidTickArray"
proof (cases "array_start s t = ta_start_tick_index ta")
  case True
  let ?ta = "ta\<lparr>ta_ticks := (ta_ticks ta)[offset_of ta s t := x]\<rparr>"
  have off: "offset_of ta s u < 60" if "array_start s u = ta_start_tick_index ta" for u
    using tick_offset [OF assms(1) that] by (simp add: offset_of_def nat_less_iff)
  have "set_tick_state t s x ta = Inr ?ta"
    using True off [OF True] assms
    by (simp add: set_tick_state_def get_tick_offset_in_array_eq valid_tick_near)
  moreover have "get_tick_state ?ta t s = Inr x"
    using True off [OF True] assms
    by (simp add: get_tick_state_def get_tick_offset_in_array_eq valid_tick_near) (simp add: offset_of_def)
  moreover have "get_tick_state ?ta u s = get_tick_state ta u s"
    if u: "valid_tick u" "t mod int s = 0" "u mod int s = 0" "u \<noteq> t" for u
  proof (cases "array_start s u = ta_start_tick_index ta")
    case same: True
    have "offset_of ta s u \<noteq> offset_of ta s t"
      using slots_differ [OF assms(1) True same] u by auto
    then show ?thesis
      using assms u same
      by (simp add: get_tick_state_def get_tick_offset_in_array_eq valid_tick_near) (simp add: offset_of_def)
  qed (use assms u in \<open>simp add: get_tick_state_def get_tick_offset_in_array_eq valid_tick_near fail_def\<close>)
  ultimately show ?thesis using True by auto
qed (use assms in \<open>simp add: set_tick_state_def get_tick_state_def get_tick_offset_in_array_eq
  valid_tick_near fail_def\<close>)

theorem tick_access_witness:
  "\<exists>ta'. set_tick_state (- 10) 10 (default_tick_state\<lparr>t_tick := - 10\<rparr>)
       (default_tick_array_state\<lparr>ta_start_tick_index := - 600\<rparr>) = Inr ta' \<and>
     get_tick_state ta' (- 10) 10 = Inr (default_tick_state\<lparr>t_tick := - 10\<rparr>)"
  using tick_access [of 10 "- 10" "default_tick_array_state\<lparr>ta_start_tick_index := - 600\<rparr>"
      "default_tick_state\<lparr>t_tick := - 10\<rparr>"]
  by (auto simp: spacing_ok_def valid_tick_def tick_limits array_start_def tick_count_def
      TICK_ARRAY_SIZE_def default_tick_array_state_def)

text \<open>
  C5. The search for the next tick of a swap finds the nearest one: on a well-formed array that
  contains the current tick, \<open>next_initialized_tick\<close> returns an initialized tick of the array in the
  direction of the swap (at or below the current tick when selling token 0, strictly above it
  otherwise), no initialized tick lies between, and it returns none only if there is none.
\<close>
theorem next_initialized_tick_nearest:
  assumes "spacing_ok s" "valid_tick c" "array_ok s ta" "array_start s c = ta_start_tick_index ta"
  shows "case next_initialized_tick ta c s z of
      Inl e \<Rightarrow> False
    | Inr None \<Rightarrow> \<forall>t. tick_in_array ta t \<longrightarrow> (if z then c < t_tick t else t_tick t \<le> c)
    | Inr (Some t) \<Rightarrow> tick_in_array ta t \<and> (if z then t_tick t \<le> c else c < t_tick t) \<and>
        (\<forall>t'. tick_in_array ta t' \<longrightarrow>
           (if z then t_tick t' \<le> t_tick t \<or> c < t_tick t' else t_tick t \<le> t_tick t' \<or> t_tick t' \<le> c))"
proof -
  let ?P = "\<lambda>i. is_initialized (ta_ticks ta ! i)" and ?o = "offset_of ta s c"
  let ?L = "if z then rev [0..<Suc ?o] else [Suc ?o..<60]"
  have o: "?o < 60"
    using tick_offset [OF assms(1,4)] by (simp add: offset_of_def nat_less_iff)
  note slot = slot_le_iff [OF assms(1,4)]
  have len: "length (ta_ticks ta) = 60" using assms(3) by (simp add: array_ok_def)
  have tick: "t_tick (ta_ticks ta ! i) = ta_start_tick_index ta + int i * int s" if "i < 60" "?P i" for i
    using assms(3) that by (simp add: array_ok_def)
  have eq: "next_initialized_tick ta c s z = Inr (map_option (\<lambda>i. ta_ticks ta ! i) (List.find ?P ?L))"
    using assms by (simp add: next_initialized_tick_eq valid_tick_near)
  show ?thesis
  proof (cases "List.find ?P ?L")
    case None
    then have no: "\<not> ?P i" if "if z then i \<le> ?o else ?o < i \<and> i < 60" for i
      using that by (cases z) (auto simp: find_None_upt find_None_rev_upt less_Suc_eq_le simp del: upt_Suc)
    have "if z then c < t_tick t else t_tick t \<le> c" if t: "tick_in_array ta t" for t
    proof -
      obtain i where i: "i < 60" "ta_ticks ta ! i = t" "t_tick t = ta_start_tick_index ta + int i * int s"
        using array_ok_tick [OF assms(3) t] .
      with t no [of i] have "if z then ?o < i else i \<le> ?o" by (cases z) (auto simp: tick_in_array_def not_le [symmetric])
      then show ?thesis using slot [of i] i(3) by (auto split: if_split_asm)
    qed
    then show ?thesis using eq None by simp
  next
    case (Some i)
    have i: "?P i" "if z then i \<le> ?o else ?o < i \<and> i < 60"
      using Some by (auto simp: find_Some_iff_upt find_Some_iff_rev_upt less_Suc_eq_le Suc_le_eq
          simp del: upt_Suc split: if_split_asm)
    have near: "\<not> ?P j" if "if z then i < j \<and> j \<le> ?o else ?o < j \<and> j < i" for j
      using that Some
      by (auto simp: find_Some_iff_upt find_Some_iff_rev_upt less_Suc_eq_le Suc_le_eq simp del: upt_Suc
          split: if_split_asm)
    have i60: "i < 60" using i(2) o by (auto split: if_split_asm)
    have "tick_in_array ta (ta_ticks ta ! i)" using i(1) i60 len by (auto simp: tick_in_array_def)
    moreover have "if z then t_tick (ta_ticks ta ! i) \<le> c else c < t_tick (ta_ticks ta ! i)"
      using slot [of i] i tick [OF i60 i(1)] by (auto split: if_split_asm)
    moreover have "if z then t_tick t' \<le> t_tick (ta_ticks ta ! i) \<or> c < t_tick t'
        else t_tick (ta_ticks ta ! i) \<le> t_tick t' \<or> t_tick t' \<le> c"
      if t: "tick_in_array ta t'" for t'
    proof -
      obtain j where j: "j < 60" "ta_ticks ta ! j = t'" "t_tick t' = ta_start_tick_index ta + int j * int s"
        using array_ok_tick [OF assms(3) t] .
      with t near [of j] have "if z then j \<le> i \<or> ?o < j else i \<le> j \<or> j \<le> ?o"
        by (cases z) (auto simp: tick_in_array_def not_le [symmetric])
      moreover have "int j * int s \<le> int i * int s" if "j \<le> i" using that by (simp add: mult_right_mono)
      moreover have "int i * int s \<le> int j * int s" if "i \<le> j" using that by (simp add: mult_right_mono)
      ultimately show ?thesis using slot [of j] j(3) tick [OF i60 i(1)] by (auto split: if_split_asm)
    qed
    ultimately show ?thesis using eq Some by simp
  qed
qed

theorem next_initialized_tick_nearest_witness:
  "let ta = default_tick_array_state\<lparr>ta_start_tick_index := - 600, ta_initialized_tick_count := 1,
       ta_ticks := (replicate 60 default_tick_state)[3 := default_tick_state\<lparr>t_tick := - 570, t_liquidity_gross := 7\<rparr>]\<rparr>
   in array_ok 10 ta \<and>
     (case next_initialized_tick ta (- 555) 10 True of
        Inr (Some t) \<Rightarrow> t_tick t \<le> - 555 \<and> tick_in_array ta t | _ \<Rightarrow> False)"
proof -
  let ?ta = "default_tick_array_state\<lparr>ta_start_tick_index := - 600, ta_initialized_tick_count := 1,
       ta_ticks := (replicate 60 default_tick_state)[3 := default_tick_state\<lparr>t_tick := - 570, t_liquidity_gross := 7\<rparr>]\<rparr>"
  have ok: "array_ok 10 ?ta"
    unfolding array_ok_def
  proof (intro conjI allI impI)
    show "ta_initialized_tick_count ?ta = length (filter is_initialized (ta_ticks ?ta))" by code_simp
  next
    fix i :: nat assume "i < 60" "is_initialized (ta_ticks ?ta ! i)"
    then show "t_tick (ta_ticks ?ta ! i) = ta_start_tick_index ?ta + int i * int 10"
      by (cases "i = 3") (simp_all add: nth_list_update is_initialized_def has_liquidity_def
          has_limit_orders_def default_tick_state_def)
  qed (simp_all add: tick_count_def TICK_ARRAY_SIZE_def)
  have start: "array_start 10 (- 555) = ta_start_tick_index ?ta" "spacing_ok 10" "valid_tick (- 555)"
    by (simp_all add: array_start_def tick_count_def TICK_ARRAY_SIZE_def spacing_ok_def valid_tick_def tick_limits)
  have "tick_in_array ?ta (ta_ticks ?ta ! 3)" "t_tick (ta_ticks ?ta ! 3) = - 570"
    by (simp_all add: tick_in_array_def is_initialized_def has_liquidity_def set_update_memI)
  then show ?thesis
    using next_initialized_tick_nearest [OF start(2,3) ok start(1), of True] ok
    by (simp add: Let_def split: sum.split_asm option.split_asm) force
qed

end
