(* ===== verification/Big_Num.thy ===== *)
theory Big_Num
  imports Prelude
begin

text \<open>
  \<open>libraries/big_num.rs\<close>: \<open>construct_bignum!\<close>, instantiated to \<open>U1024\<close>, a little-endian array of
  sixteen 64-bit limbs with limb-wise bit operations, shifts with a carry between limbs and
  counts of leading and trailing zeros. The interface \<open>wide_bits\<close> states what the searches
  over tick bitmaps rely on, as laws of the single bits; the limbs satisfy it. \<open>U512\<close> comes from
  an external crate, which documents it as an unsigned integer of 512 bits: a word.
\<close>

unbundle bit_operations_syntax

section \<open>The interface: searching for a set bit\<close>

locale wide_bits =
  fixes width :: nat
    and inv :: "'a \<Rightarrow> bool"
    and bit_at :: "'a \<Rightarrow> nat \<Rightarrow> bool"
    and zero_p :: "'a \<Rightarrow> bool"
    and left right :: "'a \<Rightarrow> nat \<Rightarrow> 'a"
    and lz tz :: "'a \<Rightarrow> nat"
  assumes width: "inv x \<Longrightarrow> bit_at x i \<Longrightarrow> i < width"
    and zero: "inv x \<Longrightarrow> zero_p x \<longleftrightarrow> (\<forall>i. \<not> bit_at x i)"
    and left_inv: "inv x \<Longrightarrow> inv (left x k)"
    and left: "inv x \<Longrightarrow> bit_at (left x k) i \<longleftrightarrow> k \<le> i \<and> i < width \<and> bit_at x (i - k)"
    and right_inv: "inv x \<Longrightarrow> inv (right x k)"
    and right: "inv x \<Longrightarrow> bit_at (right x k) i \<longleftrightarrow> bit_at x (i + k)"
    and lz: "inv x \<Longrightarrow> \<not> zero_p x \<Longrightarrow> lz x < width \<and> bit_at x (width - 1 - lz x) \<and>
      (\<forall>j. width - 1 - lz x < j \<longrightarrow> \<not> bit_at x j)"
    and tz: "inv x \<Longrightarrow> \<not> zero_p x \<Longrightarrow> bit_at x (tz x) \<and> (\<forall>j < tz x. \<not> bit_at x j)"
begin

text \<open>Shifting position \<open>p\<close> to the top and counting leading zeros finds the first set bit at
  or below \<open>p\<close>; shifting it to the bottom and counting trailing zeros, the first at or above.\<close>

lemma search_down_none:
  assumes "inv x" "p < width" "zero_p (left x (width - 1 - p))" "j \<le> p"
  shows "\<not> bit_at x j"
proof -
  have "\<not> bit_at (left x (width - 1 - p)) (j + (width - 1 - p))"
    using assms zero left_inv by blast
  then show ?thesis using assms by (auto simp: left)
qed

lemma search_down:
  assumes "inv x" "p < width" "\<not> zero_p (left x (width - 1 - p))"
  defines "n \<equiv> lz (left x (width - 1 - p))"
  shows "n \<le> p \<and> bit_at x (p - n) \<and> (\<forall>j. p - n < j \<and> j \<le> p \<longrightarrow> \<not> bit_at x j)"
proof (intro conjI allI impI)
  let ?k = "width - 1 - p"
  have l: "n < width" "bit_at (left x ?k) (width - 1 - n)"
    and top: "\<And>j. width - 1 - n < j \<Longrightarrow> \<not> bit_at (left x ?k) j"
    using lz [OF left_inv [OF assms(1)] assms(3)] by (simp_all add: n_def)
  have k: "?k \<le> width - 1 - n" "bit_at x (width - 1 - n - ?k)"
    using l(2) assms(1) by (simp_all add: left)
  then show n: "n \<le> p" using l(1) assms(2) by linarith
  moreover have "width - 1 - n - ?k = p - n" using n l(1) assms(2) by linarith
  ultimately show "bit_at x (p - n)" using k(2) by simp
  fix j assume j: "p - n < j \<and> j \<le> p"
  then have "\<not> bit_at (left x ?k) (j + ?k)" using n assms(2) by (intro top) linarith
  then show "\<not> bit_at x j" using j assms(1,2) by (auto simp: left)
qed

lemma search_up_none:
  assumes "inv x" "zero_p (right x p)" "p \<le> j"
  shows "\<not> bit_at x j"
proof -
  have "\<not> bit_at (right x p) (j - p)" using assms zero right_inv by blast
  then show ?thesis using assms by (simp add: right)
qed

lemma search_up:
  assumes "inv x" "\<not> zero_p (right x p)"
  defines "n \<equiv> tz (right x p)"
  shows "bit_at x (p + n) \<and> (\<forall>j. p \<le> j \<and> j < p + n \<longrightarrow> \<not> bit_at x j)"
proof (intro conjI allI impI)
  have t: "bit_at (right x p) n" and low: "\<And>j. j < n \<Longrightarrow> \<not> bit_at (right x p) j"
    using tz [OF right_inv [OF assms(1)] assms(2)] by (simp_all add: n_def)
  show "bit_at x (p + n)" using t assms(1) by (simp add: right add.commute)
  fix j assume j: "p \<le> j \<and> j < p + n"
  then have "\<not> bit_at (right x p) (j - p)" by (intro low) linarith
  then show "\<not> bit_at x j" using j assms(1) by (simp add: right)
qed

end

text \<open>Setting and clearing single bits by an exclusive or with a shifted one.\<close>

locale wide_flip = wide_bits +
  fixes lxor :: "'a \<Rightarrow> 'a \<Rightarrow> 'a" and unit :: 'a
  assumes lxor_inv: "inv x \<Longrightarrow> inv y \<Longrightarrow> inv (lxor x y)"
    and lxor: "inv x \<Longrightarrow> inv y \<Longrightarrow> bit_at (lxor x y) i \<longleftrightarrow> bit_at x i \<noteq> bit_at y i"
    and unit_inv: "inv unit"
    and unit: "bit_at unit i \<longleftrightarrow> i = 0"
begin

lemma mask: "k < width \<Longrightarrow> bit_at (left unit k) i \<longleftrightarrow> i = k"
  by (auto simp: left unit_inv unit)

lemma flip: "inv x \<Longrightarrow> k < width \<Longrightarrow> bit_at (lxor x (left unit k)) i \<longleftrightarrow> (bit_at x i \<noteq> (i = k))"
  by (simp add: lxor left_inv unit_inv mask)

lemma flip_inv: "inv x \<Longrightarrow> inv (lxor x (left unit k))"
  by (simp add: lxor_inv left_inv unit_inv)

end

section \<open>64-bit limbs\<close>

type_synonym limb = "64 word"
type_synonym limbs = "64 word list"

text \<open>\<open>u64::leading_zeros\<close> and \<open>u64::trailing_zeros\<close>.\<close>

definition word_leading_zeros :: "'a::len word \<Rightarrow> nat" where
  "word_leading_zeros w = length (takeWhile (\<lambda>i. \<not> bit w i) (rev [0..<LENGTH('a)]))"

definition word_trailing_zeros :: "'a::len word \<Rightarrow> nat" where
  "word_trailing_zeros w = length (takeWhile (\<lambda>i. \<not> bit w i) [0..<LENGTH('a)])"

definition limbs_is_zero :: "limbs \<Rightarrow> bool" where
  "limbs_is_zero arr = list_all (\<lambda>w. w = 0) arr"

definition limbs_bit :: "limbs \<Rightarrow> nat \<Rightarrow> bool res" where
  "limbs_bit arr index =
     (if index div 64 < length arr
      then Inr (arr ! (index div 64) AND push_bit (index mod 64) 1 \<noteq> 0) else Inl Panic)"

text \<open>The loops over the limbs, from the last one and from the first one.\<close>

fun leading_zeros_loop :: "limbs \<Rightarrow> nat" where
  "leading_zeros_loop [] = 0"
| "leading_zeros_loop (w # ws) =
     (if w = 0 then 64 + leading_zeros_loop ws else word_leading_zeros w)"

definition limbs_leading_zeros :: "limbs \<Rightarrow> nat" where
  "limbs_leading_zeros arr = leading_zeros_loop (rev arr)"

fun limbs_trailing_zeros :: "limbs \<Rightarrow> nat" where
  "limbs_trailing_zeros [] = 0"
| "limbs_trailing_zeros (w # ws) =
     (if w = 0 then 64 + limbs_trailing_zeros ws else word_trailing_zeros w)"

definition limbs_zero :: "nat \<Rightarrow> limbs" where
  "limbs_zero n = replicate n 0"

definition limbs_one :: "nat \<Rightarrow> limbs" where
  "limbs_one n = (limbs_zero n)[0 := 1]"

definition limbs_and :: "limbs \<Rightarrow> limbs \<Rightarrow> limbs" where
  "limbs_and arr1 arr2 = map2 (AND) arr1 arr2"

definition limbs_or :: "limbs \<Rightarrow> limbs \<Rightarrow> limbs" where
  "limbs_or arr1 arr2 = map2 (OR) arr1 arr2"

definition limbs_xor :: "limbs \<Rightarrow> limbs \<Rightarrow> limbs" where
  "limbs_xor arr1 arr2 = map2 (XOR) arr1 arr2"

definition limbs_not :: "limbs \<Rightarrow> limbs" where
  "limbs_not arr = map NOT arr"

text \<open>Limb \<open>i\<close> of the result: the shifted limb of the source, plus the bits carried over from
  its neighbour. The code adds the carry; the two summands have no bit in common.\<close>

definition limbs_shl :: "limbs \<Rightarrow> nat \<Rightarrow> limbs" where
  "limbs_shl original shift =
     (let word_shift = shift div 64; bit_shift = shift mod 64 in
      map (\<lambda>i. (if word_shift \<le> i then push_bit bit_shift (original ! (i - word_shift)) else 0)
             + (if bit_shift > 0 \<and> word_shift + 1 \<le> i
                then drop_bit (64 - bit_shift) (original ! (i - 1 - word_shift)) else 0))
        [0..<length original])"

definition limbs_shr :: "limbs \<Rightarrow> nat \<Rightarrow> limbs" where
  "limbs_shr original shift =
     (let word_shift = shift div 64; bit_shift = shift mod 64; n = length original in
      map (\<lambda>i. (if i + word_shift < n then drop_bit bit_shift (original ! (i + word_shift)) else 0)
             + (if bit_shift > 0 \<and> i + word_shift + 1 < n
                then push_bit (64 - bit_shift) (original ! (i + word_shift + 1)) else 0))
        [0..<n])"

section \<open>Bits of a list of limbs\<close>

definition lbit :: "limbs \<Rightarrow> nat \<Rightarrow> bool" where
  "lbit arr i \<longleftrightarrow> i < 64 * length arr \<and> bit (arr ! (i div 64)) (i mod 64)"

lemma bit_index: "b < 64 \<Longrightarrow> (64 * a + b) div 64 = a \<and> (64 * a + b) mod 64 = (b :: nat)"
  by simp

lemma lbit_at: "b < 64 \<Longrightarrow> lbit arr (64 * a + b) \<longleftrightarrow> a < length arr \<and> bit (arr ! a) b"
  by (auto simp: lbit_def)

lemma lengths [simp]:
  "length (limbs_zero n) = n" "length (limbs_one n) = n" "length (limbs_not arr) = length arr"
  "length (limbs_shl arr k) = length arr" "length (limbs_shr arr k) = length arr"
  "length (limbs_xor arr arr') = min (length arr) (length arr')"
  "length (limbs_and arr arr') = min (length arr) (length arr')"
  "length (limbs_or arr arr') = min (length arr) (length arr')"
  by (simp_all add: limbs_zero_def limbs_one_def limbs_not_def limbs_shl_def limbs_shr_def Let_def
      limbs_xor_def limbs_and_def limbs_or_def)

lemma limbs_bit_eq: "i < 64 * length arr \<Longrightarrow> limbs_bit arr i = Inr (lbit arr i)"
proof -
  assume i: "i < 64 * length arr"
  have "w AND push_bit k 1 \<noteq> 0 \<longleftrightarrow> bit w k" if "k < 64" for w :: limb and k
    by (simp add: bit_iff_and_push_bit_not_eq_0)
  then show ?thesis using i by (simp add: limbs_bit_def lbit_def)
qed

lemma limbs_is_zero_iff: "limbs_is_zero arr \<longleftrightarrow> (\<forall>i. \<not> lbit arr i)"
proof
  assume "limbs_is_zero arr"
  then have "arr ! (i div 64) = 0" if "i < 64 * length arr" for i
    using that by (auto simp: limbs_is_zero_def list_all_length)
  then show "\<forall>i. \<not> lbit arr i" by (auto simp: lbit_def)
next
  assume none: "\<forall>i. \<not> lbit arr i"
  have "arr ! a = 0" if "a < length arr" for a
  proof (rule bit_word_eqI)
    fix b assume "b < LENGTH(64)"
    then show "bit (arr ! a) b = bit (0 :: limb) b"
      using none [rule_format, of "64 * a + b"] that by (simp add: lbit_at)
  qed
  then show "limbs_is_zero arr" by (simp add: limbs_is_zero_def list_all_length)
qed

lemma bitwise_limbs:
  "length arr = length arr' \<Longrightarrow> lbit (limbs_xor arr arr') i \<longleftrightarrow> lbit arr i \<noteq> lbit arr' i"
  "length arr = length arr' \<Longrightarrow> lbit (limbs_and arr arr') i \<longleftrightarrow> lbit arr i \<and> lbit arr' i"
  "length arr = length arr' \<Longrightarrow> lbit (limbs_or arr arr') i \<longleftrightarrow> lbit arr i \<or> lbit arr' i"
  by (auto simp: lbit_def limbs_xor_def limbs_and_def limbs_or_def bit_simps)

lemma lbit_one: "0 < n \<Longrightarrow> lbit (limbs_one n) i \<longleftrightarrow> i = 0"
  by (cases "i < 64") (auto simp: lbit_def limbs_one_def limbs_zero_def bit_simps nth_list_update)

lemma bit_limb: "64 \<le> n \<Longrightarrow> \<not> bit (w :: limb) n"
  using bit_imp_le_length [of w n] by auto

lemma carry_bits:
  assumes "r < 64" "b < 64"
  shows "bit (push_bit r v + (if 0 < r then drop_bit (64 - r) w else 0)) b \<longleftrightarrow>
      (if r \<le> b then bit v (b - r) else bit (w :: limb) (64 + b - r))"
proof -
  have "push_bit r v AND (if 0 < r then drop_bit (64 - r) w else 0) = 0"
    using assms(1) by (auto intro!: bit_word_eqI simp: bit_simps bit_limb)
  then show ?thesis
    using assms by (auto simp: disjunctive_add_eq_or bit_simps bit_limb)
qed

lemma lbit_shl: "lbit (limbs_shl arr k) i \<longleftrightarrow> k \<le> i \<and> i < 64 * length arr \<and> lbit arr (i - k)"
proof -
  obtain a b where i: "i = 64 * a + b" "b < 64"
    using that [of "i div 64" "i mod 64"] by simp
  obtain q r where k: "k = 64 * q + r" "r < 64"
    using that [of "k div 64" "k mod 64"] by simp
  have qr: "k div 64 = q" "k mod 64 = r" using k by simp_all
  let ?w = "if q + 1 \<le> a then arr ! (a - 1 - q) else 0"
  have limb: "limbs_shl arr k ! a =
      (if q \<le> a then push_bit r (arr ! (a - q)) + (if 0 < r then drop_bit (64 - r) ?w else 0) else 0)"
    if "a < length arr"
    using that by (auto simp: limbs_shl_def Let_def qr)
  have low: "lbit (limbs_shl arr k) i \<longleftrightarrow> a < length arr \<and> bit (limbs_shl arr k ! a) b"
    using i by (simp add: lbit_at)
  consider "a < q" | "q \<le> a" "r \<le> b" | "q = a" "b < r" | "q < a" "b < r" by linarith
  then show ?thesis
  proof cases
    case 1
    then show ?thesis using limb low i k by auto
  next
    case 2
    have "i - k = 64 * (a - q) + (b - r)" "k \<le> i" using 2 i(1) k(1) by (simp_all add: diff_mult_distrib2)
    moreover have "lbit arr (64 * (a - q) + (b - r)) \<longleftrightarrow> a - q < length arr \<and> bit (arr ! (a - q)) (b - r)"
      using i(2) by (intro lbit_at) simp
    ultimately show ?thesis using 2 limb low i k by (auto simp: carry_bits simp del: push_bit_eq_0_iff)
  next
    case 3
    then show ?thesis using limb low i k by (auto simp: bit_simps)
  next
    case 4
    have "i - k = 64 * (a - 1 - q) + (64 + b - r)" "k \<le> i"
      using 4 i(1) k by (simp_all add: diff_mult_distrib2)
    moreover have "lbit arr (64 * (a - 1 - q) + (64 + b - r)) \<longleftrightarrow>
        a - 1 - q < length arr \<and> bit (arr ! (a - 1 - q)) (64 + b - r)"
      using 4 by (intro lbit_at) simp
    moreover have "bit (limbs_shl arr k ! a) b \<longleftrightarrow> bit (arr ! (a - 1 - q)) (64 + b - r)" if "a < length arr"
      using 4 limb [OF that] carry_bits [OF k(2) i(2), of "arr ! (a - q)" ?w] by simp
    ultimately show ?thesis unfolding low using 4 i by auto
  qed
qed

lemma carry_down:
  assumes "r < 64" "b < 64"
  shows "bit (drop_bit r v + (if 0 < r then push_bit (64 - r) w else 0)) b \<longleftrightarrow>
      (if r + b < 64 then bit v (r + b) else bit (w :: limb) (r + b - 64))"
proof -
  have "drop_bit r v AND (if 0 < r then push_bit (64 - r) w else 0) = 0"
    using assms(1) by (auto intro!: bit_word_eqI simp: bit_simps bit_limb)
  then show ?thesis
    using assms by (auto simp: disjunctive_add_eq_or bit_simps bit_limb add.commute [of b r])
qed

lemma lbit_shr: "lbit (limbs_shr arr k) i \<longleftrightarrow> lbit arr (i + k)"
proof -
  obtain a b where i: "i = 64 * a + b" "b < 64"
    using that [of "i div 64" "i mod 64"] by simp
  obtain q r where k: "k = 64 * q + r" "r < 64"
    using that [of "k div 64" "k mod 64"] by simp
  have qr: "k div 64 = q" "k mod 64 = r" using k by simp_all
  let ?n = "length arr"
  let ?v = "if a + q < ?n then arr ! (a + q) else 0" and ?w = "if a + q + 1 < ?n then arr ! (a + q + 1) else 0"
  have limb: "limbs_shr arr k ! a = drop_bit r ?v + (if 0 < r then push_bit (64 - r) ?w else 0)"
    if "a < ?n"
    using that by (auto simp: limbs_shr_def Let_def qr)
  have low: "lbit (limbs_shr arr k) i \<longleftrightarrow> a < ?n \<and> bit (limbs_shr arr k ! a) b"
    using i by (simp add: lbit_at)
  show ?thesis
  proof (cases "r + b < 64")
    case True
    have "i + k = 64 * (a + q) + (r + b)" using i(1) k(1) by simp
    then have "lbit arr (i + k) \<longleftrightarrow> a + q < ?n \<and> bit (arr ! (a + q)) (r + b)"
      using True by (simp only: lbit_at)
    moreover have "bit (limbs_shr arr k ! a) b \<longleftrightarrow> a + q < ?n \<and> bit (arr ! (a + q)) (r + b)" if "a < ?n"
      unfolding limb [OF that] carry_down [OF k(2) i(2)] using True by simp
    ultimately show ?thesis unfolding low by auto
  next
    case False
    then have "i + k = 64 * (a + q + 1) + (r + b - 64)" "r + b - 64 < 64" using i k by simp_all
    then have "lbit arr (i + k) \<longleftrightarrow> a + q + 1 < ?n \<and> bit (arr ! (a + q + 1)) (r + b - 64)"
      by (simp only: lbit_at)
    moreover have "bit (limbs_shr arr k ! a) b \<longleftrightarrow>
        a + q + 1 < ?n \<and> bit (arr ! (a + q + 1)) (r + b - 64)" if "a < ?n"
      unfolding limb [OF that] carry_down [OF k(2) i(2)] using False by simp
    ultimately show ?thesis unfolding low by auto
  qed
qed

section \<open>Counting zeros\<close>

lemma takeWhile_down:
  assumes "P i" "i < n"
  defines "l \<equiv> length (takeWhile (\<lambda>i. \<not> P i) (rev [0..<n]))"
  shows "l < n \<and> P (n - 1 - l) \<and> (\<forall>j. n - 1 - l < j \<and> j < n \<longrightarrow> \<not> P j)"
  unfolding l_def using assms(1,2)
proof (induction n)
  case (Suc n)
  show ?case
  proof (cases "P n")
    case False
    then have "i < n" using Suc.prems by (auto simp: less_Suc_eq)
    obtain l where l: "length (takeWhile (\<lambda>i. \<not> P i) (rev [0..<n])) = l" "l < n" "P (n - 1 - l)"
        "\<forall>j. n - 1 - l < j \<and> j < n \<longrightarrow> \<not> P j"
      using Suc.IH [OF Suc.prems(1) \<open>i < n\<close>] by blast
    have len: "length (takeWhile (\<lambda>i. \<not> P i) (rev [0..<Suc n])) = Suc l" using False l(1) by simp
    have "\<not> P j" if "n - 1 - l < j" "j < Suc n" for j
      using that l(4) False by (cases "j = n") auto
    moreover have "Suc n - 1 - Suc l = n - 1 - l" by simp
    ultimately show ?thesis unfolding len using l(2,3) by auto
  qed auto
qed simp

lemma takeWhile_up:
  assumes "P i" "i < n"
  defines "l \<equiv> length (takeWhile (\<lambda>i. \<not> P i) [0..<n])"
  shows "l < n \<and> P l \<and> (\<forall>j < l. \<not> P j)"
  unfolding l_def using assms(1,2)
proof (induction n arbitrary: i)
  case (Suc n)
  show ?case
  proof (cases "\<exists>j < n. P j")
    case True
    then obtain j where "j < n" "P j" by blast
    then have "takeWhile (\<lambda>i. \<not> P i) [0..<Suc n] = takeWhile (\<lambda>i. \<not> P i) [0..<n]"
      by (simp add: takeWhile_append1 [of j])
    moreover have "length (takeWhile (\<lambda>i. \<not> P i) [0..<n]) < n \<and> P (length (takeWhile (\<lambda>i. \<not> P i) [0..<n])) \<and>
        (\<forall>j < length (takeWhile (\<lambda>i. \<not> P i) [0..<n]). \<not> P j)"
      using Suc.IH [OF \<open>P j\<close> \<open>j < n\<close>] .
    ultimately show ?thesis by simp
  next
    case False
    then have "takeWhile (\<lambda>i. \<not> P i) ([0..<n] @ [n]) = [0..<n] @ takeWhile (\<lambda>i. \<not> P i) [n]"
      by (intro takeWhile_append2) auto
    then show ?thesis using False Suc.prems by (auto simp: less_Suc_eq)
  qed
qed simp

lemma word_zeros:
  fixes w :: "'a::len word"
  assumes "w \<noteq> 0"
  shows "word_leading_zeros w < LENGTH('a)" "bit w (LENGTH('a) - 1 - word_leading_zeros w)"
    "LENGTH('a) - 1 - word_leading_zeros w < j \<Longrightarrow> \<not> bit w j"
    "word_trailing_zeros w < LENGTH('a)" "bit w (word_trailing_zeros w)"
    "j < word_trailing_zeros w \<Longrightarrow> \<not> bit w j"
proof -
  obtain i where i: "bit w i" using assms by (auto simp: bit_eq_iff)
  then have n: "i < LENGTH('a)" by (rule bit_imp_le_length)
  note down = takeWhile_down [of "bit w", OF i n, folded word_leading_zeros_def]
    and up = takeWhile_up [of "bit w", OF i n, folded word_trailing_zeros_def]
  show "word_leading_zeros w < LENGTH('a)" "bit w (LENGTH('a) - 1 - word_leading_zeros w)"
    "word_trailing_zeros w < LENGTH('a)" "bit w (word_trailing_zeros w)"
    "j < word_trailing_zeros w \<Longrightarrow> \<not> bit w j"
    using down up by blast+
  show "\<not> bit w j" if "LENGTH('a) - 1 - word_leading_zeros w < j"
    using down that bit_imp_le_length [of w j] by blast
qed

lemma lbit_cons:
  "lbit (w # ws) i \<longleftrightarrow> (if i < 64 then bit w i else lbit ws (i - 64))"
proof (cases "i < 64")
  case False
  have "(i - 64) div 64 = i div 64 - 1" "(i - 64) mod 64 = i mod 64" "0 < i div 64"
    using False by (simp_all add: le_div_geq le_mod_geq)
  then show ?thesis using False by (auto simp: lbit_def nth_Cons' not_less)
qed (simp add: lbit_def)

lemma lbit_snoc:
  "lbit (ws @ [w]) i \<longleftrightarrow> (if i < 64 * length ws then lbit ws i else bit w (i - 64 * length ws) )"
proof (cases "i < 64 * length ws")
  case True
  then have "i div 64 < length ws" by simp
  then show ?thesis using True by (auto simp: lbit_def nth_append)
next
  case False
  show ?thesis
  proof (cases "i < 64 * length ws + 64")
    case True
    then obtain b where b: "i = 64 * length ws + b" "b < 64"
      using False that [of "i - 64 * length ws"] by auto
    then show ?thesis using lbit_at [OF b(2), of "ws @ [w]" "length ws"] by simp
  next
    case big: False
    then have "\<not> bit w (i - 64 * length ws)" by (intro bit_limb) simp
    then show ?thesis using False big by (auto simp: lbit_def)
  qed
qed

lemma trailing_zeros_spec:
  "\<not> limbs_is_zero arr \<Longrightarrow> lbit arr (limbs_trailing_zeros arr) \<and>
     (\<forall>j < limbs_trailing_zeros arr. \<not> lbit arr j)"
proof (induction arr)
  case (Cons w ws)
  show ?case
  proof (cases "w = 0")
    case True
    then have "\<not> limbs_is_zero ws" using Cons.prems by (simp add: limbs_is_zero_def)
    with Cons.IH True show ?thesis by (auto simp: lbit_cons)
  next
    case False
    then show ?thesis
      using word_zeros(4-6) [OF False] by (auto simp: lbit_cons)
  qed
qed (simp add: limbs_is_zero_def)

lemma leading_zeros_spec:
  "\<not> limbs_is_zero arr \<Longrightarrow> limbs_leading_zeros arr < 64 * length arr \<and>
     lbit arr (64 * length arr - 1 - limbs_leading_zeros arr) \<and>
     (\<forall>j. 64 * length arr - 1 - limbs_leading_zeros arr < j \<longrightarrow> \<not> lbit arr j)"
proof (induction arr rule: rev_induct)
  case (snoc w ws)
  show ?case
  proof (cases "w = 0")
    case True
    then have "\<not> limbs_is_zero ws" using snoc.prems by (simp add: limbs_is_zero_def)
    note IH = snoc.IH [OF this]
    have lz: "limbs_leading_zeros (ws @ [w]) = 64 + limbs_leading_zeros ws"
      using True by (simp add: limbs_leading_zeros_def)
    have "64 * length (ws @ [w]) - 1 - (64 + limbs_leading_zeros ws) = 64 * length ws - 1 - limbs_leading_zeros ws"
      by simp
    then show ?thesis unfolding lz using IH True by (auto simp: lbit_snoc)
  next
    case False
    note z = word_zeros(1-3) [OF False]
    have lz: "limbs_leading_zeros (ws @ [w]) = word_leading_zeros w"
      using False by (simp add: limbs_leading_zeros_def)
    have "64 * length (ws @ [w]) - 1 - word_leading_zeros w = 64 * length ws + (63 - word_leading_zeros w)"
      using z(1) by simp
    then show ?thesis unfolding lz using z by (auto simp: lbit_snoc)
  qed
qed (simp add: limbs_is_zero_def)

section \<open>The limbs and the words satisfy the interface\<close>

lemma lbit_less: "lbit arr i \<Longrightarrow> i < 64 * length arr"
  by (simp add: lbit_def)

interpretation u1024: wide_flip 1024 "\<lambda>arr. length arr = 16" lbit limbs_is_zero limbs_shl limbs_shr
    limbs_leading_zeros limbs_trailing_zeros limbs_xor "limbs_one 16"
proof unfold_locales
  fix x :: limbs assume x: "length x = 16" "\<not> limbs_is_zero x"
  show "limbs_leading_zeros x < 1024 \<and> lbit x (1024 - 1 - limbs_leading_zeros x) \<and>
      (\<forall>j. 1024 - 1 - limbs_leading_zeros x < j \<longrightarrow> \<not> lbit x j)"
    using leading_zeros_spec [OF x(2)] x(1) by simp
  show "lbit x (limbs_trailing_zeros x) \<and> (\<forall>j < limbs_trailing_zeros x. \<not> lbit x j)"
    using x(2) by (rule trailing_zeros_spec)
qed (auto simp: lbit_shl lbit_shr limbs_is_zero_iff bitwise_limbs lbit_one dest: lbit_less)

interpretation u512: wide_flip 512 "\<lambda>x :: 512 word. True" bit "\<lambda>x. x = 0"
    "\<lambda>x k. push_bit k x" "\<lambda>x k. drop_bit k x" word_leading_zeros word_trailing_zeros "(XOR)" 1
proof unfold_locales
  fix x :: "512 word" and i k
  show len: "i < 512" if "bit x i" using bit_imp_le_length [OF that] by simp
  show "x = 0 \<longleftrightarrow> (\<forall>i. \<not> bit x i)"
    using bit_imp_le_length [of x] by (auto simp: bit_eq_iff)
  show "bit (drop_bit k x) i \<longleftrightarrow> bit x (i + k)" by (simp add: bit_simps add.commute)
  assume x: "x \<noteq> 0"
  show "word_leading_zeros x < 512 \<and> bit x (512 - 1 - word_leading_zeros x) \<and>
      (\<forall>j. 512 - 1 - word_leading_zeros x < j \<longrightarrow> \<not> bit x j)"
    "bit x (word_trailing_zeros x) \<and> (\<forall>j < word_trailing_zeros x. \<not> bit x j)"
    using word_zeros [OF x] by simp_all
qed (auto simp: bit_simps)

section \<open>Refinement of words\<close>

text \<open>The unsigned number the limbs stand for.\<close>

fun limbs_word :: "limbs \<Rightarrow> 1024 word" where
  "limbs_word [] = 0"
| "limbs_word (w # ws) = ucast w OR push_bit 64 (limbs_word ws)"

lemma bit_limbs_word: "bit (limbs_word arr) i \<longleftrightarrow> i < 1024 \<and> lbit arr i"
proof (induction arr arbitrary: i)
  case (Cons w ws)
  have p: "possible_bit TYPE(1024 word) i \<longleftrightarrow> i < 1024" by simp
  show ?case
    unfolding limbs_word.simps bit_or_iff bit_push_bit_iff bit_unsigned_iff p Cons.IH lbit_cons
    by (cases "i < 64") (auto simp: bit_limb)
qed (simp add: lbit_def)

lemma leading_zeros_unique:
  assumes "(w :: 1024 word) \<noteq> 0" "l < 1024" "bit w (1024 - 1 - l)" "\<forall>j. 1024 - 1 - l < j \<longrightarrow> \<not> bit w j"
  shows "word_leading_zeros w = l"
proof -
  let ?m = "word_leading_zeros w"
  have z: "?m < 1024" "bit w (1024 - 1 - ?m)" using word_zeros(1,2) [OF assms(1)] by simp_all
  have "\<not> 1024 - 1 - l < 1024 - 1 - ?m" using assms(4) z(2) by blast
  moreover have "\<not> 1024 - 1 - ?m < 1024 - 1 - l"
    using word_zeros(3) [OF assms(1), of "1024 - 1 - l"] assms(3) by fastforce
  ultimately show ?thesis using assms(2) z(1) by linarith
qed

lemma trailing_zeros_unique:
  assumes "(w :: 1024 word) \<noteq> 0" "bit w l" "\<forall>j < l. \<not> bit w j"
  shows "word_trailing_zeros w = l"
  using assms word_zeros(5,6) [OF assms(1)] by (metis nat_neq_iff)

text \<open>
  C10. \<open>U1024\<close> of \<open>construct_bignum!\<close> implements a 1024-bit unsigned integer: on sixteen limbs the
  limb-wise operators, the two shifts with their carries (the additions of the carry never
  collide), the zero test, the bit test and the counts of leading and trailing zeros are those of
  the word the limbs stand for, and they keep sixteen limbs.
\<close>
theorem limbs_refine_word:
  assumes "length arr = 16" "length arr' = 16"
  shows "limbs_word (limbs_shl arr k) = push_bit k (limbs_word arr) \<and>
    limbs_word (limbs_shr arr k) = drop_bit k (limbs_word arr) \<and>
    limbs_word (limbs_and arr arr') = limbs_word arr AND limbs_word arr' \<and>
    limbs_word (limbs_or arr arr') = limbs_word arr OR limbs_word arr' \<and>
    limbs_word (limbs_xor arr arr') = limbs_word arr XOR limbs_word arr' \<and>
    (limbs_is_zero arr \<longleftrightarrow> limbs_word arr = 0) \<and>
    (\<forall>i. i < 1024 \<longrightarrow> limbs_bit arr i = Inr (bit (limbs_word arr) i)) \<and>
    (limbs_word arr \<noteq> 0 \<longrightarrow> limbs_leading_zeros arr = word_leading_zeros (limbs_word arr) \<and>
       limbs_trailing_zeros arr = word_trailing_zeros (limbs_word arr)) \<and>
    length (limbs_shl arr k) = 16 \<and> length (limbs_shr arr k) = 16 \<and> length (limbs_xor arr arr') = 16"
proof (intro conjI allI impI)
  have p: "possible_bit TYPE(1024 word) i \<longleftrightarrow> i < 1024" for i by simp
  have bits: "bit (limbs_word arr) i \<longleftrightarrow> lbit arr i" "bit (limbs_word arr') i \<longleftrightarrow> lbit arr' i" for i
    using lbit_less [of arr i] lbit_less [of arr' i] assms by (auto simp: bit_limbs_word)
  show "limbs_word (limbs_shl arr k) = push_bit k (limbs_word arr)"
    by (rule bit_word_eqI) (auto simp: bit_limbs_word lbit_shl bit_push_bit_iff p assms)
  show "limbs_word (limbs_shr arr k) = drop_bit k (limbs_word arr)"
    by (rule bit_word_eqI) (auto simp: bit_limbs_word lbit_shr bit_drop_bit_eq assms add.commute [of k]
        dest: lbit_less)
  show "limbs_word (limbs_and arr arr') = limbs_word arr AND limbs_word arr'"
    by (rule bit_word_eqI) (simp add: bit_limbs_word bitwise_limbs bit_and_iff bits assms)
  show "limbs_word (limbs_or arr arr') = limbs_word arr OR limbs_word arr'"
    by (rule bit_word_eqI) (simp add: bit_limbs_word bitwise_limbs bit_or_iff bits assms)
  show "limbs_word (limbs_xor arr arr') = limbs_word arr XOR limbs_word arr'"
    by (rule bit_word_eqI) (simp add: bit_limbs_word bitwise_limbs bit_xor_iff bits assms)
  show zero: "limbs_is_zero arr \<longleftrightarrow> limbs_word arr = 0"
    unfolding limbs_is_zero_iff bits [symmetric] by (auto intro: bit_eqI)
  show "limbs_bit arr i = Inr (bit (limbs_word arr) i)" if "i < 1024" for i
    using that assms(1) by (simp add: limbs_bit_eq bits)
  assume nz: "limbs_word arr \<noteq> 0"
  then show "limbs_leading_zeros arr = word_leading_zeros (limbs_word arr)"
    using u1024.lz [OF assms(1)] zero bits leading_zeros_unique [OF nz, of "limbs_leading_zeros arr"] by simp
  show "limbs_trailing_zeros arr = word_trailing_zeros (limbs_word arr)"
    using nz u1024.tz [OF assms(1)] zero bits trailing_zeros_unique [OF nz, of "limbs_trailing_zeros arr"] by simp
qed (use assms in simp_all)

theorem limbs_refine_word_witness:
  "limbs_word (limbs_shl (limbs_one 16) 100) = push_bit 100 (limbs_word (limbs_one 16)) \<and>
    limbs_leading_zeros (limbs_shl (limbs_one 16) 100) = 923"
proof
  show "limbs_word (limbs_shl (limbs_one 16) 100) = push_bit 100 (limbs_word (limbs_one 16))"
    using limbs_refine_word [of "limbs_one 16" "limbs_one 16" 100] by simp
  show "limbs_leading_zeros (limbs_shl (limbs_one 16) 100) = 923" by code_simp
qed

end
