(* ===== verification/Tick_Bitmap.thy ===== *)
theory Tick_Bitmap
  imports Tick_Array Big_Num
begin

text \<open>
  \<open>libraries/tick_array_bit_map.rs\<close> and \<open>states/tickarray_bitmap_extension.rs\<close>: one bit for every
  tick array that holds an initialized tick. The bitmap of the pool (1024 bits) covers the array
  indices \<open>-512 .. 511\<close>, the extension account fourteen bitmaps of 512 bits on either side. The
  lemmas translate the truncating arithmetic of the code into the index \<open>start div width\<close> of an
  array and show that flips toggle exactly one index and that a search finds the nearest one.
\<close>

section \<open>The bitmap of the pool\<close>

definition TICK_ARRAY_BITMAP_SIZE :: int where "TICK_ARRAY_BITMAP_SIZE = 512"

definition max_tick_in_tickarray_bitmap :: "nat \<Rightarrow> int" where
  "max_tick_in_tickarray_bitmap tick_spacing =
     int tick_spacing * int TICK_ARRAY_SIZE * TICK_ARRAY_BITMAP_SIZE"

definition get_bitmap_tick_boundary :: "int \<Rightarrow> nat \<Rightarrow> (int \<times> int) res" where
  "get_bitmap_tick_boundary tick_array_start_index tick_spacing =
     (let ticks_in_one_bitmap = max_tick_in_tickarray_bitmap tick_spacing in
      and_then (arith_i 32 \<bar>tick_array_start_index\<bar>) (\<lambda>a.
      and_then (sdiv_i 32 a ticks_in_one_bitmap) (\<lambda>m.
      and_then (smod_i 32 a ticks_in_one_bitmap) (\<lambda>r.
      and_then (if tick_array_start_index < 0 \<and> r \<noteq> 0 then arith_i 32 (m + 1) else Inr m) (\<lambda>m.
      and_then (arith_i 32 (ticks_in_one_bitmap * m)) (\<lambda>min_value.
      if tick_array_start_index < 0
      then and_then (arith_i 32 (- min_value + ticks_in_one_bitmap)) (\<lambda>upper.
           Inr (- min_value, upper))
      else and_then (arith_i 32 (min_value + ticks_in_one_bitmap)) (\<lambda>upper.
           Inr (min_value, upper))))))))"

definition most_significant_bit :: "limbs \<Rightarrow> nat option" where
  "most_significant_bit x = (if limbs_is_zero x then None else Some (limbs_leading_zeros x))"

definition least_significant_bit :: "limbs \<Rightarrow> nat option" where
  "least_significant_bit x = (if limbs_is_zero x then None else Some (limbs_trailing_zeros x))"

text \<open>The position of a tick's array in the bitmap of the pool.\<close>

definition bit_position :: "int \<Rightarrow> nat \<Rightarrow> int res" where
  "bit_position tick tick_spacing =
     (let multiplier = int tick_spacing * int TICK_ARRAY_SIZE in
      and_then (sdiv_i 32 tick multiplier) (\<lambda>q.
      and_then (arith_i 32 (q + 512)) (\<lambda>compressed.
      and_then (if tick < 0 then smod_i 32 tick multiplier else Inr 0) (\<lambda>r.
      if tick < 0 \<and> r \<noteq> 0 then arith_i 32 (compressed - 1) else Inr compressed))))"

definition check_current_tick_array_is_initialized ::
  "limbs \<Rightarrow> int \<Rightarrow> nat \<Rightarrow> (bool \<times> int) res" where
  "check_current_tick_array_is_initialized bit_map tick_current tick_spacing =
     (if check_is_out_of_boundary tick_current then fail InvalidTickIndex
      else
        let multiplier = int tick_spacing * int TICK_ARRAY_SIZE in
        and_then (bit_position tick_current tick_spacing) (\<lambda>compressed.
        and_then (arith_i 32 \<bar>compressed\<bar>) (\<lambda>bit_pos.
        let mask = limbs_shl (limbs_one 16) (nat bit_pos);
            masked = limbs_and bit_map mask;
            initialized = (masked \<noteq> limbs_zero 16)
        in and_then (arith_i 32 (compressed - 512)) (\<lambda>d.
           and_then (arith_i 32 (d * multiplier)) (\<lambda>start.
           Inr (initialized, start))))))"

definition next_initialized_tick_array_start_index ::
  "limbs \<Rightarrow> int \<Rightarrow> nat \<Rightarrow> bool \<Rightarrow> (bool \<times> int) res" where
  "next_initialized_tick_array_start_index bit_map last_tick_array_start_index tick_spacing zero_for_one =
     and_then (check_is_valid_start_index last_tick_array_start_index tick_spacing) (\<lambda>valid.
     require valid InvalidTickArrayBoundary
     (let tick_boundary = max_tick_in_tickarray_bitmap tick_spacing in
      and_then (arith_i 32 (if zero_for_one
                  then last_tick_array_start_index - tick_count tick_spacing
                  else last_tick_array_start_index + tick_count tick_spacing))
        (\<lambda>next_tick_array_start_index.
      if next_tick_array_start_index < - tick_boundary \<or> next_tick_array_start_index \<ge> tick_boundary
      then Inr (False, last_tick_array_start_index)
      else
        let multiplier = int tick_spacing * int TICK_ARRAY_SIZE in
        and_then (bit_position next_tick_array_start_index tick_spacing) (\<lambda>compressed.
        and_then (arith_i 32 \<bar>compressed\<bar>) (\<lambda>bit_pos.
        if zero_for_one then
          and_then (arith_i 32 (1024 - bit_pos - 1)) (\<lambda>shift.
          if shift < 0 then Inl Panic
          else
            case most_significant_bit (limbs_shl bit_map (nat shift)) of
              Some next_bit \<Rightarrow>
                and_then (arith_i 32 ((bit_pos - int next_bit - 512) * multiplier)) (\<lambda>next_start.
                Inr (True, next_start))
            | None \<Rightarrow> Inr (False, - tick_boundary))
        else
          case least_significant_bit (limbs_shr bit_map (nat bit_pos)) of
            Some next_bit \<Rightarrow>
              and_then (arith_i 32 ((bit_pos + int next_bit - 512) * multiplier)) (\<lambda>next_start.
              Inr (True, next_start))
          | None \<Rightarrow>
              and_then (arith_i 32 (tick_boundary - tick_count tick_spacing)) (\<lambda>last.
              Inr (False, last)))))))"

section \<open>The extension account\<close>

definition EXTENSION_TICKARRAY_BITMAP_SIZE :: nat where "EXTENSION_TICKARRAY_BITMAP_SIZE = 14"

record bitmap_extension =
  tb_pool_id :: nat
  tb_positive :: "512 word list"
  tb_negative :: "512 word list"

definition bitmap_extension_initialize :: "nat \<Rightarrow> bitmap_extension \<Rightarrow> bitmap_extension" where
  "bitmap_extension_initialize pool_id ext =
     ext\<lparr>tb_pool_id := pool_id,
         tb_positive := replicate EXTENSION_TICKARRAY_BITMAP_SIZE 0,
         tb_negative := replicate EXTENSION_TICKARRAY_BITMAP_SIZE 0\<rparr>"

definition check_extension_boundary :: "int \<Rightarrow> nat \<Rightarrow> unit res" where
  "check_extension_boundary tick_index tick_spacing =
     (let positive_tick_boundary = max_tick_in_tickarray_bitmap tick_spacing;
          negative_tick_boundary = - positive_tick_boundary
      in require_plain (MAX_TICK > positive_tick_boundary)
         (require_plain (negative_tick_boundary > MIN_TICK)
         (if tick_index \<ge> negative_tick_boundary \<and> tick_index < positive_tick_boundary
          then fail InvalidTickArrayBoundary else Inr ())))"

definition get_bitmap_offset :: "int \<Rightarrow> nat \<Rightarrow> nat res" where
  "get_bitmap_offset tick_index tick_spacing =
     and_then (check_is_valid_start_index tick_index tick_spacing) (\<lambda>valid.
     require valid InvalidTickIndex
     (and_then (check_extension_boundary tick_index tick_spacing) (\<lambda>_.
      let ticks_in_one_bitmap = max_tick_in_tickarray_bitmap tick_spacing in
      and_then (arith_i 32 \<bar>tick_index\<bar>) (\<lambda>a.
      and_then (sdiv_i 32 a ticks_in_one_bitmap) (\<lambda>q.
      and_then (arith_i 32 (q - 1)) (\<lambda>offset.
      and_then (smod_i 32 a ticks_in_one_bitmap) (\<lambda>r.
      and_then (if tick_index < 0 \<and> r = 0 then arith_i 32 (offset - 1) else Inr offset) (\<lambda>offset.
      Inr (nat (offset mod 2 ^ 64))))))))))"

definition get_bitmap :: "bitmap_extension \<Rightarrow> int \<Rightarrow> nat \<Rightarrow> (nat \<times> 512 word) res" where
  "get_bitmap ext tick_index tick_spacing =
     and_then (get_bitmap_offset tick_index tick_spacing) (\<lambda>offset.
     let bitmaps = (if tick_index < 0 then tb_negative ext else tb_positive ext) in
     if offset < length bitmaps then Inr (offset, bitmaps ! offset) else Inl Panic)"

definition tick_array_offset_in_bitmap :: "int \<Rightarrow> nat \<Rightarrow> int res" where
  "tick_array_offset_in_bitmap tick_array_start_index tick_spacing =
     and_then (arith_i 32 \<bar>tick_array_start_index\<bar>) (\<lambda>a.
     and_then (smod_i 32 a (max_tick_in_tickarray_bitmap tick_spacing)) (\<lambda>m.
     and_then (sdiv_i 32 m (tick_count tick_spacing)) (\<lambda>offset.
     if tick_array_start_index < 0 \<and> m \<noteq> 0
     then arith_i 32 (TICK_ARRAY_BITMAP_SIZE - offset) else Inr offset)))"

text \<open>The positions passed to the shifts and to \<open>bit\<close> are converted to \<open>usize\<close>; the crate panics
  on a bit index past the width.\<close>

definition check_tick_array_is_initialized ::
  "bitmap_extension \<Rightarrow> int \<Rightarrow> nat \<Rightarrow> (bool \<times> int) res" where
  "check_tick_array_is_initialized ext tick_array_start_index tick_spacing =
     and_then (get_bitmap ext tick_array_start_index tick_spacing) (\<lambda>(_, bitmap).
     and_then (tick_array_offset_in_bitmap tick_array_start_index tick_spacing) (\<lambda>offset.
     if 0 \<le> offset \<and> offset < 512
     then Inr (bit bitmap (nat offset), tick_array_start_index) else Inl Panic))"

definition flip_extension_bit :: "int \<Rightarrow> nat \<Rightarrow> bitmap_extension \<Rightarrow> bitmap_extension res" where
  "flip_extension_bit tick_array_start_index tick_spacing ext =
     and_then (get_bitmap ext tick_array_start_index tick_spacing) (\<lambda>(offset, bitmap).
     and_then (tick_array_offset_in_bitmap tick_array_start_index tick_spacing) (\<lambda>k.
     if k < 0 then Inl Panic
     else
       let mask = push_bit (nat k) 1; bitmap = bitmap XOR mask in
       Inr (if tick_array_start_index < 0
            then ext\<lparr>tb_negative := (tb_negative ext)[offset := bitmap]\<rparr>
            else ext\<lparr>tb_positive := (tb_positive ext)[offset := bitmap]\<rparr>)))"

definition next_initialized_tick_array_in_bitmap ::
  "512 word \<Rightarrow> int \<Rightarrow> nat \<Rightarrow> bool \<Rightarrow> (bool \<times> int) res" where
  "next_initialized_tick_array_in_bitmap bitmap next_tick_array_start_index tick_spacing zero_for_one =
     and_then (get_bitmap_tick_boundary next_tick_array_start_index tick_spacing)
       (\<lambda>(bitmap_min_tick_boundary, bitmap_max_tick_boundary).
     and_then (tick_array_offset_in_bitmap next_tick_array_start_index tick_spacing) (\<lambda>offset.
     if zero_for_one then
       and_then (arith_i 32 (TICK_ARRAY_BITMAP_SIZE - 1 - offset)) (\<lambda>shift.
       if shift < 0 then Inl Panic
       else
         let offset_bit_map = push_bit (nat shift) bitmap in
         if offset_bit_map = 0 then Inr (False, bitmap_min_tick_boundary)
         else
           and_then (arith_i 32 (int (word_leading_zeros offset_bit_map) * tick_count tick_spacing)) (\<lambda>d.
           and_then (arith_i 32 (next_tick_array_start_index - d)) (\<lambda>next_start.
           Inr (True, next_start))))
     else if offset < 0 then Inl Panic
     else
       let offset_bit_map = drop_bit (nat offset) bitmap in
       if offset_bit_map = 0
       then and_then (arith_i 32 (bitmap_max_tick_boundary - tick_count tick_spacing)) (\<lambda>last.
            Inr (False, last))
       else
         and_then (arith_i 32 (int (word_trailing_zeros offset_bit_map) * tick_count tick_spacing)) (\<lambda>d.
         and_then (arith_i 32 (next_tick_array_start_index + d)) (\<lambda>next_start.
         Inr (True, next_start)))))"

definition next_initialized_tick_array_from_one_bitmap ::
  "bitmap_extension \<Rightarrow> int \<Rightarrow> nat \<Rightarrow> bool \<Rightarrow> (bool \<times> int) res" where
  "next_initialized_tick_array_from_one_bitmap ext last_tick_array_start_index tick_spacing zero_for_one =
     (let multiplier = tick_count tick_spacing in
      and_then (arith_i 32 (if zero_for_one then last_tick_array_start_index - multiplier
                  else last_tick_array_start_index + multiplier)) (\<lambda>next_tick_array_start_index.
      and_then (get_array_start_index MIN_TICK tick_spacing) (\<lambda>min_tick_array_start_index.
      and_then (get_array_start_index MAX_TICK tick_spacing) (\<lambda>max_tick_array_start_index.
      if next_tick_array_start_index < min_tick_array_start_index \<or>
         next_tick_array_start_index > max_tick_array_start_index
      then Inr (False, next_tick_array_start_index)
      else
        and_then (get_bitmap ext next_tick_array_start_index tick_spacing) (\<lambda>(_, bitmap).
        next_initialized_tick_array_in_bitmap bitmap next_tick_array_start_index tick_spacing
          zero_for_one)))))"

section \<open>Indices of arrays\<close>

text \<open>Array \<open>k\<close> starts at tick \<open>k * width\<close>; the arrays of the protocol are those between the
  array of the lowest and the array of the highest tick.\<close>

definition min_index :: "nat \<Rightarrow> int" where "min_index s = MIN_TICK div tick_count s"
definition max_index :: "nat \<Rightarrow> int" where "max_index s = MAX_TICK div tick_count s"

definition index_ok :: "nat \<Rightarrow> int \<Rightarrow> bool" where
  "index_ok s k \<longleftrightarrow> min_index s \<le> k \<and> k \<le> max_index s"

definition array_of :: "nat \<Rightarrow> int \<Rightarrow> int" where "array_of s k = k * tick_count s"

lemma width_bounds:
  "spacing_ok s \<Longrightarrow> 0 < tick_count s"
  "spacing_ok s \<Longrightarrow> tick_count s < 2 ^ 22"
  "max_tick_in_tickarray_bitmap s = 512 * tick_count s"
  "int s * int TICK_ARRAY_SIZE = tick_count s"
  "spacing_ok s \<Longrightarrow> 512 * tick_count s \<le> 2013235200"
  using tick_count_bounds [of s]
  by (auto simp: max_tick_in_tickarray_bitmap_def tick_count_def TICK_ARRAY_BITMAP_SIZE_def
      TICK_ARRAY_SIZE_def spacing_ok_def)

lemma array_of_div: "spacing_ok s \<Longrightarrow> array_of s k div tick_count s = k"
  using width_bounds(1) [of s] by (simp add: array_of_def)

lemma array_of_less: "spacing_ok s \<Longrightarrow> array_of s j < array_of s k \<longleftrightarrow> j < k"
  using width_bounds(1) [of s] by (simp add: array_of_def mult_less_cancel_right)

lemma array_of_le: "spacing_ok s \<Longrightarrow> array_of s j \<le> array_of s k \<longleftrightarrow> j \<le> k"
  using width_bounds(1) [of s] by (simp add: array_of_def mult_le_cancel_right)

lemma array_of_step:
  "array_of s k - tick_count s = array_of s (k - 1)"
  "array_of s k + tick_count s = array_of s (k + 1)"
  by (simp_all add: array_of_def algebra_simps)

lemma array_start_index: "array_start s t = array_of s (t div tick_count s)"
  by (simp add: array_start_def array_of_def)

lemma array_of_min:
  assumes "spacing_ok s"
  shows "array_of s (min_index s) \<le> MIN_TICK" "MIN_TICK < array_of s (min_index s) + tick_count s"
    "array_of s (max_index s) \<le> MAX_TICK" "MAX_TICK < array_of s (max_index s) + tick_count s"
  using array_start_le [OF assms] array_start_gt [OF assms]
  by (simp_all add: array_start_index min_index_def max_index_def)

lemma array_of_near:
  assumes "spacing_ok s" "min_index s - 1 \<le> k" "k \<le> max_index s + 1"
  shows "tick_near (array_of s k)"
proof -
  have "array_of s (min_index s - 1) \<le> array_of s k" "array_of s k \<le> array_of s (max_index s + 1)"
    using assms by (simp_all add: array_of_le)
  then show ?thesis
    using array_of_min [OF assms(1)] width_bounds(1,2) [OF assms(1)]
      array_of_step(1) [of s "min_index s"] array_of_step(2) [of s "max_index s"]
    by (simp add: tick_near_def tick_limits abs_le_iff)
qed

lemma index_ok_near: "spacing_ok s \<Longrightarrow> index_ok s k \<Longrightarrow> tick_near (array_of s k)"
  by (rule array_of_near) (simp_all add: index_ok_def)

lemma out_of_range:
  assumes "spacing_ok s"
  shows "k < min_index s \<Longrightarrow> array_of s k < MIN_TICK" "max_index s < k \<Longrightarrow> MAX_TICK < array_of s k"
proof -
  assume "k < min_index s"
  then have "array_of s k \<le> array_of s (min_index s - 1)" using assms by (simp add: array_of_le)
  then show "array_of s k < MIN_TICK"
    using array_of_min(1) [OF assms] width_bounds(1) [OF assms] array_of_step(1) [of s "min_index s"] by simp
next
  assume "max_index s < k"
  then have "array_of s (max_index s + 1) \<le> array_of s k" using assms by (simp add: array_of_le)
  then show "MAX_TICK < array_of s k"
    using array_of_min(4) [OF assms] array_of_step(2) [of s "max_index s"] by simp
qed

lemma valid_start:
  assumes "spacing_ok s" "index_ok s k"
  shows "check_is_valid_start_index (array_of s k) s = Inr True"
proof -
  have le: "array_of s k \<le> MAX_TICK"
    using assms array_of_min(3) [OF assms(1)] array_of_le [OF assms(1), of k "max_index s"]
    by (simp add: index_ok_def)
  show ?thesis
  proof (cases "array_of s k < MIN_TICK")
    case True
    have "k \<le> min_index s"
    proof (rule ccontr)
      assume "\<not> k \<le> min_index s"
      then have "array_of s (min_index s + 1) \<le> array_of s k" using assms(1) by (simp add: array_of_le)
      then show False using True array_of_min(2) [OF assms(1)] array_of_step(2) [of s "min_index s"] by simp
    qed
    then have "k = min_index s" using assms(2) by (simp add: index_ok_def)
    moreover have "tick_near MIN_TICK" by (simp add: tick_near_def tick_limits)
    ultimately show ?thesis
      using True le assms(1)
      by (simp add: check_is_valid_start_index_def check_is_out_of_boundary_def get_array_start_index_eq
          array_start_index min_index_def)
  next
    case False
    have near: "\<bar>array_of s k\<bar> \<le> 2 ^ 24" using index_ok_near [OF assms] by (simp add: tick_near_def)
    have c: "0 < tick_count s" using assms(1) by (rule width_bounds)
    have "fits_i 32 (array_of s k sdiv tick_count s)"
      using sdiv_near [OF c near] by (intro fits_i_32) simp
    then have "smod_i 32 (array_of s k) (tick_count s) = Inr (array_of s k smod tick_count s)"
      using c by (intro smod_i_eq) simp_all
    moreover have "array_of s k smod tick_count s = 0"
      using c by (simp add: smod_eq_0_iff array_of_def)
    ultimately show ?thesis
      using False le by (simp add: check_is_valid_start_index_def check_is_out_of_boundary_def)
  qed
qed

lemma start_of_array: "spacing_ok s \<Longrightarrow> index_ok s k \<Longrightarrow> get_array_start_index (array_of s k) s = Inr (array_of s k)"
  using index_ok_near [of s k] by (simp add: get_array_start_index_eq array_start_index array_of_div)

lemma fits_i_32': "\<bar>x\<bar> < 2 ^ 31 \<Longrightarrow> fits_i 32 x"
  by (auto simp: fits_i_def abs_less_iff)

lemma bit_position_eq:
  assumes "spacing_ok s" "tick_near t"
  shows "bit_position t s = Inr (t div tick_count s + 512)"
proof -
  have c: "0 < tick_count s" using assms(1) by (rule width_bounds)
  have q: "\<bar>t sdiv tick_count s\<bar> \<le> 2 ^ 24" using sdiv_near [OF c] assms(2) by (simp add: tick_near_def)
  have "fits_i 32 (t sdiv tick_count s)" "fits_i 32 (t sdiv tick_count s + 512)"
    "fits_i 32 (511 + t sdiv tick_count s)"
    using q by (intro fits_i_32; simp add: abs_le_iff)+
  then show ?thesis
    using floor_sdiv [OF c, of t] c
    by (auto simp: bit_position_def Let_def width_bounds(4) sdiv_i_eq smod_i_eq arith_i_fits
        split: if_split_asm)
qed

section \<open>Scanning\<close>

text \<open>\<open>scan f z k b j\<close>: going from \<open>k\<close> (exclusive) in the direction of the swap up to \<open>j\<close>
  (inclusive), no flag was set before \<open>j\<close>, and \<open>j\<close> is set exactly if \<open>b\<close>.\<close>

definition scan :: "(int \<Rightarrow> bool) \<Rightarrow> bool \<Rightarrow> int \<Rightarrow> bool \<Rightarrow> int \<Rightarrow> bool" where
  "scan f z k b j \<longleftrightarrow>
     (if z then j \<le> k \<and> (\<forall>i. j < i \<and> i < k \<longrightarrow> \<not> f i) else k \<le> j \<and> (\<forall>i. k < i \<and> i < j \<longrightarrow> \<not> f i)) \<and>
     (if b then j \<noteq> k \<and> f j else j \<noteq> k \<longrightarrow> \<not> f j)"

lemma scan_refl: "scan f z k False k"
  by (auto simp: scan_def)

lemma scan_trans: "scan f z k False j \<Longrightarrow> scan f z j b l \<Longrightarrow> scan f z k b l"
  unfolding scan_def by (cases z; cases b) (auto, (metis linorder_neqE_linordered_idom)+)

text \<open>The flag of array \<open>k\<close>: a bit of the pool's bitmap, or of a bitmap of the extension.\<close>

definition pool_flag :: "limbs \<Rightarrow> int \<Rightarrow> bool" where
  "pool_flag bm k \<longleftrightarrow> lbit bm (nat (k + 512))"

definition extension_flag :: "bitmap_extension \<Rightarrow> int \<Rightarrow> bool" where
  "extension_flag ext k \<longleftrightarrow>
     bit (if k < 0 then tb_negative ext ! nat (- (k div 512) - 2) else tb_positive ext ! nat (k div 512 - 1))
       (nat (k mod 512))"

definition array_flag :: "limbs \<Rightarrow> bitmap_extension \<Rightarrow> int \<Rightarrow> bool" where
  "array_flag bm ext k \<longleftrightarrow> (if - 512 \<le> k \<and> k < 512 then pool_flag bm k else extension_flag ext k)"

lemma scan_cong:
  assumes "scan f z k b j" "\<And>i. (if z then j \<le> i \<and> i < k else k < i \<and> i \<le> j) \<Longrightarrow> f i = g i"
  shows "scan g z k b j"
  using assms unfolding scan_def by (cases z; cases b) auto

lemma default_search_down:
  assumes "length bm = 16" "- 512 \<le> n" "n < (512 :: int)"
  shows "case most_significant_bit (limbs_shl bm (nat (1024 - (n + 512) - 1))) of
      None \<Rightarrow> scan (pool_flag bm) True (n + 1) False (- 512)
    | Some m \<Rightarrow> - 512 \<le> n - int m \<and> scan (pool_flag bm) True (n + 1) True (n - int m)"
proof -
  define p where "p = nat (n + 512)"
  have p: "p < 1024" "nat (1024 - (n + 512) - 1) = 1024 - 1 - p" "n = int p - 512"
    using assms(2,3) by (auto simp: p_def)
  let ?x = "limbs_shl bm (1024 - 1 - p)"
  show ?thesis
  proof (cases "limbs_is_zero ?x")
    case True
    have "\<not> pool_flag bm i" if "- 512 \<le> i" "i \<le> n" for i
      using u1024.search_down_none [OF assms(1) p(1) True, of "nat (i + 512)"] that p(3)
      by (simp add: pool_flag_def nat_le_iff)
    then show ?thesis using True p(2) assms(2) by (auto simp: most_significant_bit_def scan_def)
  next
    case False
    let ?m = "limbs_leading_zeros ?x"
    have m: "?m \<le> p" "lbit bm (p - ?m)" and none: "\<And>j. p - ?m < j \<Longrightarrow> j \<le> p \<Longrightarrow> \<not> lbit bm j"
      using u1024.search_down [OF assms(1) p(1) False] by blast+
    have "nat (n - int ?m + 512) = p - ?m" using m(1) p(3) by simp
    then have "pool_flag bm (n - int ?m)" using m(2) by (simp add: pool_flag_def)
    moreover have "\<not> pool_flag bm i" if "n - int ?m < i" "i \<le> n" for i
      using none [of "nat (i + 512)"] that m(1) p(3) by (simp add: pool_flag_def)
    moreover have "- 512 \<le> n - int ?m" using m(1) p(3) by simp
    ultimately show ?thesis using False p(2) by (auto simp: most_significant_bit_def scan_def)
  qed
qed

lemma default_search_up:
  assumes "length bm = 16" "- 512 \<le> n" "n < (512 :: int)"
  shows "case least_significant_bit (limbs_shr bm (nat (n + 512))) of
      None \<Rightarrow> scan (pool_flag bm) False (n - 1) False 511
    | Some m \<Rightarrow> n + int m < 512 \<and> scan (pool_flag bm) False (n - 1) True (n + int m)"
proof -
  obtain p where p: "nat (n + 512) = p" "n = int p - 512"
    using assms(2) that [of "nat (n + 512)"] by simp
  let ?x = "limbs_shr bm p"
  show ?thesis
  proof (cases "limbs_is_zero ?x")
    case True
    have "\<not> pool_flag bm i" if "n \<le> i" for i
      using u1024.search_up_none [OF assms(1) True, of "nat (i + 512)"] that p(2)
      by (simp add: pool_flag_def le_nat_iff)
    then show ?thesis using True assms(3) p(1) by (auto simp: least_significant_bit_def scan_def)
  next
    case False
    let ?m = "limbs_trailing_zeros ?x"
    have m: "lbit bm (p + ?m)" and none: "\<And>j. p \<le> j \<Longrightarrow> j < p + ?m \<Longrightarrow> \<not> lbit bm j"
      using u1024.search_up [OF assms(1) False] by blast+
    have "nat (n + int ?m + 512) = p + ?m" using p(2) by (simp add: nat_add_distrib)
    then have "pool_flag bm (n + int ?m)" using m by (simp add: pool_flag_def)
    moreover have "\<not> pool_flag bm i" if "n \<le> i" "i < n + int ?m" for i
      using none [of "nat (i + 512)"] that p(2) by (simp add: pool_flag_def le_nat_iff nat_less_iff)
    moreover have "p + ?m < 1024" using m u1024.width [OF assms(1)] by blast
    ultimately show ?thesis using False p by (auto simp: least_significant_bit_def scan_def)
  qed
qed

text \<open>The search over the bitmap of the pool, in indices.\<close>

lemma next_default:
  assumes "spacing_ok s" "length bm = 16" "index_ok s k"
  shows "\<exists>b j. next_initialized_tick_array_start_index bm (array_of s k) s z = Inr (b, array_of s j) \<and>
    (j \<noteq> k \<longrightarrow> (if z then - 512 \<le> j \<and> k \<le> 512 else j < 512 \<and> - 513 \<le> k)) \<and>
    scan (pool_flag bm) z k b j \<and> (\<not> b \<longrightarrow> (if z then j - 1 else j + 1) \<notin> {- 512..<512})"
proof -
  let ?c = "tick_count s" and ?n = "if z then k - 1 else k + 1"
  have c: "0 < ?c" "512 * ?c \<le> 2013235200" using width_bounds(1,5) assms(1) by blast+
  have near: "tick_near (array_of s ?n)"
    using assms by (intro array_of_near) (simp_all add: index_ok_def)
  then have fit: "fits_i 32 (array_of s ?n)" by (intro fits_i_32) (simp add: tick_near_def)
  have next_eq: "(if z then array_of s k - ?c else array_of s k + ?c) = array_of s ?n"
    by (simp add: array_of_step)
  have bd: "array_of s ?n < - (512 * ?c) \<longleftrightarrow> ?n < - 512" "array_of s ?n \<ge> 512 * ?c \<longleftrightarrow> 512 \<le> ?n"
    using array_of_less [OF assms(1), of ?n "- 512"] array_of_le [OF assms(1), of 512 ?n]
    by (simp_all add: array_of_def)
  have bitpos: "bit_position (array_of s ?n) s = Inr (?n + 512)"
    using bit_position_eq [OF assms(1) near] by (simp add: array_of_div assms(1))
  note unf = next_initialized_tick_array_start_index_def valid_start [OF assms(1,3)] Let_def
    width_bounds(3,4) array_of_step
  note facts = arith_i_fits [OF fit] bd bitpos
  show ?thesis
  proof (cases "?n < - 512 \<or> 512 \<le> ?n")
    case True
    then show ?thesis using facts
      by (intro exI [of _ False] exI [of _ k]) (cases z; auto simp: unf scan_refl)
  next
    case False
    then have n: "- 512 \<le> ?n" "?n < 512" by linarith+
    have f: "fits_i 32 \<bar>?n + 512\<bar>" "fits_i 32 (1024 - (?n + 512) - 1)" "0 \<le> 1024 - (?n + 512) - 1"
      using n by (auto intro!: fits_i_32)
    have pos: "\<bar>?n + 512\<bar> = ?n + 512" using n(1) by simp
    have small: "arith_i 32 (i * ?c) = Inr (array_of s i)" if "- 512 \<le> i" "i < 512" for i
    proof -
      have "- 512 * ?c \<le> i * ?c" "i * ?c \<le> 512 * ?c" using that c(1) by (intro mult_right_mono; simp)+
      then have "fits_i 32 (i * ?c)" using c(2) by (intro fits_i_32') (simp add: abs_less_iff)
      then show ?thesis by (simp add: arith_i_fits array_of_def)
    qed
    have ends: "array_of s (- 512) = - (512 * ?c)" "arith_i 32 (512 * ?c - ?c) = Inr (array_of s 511)"
      using small [of 511] by (simp_all add: array_of_def left_diff_distrib)
    show ?thesis
    proof (cases z)
      case True
      note unf = unf facts [unfolded if_P [OF True]] and n = n [unfolded if_P [OF True]]
        and f = f [unfolded if_P [OF True]] and pos = pos [unfolded if_P [OF True]]
      note d = default_search_down [OF assms(2), of "k - 1"]
      show ?thesis
      proof (cases "most_significant_bit (limbs_shl bm (nat (1024 - (k - 1 + 512) - 1)))")
        case None
        then show ?thesis using d n f True
          by (intro exI [of _ False] exI [of _ "- 512"]) (auto simp: unf pos ends arith_i_fits)
      next
        case (Some m)
        have eq: "k - 1 - int m = k - int m - 1" by simp
        from Some show ?thesis using d n f True small [of "k - int m - 1"] unfolding eq
          by (intro exI [of _ True] exI [of _ "k - int m - 1"]) (auto simp: unf pos ends arith_i_fits eq)
      qed
    next
      case up: False
      note unf = unf facts [unfolded if_not_P [OF up]] and n = n [unfolded if_not_P [OF up]]
        and f = f [unfolded if_not_P [OF up]] and pos = pos [unfolded if_not_P [OF up]]
      note d = default_search_up [OF assms(2), of "k + 1"]
      show ?thesis
      proof (cases "least_significant_bit (limbs_shr bm (nat (k + 1 + 512)))")
        case None
        then show ?thesis using d n f up small [of 511]
          by (intro exI [of _ False] exI [of _ 511]) (auto simp: unf pos ends arith_i_fits)
      next
        case (Some m)
        have eq: "k + 1 + int m = 1 + (k + int m)" by simp
        from Some show ?thesis using d n f up small [of "1 + (k + int m)"] unfolding eq
          by (intro exI [of _ True] exI [of _ "1 + (k + int m)"]) (auto simp: unf pos ends arith_i_fits eq)
      qed
    qed
  qed
qed

text \<open>The arrays outside the bitmap of the pool, which exist only for spacings up to 14.\<close>

definition outer :: "int \<Rightarrow> bool" where "outer k \<longleftrightarrow> k \<notin> {- 512..<512}"

definition bitmap_offset :: "int \<Rightarrow> nat" where
  "bitmap_offset k = (if k < 0 then nat (- (k div 512) - 2) else nat (k div 512 - 1))"

definition extension_ok :: "bitmap_extension \<Rightarrow> bool" where
  "extension_ok ext \<longleftrightarrow> length (tb_positive ext) = 14 \<and> length (tb_negative ext) = 14"

lemma index_bounds:
  assumes "spacing_ok s" "index_ok s k"
  shows "- 7395 < k" "k < 7394"
proof -
  have c: "60 \<le> tick_count s" "0 < tick_count s"
    using assms(1) by (simp_all add: tick_count_def TICK_ARRAY_SIZE_def spacing_ok_def)
  have k: "array_of s (min_index s) \<le> array_of s k" "array_of s k \<le> array_of s (max_index s)"
    using assms by (simp_all add: array_of_le index_ok_def)
  have lo: "- 443636 < (k + 1) * tick_count s"
    using k(1) array_of_min(2) [OF assms(1)] by (simp add: array_of_def tick_limits distrib_right)
  have hi: "k * tick_count s \<le> 443636"
    using k(2) array_of_min(3) [OF assms(1)] by (simp add: array_of_def tick_limits)
  show "- 7395 < k"
  proof (rule ccontr)
    assume "\<not> - 7395 < k"
    then have "(k + 1) * tick_count s \<le> - 7394 * tick_count s" using c(2) by (intro mult_right_mono) simp_all
    then show False using lo c(1) by linarith
  qed
  show "k < 7394"
  proof (rule ccontr)
    assume "\<not> k < 7394"
    then have "7394 * tick_count s \<le> k * tick_count s" using c(2) by (intro mult_right_mono) simp_all
    then show False using hi c(1) by linarith
  qed
qed

lemma outer_spacing:
  assumes "spacing_ok s" "index_ok s k" "outer k"
  shows "512 * tick_count s < MAX_TICK" "MIN_TICK < - 512 * tick_count s"
proof -
  have c: "0 < tick_count s" using assms(1) by (rule width_bounds)
  have *: "512 * tick_count s \<le> 443636"
  proof (cases "k < 0")
    case True
    then have "min_index s < - 512" using assms(2,3) by (simp add: outer_def index_ok_def)
    then have "MIN_TICK < - 512 * tick_count s"
      unfolding min_index_def using int_div_less_iff [OF c] by blast
    then show ?thesis by (simp add: tick_limits)
  next
    case False
    then have "512 \<le> max_index s" using assms(2,3) by (simp add: outer_def index_ok_def)
    then have "512 * tick_count s \<le> MAX_TICK"
      unfolding max_index_def using int_le_div_iff [OF c] by blast
    then show ?thesis by (simp add: tick_limits)
  qed
  then have "30720 * int s \<le> 443636" by (simp add: tick_count_def TICK_ARRAY_SIZE_def)
  then have "int s \<le> 14" by linarith
  then show "512 * tick_count s < MAX_TICK" "MIN_TICK < - 512 * tick_count s"
    by (simp_all add: tick_limits tick_count_def TICK_ARRAY_SIZE_def)
qed

lemma neg_div_mod:
  "k < 0 \<Longrightarrow> k div 512 = (if \<bar>k\<bar> mod 512 = 0 then - (\<bar>k\<bar> div 512) else - (\<bar>k\<bar> div 512) - 1)"
  "k < 0 \<Longrightarrow> k mod 512 = (if \<bar>k\<bar> mod 512 = 0 then 0 else 512 - \<bar>k\<bar> mod (512 :: int))"
  using zdiv_zminus1_eq_if [of 512 "- k"] zmod_zminus1_eq_if [of "- k" 512] by simp_all

lemma array_of_abs:
  assumes "spacing_ok s"
  shows "\<bar>array_of s k\<bar> = \<bar>k\<bar> * tick_count s"
    "\<bar>array_of s k\<bar> sdiv (512 * tick_count s) = \<bar>k\<bar> div 512"
    "\<bar>array_of s k\<bar> smod (512 * tick_count s) = (\<bar>k\<bar> mod 512) * tick_count s"
    "array_of s k < 0 \<longleftrightarrow> k < 0"
proof -
  have c: "0 < tick_count s" using assms by (rule width_bounds)
  show abs: "\<bar>array_of s k\<bar> = \<bar>k\<bar> * tick_count s" using c by (simp add: array_of_def abs_mult)
  show "\<bar>array_of s k\<bar> sdiv (512 * tick_count s) = \<bar>k\<bar> div 512"
    using c unfolding abs by (simp add: signed_divide_int_eq_divide_int sgn_if)
  show "\<bar>array_of s k\<bar> smod (512 * tick_count s) = (\<bar>k\<bar> mod 512) * tick_count s"
    using c unfolding abs by (simp add: signed_modulo_int_eq_modulo_int mod_mult_mult2 sgn_if)
  show "array_of s k < 0 \<longleftrightarrow> k < 0" using c by (simp add: array_of_def mult_less_0_iff)
qed

lemma fits_small: "0 \<le> x \<Longrightarrow> x \<le> 2 ^ 26 \<Longrightarrow> arith_i 32 x = Inr x"
  by (intro arith_i_fits fits_i_32) simp

lemma outer_arith:
  assumes "spacing_ok s" "index_ok s k" "outer k"
  shows "arith_i 32 \<bar>array_of s k\<bar> = Inr \<bar>array_of s k\<bar>"
    "sdiv_i 32 \<bar>array_of s k\<bar> (512 * tick_count s) = Inr (\<bar>k\<bar> div 512)"
    "smod_i 32 \<bar>array_of s k\<bar> (512 * tick_count s) = Inr ((\<bar>k\<bar> mod 512) * tick_count s)"
    "\<bar>k\<bar> div 512 \<le> 14" "tick_count s \<le> 866"
proof -
  have c: "0 < tick_count s" using assms(1) by (rule width_bounds)
  have near: "\<bar>array_of s k\<bar> \<le> 2 ^ 24" using index_ok_near [OF assms(1,2)] by (simp add: tick_near_def)
  have k: "\<bar>k\<bar> < 7395" using index_bounds [OF assms(1,2)] by simp
  then show q: "\<bar>k\<bar> div 512 \<le> 14" using int_div_less_iff [of 512 "\<bar>k\<bar>" 15] by simp
  have "0 \<le> \<bar>k\<bar> div 512" by simp
  then have fit: "fits_i 32 (\<bar>k\<bar> div 512)" using q by (intro fits_i_32) simp
  show "arith_i 32 \<bar>array_of s k\<bar> = Inr \<bar>array_of s k\<bar>" using near by (intro fits_small) simp_all
  show "sdiv_i 32 \<bar>array_of s k\<bar> (512 * tick_count s) = Inr (\<bar>k\<bar> div 512)"
    "smod_i 32 \<bar>array_of s k\<bar> (512 * tick_count s) = Inr ((\<bar>k\<bar> mod 512) * tick_count s)"
    using c fit sdiv_i_eq [of "512 * tick_count s" 32 "\<bar>array_of s k\<bar>"]
      smod_i_eq [of "512 * tick_count s" 32 "\<bar>array_of s k\<bar>"]
    unfolding array_of_abs(2,3) [OF assms(1)] by simp_all
  show "tick_count s \<le> 866" using outer_spacing(1) [OF assms] by (simp add: tick_limits)
qed

lemma get_bitmap_offset_eq:
  assumes "spacing_ok s" "index_ok s k" "outer k"
  shows "get_bitmap_offset (array_of s k) s = Inr (bitmap_offset k)" "bitmap_offset k < 14"
proof -
  define q r where qr: "q = \<bar>k\<bar> div 512" "r = \<bar>k\<bar> mod 512"
  have c: "0 < tick_count s" using assms(1) by (rule width_bounds)
  note a = outer_arith [OF assms, folded qr]
  have big: "512 \<le> \<bar>k\<bar>" "k < 0 \<Longrightarrow> 512 < \<bar>k\<bar>" using assms(3) by (auto simp: outer_def)
  have k: "\<bar>k\<bar> = 512 * q + r" "0 \<le> r" "r < 512" by (simp_all add: qr)
  have q: "1 \<le> q" "q \<le> 14" "k < 0 \<Longrightarrow> r = 0 \<Longrightarrow> 2 \<le> q" using a(4) big k by linarith+
  have bound: "\<not> (array_of s k \<ge> - (512 * tick_count s) \<and> array_of s k < 512 * tick_count s)"
    using assms(3) array_of_le [OF assms(1), of "- 512" k] array_of_less [OF assms(1), of k 512]
    by (auto simp: outer_def array_of_def)
  have boundary: "check_extension_boundary (array_of s k) s = Inr ()"
    using outer_spacing [OF assms] bound
    by (auto simp: check_extension_boundary_def Let_def width_bounds(3))
  have neg: "k div 512 = (if k < 0 then if r = 0 then - q else - q - 1 else q)"
    using neg_div_mod(1) [of k] by (simp add: qr)
  have small: "arith_i 32 (q - 1) = Inr (q - 1)" "k < 0 \<and> r = 0 \<Longrightarrow> arith_i 32 (q - 1 - 1) = Inr (q - 2)"
    using q fits_small [of "q - 1"] fits_small [of "q - 2"] by simp_all
  have wrap: "x mod 2 ^ 64 = x" if "0 \<le> x" "x < 14" for x :: int
    using that by (intro mod_pos_pos_trivial) simp_all
  have r0: "r * tick_count s = 0 \<longleftrightarrow> r = 0" using c by simp
  have "get_bitmap_offset (array_of s k) s = Inr (bitmap_offset k)"
  proof (cases "k < 0 \<and> r = 0")
    case True
    then show ?thesis
      using a(1-3) boundary valid_start [OF assms(1,2)] small q wrap [of "q - 2"] neg
      by (simp add: get_bitmap_offset_def Let_def width_bounds(3) array_of_abs(4) assms(1) bitmap_offset_def)
  next
    case False
    then have no: "\<not> (array_of s k < 0 \<and> r * tick_count s = 0)" unfolding array_of_abs(4) [OF assms(1)] r0 .
    have "get_bitmap_offset (array_of s k) s = Inr (nat ((q - 1) mod 2 ^ 64))"
      unfolding get_bitmap_offset_def Let_def width_bounds(3) valid_start [OF assms(1,2)] boundary a(1-3)
        and_then_simps require_simps small(1) if_not_P [OF no] ..
    also have "\<dots> = Inr (bitmap_offset k)"
      using wrap [of "q - 1"] q False neg by (auto simp: bitmap_offset_def)
    finally show ?thesis .
  qed
  moreover have "bitmap_offset k < 14" using neg q by (auto simp: bitmap_offset_def)
  ultimately show "get_bitmap_offset (array_of s k) s = Inr (bitmap_offset k)" "bitmap_offset k < 14"
    by auto
qed

lemma offset_in_bitmap_eq:
  assumes "spacing_ok s" "index_ok s k" "outer k"
  shows "tick_array_offset_in_bitmap (array_of s k) s = Inr (k mod 512)"
proof -
  define r where r: "r = \<bar>k\<bar> mod 512"
  have c: "0 < tick_count s" using assms(1) by (rule width_bounds)
  have r': "0 \<le> r" "r < 512" by (simp_all add: r)
  have neg: "k mod 512 = (if k < 0 then if r = 0 then 0 else 512 - r else r)"
    using neg_div_mod(2) [of k] by (simp add: r)
  have "(r * tick_count s) sdiv tick_count s = r"
    using c r'(1) by (simp add: signed_divide_int_eq_divide_int sgn_if)
  then have "sdiv_i 32 (r * tick_count s) (tick_count s) = Inr r"
    using c r' sdiv_i_eq [of "tick_count s" 32 "r * tick_count s"] by (simp add: fits_i_32)
  moreover have "arith_i 32 (512 - r) = Inr (512 - r)" using r' by (intro fits_small) simp_all
  ultimately show ?thesis
    using outer_arith(1,3) [OF assms, folded r] neg c
    by (simp add: tick_array_offset_in_bitmap_def width_bounds(3) array_of_abs(4) assms(1)
        TICK_ARRAY_BITMAP_SIZE_def)
qed

lemma get_bitmap_eq:
  assumes "spacing_ok s" "index_ok s k" "outer k" "extension_ok ext"
  shows "get_bitmap ext (array_of s k) s =
    Inr (bitmap_offset k, (if k < 0 then tb_negative ext else tb_positive ext) ! bitmap_offset k)"
  using get_bitmap_offset_eq [OF assms(1-3)] assms(4)
  by (simp add: get_bitmap_def array_of_abs(4) assms(1) extension_ok_def Let_def)

lemma boundary_eq:
  assumes "spacing_ok s" "index_ok s k" "outer k"
  shows "get_bitmap_tick_boundary (array_of s k) s =
    Inr (array_of s (512 * (k div 512)), array_of s (512 * (k div 512) + 512))"
proof -
  define q r where qr: "q = \<bar>k\<bar> div 512" "r = \<bar>k\<bar> mod 512"
  define T where T: "T = 512 * tick_count s"
  have c: "0 < tick_count s" using assms(1) by (rule width_bounds)
  note a = outer_arith [OF assms, folded qr, folded T]
  define m where "m = (if k < 0 \<and> r \<noteq> 0 then q + 1 else q)"
  have q: "0 \<le> q" "q \<le> 14" using a(4) by (simp_all add: qr)
  have neg: "k div 512 = (if k < 0 then - m else m)"
    using neg_div_mod(1) [of k] by (simp add: m_def qr)
  have m: "0 \<le> m" "m \<le> 15" using q by (auto simp: m_def)
  have T': "0 < T" "T \<le> 443392" using a(5) c by (simp_all add: T)
  have P: "0 \<le> T * m" "T * m \<le> 443392 * 15"
    using m T' mult_mono [of T 443392 m 15] by simp_all
  have near: "\<bar>x\<bar> \<le> 67108864 \<Longrightarrow> arith_i 32 x = Inr x" for x by (intro arith_i_fits fits_i_32) simp
  have B: "\<bar>T * m\<bar> \<le> 67108864" "\<bar>T * m + T\<bar> \<le> 67108864" "\<bar>- (T * m) + T\<bar> \<le> 67108864"
    unfolding abs_le_iff using P T' by linarith+
  note E = near [OF B(1)] near [OF B(2)] near [OF B(3)]
  have step: "(if k < 0 \<and> r \<noteq> 0 then arith_i 32 (q + 1) else Inr q) = Inr m"
    using q near [of "q + 1"] by (simp add: m_def)
  have r0: "r * tick_count s \<noteq> 0 \<longleftrightarrow> r \<noteq> 0" using c by simp
  have "get_bitmap_tick_boundary (array_of s k) s =
      (if k < 0 then Inr (- (T * m), - (T * m) + T) else Inr (T * m, T * m + T))"
    unfolding get_bitmap_tick_boundary_def Let_def width_bounds(3) T [symmetric] a(1-3) and_then_simps
      array_of_abs(4) [OF assms(1)] r0 step
    using E by simp
  then show ?thesis using neg by (simp add: array_of_def T algebra_simps)
qed

text \<open>A search in one bitmap of the extension, in indices.\<close>

lemma same_bitmap:
  assumes "512 * (k div 512) \<le> i" "i < 512 * (k div 512) + 512"
  shows "i div 512 = k div 512" "i mod 512 = i - 512 * (k div 512)" "i < 0 \<longleftrightarrow> k < (0 :: int)"
proof -
  show d: "i div 512 = k div 512"
    using assms by (intro int_div_pos_eq [of i 512 _ "i - 512 * (k div 512)"]) simp_all
  show "i mod 512 = i - 512 * (k div 512)" using minus_div_mult_eq_mod [of i 512] d by simp
  show "i < 0 \<longleftrightarrow> k < 0" using d by (metis div_neg_pos_less0 pos_imp_zdiv_neg_iff zero_less_numeral)
qed

lemma extension_flag_eq:
  "extension_flag ext i \<longleftrightarrow>
     bit ((if i < 0 then tb_negative ext else tb_positive ext) ! bitmap_offset i) (nat (i mod 512))"
  by (simp add: extension_flag_def bitmap_offset_def)

lemma extension_flag_same:
  assumes "512 * (k div 512) \<le> i" "i < 512 * (k div 512) + 512"
  shows "extension_flag ext i \<longleftrightarrow>
    bit ((if k < 0 then tb_negative ext else tb_positive ext) ! bitmap_offset k) (nat (i - 512 * (k div 512)))"
  using same_bitmap [OF assms] by (simp add: extension_flag_eq bitmap_offset_def)

lemma extension_search_down:
  fixes ext k
  defines "W \<equiv> (if k < 0 then tb_negative ext else tb_positive ext) ! bitmap_offset k"
    and "lo \<equiv> 512 * (k div 512)"
  defines "x \<equiv> push_bit (nat (512 - 1 - k mod 512)) W"
  shows "if x = 0 then scan (extension_flag ext) True (k + 1) False lo
    else lo \<le> k - int (word_leading_zeros x) \<and>
         scan (extension_flag ext) True (k + 1) True (k - int (word_leading_zeros x))"
proof -
  define p where "p = nat (k mod 512)"
  have p: "p < 512" "k = lo + int p" "nat (512 - 1 - k mod 512) = 512 - 1 - p"
    by (simp_all add: p_def lo_def nat_diff_distrib nat_less_iff)
  have x: "x = push_bit (512 - 1 - p) W" unfolding x_def p(3) ..
  have flag: "extension_flag ext (lo + int j) \<longleftrightarrow> bit W j" if "j < 512" for j
    using extension_flag_same [of k "lo + int j" ext] that by (simp add: lo_def W_def)
  have at: "\<exists>j. i = lo + int j \<and> j \<le> p" if "lo \<le> i" "i \<le> k" for i
    using that p(2) by (intro exI [of _ "nat (i - lo)"]) simp
  show ?thesis
  proof (cases "x = 0")
    case True
    have "\<not> extension_flag ext i" if i: "lo \<le> i" "i \<le> k" for i
    proof -
      obtain j where "i = lo + int j" "j \<le> p" using at [OF i] by blast
      then show ?thesis using u512.search_down_none [where x = W and j = j, OF _ p(1)] True x p(1) flag [of j] by simp
    qed
    then show ?thesis using True p(2) by (auto simp: scan_def)
  next
    case False
    let ?m = "word_leading_zeros x"
    have m: "?m \<le> p" "bit W (p - ?m)" and none: "\<And>j. p - ?m < j \<Longrightarrow> j \<le> p \<Longrightarrow> \<not> bit W j"
      using u512.search_down [where x = W, OF _ p(1)] False x by blast+
    have "k - int ?m = lo + int (p - ?m)" using m(1) p(2) by simp
    then have "extension_flag ext (k - int ?m)" "lo \<le> k - int ?m" using m(2) flag [of "p - ?m"] p(1) by simp_all
    moreover have "\<not> extension_flag ext i" if i: "k - int ?m < i" "i \<le> k" for i
    proof -
      obtain j where "i = lo + int j" "j \<le> p" using at [of i] i \<open>lo \<le> k - int ?m\<close> by auto
      then show ?thesis using none [of j] i m(1) p(1,2) flag [of j] by simp
    qed
    ultimately show ?thesis using False by (auto simp: scan_def)
  qed
qed

lemma extension_search_up:
  fixes ext k
  defines "W \<equiv> (if k < 0 then tb_negative ext else tb_positive ext) ! bitmap_offset k"
    and "lo \<equiv> 512 * (k div 512)"
  defines "x \<equiv> drop_bit (nat (k mod 512)) W"
  shows "if x = 0 then scan (extension_flag ext) False (k - 1) False (lo + 511)
    else k + int (word_trailing_zeros x) < lo + 512 \<and>
         scan (extension_flag ext) False (k - 1) True (k + int (word_trailing_zeros x))"
proof -
  define p where "p = nat (k mod 512)"
  have p: "p < 512" "k = lo + int p" by (simp_all add: p_def lo_def nat_less_iff)
  have x: "x = drop_bit p W" by (simp add: x_def p_def)
  have flag: "extension_flag ext (lo + int j) \<longleftrightarrow> bit W j" if "j < 512" for j
    using extension_flag_same [of k "lo + int j" ext] that by (simp add: lo_def W_def)
  have at: "\<exists>j. i = lo + int j \<and> p \<le> j" if "k \<le> i" for i
    using that p(2) by (intro exI [of _ "nat (i - lo)"]) simp
  show ?thesis
  proof (cases "x = 0")
    case True
    have "\<not> extension_flag ext i" if i: "k \<le> i" "i < lo + 512" for i
    proof -
      obtain j where "i = lo + int j" "p \<le> j" using at [OF i(1)] by blast
      then show ?thesis using u512.search_up_none [where x = W and p = p and j = j] True x i flag [of j] by simp
    qed
    then show ?thesis using True p by (auto simp: scan_def)
  next
    case False
    let ?m = "word_trailing_zeros x"
    have m: "bit W (p + ?m)" and none: "\<And>j. p \<le> j \<Longrightarrow> j < p + ?m \<Longrightarrow> \<not> bit W j"
      using u512.search_up [where x = W and p = p] False x by blast+
    have lt: "p + ?m < 512" using u512.width [where x = W and i = "p + ?m"] m by simp
    have "k + int ?m = lo + int (p + ?m)" using p(2) by simp
    then have "extension_flag ext (k + int ?m)" "k + int ?m < lo + 512" using m flag [OF lt] lt by (simp_all add: add.assoc)
    moreover have "\<not> extension_flag ext i" if i: "k \<le> i" "i < k + int ?m" for i
    proof -
      obtain j where "i = lo + int j" "p \<le> j" using at [OF i(1)] by blast
      then show ?thesis using none [of j] i lt p(2) flag [of j] by simp
    qed
    ultimately show ?thesis using False by (auto simp: scan_def)
  qed
qed

lemma bitmap_search:
  fixes ext k
  defines "W \<equiv> (if k < 0 then tb_negative ext else tb_positive ext) ! bitmap_offset k"
  assumes "spacing_ok s" "index_ok s k" "outer k"
  shows "\<exists>b j. next_initialized_tick_array_in_bitmap W (array_of s k) s z = Inr (b, array_of s j) \<and>
    scan (extension_flag ext) z (if z then k + 1 else k - 1) b j \<and>
    512 * (k div 512) \<le> j \<and> j \<le> 512 * (k div 512) + 511 \<and>
    (\<not> b \<longrightarrow> j = (if z then 512 * (k div 512) else 512 * (k div 512) + 511))"
proof -
  let ?lo = "512 * (k div 512)" and ?c = "tick_count s"
  have c: "0 < ?c" "?c \<le> 866" using outer_arith(5) [OF assms(2-4)] width_bounds(1) [OF assms(2)] by simp_all
  have km: "0 \<le> k mod 512" "k mod 512 < 512" "k = ?lo + k mod 512" by simp_all
  have lo: "- 8192 \<le> ?lo" "?lo \<le> 7680"
    using index_bounds [OF assms(2,3)] km by linarith+
  have small: "arith_i 32 (array_of s i) = Inr (array_of s i)" if "- 9000 \<le> i" "i \<le> 9000" for i
  proof -
    have "- 9000 * ?c \<le> i * ?c" "i * ?c \<le> 9000 * ?c" using that c(1) by (intro mult_right_mono; simp)+
    then show ?thesis using c(2) unfolding array_of_def
      by (intro arith_i_fits fits_i_32) (simp add: abs_le_iff)
  qed
  have move: "arith_i 32 (int m * ?c) = Inr (array_of s (int m))" if "m \<le> 512" for m
    using small [of "int m"] that by (simp add: array_of_def)
  have ends: "arith_i 32 (array_of s (?lo + 512) - ?c) = Inr (array_of s (?lo + 511))"
    "array_of s k - array_of s i = array_of s (k - i)" "array_of s k + array_of s i = array_of s (k + i)" for i
    using small [of "?lo + 511"] lo array_of_step(1) [of s "?lo + 512"]
    by (simp_all add: array_of_def algebra_simps)
  note E = next_initialized_tick_array_in_bitmap_def boundary_eq [OF assms(2-4)]
    offset_in_bitmap_eq [OF assms(2-4)] TICK_ARRAY_BITMAP_SIZE_def Let_def
  show ?thesis
  proof (cases z)
    case True
    define x where "x = push_bit (nat (512 - 1 - k mod 512)) W"
    have x: "push_bit (nat (511 - k mod 512)) W = x" by (simp add: x_def)
    note d = extension_search_down [of k ext, folded W_def, folded x_def]
    have sh: "arith_i 32 (512 - 1 - k mod 512) = Inr (512 - 1 - k mod 512)" using km by (intro fits_small) simp_all
    show ?thesis
    proof (cases "x = 0")
      case x0: True
      then show ?thesis using d True sh km
        by (intro exI [of _ False] exI [of _ ?lo]) (simp add: E x_def)
    next
      case False
      let ?m = "word_leading_zeros x"
      have b: "?lo \<le> k - int ?m" and sc: "scan (extension_flag ext) True (k + 1) True (k - int ?m)"
        using d False by simp_all
      have m: "?m \<le> 512" using word_zeros(1) [OF False] by simp
      have fit: "arith_i 32 (array_of s (k - int ?m)) = Inr (array_of s (k - int ?m))"
        using b km lo by (intro small) linarith+
      have "next_initialized_tick_array_in_bitmap W (array_of s k) s z = Inr (True, array_of s (k - int ?m))"
        unfolding E and_then_simps prod.case using True False sh km(2)
        by (simp add: x move [OF m] ends(2) fit)
      then show ?thesis using b sc km True by (intro exI [of _ True] exI [of _ "k - int ?m"]) simp
    qed
  next
    case up: False
    define x where "x = drop_bit (nat (k mod 512)) W"
    note d = extension_search_up [of k ext, folded W_def, folded x_def]
    show ?thesis
    proof (cases "x = 0")
      case True
      then show ?thesis using d up km ends(1)
        by (intro exI [of _ False] exI [of _ "?lo + 511"]) (simp add: E x_def)
    next
      case False
      let ?m = "word_trailing_zeros x"
      have b: "k + int ?m < ?lo + 512" and sc: "scan (extension_flag ext) False (k - 1) True (k + int ?m)"
        using d False by simp_all
      have m: "?m \<le> 512" using word_zeros(4) [OF False] by simp
      have fit: "arith_i 32 (array_of s (k + int ?m)) = Inr (array_of s (k + int ?m))"
        using b km lo by (intro small) linarith+
      have "next_initialized_tick_array_in_bitmap W (array_of s k) s z = Inr (True, array_of s (k + int ?m))"
        unfolding E and_then_simps prod.case using up False km(1)
        by (simp add: x_def [symmetric] move [OF m] ends(3) fit)
      then show ?thesis using b sc km up by (intro exI [of _ True] exI [of _ "k + int ?m"]) simp
    qed
  qed
qed

end
