(* ===== verification/Pool_State.thy ===== *)
theory Pool_State
  imports Pool_Fee Amm_Config Tick_Bitmap
begin

text \<open>
  \<open>PoolState\<close> of \<open>states/pool.rs\<close> (and its methods in \<open>states/pool_fee.rs\<close>): creation, status
  bits, fee bookkeeping, rewards, and the bitmap of tick arrays. The address of the pool and of
  its extension account are derived by the runtime and are arguments; \<open>epoch\<close> is the current
  epoch. The operation account with its owners and its whitelist is \<open>states/operation_account.rs\<close>.
\<close>

section \<open>The operation account\<close>

definition OPERATION_SIZE :: nat where "OPERATION_SIZE = 10"
definition WHITE_MINT_SIZE :: nat where "WHITE_MINT_SIZE = 100"

record operation_state =
  os_bump :: nat
  os_operation_owners :: "pubkey list"
  os_whitelist_mints :: "pubkey list"

definition operation_initialize :: "nat \<Rightarrow> operation_state" where
  "operation_initialize bump =
     \<lparr>os_bump = bump, os_operation_owners = replicate OPERATION_SIZE 0,
      os_whitelist_mints = replicate WHITE_MINT_SIZE 0\<rparr>"

definition validate_operation_owner :: "operation_state \<Rightarrow> pubkey \<Rightarrow> bool" where
  "validate_operation_owner os owner \<longleftrightarrow> owner \<noteq> 0 \<and> owner \<in> set (os_operation_owners os)"

definition validate_whitelist_mint :: "operation_state \<Rightarrow> pubkey \<Rightarrow> bool" where
  "validate_whitelist_mint os mint \<longleftrightarrow> mint \<noteq> 0 \<and> mint \<in> set (os_whitelist_mints os)"

text \<open>Writing a vector into the front of a cleared array panics when it does not fit.\<close>

definition copy_to_array :: "nat \<Rightarrow> pubkey list \<Rightarrow> pubkey list res" where
  "copy_to_array n keys =
     (if length keys \<le> n then Inr (keys @ replicate (n - length keys) 0) else Inl Panic)"

definition update_operation_owner :: "pubkey list \<Rightarrow> operation_state \<Rightarrow> operation_state res" where
  "update_operation_owner keys os =
     (let operation_owners = List.filter (\<lambda>k. k \<noteq> 0) (os_operation_owners os @ keys);
          updated_owner = sorted_list_of_set (set operation_owners)
      in and_then (copy_to_array OPERATION_SIZE updated_owner) (\<lambda>arr.
         Inr (os\<lparr>os_operation_owners := arr\<rparr>)))"

definition remove_operation_owner :: "pubkey list \<Rightarrow> operation_state \<Rightarrow> operation_state res" where
  "remove_operation_owner keys os =
     (let operation_owners = List.filter (\<lambda>k. k \<notin> set keys) (os_operation_owners os)
      in and_then (copy_to_array OPERATION_SIZE operation_owners) (\<lambda>arr.
         Inr (os\<lparr>os_operation_owners := arr\<rparr>)))"

text \<open>The whitelist keeps the iteration order of the hash set, an argument here.\<close>

definition update_whitelist_mint ::
  "(pubkey set \<Rightarrow> pubkey list) \<Rightarrow> pubkey list \<Rightarrow> operation_state \<Rightarrow> operation_state res" where
  "update_whitelist_mint hash_order keys os =
     (let whitelist_mints = List.filter (\<lambda>k. k \<noteq> 0) (os_whitelist_mints os @ keys);
          updated_mints = hash_order (set whitelist_mints)
      in and_then (copy_to_array WHITE_MINT_SIZE updated_mints) (\<lambda>arr.
         Inr (os\<lparr>os_whitelist_mints := arr\<rparr>)))"

definition remove_whitelist_mint :: "pubkey list \<Rightarrow> operation_state \<Rightarrow> operation_state res" where
  "remove_whitelist_mint keys os =
     (let whitelist_mints = List.filter (\<lambda>k. k \<notin> set keys) (os_whitelist_mints os)
      in and_then (copy_to_array WHITE_MINT_SIZE whitelist_mints) (\<lambda>arr.
         Inr (os\<lparr>os_whitelist_mints := arr\<rparr>)))"

definition update_operation_account ::
  "(pubkey set \<Rightarrow> pubkey list) \<Rightarrow> pubkey \<Rightarrow> pubkey \<Rightarrow> nat \<Rightarrow> pubkey list
     \<Rightarrow> operation_state \<Rightarrow> operation_state res" where
  "update_operation_account hash_order admin owner param keys os =
     require (owner = admin) NotApproved
     (if param = 0 then update_operation_owner keys os
      else if param = 1 then remove_operation_owner keys os
      else if param = 2 then update_whitelist_mint hash_order keys os
      else if param = 3 then remove_whitelist_mint keys os
      else fail InvalidUpdateConfigFlag)"

section \<open>The pool\<close>

datatype collect_fee_on = FromInput | Token0Only | Token1Only

fun fee_on_to_u8 :: "collect_fee_on \<Rightarrow> nat" where
  "fee_on_to_u8 FromInput = 0"
| "fee_on_to_u8 Token0Only = 1"
| "fee_on_to_u8 Token1Only = 2"

datatype pool_status_bit =
  OpenPositionOrIncreaseLiquidity | DecreaseLiquidity | CollectFee | CollectReward | Swap | LimitOrder

fun status_bit_index :: "pool_status_bit \<Rightarrow> nat" where
  "status_bit_index OpenPositionOrIncreaseLiquidity = 0"
| "status_bit_index DecreaseLiquidity = 1"
| "status_bit_index CollectFee = 2"
| "status_bit_index CollectReward = 3"
| "status_bit_index Swap = 4"
| "status_bit_index LimitOrder = 5"

datatype pool_status_flag = Enable | Disable

record pool_state =
  ps_bump :: nat
  ps_amm_config :: pubkey
  ps_owner :: pubkey
  ps_token_mint_0 :: pubkey
  ps_token_mint_1 :: pubkey
  ps_token_vault_0 :: pubkey
  ps_token_vault_1 :: pubkey
  ps_observation_key :: pubkey
  ps_mint_decimals_0 :: nat
  ps_mint_decimals_1 :: nat
  ps_tick_spacing :: nat
  ps_liquidity :: nat
  ps_sqrt_price_x64 :: nat
  ps_tick_current :: int
  ps_fee_growth_global_0_x64 :: growth
  ps_fee_growth_global_1_x64 :: growth
  ps_protocol_fees_token_0 :: nat
  ps_protocol_fees_token_1 :: nat
  ps_status :: "8 word"
  ps_fee_on :: nat
  ps_reward_infos :: "reward_info list"
  ps_tick_array_bitmap :: limbs
  ps_fund_fees_token_0 :: nat
  ps_fund_fees_token_1 :: nat
  ps_open_time :: nat
  ps_recent_epoch :: nat
  ps_dynamic_fee_info :: dynamic_fee_info
  ps_padding1 :: "nat list"

definition new_reward_info :: "pubkey \<Rightarrow> reward_info" where
  "new_reward_info authority =
     \<lparr>ri_reward_state = 0, ri_open_time = 0, ri_end_time = 0, ri_last_update_time = 0,
      ri_emissions_per_second_x64 = 0, ri_reward_total_emitted = 0, ri_reward_claimed = 0,
      ri_token_mint = 0, ri_token_vault = 0, ri_authority = authority, ri_reward_growth_global_x64 = 0\<rparr>"

text \<open>A mint account is its address and its decimals, a configuration its address and content.\<close>

definition pool_initialize ::
  "nat \<Rightarrow> nat \<Rightarrow> nat \<Rightarrow> nat \<Rightarrow> int \<Rightarrow> pubkey \<Rightarrow> pubkey \<Rightarrow> pubkey \<Rightarrow> pubkey \<times> amm_config
     \<Rightarrow> pubkey \<times> nat \<Rightarrow> pubkey \<times> nat \<Rightarrow> pubkey \<Rightarrow> collect_fee_on \<Rightarrow> pool_state" where
  "pool_initialize epoch bump sqrt_price_x64 open_time tick pool_creator token_vault_0 token_vault_1
     amm_config token_mint_0 token_mint_1 observation_state_key collect_fee_on =
     \<lparr>ps_bump = bump, ps_amm_config = fst amm_config, ps_owner = pool_creator,
      ps_token_mint_0 = fst token_mint_0, ps_token_mint_1 = fst token_mint_1,
      ps_token_vault_0 = token_vault_0, ps_token_vault_1 = token_vault_1,
      ps_observation_key = observation_state_key,
      ps_mint_decimals_0 = snd token_mint_0, ps_mint_decimals_1 = snd token_mint_1,
      ps_tick_spacing = ac_tick_spacing (snd amm_config), ps_liquidity = 0,
      ps_sqrt_price_x64 = sqrt_price_x64, ps_tick_current = tick,
      ps_fee_growth_global_0_x64 = 0, ps_fee_growth_global_1_x64 = 0,
      ps_protocol_fees_token_0 = 0, ps_protocol_fees_token_1 = 0, ps_status = 0,
      ps_fee_on = fee_on_to_u8 collect_fee_on,
      ps_reward_infos = replicate REWARD_NUM (new_reward_info pool_creator),
      ps_tick_array_bitmap = limbs_zero 16, ps_fund_fees_token_0 = 0, ps_fund_fees_token_1 = 0,
      ps_open_time = open_time, ps_recent_epoch = epoch,
      ps_dynamic_fee_info = default_dynamic_fee_info, ps_padding1 = replicate 14 0\<rparr>"

section \<open>Status\<close>

definition set_status :: "8 word \<Rightarrow> pool_state \<Rightarrow> pool_state" where
  "set_status status pool = pool\<lparr>ps_status := status\<rparr>"

definition set_status_by_bit :: "pool_status_bit \<Rightarrow> pool_status_flag \<Rightarrow> pool_state \<Rightarrow> pool_state" where
  "set_status_by_bit b flag pool =
     (let s = push_bit (status_bit_index b) 1 in
      if flag = Disable then pool\<lparr>ps_status := ps_status pool OR s\<rparr>
      else let m = 255 XOR s in pool\<lparr>ps_status := ps_status pool AND m\<rparr>)"

definition get_status_by_bit :: "pool_state \<Rightarrow> pool_status_bit \<Rightarrow> bool" where
  "get_status_by_bit pool b \<longleftrightarrow> ps_status pool AND push_bit (status_bit_index b) 1 = 0"

text \<open>\<open>update_pool_status\<close>: the address constraint names no error code.\<close>

definition update_pool_status :: "pubkey \<Rightarrow> pubkey \<Rightarrow> 8 word \<Rightarrow> pool_state \<Rightarrow> pool_state res" where
  "update_pool_status admin authority status pool =
     require_plain (authority = admin) (Inr (set_status status pool))"

section \<open>Fees\<close>

definition initialize_dynamic_fee_info ::
  "int \<Rightarrow> nat \<Rightarrow> nat \<Rightarrow> nat \<Rightarrow> nat \<Rightarrow> nat \<Rightarrow> pool_state \<Rightarrow> pool_state res" where
  "initialize_dynamic_fee_info init_tick filter_period decay_period reduction_factor
     dynamic_fee_control max_volatility_accumulator pool =
   (if \<not> validate_params (ps_tick_spacing pool) filter_period decay_period reduction_factor
          dynamic_fee_control max_volatility_accumulator
    then fail InvalidDynamicFeeConfigParams
    else and_then (tick_spacing_index_from_tick init_tick (ps_tick_spacing pool)) (\<lambda>reference.
      Inr (pool\<lparr>ps_dynamic_fee_info := default_dynamic_fee_info
             \<lparr>df_filter_period := filter_period, df_decay_period := decay_period,
              df_reduction_factor := reduction_factor,
              df_dynamic_fee_control := dynamic_fee_control,
              df_max_volatility_accumulator := max_volatility_accumulator,
              df_tick_spacing_index_reference := reference\<rparr>\<rparr>)))"

definition get_dynamic_fee_info :: "pool_state \<Rightarrow> dynamic_fee_info option" where
  "get_dynamic_fee_info pool =
     (if ps_dynamic_fee_info pool = default_dynamic_fee_info then None
      else Some (ps_dynamic_fee_info pool))"

definition update_dynamic_fee_variables :: "dynamic_fee_info option \<Rightarrow> pool_state \<Rightarrow> pool_state" where
  "update_dynamic_fee_variables dynamic_fee_info pool =
     (if ps_dynamic_fee_info pool = default_dynamic_fee_info then pool
      else case dynamic_fee_info of
        Some info \<Rightarrow>
          pool\<lparr>ps_dynamic_fee_info := (ps_dynamic_fee_info pool)
             \<lparr>df_last_update_timestamp := df_last_update_timestamp info,
              df_volatility_reference := df_volatility_reference info,
              df_tick_spacing_index_reference := df_tick_spacing_index_reference info,
              df_volatility_accumulator := df_volatility_accumulator info\<rparr>\<rparr>
      | None \<Rightarrow> pool)"

definition set_fee_on :: "nat \<Rightarrow> pool_state \<Rightarrow> pool_state res" where
  "set_fee_on fee_on pool = require (fee_on \<le> 2) InvalidFeeOn (Inr (pool\<lparr>ps_fee_on := fee_on\<rparr>))"

definition update_fee ::
  "nat \<Rightarrow> nat \<Rightarrow> nat \<Rightarrow> growth \<Rightarrow> bool \<Rightarrow> pool_state \<Rightarrow> pool_state res" where
  "update_fee lp_fee protocol_fee fund_fee fee_growth_global_x64 zero_for_one pool =
   (if is_fee_on_token0 (ps_fee_on pool) zero_for_one then
      let pool = (if lp_fee > 0 then pool\<lparr>ps_fee_growth_global_0_x64 := fee_growth_global_x64\<rparr>
                  else pool) in
      and_then
        (if protocol_fee > 0 then
           and_then (ok_or (checked_add 64 (ps_protocol_fees_token_0 pool) protocol_fee)
             CalculateOverflow) (\<lambda>x. Inr (pool\<lparr>ps_protocol_fees_token_0 := x\<rparr>))
         else Inr pool) (\<lambda>pool.
      if fund_fee > 0 then
        and_then (ok_or (checked_add 64 (ps_fund_fees_token_0 pool) fund_fee)
          CalculateOverflow) (\<lambda>x. Inr (pool\<lparr>ps_fund_fees_token_0 := x\<rparr>))
      else Inr pool)
    else
      let pool = (if lp_fee > 0 then pool\<lparr>ps_fee_growth_global_1_x64 := fee_growth_global_x64\<rparr>
                  else pool) in
      and_then
        (if protocol_fee > 0 then
           and_then (ok_or (checked_add 64 (ps_protocol_fees_token_1 pool) protocol_fee)
             CalculateOverflow) (\<lambda>x. Inr (pool\<lparr>ps_protocol_fees_token_1 := x\<rparr>))
         else Inr pool) (\<lambda>pool.
      if fund_fee > 0 then
        and_then (ok_or (checked_add 64 (ps_fund_fees_token_1 pool) fund_fee)
          CalculateOverflow) (\<lambda>x. Inr (pool\<lparr>ps_fund_fees_token_1 := x\<rparr>))
      else Inr pool))"

definition update_after_swap ::
  "int \<Rightarrow> nat \<Rightarrow> nat \<Rightarrow> nat \<Rightarrow> nat \<Rightarrow> nat \<Rightarrow> growth \<Rightarrow> bool \<Rightarrow> dynamic_fee_info option
     \<Rightarrow> pool_state \<Rightarrow> pool_state res" where
  "update_after_swap tick_current sqrt_price_x64 liquidity lp_fee protocol_fee fund_fee
     fee_growth_global_x64 zero_for_one dynamic_fee_info pool =
   and_then (update_fee lp_fee protocol_fee fund_fee fee_growth_global_x64 zero_for_one
     (pool\<lparr>ps_tick_current := tick_current, ps_sqrt_price_x64 := sqrt_price_x64,
           ps_liquidity := liquidity\<rparr>)) (\<lambda>pool.
   Inr (update_dynamic_fee_variables dynamic_fee_info pool))"

section \<open>The bitmap of tick arrays\<close>

definition tick_array_start_index_range :: "pool_state \<Rightarrow> (int \<times> int) res" where
  "tick_array_start_index_range pool =
     (let spacing = ps_tick_spacing pool; boundary = max_tick_in_tickarray_bitmap spacing in
      and_then
        (if boundary > MAX_TICK then
           and_then (get_array_start_index MAX_TICK spacing) (\<lambda>m. arith_i 32 (m + tick_count spacing))
         else Inr boundary) (\<lambda>max_tick_boundary.
      and_then
        (if - boundary < MIN_TICK then get_array_start_index MIN_TICK spacing else Inr (- boundary))
        (\<lambda>min_tick_boundary.
      Inr (min_tick_boundary, max_tick_boundary))))"

fun any_outside :: "int \<Rightarrow> int \<Rightarrow> nat \<Rightarrow> int list \<Rightarrow> bool res" where
  "any_outside lo hi spacing [] = Inr False"
| "any_outside lo hi spacing (tick_index # rest) =
     and_then (get_array_start_index tick_index spacing) (\<lambda>start.
     if start \<ge> hi \<or> start < lo then Inr True else any_outside lo hi spacing rest)"

definition is_overflow_default_tickarray_bitmap :: "pool_state \<Rightarrow> int list \<Rightarrow> bool res" where
  "is_overflow_default_tickarray_bitmap pool tick_indexs =
     and_then (tick_array_start_index_range pool) (\<lambda>(lo, hi).
     any_outside lo hi (ps_tick_spacing pool) tick_indexs)"

definition get_tick_array_offset :: "pool_state \<Rightarrow> int \<Rightarrow> nat res" where
  "get_tick_array_offset pool tick_array_start_index =
     and_then (check_is_valid_start_index tick_array_start_index (ps_tick_spacing pool)) (\<lambda>valid.
     require valid InvalidTickIndex
     (and_then (sdiv_i 32 tick_array_start_index (tick_count (ps_tick_spacing pool))) (\<lambda>q.
      and_then (arith_i 32 (q + TICK_ARRAY_BITMAP_SIZE)) (\<lambda>offset.
      Inr (nat (offset mod 2 ^ 64))))))"

definition flip_tick_array_bit_default :: "int \<Rightarrow> pool_state \<Rightarrow> pool_state res" where
  "flip_tick_array_bit_default tick_array_start_index pool =
     and_then (get_tick_array_offset pool tick_array_start_index) (\<lambda>offset.
     Inr (pool\<lparr>ps_tick_array_bitmap :=
       limbs_xor (ps_tick_array_bitmap pool) (limbs_shl (limbs_one 16) offset)\<rparr>))"

text \<open>The extension account, when one is passed: its address and its content, or the error its
  loading gives. \<open>extension_key\<close> is the address derived for the pool.\<close>

type_synonym extension_account = "(pubkey \<times> bitmap_extension res) option"

definition flip_tick_array_bit ::
  "pubkey \<Rightarrow> extension_account \<Rightarrow> int \<Rightarrow> pool_state \<Rightarrow> (pool_state \<times> bitmap_extension option) res" where
  "flip_tick_array_bit extension_key account tick_array_start_index pool =
     and_then (is_overflow_default_tickarray_bitmap pool [tick_array_start_index]) (\<lambda>overflow.
     if overflow then
       and_then (ok_or account MissingTickArrayBitmapExtensionAccount) (\<lambda>(key, content).
       require_plain (key = extension_key)
       (and_then content (\<lambda>ext.
        and_then (flip_extension_bit tick_array_start_index (ps_tick_spacing pool) ext) (\<lambda>ext.
        Inr (pool, Some ext)))))
     else
       and_then (flip_tick_array_bit_default tick_array_start_index pool) (\<lambda>pool. Inr (pool, None)))"

text \<open>One round of the search loop: the bitmap of the pool, then one bitmap of the extension.
  \<open>Inl\<close> is the value the loop returns, \<open>Inr\<close> the index it goes on from.\<close>

definition search_round ::
  "pool_state \<Rightarrow> bitmap_extension res option \<Rightarrow> bool \<Rightarrow> int \<Rightarrow> (int option + int) res" where
  "search_round pool ext zero_for_one last_index =
     and_then (next_initialized_tick_array_start_index (ps_tick_array_bitmap pool) last_index
       (ps_tick_spacing pool) zero_for_one) (\<lambda>(is_found, start_index).
     if is_found then Inr (Inl (Some start_index))
     else
       and_then (ok_or ext MissingTickArrayBitmapExtensionAccount) (\<lambda>content.
       and_then content (\<lambda>extension.
       and_then (next_initialized_tick_array_from_one_bitmap extension start_index
         (ps_tick_spacing pool) zero_for_one) (\<lambda>(is_found, start_index).
       if is_found then Inr (Inl (Some start_index))
       else if start_index < MIN_TICK \<or> start_index > MAX_TICK then Inr (Inl None)
       else Inr (Inr start_index)))))"

text \<open>The loop has no bound in the code. Thirty-two rounds are enough, because every round but the
  last moves on by a whole bitmap and there are thirty of them: running out is never reached.\<close>

fun search_loop ::
  "nat \<Rightarrow> pool_state \<Rightarrow> bitmap_extension res option \<Rightarrow> bool \<Rightarrow> int \<Rightarrow> int option res" where
  "search_loop 0 pool ext zero_for_one last_index = Inl Panic"
| "search_loop (Suc n) pool ext zero_for_one last_index =
     and_then (search_round pool ext zero_for_one last_index) (\<lambda>r.
     case r of Inl result \<Rightarrow> Inr result | Inr last_index \<Rightarrow> search_loop n pool ext zero_for_one last_index)"

definition next_tick_array_index_with_extension_info ::
  "pool_state \<Rightarrow> bitmap_extension res option \<Rightarrow> int \<Rightarrow> bool \<Rightarrow> int option res" where
  "next_tick_array_index_with_extension_info pool ext last_tick_array_start_index zero_for_one =
     and_then (get_array_start_index last_tick_array_start_index (ps_tick_spacing pool)) (\<lambda>last_index.
     search_loop 32 pool ext zero_for_one last_index)"

definition pool_next_initialized_tick_array_start_index ::
  "pool_state \<Rightarrow> bitmap_extension option \<Rightarrow> int \<Rightarrow> bool \<Rightarrow> int option res" where
  "pool_next_initialized_tick_array_start_index pool ext last_tick_array_start_index zero_for_one =
     next_tick_array_index_with_extension_info pool (map_option Inr ext) last_tick_array_start_index
       zero_for_one"

definition first_tick_array_index_with_extension_info ::
  "pool_state \<Rightarrow> bitmap_extension res option \<Rightarrow> bool \<Rightarrow> (bool \<times> int) res" where
  "first_tick_array_index_with_extension_info pool ext zero_for_one =
     and_then (is_overflow_default_tickarray_bitmap pool [ps_tick_current pool]) (\<lambda>overflow.
     and_then
       (if overflow then
          and_then (ok_or ext MissingTickArrayBitmapExtensionAccount) (\<lambda>content.
          and_then content (\<lambda>extension.
          and_then (get_array_start_index (ps_tick_current pool) (ps_tick_spacing pool)) (\<lambda>start.
          check_tick_array_is_initialized extension start (ps_tick_spacing pool))))
        else check_current_tick_array_is_initialized (ps_tick_array_bitmap pool)
               (ps_tick_current pool) (ps_tick_spacing pool)) (\<lambda>(is_initialized, start_index).
     if is_initialized then Inr (True, start_index)
     else
       and_then (get_array_start_index (ps_tick_current pool) (ps_tick_spacing pool)) (\<lambda>start.
       and_then (next_tick_array_index_with_extension_info pool ext start zero_for_one) (\<lambda>next_start.
       and_then (ok_or next_start InsufficientLiquidityForDirection) (\<lambda>next_start_index.
       Inr (False, next_start_index))))))"

definition get_first_initialized_tick_array ::
  "pool_state \<Rightarrow> bitmap_extension option \<Rightarrow> bool \<Rightarrow> (bool \<times> int) res" where
  "get_first_initialized_tick_array pool ext zero_for_one =
     first_tick_array_index_with_extension_info pool (map_option Inr ext) zero_for_one"

end
