(* ===== verification/Pool_Bitmap.thy ===== *)
theory Pool_Bitmap
  imports Pool_State
begin

text \<open>
  What the pool's bitmap operations do, over the bitmap of the pool and the extension together:
  a flip toggles exactly one tick array, and the search of a swap returns the nearest
  initialized tick array in its direction.
\<close>

section \<open>One flag per tick array\<close>

text \<open>The flag of the array that starts at a tick.\<close>

definition array_bit :: "pool_state \<Rightarrow> bitmap_extension \<Rightarrow> int \<Rightarrow> bool" where
  "array_bit pool ext start =
     array_flag (ps_tick_array_bitmap pool) ext (start div tick_count (ps_tick_spacing pool))"

definition valid_start_index :: "nat \<Rightarrow> int \<Rightarrow> bool" where
  "valid_start_index s start \<longleftrightarrow> check_is_valid_start_index start s = Inr True"

definition pool_ok :: "pool_state \<Rightarrow> bool" where
  "pool_ok pool \<longleftrightarrow> spacing_ok (ps_tick_spacing pool) \<and> length (ps_tick_array_bitmap pool) = 16"

lemma index_of_range:
  assumes "spacing_ok s"
  shows "MIN_TICK \<le> array_of s k \<Longrightarrow> min_index s \<le> k" "array_of s k \<le> MAX_TICK \<Longrightarrow> k \<le> max_index s"
  using out_of_range [OF assms, of k] by linarith+

lemma valid_start_index_iff:
  assumes "spacing_ok s"
  shows "valid_start_index s start \<longleftrightarrow> (\<exists>k. index_ok s k \<and> start = array_of s k)"
proof
  assume v: "valid_start_index s start"
  have c: "0 < tick_count s" using assms by (rule width_bounds)
  have ends: "index_ok s (min_index s)"
  proof -
    have "array_of s (min_index s) \<le> MAX_TICK"
      using array_of_min(1) [OF assms] by (simp add: tick_limits)
    then show ?thesis using index_of_range(2) [OF assms] by (simp add: index_ok_def)
  qed
  show "\<exists>k. index_ok s k \<and> start = array_of s k"
  proof (cases "check_is_out_of_boundary start")
    case True
    have near: "tick_near MIN_TICK" by (simp add: tick_near_def tick_limits)
    have "start = array_of s (min_index s)"
      using v True get_array_start_index_eq [OF assms near]
      by (auto simp: valid_start_index_def check_is_valid_start_index_def array_start_index min_index_def
          split: if_split_asm)
    then show ?thesis using ends by blast
  next
    case False
    then have range: "MIN_TICK \<le> start" "start \<le> MAX_TICK" by (simp_all add: check_is_out_of_boundary_def)
    have "start smod tick_count s = 0"
      using v False c by (auto simp: valid_start_index_def check_is_valid_start_index_def smod_i_def
          res_simps split: if_split_asm)
    then obtain k where k: "start = array_of s k"
      using c by (auto simp: smod_eq_0_iff array_of_def mult.commute elim!: dvdE)
    moreover have "index_ok s k"
      using index_of_range [OF assms, of k] range k by (simp add: index_ok_def)
    ultimately show ?thesis by blast
  qed
next
  assume "\<exists>k. index_ok s k \<and> start = array_of s k"
  then show "valid_start_index s start" using assms valid_start by (auto simp: valid_start_index_def)
qed

lemma overflow_eq:
  assumes "spacing_ok (ps_tick_spacing pool)" "tick_near t" "index_ok (ps_tick_spacing pool) (t div tick_count (ps_tick_spacing pool))"
  shows "is_overflow_default_tickarray_bitmap pool [t] =
    Inr (outer (t div tick_count (ps_tick_spacing pool)))"
proof -
  let ?s = "ps_tick_spacing pool" and ?c = "tick_count (ps_tick_spacing pool)"
  define k where "k = t div ?c"
  have c: "0 < ?c" using assms(1) by (rule width_bounds)
  have start: "get_array_start_index t ?s = Inr (array_of ?s k)"
    using assms(1,2) by (simp add: get_array_start_index_eq array_start_index k_def)
  have k: "min_index ?s \<le> k" "k \<le> max_index ?s" using assms(3) by (simp_all add: index_ok_def k_def)
  define hi where "hi = (if 512 * ?c > MAX_TICK then array_of ?s (max_index ?s + 1) else array_of ?s 512)"
  define lo where "lo = (if - (512 * ?c) < MIN_TICK then array_of ?s (min_index ?s) else array_of ?s (- 512))"
  have near: "tick_near MAX_TICK" "tick_near MIN_TICK" "tick_near (array_of ?s (max_index ?s + 1))"
    using k array_of_near [OF assms(1), of "max_index ?s + 1"] by (simp_all add: tick_near_def tick_limits)
  have fit: "arith_i 32 (array_of ?s (max_index ?s + 1)) = Inr (array_of ?s (max_index ?s + 1))"
    using near(3) by (intro arith_i_fits fits_i_32) (simp add: tick_near_def)
  have range: "tick_array_start_index_range pool = Inr (lo, hi)"
    using near fit
    by (auto simp: tick_array_start_index_range_def Let_def width_bounds(3) get_array_start_index_eq assms(1)
        array_start_index max_index_def [symmetric] min_index_def [symmetric] array_of_step(2) hi_def lo_def)
      (simp_all add: array_of_def)
  have hi_iff: "array_of ?s k \<ge> hi \<longleftrightarrow> 512 \<le> k"
  proof (cases "512 * ?c > MAX_TICK")
    case True
    then have "max_index ?s < 512"
      unfolding max_index_def using int_div_less_iff [OF c, of MAX_TICK 512] by simp
    then show ?thesis using True k(2) array_of_le [OF assms(1), of "max_index ?s + 1" k] by (simp add: hi_def)
  qed (simp add: hi_def array_of_le assms(1))
  have lo_iff: "array_of ?s k < lo \<longleftrightarrow> k < - 512"
  proof (cases "- (512 * ?c) < MIN_TICK")
    case True
    then have "- 512 \<le> min_index ?s"
      unfolding min_index_def using int_le_div_iff [OF c, of "- 512" MIN_TICK] by simp
    then show ?thesis using True k(1) array_of_less [OF assms(1), of k "min_index ?s"] by (simp add: lo_def)
  qed (simp add: lo_def array_of_less assms(1))
  show ?thesis
    using hi_iff lo_iff
    by (auto simp: is_overflow_default_tickarray_bitmap_def range start outer_def k_def [symmetric])
qed

section \<open>Flips\<close>

lemma flip_default:
  assumes "pool_ok pool" "index_ok (ps_tick_spacing pool) k" "\<not> outer k"
  shows "\<exists>bm. flip_tick_array_bit_default (array_of (ps_tick_spacing pool) k) pool =
      Inr (pool\<lparr>ps_tick_array_bitmap := bm\<rparr>) \<and> length bm = 16 \<and>
    (\<forall>i. \<not> outer i \<longrightarrow> pool_flag bm i = (pool_flag (ps_tick_array_bitmap pool) i \<noteq> (i = k)))"
proof -
  let ?s = "ps_tick_spacing pool" and ?bm = "ps_tick_array_bitmap pool"
  let ?new = "limbs_xor ?bm (limbs_shl (limbs_one 16) (nat (k + 512)))"
  have s: "spacing_ok ?s" and len: "length ?bm = 16" using assms(1) by (simp_all add: pool_ok_def)
  have c: "0 < tick_count ?s" using s by (rule width_bounds)
  have k: "0 \<le> k + 512" "k + 512 < 1024" using assms(3) by (simp_all add: outer_def)
  have q: "array_of ?s k sdiv tick_count ?s = k"
    using c by (simp add: array_of_def signed_divide_int_def abs_mult sgn_mult sgn_mult_abs)
  have "sdiv_i 32 (array_of ?s k) (tick_count ?s) = Inr k"
    using sdiv_i_eq [of "tick_count ?s" 32 "array_of ?s k"] c k q by (simp add: fits_i_32)
  moreover have "arith_i 32 (k + 512) = Inr (k + 512)" "(k + 512) mod 2 ^ 64 = k + 512"
    using k by (simp_all add: fits_small)
  ultimately have "flip_tick_array_bit_default (array_of ?s k) pool = Inr (pool\<lparr>ps_tick_array_bitmap := ?new\<rparr>)"
    using valid_start [OF s assms(2)]
    by (simp add: flip_tick_array_bit_default_def get_tick_array_offset_def TICK_ARRAY_BITMAP_SIZE_def)
  moreover have "pool_flag ?new i = (pool_flag ?bm i \<noteq> (i = k))" if "\<not> outer i" for i
    using u1024.flip [OF len, of "nat (k + 512)" "nat (i + 512)"] k that
    by (auto simp: pool_flag_def outer_def nat_eq_iff nat_less_iff)
  moreover have "length ?new = 16" using u1024.flip_inv [OF len] .
  ultimately show ?thesis by blast
qed

lemma bitmap_offset_inj:
  assumes "outer i" "outer k" "i < 0 \<longleftrightarrow> k < 0" "bitmap_offset i = bitmap_offset k"
  shows "i div 512 = k div 512"
proof (cases "k < 0")
  case True
  then have "i div 512 \<le> - 2" "k div 512 \<le> - 2"
    using assms int_div_less_iff [of 512 i "- 1"] int_div_less_iff [of 512 k "- 1"] by (simp_all add: outer_def)
  then show ?thesis using assms(3,4) True by (simp add: bitmap_offset_def)
next
  case False
  then have "1 \<le> i div 512" "1 \<le> k div 512"
    using assms int_le_div_iff [of 512 1 i] int_le_div_iff [of 512 1 k] by (simp_all add: outer_def)
  then show ?thesis using assms(3,4) False by (simp add: bitmap_offset_def)
qed

lemma flip_extension:
  assumes "spacing_ok s" "index_ok s k" "outer k" "extension_ok ext"
  shows "\<exists>ext'. flip_extension_bit (array_of s k) s ext = Inr ext' \<and> extension_ok ext' \<and>
    (\<forall>i. index_ok s i \<and> outer i \<longrightarrow> extension_flag ext' i = (extension_flag ext i \<noteq> (i = k)))"
proof -
  let ?o = "bitmap_offset k" and ?p = "nat (k mod 512)"
  define W where "W = (if k < 0 then tb_negative ext else tb_positive ext) ! ?o"
  let ?W = "W XOR push_bit ?p 1"
  define ext' where "ext' = (if k < 0 then ext\<lparr>tb_negative := (tb_negative ext)[?o := ?W]\<rparr>
      else ext\<lparr>tb_positive := (tb_positive ext)[?o := ?W]\<rparr>)"
  have o: "?o < 14" using get_bitmap_offset_eq(2) [OF assms(1-3)] .
  have km: "0 \<le> k mod 512" "k mod 512 < 512" by simp_all
  have "flip_extension_bit (array_of s k) s ext = Inr ext'"
    using km(1) by (simp add: flip_extension_bit_def get_bitmap_eq assms offset_in_bitmap_eq
        array_of_abs(4) ext'_def W_def Let_def)
  moreover have "extension_ok ext'" using assms(4) by (simp add: extension_ok_def ext'_def)
  moreover have "extension_flag ext' i = (extension_flag ext i \<noteq> (i = k))" if i: "index_ok s i" "outer i" for i
  proof (cases "(i < 0 \<longleftrightarrow> k < 0) \<and> bitmap_offset i = ?o")
    case True
    have div: "i div 512 = k div 512" using bitmap_offset_inj [OF i(2) assms(3)] True by blast
    have "i = k \<longleftrightarrow> i mod 512 = k mod 512" using div by (metis mult_div_mod_eq)
    then have eq: "i = k \<longleftrightarrow> nat (i mod 512) = ?p" by (auto simp: nat_eq_iff)
    have "bit ?W (nat (i mod 512)) = (bit W (nat (i mod 512)) \<noteq> (nat (i mod 512) = ?p))"
      using u512.flip [where x = W and k = ?p and i = "nat (i mod 512)"] km by (simp add: nat_less_iff)
    then show ?thesis
      unfolding eq using True o assms(4)
      by (auto simp: extension_flag_eq ext'_def W_def extension_ok_def)
  next
    case False
    then have "i \<noteq> k" by auto
    then show ?thesis using False o assms(4)
      by (auto simp: extension_flag_eq ext'_def extension_ok_def nth_list_update)
  qed
  ultimately show ?thesis by blast
qed

lemma flip_array:
  assumes "pool_ok pool" "extension_ok ext" "index_ok (ps_tick_spacing pool) k"
  shows "\<exists>pool' touched. flip_tick_array_bit key (Some (key, Inr ext)) (array_of (ps_tick_spacing pool) k) pool
        = Inr (pool', touched) \<and>
      pool_ok pool' \<and> ps_tick_spacing pool' = ps_tick_spacing pool \<and>
      extension_ok (case touched of None \<Rightarrow> ext | Some e \<Rightarrow> e) \<and>
      (\<forall>i. index_ok (ps_tick_spacing pool) i \<longrightarrow>
         array_flag (ps_tick_array_bitmap pool') (case touched of None \<Rightarrow> ext | Some e \<Rightarrow> e) i =
         (array_flag (ps_tick_array_bitmap pool) ext i \<noteq> (i = k)))"
proof -
  let ?s = "ps_tick_spacing pool"
  have s: "spacing_ok ?s" using assms(1) by (simp add: pool_ok_def)
  have over: "is_overflow_default_tickarray_bitmap pool [array_of ?s k] = Inr (outer k)"
    using overflow_eq [OF s index_ok_near [OF s assms(3)]] assms(3) by (simp add: array_of_div s)
  have flag: "array_flag bm e i = (if outer i then extension_flag e i else pool_flag bm i)" for bm e i
    by (auto simp: array_flag_def outer_def)
  show ?thesis
  proof (cases "outer k")
    case True
    obtain ext' where e: "flip_extension_bit (array_of ?s k) ?s ext = Inr ext'" "extension_ok ext'"
        "\<And>i. index_ok ?s i \<Longrightarrow> outer i \<Longrightarrow> extension_flag ext' i = (extension_flag ext i \<noteq> (i = k))"
      using flip_extension [OF s assms(3) True assms(2)] by blast
    then show ?thesis
      using True over assms(1)
      by (intro exI [of _ pool] exI [of _ "Some ext'"]) (auto simp: flip_tick_array_bit_def flag)
  next
    case False
    obtain bm where b: "flip_tick_array_bit_default (array_of ?s k) pool = Inr (pool\<lparr>ps_tick_array_bitmap := bm\<rparr>)"
        "length bm = 16" "\<And>i. \<not> outer i \<Longrightarrow> pool_flag bm i = (pool_flag (ps_tick_array_bitmap pool) i \<noteq> (i = k))"
      using flip_default [OF assms(1,3) False] by blast
    then show ?thesis
      using False over assms(1,2)
      by (intro exI [of _ "pool\<lparr>ps_tick_array_bitmap := bm\<rparr>"] exI [of _ None])
        (auto simp: flip_tick_array_bit_def flag pool_ok_def)
  qed
qed

section \<open>The search loop\<close>

text \<open>No array of the protocol beyond \<open>k\<close> in the direction of the swap is set.\<close>

definition none_beyond :: "nat \<Rightarrow> (int \<Rightarrow> bool) \<Rightarrow> bool \<Rightarrow> int \<Rightarrow> bool" where
  "none_beyond s f z k \<longleftrightarrow> (\<forall>i. index_ok s i \<and> (if z then i < k else k < i) \<longrightarrow> \<not> f i)"

lemma scan_none_beyond:
  assumes "scan f z k False j" "if z then j \<le> min_index s else max_index s \<le> j"
  shows "none_beyond s f z k"
  unfolding none_beyond_def
proof (intro allI impI)
  fix i assume i: "index_ok s i \<and> (if z then i < k else k < i)"
  then have "i = j \<or> (if z then j < i else i < j)" using assms(2) by (auto simp: index_ok_def)
  then show "\<not> f i" using assms(1) i by (auto simp: scan_def split: if_split_asm)
qed

text \<open>The number of bitmaps still ahead.\<close>

definition bitmaps_ahead :: "bool \<Rightarrow> int \<Rightarrow> nat" where
  "bitmaps_ahead z k = (if z then nat ((k - 1) div 512 + 16) else nat (15 - (k + 1) div 512))"

definition round_result ::
  "nat \<Rightarrow> (int \<Rightarrow> bool) \<Rightarrow> bool \<Rightarrow> int \<Rightarrow> int option + int \<Rightarrow> bool" where
  "round_result s f z k r \<longleftrightarrow>
     (case r of
        Inl (Some t) \<Rightarrow> \<exists>j. t = array_of s j \<and> scan f z k True j
      | Inl None \<Rightarrow> none_beyond s f z k
      | Inr t \<Rightarrow> \<exists>j. t = array_of s j \<and> index_ok s j \<and> scan f z k False j \<and>
          bitmaps_ahead z j < bitmaps_ahead z k)"

lemma outer_block: "outer n \<Longrightarrow> 512 * (n div 512) \<le> i \<Longrightarrow> i \<le> 512 * (n div 512) + 511 \<Longrightarrow> outer i"
proof -
  assume n: "outer n" and i: "512 * (n div 512) \<le> i" "i \<le> 512 * (n div 512) + 511"
  have "n div 512 \<le> - 2 \<or> 1 \<le> n div 512"
    using n int_le_div_iff [of 512 1 n] int_div_less_iff [of 512 n "- 1"] by (auto simp: outer_def)
  then show "outer i" using i by (auto simp: outer_def)
qed

lemma ahead_decreases:
  assumes "index_ok s k" "spacing_ok s" "scan f z k False j" "if z then n = j - 1 else n = j + 1"
    and "l = (if z then 512 * (n div 512) else 512 * (n div 512) + 511)"
  shows "bitmaps_ahead z l < bitmaps_ahead z k"
proof (cases z)
  case True
  have "n \<le> k - 1" using assms(3,4) True by (simp add: scan_def)
  then have "n div 512 \<le> (k - 1) div 512" by (rule zdiv_mono1) simp
  moreover have "(l - 1) div 512 = n div 512 - 1"
    using assms(5) True by (intro int_div_pos_eq [of _ _ _ 511]) simp_all
  moreover have "- 16 < (k - 1) div 512"
    using index_bounds [OF assms(2,1)] int_div_less_iff [of 512 "k - 1" "- 15"] by simp
  ultimately show ?thesis using True by (simp add: bitmaps_ahead_def)
next
  case False
  have "k + 1 \<le> n" using assms(3,4) False by (simp add: scan_def)
  then have "(k + 1) div 512 \<le> n div 512" by (rule zdiv_mono1) simp
  moreover have "(l + 1) div 512 = n div 512 + 1" using assms(5) False by simp
  moreover have "(k + 1) div 512 < 15"
    using index_bounds [OF assms(2,1)] int_div_less_iff [of 512 "k + 1" 15] by simp
  ultimately show ?thesis using False by (simp add: bitmaps_ahead_def)
qed

lemma step_fits:
  assumes "spacing_ok s" "index_ok s k" "j \<noteq> k \<Longrightarrow> (if z then - 512 \<le> j \<and> k \<le> 512 else j < 512 \<and> - 513 \<le> k)"
    and "scan f z k b j"
  shows "arith_i 32 (array_of s (if z then j - 1 else j + 1)) = Inr (array_of s (if z then j - 1 else j + 1))"
proof -
  let ?c = "tick_count s" and ?n = "if z then j - 1 else j + 1"
  have c: "0 < ?c" "512 * ?c \<le> 2013235200" "?c < 2 ^ 22" using width_bounds assms(1) by blast+
  have "\<bar>array_of s ?n\<bar> < 2 ^ 31"
  proof (cases "j = k")
    case True
    have "tick_near (array_of s ?n)"
      using assms(2) True by (intro array_of_near [OF assms(1)]) (auto simp: index_ok_def)
    then show ?thesis by (simp add: tick_near_def)
  next
    case False
    then have "- 513 \<le> ?n" "?n \<le> 513" using assms(3,4) by (auto simp: scan_def split: if_split_asm)
    then have "- 513 * ?c \<le> ?n * ?c" "?n * ?c \<le> 513 * ?c" using c(1) by (intro mult_right_mono; simp)+
    moreover have "513 * ?c < 2 ^ 31" using c(2,3) by simp
    ultimately show ?thesis unfolding array_of_def abs_less_iff by linarith
  qed
  then show ?thesis by (intro arith_i_fits fits_i_32')
qed

text \<open>On which side a position past the ticks lies.\<close>

lemma tick_range_side:
  assumes "spacing_ok s" "index_ok s k" "scan f z k b l" "array_of s l < MIN_TICK \<or> array_of s l > MAX_TICK"
    and "l \<noteq> k"
  shows "if z then l \<le> min_index s else max_index s \<le> l"
proof (cases z)
  case True
  then have "l \<le> k" using assms(3) by (simp add: scan_def)
  then have "array_of s l \<le> array_of s (max_index s)" using assms(1,2) by (simp add: array_of_le index_ok_def)
  then have low: "array_of s l < MIN_TICK" using assms(4) array_of_min(3) [OF assms(1)] by linarith
  have "l \<le> min_index s"
  proof (rule ccontr)
    assume "\<not> l \<le> min_index s"
    then have "array_of s (min_index s + 1) \<le> array_of s l" using assms(1) by (simp add: array_of_le)
    then show False using low array_of_min(2) [OF assms(1)] array_of_step(2) [of s "min_index s"] by linarith
  qed
  then show ?thesis using True by simp
next
  case False
  then have "k < l" using assms(3,5) by (simp add: scan_def)
  then have "array_of s (min_index s + 1) \<le> array_of s l" using assms(1,2) by (simp add: array_of_le index_ok_def)
  then have high: "MAX_TICK < array_of s l"
    using assms(4) array_of_min(2) [OF assms(1)] array_of_step(2) [of s "min_index s"] by linarith
  have "\<not> l < max_index s"
  proof
    assume "l < max_index s"
    then have "array_of s l < array_of s (max_index s)" using assms(1) by (simp add: array_of_less)
    then show False using high array_of_min(3) [OF assms(1)] by linarith
  qed
  then show ?thesis using False by simp
qed

lemma out_of_range_side:
  assumes "spacing_ok s" "index_ok s k" "scan f z k b j" "n = (if z then j - 1 else j + 1)" "\<not> index_ok s n"
  shows "if z then j \<le> min_index s else max_index s \<le> j" "array_of s n < MIN_TICK \<or> array_of s n > MAX_TICK"
proof -
  have "if z then j \<le> k else k \<le> j" using assms(3) by (auto simp: scan_def)
  then show *: "if z then j \<le> min_index s else max_index s \<le> j"
    using assms(2,4,5) by (auto simp: index_ok_def split: if_split_asm)
  show "array_of s n < MIN_TICK \<or> array_of s n > MAX_TICK"
    using assms(5) index_of_range [OF assms(1), of n] by (force simp: index_ok_def)
qed

lemma search_round_result:
  assumes "pool_ok pool" "extension_ok ext" "index_ok (ps_tick_spacing pool) k"
  defines "f \<equiv> array_flag (ps_tick_array_bitmap pool) ext"
  shows "\<exists>r. search_round pool (Some (Inr ext)) z (array_of (ps_tick_spacing pool) k) = Inr r \<and>
    round_result (ps_tick_spacing pool) f z k r"
proof -
  let ?s = "ps_tick_spacing pool" and ?bm = "ps_tick_array_bitmap pool"
  have s: "spacing_ok ?s" and len: "length ?bm = 16" using assms(1) by (simp_all add: pool_ok_def)
  have inside: "f i = pool_flag ?bm i" if "\<not> outer i" for i
    using that by (auto simp: f_def array_flag_def outer_def)
  have outside: "f i = extension_flag ext i" if "outer i" for i
    using that by (auto simp: f_def array_flag_def outer_def)
  obtain b j where d: "next_initialized_tick_array_start_index ?bm (array_of ?s k) ?s z = Inr (b, array_of ?s j)"
      "j \<noteq> k \<Longrightarrow> (if z then - 512 \<le> j \<and> k \<le> 512 else j < 512 \<and> - 513 \<le> k)"
      "scan (pool_flag ?bm) z k b j" "\<not> b \<Longrightarrow> outer (if z then j - 1 else j + 1)"
    using next_default [OF s len assms(3)] unfolding outer_def by blast
  have "scan f z k b j"
  proof (cases "j = k")
    case True
    then show ?thesis using d(3) by (auto simp: scan_def)
  next
    case False
    show ?thesis
      using d(3)
    proof (rule scan_cong)
      fix i assume "if z then j \<le> i \<and> i < k else k < i \<and> i \<le> j"
      then have "\<not> outer i" using d(2) [OF False] by (auto simp: outer_def split: if_split_asm)
      then show "pool_flag ?bm i = f i" by (simp add: inside)
    qed
  qed
  show ?thesis
  proof (cases b)
    case True
    then show ?thesis using d(1) \<open>scan f z k b j\<close>
      by (intro exI [of _ "Inl (Some (array_of ?s j))"]) (auto simp: search_round_def round_result_def)
  next
    case False
    define n where "n = (if z then j - 1 else j + 1)"
    have scan: "scan f z k False j" and n: "outer n" using \<open>scan f z k b j\<close> d(4) False by (simp_all add: n_def)
    have step: "arith_i 32 (if z then array_of ?s j - tick_count ?s else array_of ?s j + tick_count ?s)
        = Inr (array_of ?s n)"
      using step_fits [OF s assms(3) d(2,3)] by (simp add: n_def array_of_step split: if_split_asm)
    have ends: "get_array_start_index MIN_TICK ?s = Inr (array_of ?s (min_index ?s))"
      "get_array_start_index MAX_TICK ?s = Inr (array_of ?s (max_index ?s))"
      using s by (simp_all add: get_array_start_index_eq tick_near_def tick_limits array_start_index
          min_index_def max_index_def)
    show ?thesis
    proof (cases "index_ok ?s n")
      case True
      define W where "W = (if n < 0 then tb_negative ext else tb_positive ext) ! bitmap_offset n"
      obtain c l where e: "next_initialized_tick_array_in_bitmap W (array_of ?s n) ?s z = Inr (c, array_of ?s l)"
          "scan (extension_flag ext) z j c l" "512 * (n div 512) \<le> l" "l \<le> 512 * (n div 512) + 511"
          "\<not> c \<Longrightarrow> l = (if z then 512 * (n div 512) else 512 * (n div 512) + 511)"
        using bitmap_search [OF s True n, of ext z, folded W_def] by (auto simp: n_def split: if_split_asm)
      have nb: "512 * (n div 512) \<le> n" "n \<le> 512 * (n div 512) + 511" by (simp_all add: mult_div_mod_eq [symmetric])
      have "scan f z j c l"
        using e(2)
      proof (rule scan_cong)
        fix i assume "if z then l \<le> i \<and> i < j else j < i \<and> i \<le> l"
        then have "outer i" using e(3,4) nb outer_block [OF n, of i] by (auto simp: n_def split: if_split_asm)
        then show "extension_flag ext i = f i" by (simp add: outside)
      qed
      then have all: "scan f z k c l" using scan_trans [OF scan] by blast
      have "next_initialized_tick_array_from_one_bitmap ext (array_of ?s j) ?s z = Inr (c, array_of ?s l)"
        using step ends True get_bitmap_eq [OF s True n assms(2)] e(1) array_of_less [OF s, of n "min_index ?s"]
          array_of_less [OF s, of "max_index ?s" n]
        by (simp add: next_initialized_tick_array_from_one_bitmap_def Let_def index_ok_def W_def)
      then have round: "search_round pool (Some (Inr ext)) z (array_of ?s k) =
          Inr (if c then Inl (Some (array_of ?s l))
               else if array_of ?s l < MIN_TICK \<or> array_of ?s l > MAX_TICK then Inl None
               else Inr (array_of ?s l))"
        using d(1) False by (simp add: search_round_def)
      have lk: "l \<noteq> k" if "\<not> c"
        using e(5) [OF that] nb scan by (auto simp: n_def scan_def split: if_split_asm)
      consider "c" | "\<not> c" "array_of ?s l < MIN_TICK \<or> array_of ?s l > MAX_TICK"
        | "\<not> c" "MIN_TICK \<le> array_of ?s l" "array_of ?s l \<le> MAX_TICK" by linarith
      then show ?thesis
      proof cases
        case 1
        then show ?thesis using round all by (auto simp: round_result_def)
      next
        case 2
        have "if z then l \<le> min_index ?s else max_index ?s \<le> l"
          using tick_range_side [OF s assms(3) all 2(2) lk [OF 2(1)]] .
        then have "none_beyond ?s f z k" using scan_none_beyond all 2(1) by simp
        then show ?thesis using round 2 by (auto simp: round_result_def)
      next
        case 3
        have "index_ok ?s l" using 3 index_of_range [OF s] by (simp add: index_ok_def)
        moreover have "bitmaps_ahead z l < bitmaps_ahead z k"
          using ahead_decreases [OF assms(3) s scan, of n l] e(5) 3(1) by (simp add: n_def)
        ultimately show ?thesis using round all 3 by (auto simp: round_result_def)
      qed
    next
      case out: False
      have "if z then j \<le> min_index ?s else max_index ?s \<le> j"
        "array_of ?s n < MIN_TICK \<or> array_of ?s n > MAX_TICK"
        using out_of_range_side [OF s assms(3) scan _ out] by (simp_all add: n_def)
      moreover have "next_initialized_tick_array_from_one_bitmap ext (array_of ?s j) ?s z = Inr (False, array_of ?s n)"
        using step ends out array_of_less [OF s, of n "min_index ?s"] array_of_less [OF s, of "max_index ?s" n]
        by (auto simp: next_initialized_tick_array_from_one_bitmap_def Let_def index_ok_def)
      ultimately show ?thesis
        using d(1) False scan_none_beyond [OF scan]
        by (intro exI [of _ "Inl None"]) (auto simp: search_round_def round_result_def)
    qed
  qed
qed

definition search_result ::
  "nat \<Rightarrow> (int \<Rightarrow> bool) \<Rightarrow> bool \<Rightarrow> int \<Rightarrow> int option \<Rightarrow> bool" where
  "search_result s f z k r \<longleftrightarrow>
     (case r of Some t \<Rightarrow> \<exists>j. t = array_of s j \<and> scan f z k True j | None \<Rightarrow> none_beyond s f z k)"

lemma none_beyond_trans: "scan f z k False j \<Longrightarrow> none_beyond s f z j \<Longrightarrow> none_beyond s f z k"
  by (cases z) (auto simp: none_beyond_def scan_def, (metis linorder_neqE_linordered_idom)+)

lemma search_result_trans: "scan f z k False j \<Longrightarrow> search_result s f z j r \<Longrightarrow> search_result s f z k r"
  by (auto simp: search_result_def none_beyond_trans scan_trans split: option.splits)

lemma search_loop_result:
  assumes "pool_ok pool" "extension_ok ext"
  defines "s \<equiv> ps_tick_spacing pool" and "f \<equiv> array_flag (ps_tick_array_bitmap pool) ext"
  shows "index_ok s k \<Longrightarrow> \<exists>r. search_result s f z k r \<and>
    (\<forall>n > bitmaps_ahead z k. search_loop n pool (Some (Inr ext)) z (array_of s k) = Inr r)"
proof (induction "bitmaps_ahead z k" arbitrary: k rule: less_induct)
  case less
  obtain r where r: "search_round pool (Some (Inr ext)) z (array_of s k) = Inr r" "round_result s f z k r"
    using search_round_result [OF assms(1,2)] less.prems unfolding s_def f_def by blast
  show ?case
  proof (cases r)
    case (Inl result)
    then have res: "search_result s f z k result"
      using r(2) by (auto simp: round_result_def search_result_def split: option.splits)
    have "search_loop n pool (Some (Inr ext)) z (array_of s k) = Inr result" if "bitmaps_ahead z k < n" for n
      using r(1) Inl that by (cases n) simp_all
    then show ?thesis using res by blast
  next
    case (Inr t)
    then obtain j where j: "t = array_of s j" "index_ok s j" "scan f z k False j"
        "bitmaps_ahead z j < bitmaps_ahead z k"
      using r(2) by (auto simp: round_result_def)
    obtain result where res: "search_result s f z j result"
        "\<And>n. n > bitmaps_ahead z j \<Longrightarrow> search_loop n pool (Some (Inr ext)) z (array_of s j) = Inr result"
      using less.hyps [OF j(4,2)] by blast
    have "search_loop n pool (Some (Inr ext)) z (array_of s k) = Inr result" if "bitmaps_ahead z k < n" for n
      using r(1) Inr j(1,4) that res(2) [of "n - 1"] by (cases n) simp_all
    then show ?thesis using search_result_trans [OF j(3) res(1)] by blast
  qed
qed

lemma bitmaps_ahead_bound: "spacing_ok s \<Longrightarrow> index_ok s k \<Longrightarrow> bitmaps_ahead z k \<le> 30"
  using index_bounds [of s k] int_div_less_iff [of 512 "k - 1" 15] int_le_div_iff [of 512 "- 15" "k + 1"]
  by (auto simp: bitmaps_ahead_def nat_le_iff)

lemma index_of_tick:
  assumes "spacing_ok s" "valid_tick t"
  shows "index_ok s (t div tick_count s)" "get_array_start_index t s = Inr (array_of s (t div tick_count s))"
proof -
  have "MIN_TICK \<le> t" "t \<le> MAX_TICK" using assms(2) by (simp_all add: valid_tick_def)
  then show "index_ok s (t div tick_count s)"
    using width_bounds(1) [OF assms(1)] by (simp add: index_ok_def min_index_def max_index_def zdiv_mono1)
  show "get_array_start_index t s = Inr (array_of s (t div tick_count s))"
    using assms by (simp add: get_array_start_index_eq valid_tick_near array_start_index)
qed

lemma pool_search:
  assumes "pool_ok pool" "extension_ok ext" "valid_tick t"
  defines "s \<equiv> ps_tick_spacing pool" and "f \<equiv> array_flag (ps_tick_array_bitmap pool) ext"
  shows "\<exists>r. pool_next_initialized_tick_array_start_index pool (Some ext) t z = Inr r \<and>
    search_result s f z (t div tick_count s) r"
proof -
  have s: "spacing_ok s" using assms(1) by (simp add: pool_ok_def s_def)
  note k = index_of_tick [OF s assms(3)]
  show ?thesis
    using search_loop_result [OF assms(1,2), of "t div tick_count s" z, folded s_def f_def, OF k(1)]
      bitmaps_ahead_bound [OF s k(1), of z] k(2)
    by (auto simp: pool_next_initialized_tick_array_start_index_def
        next_tick_array_index_with_extension_info_def s_def)
qed

text \<open>The flag of the current tick's array.\<close>

lemma lists_zero_iff: "arr = limbs_zero (length arr) \<longleftrightarrow> limbs_is_zero arr"
  by (induction arr) (auto simp: limbs_zero_def limbs_is_zero_def)

lemma check_current_eq:
  assumes "spacing_ok s" "length bm = 16" "valid_tick t" "\<not> outer (t div tick_count s)"
  shows "check_current_tick_array_is_initialized bm t s =
    Inr (pool_flag bm (t div tick_count s), array_of s (t div tick_count s))"
proof -
  define k where "k = t div tick_count s"
  have near: "tick_near t" using assms(3) by (rule valid_tick_near)
  have k: "0 \<le> k + 512" "k + 512 < 1024" using assms(4) by (simp_all add: k_def outer_def)
  let ?m = "limbs_shl (limbs_one 16) (nat (k + 512))"
  have "lbit (limbs_and bm ?m) i \<longleftrightarrow> lbit bm i \<and> i = nat (k + 512)" for i
    using u1024.mask [of "nat (k + 512)" i] k assms(2) by (simp add: bitwise_limbs nat_less_iff)
  then have "limbs_and bm ?m \<noteq> limbs_zero 16 \<longleftrightarrow> pool_flag bm k"
    using lists_zero_iff [of "limbs_and bm ?m"] assms(2) by (simp add: limbs_is_zero_iff pool_flag_def)
  moreover have "arith_i 32 \<bar>k + 512\<bar> = Inr (k + 512)" "arith_i 32 k = Inr k"
    using k by (simp_all add: fits_small arith_i_fits fits_i_32)
  moreover have "arith_i 32 (array_of s k) = Inr (array_of s k)"
    using array_start_near [OF assms(1) near]
    by (intro arith_i_fits fits_i_32) (simp add: array_start_index k_def)
  moreover have "\<not> check_is_out_of_boundary t"
    using assms(3) by (auto simp: check_is_out_of_boundary_def valid_tick_def)
  ultimately show ?thesis
    using bit_position_eq [OF assms(1) near]
    by (simp add: check_current_tick_array_is_initialized_def Let_def width_bounds(4) k_def [symmetric]
        array_of_def)
qed

lemma check_extension_eq:
  assumes "spacing_ok s" "index_ok s k" "outer k" "extension_ok ext"
  shows "check_tick_array_is_initialized ext (array_of s k) s = Inr (extension_flag ext k, array_of s k)"
  using get_bitmap_eq [OF assms] offset_in_bitmap_eq [OF assms(1-3)]
  by (simp add: check_tick_array_is_initialized_def extension_flag_eq)

lemma first_array_eq:
  assumes "pool_ok pool" "extension_ok ext" "valid_tick (ps_tick_current pool)"
  defines "s \<equiv> ps_tick_spacing pool" and "k \<equiv> ps_tick_current pool div tick_count (ps_tick_spacing pool)"
  shows "get_first_initialized_tick_array pool (Some ext) z =
    (if array_flag (ps_tick_array_bitmap pool) ext k then Inr (True, array_of s k)
     else and_then (pool_next_initialized_tick_array_start_index pool (Some ext) (array_of s k) z) (\<lambda>next_start.
       and_then (ok_or next_start InsufficientLiquidityForDirection) (\<lambda>start. Inr (False, start))))"
proof -
  have s: "spacing_ok s" and len: "length (ps_tick_array_bitmap pool) = 16"
    using assms(1) by (simp_all add: pool_ok_def s_def)
  note t = index_of_tick [OF s assms(3)]
  have over: "is_overflow_default_tickarray_bitmap pool [ps_tick_current pool] = Inr (outer k)"
    using overflow_eq [of pool "ps_tick_current pool"] s t(1) assms(3) by (simp add: s_def k_def valid_tick_near)
  have flag: "array_flag bm e k = (if outer k then extension_flag e k else pool_flag bm k)" for bm e
    by (auto simp: array_flag_def outer_def)
  show ?thesis
  proof (cases "outer k")
    case True
    then show ?thesis
      using over flag t check_extension_eq [OF s _ True assms(2)]
      by (simp add: get_first_initialized_tick_array_def first_tick_array_index_with_extension_info_def
          pool_next_initialized_tick_array_start_index_def s_def k_def)
  next
    case False
    then show ?thesis
      using over flag t check_current_eq [OF s len assms(3)]
      by (simp add: get_first_initialized_tick_array_def first_tick_array_index_with_extension_info_def
          pool_next_initialized_tick_array_start_index_def s_def k_def)
  qed
qed

section \<open>Properties\<close>

definition example_config :: amm_config where
  "example_config = \<lparr>ac_index = 0, ac_owner = 1, ac_protocol_fee_rate = 120000,
     ac_trade_fee_rate = 2500, ac_tick_spacing = 10, ac_fund_fee_rate = 40000, ac_fund_owner = 1\<rparr>"

definition example_pool :: pool_state where
  "example_pool = pool_initialize 0 255 (2 ^ 64) 0 0 1 2 3 (4, example_config) (5, 6) (7, 9) 8 FromInput"

definition empty_extension :: bitmap_extension where
  "empty_extension = \<lparr>tb_pool_id = 0, tb_positive = replicate 14 0, tb_negative = replicate 14 0\<rparr>"

lemma example_pool_ok: "pool_ok example_pool" "extension_ok empty_extension" "ps_tick_spacing example_pool = 10"
  by (simp_all add: pool_ok_def example_pool_def pool_initialize_def example_config_def spacing_ok_def
      extension_ok_def empty_extension_def)

text \<open>
  \<open>flip_tick_array_bit\<close> is an exact toggle of one tick array out of all of the protocol's: for a
  valid start index and the right extension account it succeeds, it negates the flag of that array
  and leaves the flag of every other array, whether the flag lives in the bitmap of the pool or in
  one of the 28 bitmaps of the extension.
\<close>
theorem flip_tick_array_exact:
  assumes "pool_ok pool" "extension_ok ext" "valid_start_index (ps_tick_spacing pool) start"
  shows "case flip_tick_array_bit key (Some (key, Inr ext)) start pool of
      Inl e \<Rightarrow> False
    | Inr (pool', touched) \<Rightarrow>
        let ext' = (case touched of None \<Rightarrow> ext | Some e \<Rightarrow> e) in
        pool_ok pool' \<and> extension_ok ext' \<and>
        (\<forall>u. valid_start_index (ps_tick_spacing pool) u \<longrightarrow>
           array_bit pool' ext' u = (array_bit pool ext u \<noteq> (u = start)))"
proof -
  let ?s = "ps_tick_spacing pool"
  have s: "spacing_ok ?s" using assms(1) by (simp add: pool_ok_def)
  obtain k where k: "index_ok ?s k" "start = array_of ?s k"
    using assms(3) valid_start_index_iff [OF s] by blast
  obtain pool' touched where r: "flip_tick_array_bit key (Some (key, Inr ext)) start pool = Inr (pool', touched)"
      "pool_ok pool'" "ps_tick_spacing pool' = ?s" "extension_ok (case touched of None \<Rightarrow> ext | Some e \<Rightarrow> e)"
    and flags: "\<And>i. index_ok ?s i \<Longrightarrow>
         array_flag (ps_tick_array_bitmap pool') (case touched of None \<Rightarrow> ext | Some e \<Rightarrow> e) i =
         (array_flag (ps_tick_array_bitmap pool) ext i \<noteq> (i = k))"
    using flip_array [OF assms(1,2) k(1), of key] unfolding k(2) by blast
  have "array_bit pool' (case touched of None \<Rightarrow> ext | Some e \<Rightarrow> e) u = (array_bit pool ext u \<noteq> (u = start))"
    if "valid_start_index ?s u" for u
    using that flags unfolding valid_start_index_iff [OF s] k(2) array_bit_def r(3)
    by (metis array_of_div [OF s])
  then show ?thesis using r by (simp add: Let_def)
qed

theorem flip_tick_array_exact_witness:
  "case flip_tick_array_bit 9 (Some (9, Inr empty_extension)) (- 600) example_pool of
      Inl e \<Rightarrow> False
    | Inr (pool', touched) \<Rightarrow>
        let ext' = (case touched of None \<Rightarrow> empty_extension | Some e \<Rightarrow> e) in
        pool_ok pool' \<and> extension_ok ext' \<and>
        (\<forall>u. valid_start_index (ps_tick_spacing example_pool) u \<longrightarrow>
           array_bit pool' ext' u = (array_bit example_pool empty_extension u \<noteq> (u = - 600)))"
proof (rule flip_tick_array_exact)
  show "valid_start_index (ps_tick_spacing example_pool) (- 600)"
    unfolding example_pool_ok by code_simp
qed (simp_all add: example_pool_ok)

text \<open>
  C11. The search of a swap for its next tick array is exact across both accounts: started at any
  tick of the protocol, it returns the start of a flagged array strictly beyond the array of the
  tick in the direction of the swap with no flagged array between them, and it returns none only
  if no array of the protocol is flagged in that direction; it never fails.
\<close>
theorem next_tick_array_nearest:
  assumes "pool_ok pool" "extension_ok ext" "valid_tick t"
  shows "case pool_next_initialized_tick_array_start_index pool (Some ext) t z of
      Inl e \<Rightarrow> False
    | Inr None \<Rightarrow> \<forall>u. valid_start_index (ps_tick_spacing pool) u \<longrightarrow>
        (if z then u < array_start (ps_tick_spacing pool) t else array_start (ps_tick_spacing pool) t < u) \<longrightarrow>
        \<not> array_bit pool ext u
    | Inr (Some next) \<Rightarrow>
        array_bit pool ext next \<and> next mod tick_count (ps_tick_spacing pool) = 0 \<and>
        (if z then next < array_start (ps_tick_spacing pool) t else array_start (ps_tick_spacing pool) t < next) \<and>
        (\<forall>u. valid_start_index (ps_tick_spacing pool) u \<longrightarrow> array_bit pool ext u \<longrightarrow>
           (if z then u \<le> next \<or> array_start (ps_tick_spacing pool) t \<le> u
            else next \<le> u \<or> u \<le> array_start (ps_tick_spacing pool) t))"
proof -
  let ?s = "ps_tick_spacing pool" and ?f = "array_flag (ps_tick_array_bitmap pool) ext"
  define k where "k = t div tick_count ?s"
  have s: "spacing_ok ?s" using assms(1) by (simp add: pool_ok_def)
  have start: "array_start ?s t = array_of ?s k" by (simp add: array_start_index k_def)
  have bit: "array_bit pool ext (array_of ?s i) = ?f i" for i by (simp add: array_bit_def array_of_div s)
  obtain r where r: "pool_next_initialized_tick_array_start_index pool (Some ext) t z = Inr r"
      "search_result ?s ?f z k r"
    using pool_search [OF assms] unfolding k_def by blast
  show ?thesis
  proof (cases r)
    case None
    then show ?thesis using r unfolding start valid_start_index_iff [OF s]
      by (auto simp: search_result_def none_beyond_def bit array_of_less s split: if_split_asm)
  next
    case (Some u)
    then obtain j where j: "u = array_of ?s j" "scan ?f z k True j"
      using r(2) by (auto simp: search_result_def)
    have "\<forall>i. ?f i \<longrightarrow> (if z then i \<le> j \<or> k \<le> i else j \<le> i \<or> i \<le> k)"
      using j(2) by (auto simp: scan_def not_le split: if_split_asm)
    moreover have "if z then j < k else k < j" using j(2) by (auto simp: scan_def)
    moreover have "?f j" using j(2) by (simp add: scan_def)
    moreover have "array_of ?s j mod tick_count ?s = 0" by (simp add: array_of_def)
    ultimately show ?thesis using r(1) Some unfolding start valid_start_index_iff [OF s] j(1)
      by (auto simp: bit array_of_less array_of_le s)
  qed
qed

definition flagged_pool :: pool_state where
  "flagged_pool = example_pool\<lparr>ps_tick_array_bitmap := (limbs_zero 16)[8 := 1]\<rparr>"

lemma flagged_pool_bit: "array_bit flagged_pool empty_extension 0"
  by (simp add: array_bit_def flagged_pool_def array_flag_def pool_flag_def lbit_def limbs_zero_def)

theorem next_tick_array_nearest_witness:
  "\<exists>next. pool_next_initialized_tick_array_start_index flagged_pool (Some empty_extension) 605 True = Inr (Some next) \<and>
     array_bit flagged_pool empty_extension next \<and> next < 605"
proof -
  have ok: "pool_ok flagged_pool" "valid_tick 605" "ps_tick_spacing flagged_pool = 10"
    using example_pool_ok by (simp_all add: flagged_pool_def pool_ok_def valid_tick_def tick_limits)
  have "valid_start_index 10 0" by code_simp
  moreover note flagged_pool_bit
  moreover have "array_start 10 605 = 600"
    by (simp add: array_start_def tick_count_def TICK_ARRAY_SIZE_def)
  ultimately show ?thesis
    using next_tick_array_nearest [OF ok(1) example_pool_ok(2) ok(2), of True] ok(3)
    by (auto split: sum.splits option.splits)
qed

text \<open>
  The search loop terminates: from every tick array of the protocol, any 31 or more rounds give
  the same value, so the loop of the code, which has no bound, returns that value.
\<close>
theorem search_loop_terminates:
  assumes "pool_ok pool" "extension_ok ext" "valid_start_index (ps_tick_spacing pool) start"
  shows "\<exists>r. \<forall>n \<ge> 31. search_loop n pool (Some (Inr ext)) z start = Inr r"
proof -
  let ?s = "ps_tick_spacing pool"
  have s: "spacing_ok ?s" using assms(1) by (simp add: pool_ok_def)
  obtain k where k: "index_ok ?s k" "start = array_of ?s k"
    using assms(3) valid_start_index_iff [OF s] by blast
  obtain r where "\<And>n. n > bitmaps_ahead z k \<Longrightarrow> search_loop n pool (Some (Inr ext)) z start = Inr r"
    using search_loop_result [OF assms(1,2) k(1), of z] k(2) by blast
  then show ?thesis using bitmaps_ahead_bound [OF s k(1), of z] by (intro exI [of _ r]) auto
qed

theorem search_loop_terminates_witness:
  "\<exists>r. \<forall>n \<ge> 31. search_loop n example_pool (Some (Inr empty_extension)) False (- 600) = Inr r"
proof (rule search_loop_terminates)
  show "valid_start_index (ps_tick_spacing example_pool) (- 600)"
    unfolding example_pool_ok by code_simp
qed (simp_all add: example_pool_ok)

text \<open>
  The first tick array of a swap: \<open>get_first_initialized_tick_array\<close> returns the array of the
  current tick, marked as initialized, exactly if it is flagged; otherwise it returns the nearest
  flagged array in the direction of the swap, and \<open>InsufficientLiquidityForDirection\<close> is its only
  error.
\<close>
theorem first_tick_array:
  assumes "pool_ok pool" "extension_ok ext" "valid_tick (ps_tick_current pool)"
  defines "start \<equiv> array_start (ps_tick_spacing pool) (ps_tick_current pool)"
  shows "get_first_initialized_tick_array pool (Some ext) z =
    (if array_bit pool ext start then Inr (True, start)
     else case pool_next_initialized_tick_array_start_index pool (Some ext) start z of
        Inr (Some next) \<Rightarrow> Inr (False, next)
      | _ \<Rightarrow> fail InsufficientLiquidityForDirection)"
proof -
  let ?s = "ps_tick_spacing pool"
  have s: "spacing_ok ?s" using assms(1) by (simp add: pool_ok_def)
  define k where "k = ps_tick_current pool div tick_count ?s"
  have k: "start = array_of ?s k" by (simp add: start_def array_start_index k_def)
  have idx: "index_ok ?s k" using index_of_tick(1) [OF s assms(3)] by (simp add: k_def)
  have next_ok: "\<exists>r. pool_next_initialized_tick_array_start_index pool (Some ext) start z = Inr r"
    using search_loop_result [OF assms(1,2) idx, of z] bitmaps_ahead_bound [OF s idx, of z] start_of_array [OF s idx]
    by (auto simp: pool_next_initialized_tick_array_start_index_def
        next_tick_array_index_with_extension_info_def k)
  then show ?thesis
    using first_array_eq [OF assms(1-3), of z] s
    by (auto simp: k k_def [symmetric] array_bit_def array_of_div fail_def split: option.splits)
qed

theorem first_tick_array_witness:
  "get_first_initialized_tick_array flagged_pool (Some empty_extension) True = Inr (True, 0)"
proof -
  have ok: "pool_ok flagged_pool" "valid_tick (ps_tick_current flagged_pool)" "ps_tick_spacing flagged_pool = 10"
    "ps_tick_current flagged_pool = 0"
    using example_pool_ok
    by (simp_all add: flagged_pool_def pool_ok_def valid_tick_def tick_limits example_pool_def pool_initialize_def
        example_config_def)
  have "array_start 10 0 = 0" by (simp add: array_start_def)
  moreover note flagged_pool_bit
  ultimately show ?thesis using first_tick_array [OF ok(1) example_pool_ok(2) ok(2), of True] ok(3,4) by simp
qed

end
