(* ===== verification/Pool_Reward.thy ===== *)
theory Pool_Reward
  imports Pool_State
begin

text \<open>
  The liquidity mining rewards of a pool: emission over time (\<open>update_reward_infos\<close> of
  \<open>states/pool.rs\<close>), creation and change of a reward (\<open>initialize_reward.rs\<close>,
  \<open>set_reward_params.rs\<close>), claims, and the withdrawal of what is left
  (\<open>collect_remaining_rewards.rs\<close>). A transfer of tokens is the amount the code transfers; the fee of
  a token mint on a transfer is an argument.
\<close>

section \<open>Emission\<close>

text \<open>\<open>None\<close> is the \<open>continue\<close> of the loop, which leaves the reward as it was.\<close>

definition emit_reward :: "nat \<Rightarrow> nat \<Rightarrow> reward_info \<Rightarrow> reward_info option res" where
  "emit_reward liquidity latest r =
     (let time_delta = saturating_sub latest (ri_last_update_time r) in
      if time_delta = 0 then Inr None
      else
        and_then (as_uint 64 (case mul_div_ceil 128 time_delta (ri_emissions_per_second_x64 r) Q64 of
                    Some x \<Rightarrow> x | None \<Rightarrow> 0)) (\<lambda>reward_delta.
        let growth_delta = (case mul_div_floor 256 time_delta (ri_emissions_per_second_x64 r) liquidity of
                    Some x \<Rightarrow> x | None \<Rightarrow> 0);
            (total_emitted, growth_delta) =
              (case checked_add 64 (ri_reward_total_emitted r) reward_delta of
                 Some new_total \<Rightarrow> (new_total, growth_delta)
               | None \<Rightarrow>
                   (U64_MAX,
                    case mul_div_floor 256 (saturating_sub U64_MAX (ri_reward_total_emitted r)) Q64 liquidity of
                      Some x \<Rightarrow> x | None \<Rightarrow> 0))
        in and_then (as_uint 128 growth_delta) (\<lambda>g.
           Inr (Some (r\<lparr>ri_reward_total_emitted := total_emitted,
                        ri_reward_growth_global_x64 := ri_reward_growth_global_x64 r + of_nat g\<rparr>)))))"

definition finish_update :: "nat \<Rightarrow> reward_info \<Rightarrow> reward_info" where
  "finish_update latest r =
     (let r = r\<lparr>ri_last_update_time := latest\<rparr> in
      if latest \<ge> ri_open_time r \<and> latest < ri_end_time r then r\<lparr>ri_reward_state := 2\<rparr>
      else if latest = ri_end_time r then r\<lparr>ri_reward_state := 3\<rparr>
      else r)"

definition update_reward_info :: "nat \<Rightarrow> nat \<Rightarrow> reward_info \<Rightarrow> reward_info res" where
  "update_reward_info liquidity curr_timestamp r =
     (if \<not> reward_initialized r \<or> ri_reward_total_emitted r = U64_MAX then Inr r
      else if curr_timestamp \<le> ri_open_time r then Inr r
      else
        let latest = min curr_timestamp (ri_end_time r) in
        and_then (if liquidity \<noteq> 0 then emit_reward liquidity latest r else Inr (Some r)) (\<lambda>emitted.
        case emitted of None \<Rightarrow> Inr r | Some r \<Rightarrow> Inr (finish_update latest r)))"

fun update_each :: "nat \<Rightarrow> nat \<Rightarrow> reward_info list \<Rightarrow> reward_info list res" where
  "update_each liquidity curr_timestamp [] = Inr []"
| "update_each liquidity curr_timestamp (r # rs) =
     and_then (update_reward_info liquidity curr_timestamp r) (\<lambda>r.
     and_then (update_each liquidity curr_timestamp rs) (\<lambda>rs. Inr (r # rs)))"

definition update_reward_infos :: "nat \<Rightarrow> nat \<Rightarrow> pool_state \<Rightarrow> (pool_state \<times> reward_info list) res" where
  "update_reward_infos epoch curr_timestamp pool =
     and_then (update_each (ps_liquidity pool) curr_timestamp (ps_reward_infos pool)) (\<lambda>rs.
     Inr (pool\<lparr>ps_reward_infos := rs, ps_recent_epoch := epoch\<rparr>, rs))"

section \<open>Claims\<close>

definition check_unclaimed_reward :: "pool_state \<Rightarrow> nat \<Rightarrow> nat \<Rightarrow> unit res" where
  "check_unclaimed_reward pool index reward_amount_owed =
     require (index < REWARD_NUM) InvalidRewardIndex
     (and_then (ok_or (checked_sub (ri_reward_total_emitted (ps_reward_infos pool ! index))
        (ri_reward_claimed (ps_reward_infos pool ! index))) CalculateOverflow) (\<lambda>unclaimed_reward.
      require_plain (unclaimed_reward \<ge> reward_amount_owed) (Inr ())))"

definition add_reward_claimed :: "nat \<Rightarrow> nat \<Rightarrow> pool_state \<Rightarrow> pool_state res" where
  "add_reward_claimed index amount pool =
     require (index < REWARD_NUM) InvalidRewardIndex
     (let r = ps_reward_infos pool ! index in
      and_then (ok_or (checked_add 64 (ri_reward_claimed r) amount) CalculateOverflow) (\<lambda>claimed.
      Inr (pool\<lparr>ps_reward_infos := (ps_reward_infos pool)[index := r\<lparr>ri_reward_claimed := claimed\<rparr>]\<rparr>)))"

section \<open>Creation\<close>

fun first_uninitialized :: "reward_info list \<Rightarrow> nat option" where
  "first_uninitialized [] = None"
| "first_uninitialized (r # rs) =
     (if \<not> reward_initialized r then Some 0 else map_option Suc (first_uninitialized rs))"

definition pool_initialize_reward ::
  "pubkey \<Rightarrow> nat \<Rightarrow> nat \<Rightarrow> nat \<Rightarrow> nat \<Rightarrow> pubkey \<Rightarrow> pubkey option \<Rightarrow> pubkey \<Rightarrow> pubkey \<Rightarrow> operation_state
     \<Rightarrow> pool_state \<Rightarrow> pool_state res" where
  "pool_initialize_reward admin epoch open_time end_time reward_per_second_x64 token_mint
     token_mint_freeze_authority token_vault authority operation_state pool =
   (case first_uninitialized (ps_reward_infos pool) of
      None \<Rightarrow> fail FullRewardInfo
    | Some lowest_index \<Rightarrow>
      let reward_mints = List.map ri_token_mint (ps_reward_infos pool);
          whitelist_mints = os_whitelist_mints operation_state;
          foreign = (token_mint \<noteq> ps_token_mint_0 pool \<and> token_mint \<noteq> ps_token_mint_1 pool \<and>
                     token_mint \<notin> set whitelist_mints)
      in require (token_mint \<notin> set reward_mints) RewardTokenAlreadyInUse
         (and_then
           (if lowest_index = REWARD_NUM - 3 then
              if foreign then require (token_mint_freeze_authority = None) ExceptRewardMint (Inr ())
              else Inr ()
            else if lowest_index = REWARD_NUM - 2 then
              if ps_token_mint_0 pool \<notin> set reward_mints \<and> ps_token_mint_1 pool \<notin> set reward_mints
              then require (token_mint = ps_token_mint_0 pool \<or> token_mint = ps_token_mint_1 pool \<or>
                     token_mint \<in> set whitelist_mints) ExceptRewardMint (Inr ())
              else if foreign then require (token_mint_freeze_authority = None) ExceptRewardMint (Inr ())
              else Inr ()
            else if lowest_index = REWARD_NUM - 1 then
              require (authority = admin \<or> validate_operation_owner operation_state authority)
                NotApproved (Inr ())
            else Inr ()) (\<lambda>_.
         Inr (pool\<lparr>ps_reward_infos := (ps_reward_infos pool)[lowest_index :=
                (ps_reward_infos pool ! lowest_index)
                  \<lparr>ri_last_update_time := open_time, ri_open_time := open_time, ri_end_time := end_time,
                   ri_emissions_per_second_x64 := reward_per_second_x64, ri_token_mint := token_mint,
                   ri_token_vault := token_vault, ri_authority := authority\<rparr>],
              ps_recent_epoch := epoch\<rparr>))))"

definition MIN_REWARD_PERIOD :: nat where "MIN_REWARD_PERIOD = 7 * 24 * 60 * 60"
definition MAX_REWARD_PERIOD :: nat where "MAX_REWARD_PERIOD = 90 * 24 * 60 * 60"
definition INCREASE_EMISSIONS_PERIOD :: nat where "INCREASE_EMISSIONS_PERIOD = 72 * 60 * 60"

record initialize_reward_param =
  rp_open_time :: nat
  rp_end_time :: nat
  rp_emissions_per_second_x64 :: nat

definition reward_param_check :: "initialize_reward_param \<Rightarrow> nat \<Rightarrow> unit res" where
  "reward_param_check p curr_timestamp =
     (if rp_open_time p \<ge> rp_end_time p \<or> rp_open_time p < curr_timestamp \<or>
         rp_end_time p < curr_timestamp \<or> rp_emissions_per_second_x64 p = 0
      then fail InvalidRewardInitParam
      else and_then (ok_or (checked_sub (rp_end_time p) (rp_open_time p)) CalculateOverflow) (\<lambda>time_delta.
        if time_delta < MIN_REWARD_PERIOD \<or> time_delta > MAX_REWARD_PERIOD
        then fail InvalidRewardPeriod else Inr ()))"

text \<open>The amount that pays for \<open>period\<close> seconds, rounded up or down.\<close>

definition reward_amount_ceil :: "nat \<Rightarrow> nat \<Rightarrow> nat res" where
  "reward_amount_ceil period emissions =
     and_then (ok_or (mul_div_ceil 256 period emissions Q64) CalculateOverflow) (as_uint 64)"

definition reward_amount_floor :: "nat \<Rightarrow> nat \<Rightarrow> nat res" where
  "reward_amount_floor period emissions =
     and_then (ok_or (mul_div_floor 256 period emissions Q64) CalculateOverflow) (as_uint 64)"

text \<open>The instruction: \<open>supported\<close> is the outcome of the checks on the mint, \<open>inverse_fee\<close> the
  transfer fee to add so that an amount arrives, \<open>funder_amount\<close> the balance of the funder.\<close>

definition initialize_reward ::
  "pubkey \<Rightarrow> nat \<Rightarrow> nat \<Rightarrow> bool \<Rightarrow> (nat \<Rightarrow> nat res) \<Rightarrow> pubkey \<Rightarrow> nat \<Rightarrow> pubkey \<Rightarrow> pubkey option \<Rightarrow> pubkey
     \<Rightarrow> operation_state \<Rightarrow> initialize_reward_param \<Rightarrow> pool_state \<Rightarrow> (pool_state \<times> nat) res" where
  "initialize_reward admin epoch timestamp supported inverse_fee reward_funder funder_amount token_mint
     freeze_authority token_vault operation_state param pool =
   (if \<not> supported then fail NotSupportMint
    else
      require (reward_funder = admin \<or> reward_funder = ps_owner pool \<or>
        validate_operation_owner operation_state reward_funder) NotApproved
      (and_then (reward_param_check param timestamp) (\<lambda>_.
       and_then (sub_u (rp_end_time param) (rp_open_time param)) (\<lambda>period.
       and_then (reward_amount_ceil period (rp_emissions_per_second_x64 param)) (\<lambda>reward_amount.
       and_then (inverse_fee reward_amount) (\<lambda>transfer_fee.
       and_then (ok_or (checked_add 64 reward_amount transfer_fee) CalculateOverflow)
         (\<lambda>reward_amount_with_transfer_fee.
       require_plain (funder_amount \<ge> reward_amount_with_transfer_fee)
       (and_then (pool_initialize_reward admin epoch (rp_open_time param) (rp_end_time param)
          (rp_emissions_per_second_x64 param) token_mint freeze_authority token_vault reward_funder
          operation_state pool) (\<lambda>pool.
        Inr (pool, reward_amount_with_transfer_fee))))))))))"

section \<open>Changes\<close>

definition restart_reward :: "nat \<Rightarrow> nat \<Rightarrow> nat \<Rightarrow> reward_info \<Rightarrow> reward_info" where
  "restart_reward emissions_per_second_x64 open_time end_time r =
     r\<lparr>ri_open_time := open_time, ri_last_update_time := open_time, ri_end_time := end_time,
       ri_emissions_per_second_x64 := emissions_per_second_x64\<rparr>"

definition normal_update ::
  "nat \<Rightarrow> nat \<Rightarrow> nat \<Rightarrow> nat \<Rightarrow> reward_info \<Rightarrow> (reward_info \<times> nat) res" where
  "normal_update current_timestamp emissions_per_second_x64 open_time end_time r =
   (if ri_last_update_time r = ri_end_time r then
      and_then (ok_or (checked_sub end_time open_time) CalculateOverflow) (\<lambda>time_delta.
      if time_delta < MIN_REWARD_PERIOD \<or> time_delta > MAX_REWARD_PERIOD then fail InvalidRewardPeriod
      else
        and_then (reward_amount_ceil time_delta emissions_per_second_x64) (\<lambda>reward_amount.
        Inr (restart_reward emissions_per_second_x64 open_time end_time r, reward_amount)))
    else
      and_then (ok_or (checked_sub (ri_end_time r) current_timestamp) CalculateOverflow) (\<lambda>left_reward_time.
      and_then (ok_or (checked_sub end_time (ri_end_time r)) CalculateOverflow) (\<lambda>extend_period.
      if extend_period < MIN_REWARD_PERIOD \<or> extend_period > MAX_REWARD_PERIOD
      then fail NotApproveUpdateRewardEmissions
      else
        require_plain (emissions_per_second_x64 < ri_emissions_per_second_x64 r \<longrightarrow>
          INCREASE_EMISSIONS_PERIOD > left_reward_time)
        (let emission_diff_x64 = saturating_sub emissions_per_second_x64 (ri_emissions_per_second_x64 r) in
         and_then (reward_amount_floor left_reward_time emission_diff_x64) (\<lambda>reward_amount.
         let r = r\<lparr>ri_emissions_per_second_x64 := emissions_per_second_x64\<rparr> in
         if extend_period > 0 then
           and_then (reward_amount_floor extend_period (ri_emissions_per_second_x64 r)) (\<lambda>diff.
           and_then (ok_or (checked_add 64 reward_amount diff) CalculateOverflow) (\<lambda>reward_amount.
           Inr (r\<lparr>ri_end_time := end_time\<rparr>, reward_amount)))
         else Inr (r, reward_amount))))))"

definition admin_update ::
  "nat \<Rightarrow> nat \<Rightarrow> nat \<Rightarrow> nat \<Rightarrow> reward_info \<Rightarrow> (reward_info \<times> nat) res" where
  "admin_update current_timestamp emissions_per_second_x64 open_time end_time r =
   (if ri_last_update_time r = ri_end_time r \<or> ri_open_time r > current_timestamp then
      and_then (ok_or (checked_sub end_time open_time) CalculateOverflow) (\<lambda>time_delta.
      if time_delta = 0 then fail InvalidRewardPeriod
      else
        and_then (reward_amount_ceil time_delta emissions_per_second_x64) (\<lambda>reward_amount.
        Inr (restart_reward emissions_per_second_x64 open_time end_time r, reward_amount)))
    else
      and_then (ok_or (checked_sub (ri_end_time r) current_timestamp) CalculateOverflow) (\<lambda>left_reward_time.
      let extend_period = saturating_sub end_time (ri_end_time r);
          emission_diff_x64 = saturating_sub emissions_per_second_x64 (ri_emissions_per_second_x64 r)
      in and_then (reward_amount_floor left_reward_time emission_diff_x64) (\<lambda>reward_amount.
         let r = r\<lparr>ri_emissions_per_second_x64 := emissions_per_second_x64\<rparr> in
         and_then (reward_amount_floor extend_period (ri_emissions_per_second_x64 r)) (\<lambda>diff.
         and_then (ok_or (checked_add 64 reward_amount diff) CalculateOverflow) (\<lambda>reward_amount.
         Inr (r\<lparr>ri_end_time := end_time\<rparr>, reward_amount))))))"

text \<open>The instruction, up to the transfer of the returned amount from the authority; its last part is
  the change of one reward.\<close>

definition change_reward ::
  "bool \<Rightarrow> nat \<Rightarrow> nat \<Rightarrow> nat \<Rightarrow> nat \<Rightarrow> nat \<Rightarrow> pool_state \<Rightarrow> (pool_state \<times> nat) res" where
  "change_reward admin_operator current_timestamp reward_index emissions_per_second_x64 open_time end_time pool =
     (let r = ps_reward_infos pool ! reward_index in
      if \<not> reward_initialized r then fail UnInitializedRewardInfo
      else
        and_then
          (if admin_operator
           then admin_update current_timestamp emissions_per_second_x64 open_time end_time r
           else if current_timestamp \<le> ri_open_time r then fail NotApproved
           else normal_update current_timestamp emissions_per_second_x64 open_time end_time r)
          (\<lambda>(r, reward_amount).
        and_then (ok_or (checked_add 64 (ri_reward_total_emitted r) reward_amount) MaxTokenOverflow) (\<lambda>_.
        Inr (pool\<lparr>ps_reward_infos := (ps_reward_infos pool)[reward_index := r]\<rparr>, reward_amount))))"

definition set_reward_params ::
  "pubkey \<Rightarrow> nat \<Rightarrow> nat \<Rightarrow> pubkey \<Rightarrow> operation_state \<Rightarrow> nat \<Rightarrow> nat \<Rightarrow> nat \<Rightarrow> nat \<Rightarrow> pool_state
     \<Rightarrow> (pool_state \<times> nat) res" where
  "set_reward_params admin epoch current_timestamp authority operation_state reward_index
     emissions_per_second_x64 open_time end_time pool =
   require (reward_index < REWARD_NUM) InvalidRewardIndex
   (require_plain (end_time > open_time)
   (require_plain (emissions_per_second_x64 > 0)
   (require_plain (authority \<noteq> 0)
   (let admin_operator = (authority \<in> set (os_operation_owners operation_state) \<or> authority = admin) in
    require_plain (open_time > current_timestamp)
    (require_plain (admin_operator \<or> authority = ri_authority (ps_reward_infos pool ! reward_index))
    (and_then (update_reward_infos epoch current_timestamp pool) (\<lambda>(pool, _).
     change_reward admin_operator current_timestamp reward_index emissions_per_second_x64 open_time
       end_time pool)))))))"

section \<open>What is left\<close>

definition get_remaining_reward_amount ::
  "nat \<Rightarrow> nat \<Rightarrow> pubkey \<Rightarrow> nat \<Rightarrow> pubkey \<Rightarrow> nat \<Rightarrow> pool_state \<Rightarrow> (pool_state \<times> nat) res" where
  "get_remaining_reward_amount epoch current_timestamp vault_key vault_amount reward_funder reward_index pool =
   and_then (update_reward_infos epoch current_timestamp pool) (\<lambda>(pool, _).
   if reward_index < length (ps_reward_infos pool) then
     let r = ps_reward_infos pool ! reward_index in
     if \<not> reward_initialized r then fail UnInitializedRewardInfo
     else
       require (ri_last_update_time r = ri_end_time r) NotApproved
       (require_plain (reward_funder = ri_authority r)
       (require_plain (vault_key = ri_token_vault r)
       (and_then (ok_or (checked_sub (ri_reward_total_emitted r) (ri_reward_claimed r)) CalculateOverflow)
          (\<lambda>unclaimed_reward.
        and_then (ok_or (checked_sub vault_amount unclaimed_reward) CalculateOverflow) (\<lambda>amount_remaining.
        Inr (pool, amount_remaining)))))
   ) else Inl Panic)"

section \<open>One update\<close>

text \<open>What an update may change: the emitted total rises, and the growth per unit of liquidity rises
  by at most what the emitted tokens cover.\<close>

definition emission_covered :: "nat \<Rightarrow> reward_info \<Rightarrow> reward_info \<Rightarrow> bool" where
  "emission_covered liquidity r r' \<longleftrightarrow>
     ri_reward_total_emitted r \<le> ri_reward_total_emitted r' \<and>
     (\<exists>g. ri_reward_growth_global_x64 r' = ri_reward_growth_global_x64 r + of_nat g \<and>
        g * liquidity \<le> (ri_reward_total_emitted r' - ri_reward_total_emitted r) * 2 ^ 64)"

definition reward_ok :: "reward_info \<Rightarrow> bool" where
  "reward_ok r \<longleftrightarrow> ri_reward_claimed r \<le> ri_reward_total_emitted r \<and> ri_reward_total_emitted r \<le> U64_MAX"

definition same_terms :: "reward_info \<Rightarrow> reward_info \<Rightarrow> bool" where
  "same_terms r r' \<longleftrightarrow> ri_reward_claimed r' = ri_reward_claimed r \<and> ri_open_time r' = ri_open_time r \<and>
     ri_end_time r' = ri_end_time r \<and> ri_token_mint r' = ri_token_mint r \<and>
     ri_emissions_per_second_x64 r' = ri_emissions_per_second_x64 r"

lemma emission_covered_refl: "emission_covered liquidity r r"
  by (auto simp: emission_covered_def intro: exI [of _ 0])

lemma emit_reward_covered:
  assumes "emit_reward liquidity latest r = Inr (Some r')" "liquidity \<noteq> 0"
    and "ri_reward_total_emitted r \<le> U64_MAX"
    and small: "(latest - ri_last_update_time r) * ri_emissions_per_second_x64 r \<le> U64_MAX * 2 ^ 64"
  shows "emission_covered liquidity r r'" "reward_ok r \<Longrightarrow> reward_ok r'" "same_terms r r'"
    "ri_last_update_time r < latest"
proof -
  let ?dt = "latest - ri_last_update_time r" and ?e = "ri_emissions_per_second_x64 r"
    and ?t = "ri_reward_total_emitted r"
  define delta where "delta = ceil_div (?dt * ?e) Q64"
  have q: "Q64 = 2 ^ 64" by (simp add: Q64_def)
  have delta: "delta \<le> U64_MAX" using small by (simp add: delta_def ceil_div_le_iff q)
  then have mdc: "mul_div_ceil 128 ?dt ?e Q64 = Some delta" and fit: "as_uint 64 delta = Inr delta"
    by (simp_all add: mul_div_eq delta_def as_uint_def)
  have dt: "?dt \<noteq> 0" using assms(1) by (auto simp: emit_reward_def saturating_sub_def Let_def)
  show last: "ri_last_update_time r < latest" using dt by simp
  define g where "g = (if ?t + delta < 2 ^ 64
      then case mul_div_floor 256 ?dt ?e liquidity of Some x \<Rightarrow> x | None \<Rightarrow> 0
      else case mul_div_floor 256 (U64_MAX - ?t) Q64 liquidity of Some x \<Rightarrow> x | None \<Rightarrow> 0)"
  define total' where "total' = (if ?t + delta < 2 ^ 64 then ?t + delta else U64_MAX)"
  have r': "r' = r\<lparr>ri_reward_total_emitted := total',
      ri_reward_growth_global_x64 := ri_reward_growth_global_x64 r + of_nat g\<rparr>"
    using assms(1) dt
    by (auto simp: emit_reward_def saturating_sub_def Let_def mdc fit checked_add_def g_def total'_def
        res_simps split: if_split_asm)
  have floor: "(case mul_div_floor 256 a b liquidity of Some x \<Rightarrow> x | None \<Rightarrow> 0) * liquidity \<le> a * b" for a b
    by (auto simp: mul_div_floor_Some div_mult_le split: option.splits)
  have "g * liquidity \<le> (total' - ?t) * 2 ^ 64"
  proof (cases "?t + delta < 2 ^ 64")
    case True
    have "g * liquidity \<le> ?dt * ?e" using True floor by (simp add: g_def)
    also have "\<dots> \<le> delta * 2 ^ 64"
      unfolding delta_def using le_ceil_div_mult [OF Q64_pos, of "?dt * ?e"] by (simp add: q)
    finally show ?thesis using True by (simp add: total'_def)
  next
    case False
    then show ?thesis using floor [of "U64_MAX - ?t" Q64] by (simp add: g_def total'_def q)
  qed
  moreover have "?t \<le> total'" "total' \<le> U64_MAX" using assms(3) by (auto simp: total'_def)
  ultimately show "emission_covered liquidity r r'" "reward_ok r \<Longrightarrow> reward_ok r'" "same_terms r r'"
    by (auto simp: r' emission_covered_def reward_ok_def same_terms_def)
qed

text \<open>The bound under which an update is exact: the emission of the elapsed time fits 64 bits.\<close>

definition emission_fits :: "nat \<Rightarrow> reward_info \<Rightarrow> bool" where
  "emission_fits latest r \<longleftrightarrow>
     (min latest (ri_end_time r) - ri_last_update_time r) * ri_emissions_per_second_x64 r \<le> U64_MAX * 2 ^ 64"

lemma finish_update_simps [simp]:
  "ri_last_update_time (finish_update latest r) = latest"
  "ri_open_time (finish_update latest r) = ri_open_time r"
  "ri_end_time (finish_update latest r) = ri_end_time r"
  "ri_reward_total_emitted (finish_update latest r) = ri_reward_total_emitted r"
  "ri_reward_claimed (finish_update latest r) = ri_reward_claimed r"
  "ri_token_mint (finish_update latest r) = ri_token_mint r"
  "ri_emissions_per_second_x64 (finish_update latest r) = ri_emissions_per_second_x64 r"
  "ri_reward_growth_global_x64 (finish_update latest r) = ri_reward_growth_global_x64 r"
  "finish_update latest (finish_update latest r) = finish_update latest r"
  by (simp_all add: finish_update_def Let_def)

lemma update_reward_info_cases [consumes 1, case_names same new]:
  assumes "update_reward_info liquidity now r = Inr r'"
  obtains "r' = r"
  | r1 where "if liquidity = 0 then r1 = r else emit_reward liquidity (min now (ri_end_time r)) r = Inr (Some r1)"
      "reward_initialized r" "ri_open_time r < now" "r' = finish_update (min now (ri_end_time r)) r1"
proof (cases "\<not> reward_initialized r \<or> ri_reward_total_emitted r = U64_MAX \<or> now \<le> ri_open_time r")
  case True
  then show ?thesis using assms that(1) by (auto simp: update_reward_info_def split: if_split_asm)
next
  case False
  let ?l = "min now (ri_end_time r)"
  have eq: "update_reward_info liquidity now r =
      and_then (if liquidity \<noteq> 0 then emit_reward liquidity ?l r else Inr (Some r)) (\<lambda>emitted.
      case emitted of None \<Rightarrow> Inr r | Some r \<Rightarrow> Inr (finish_update ?l r))"
    using False by (simp add: update_reward_info_def Let_def)
  have "\<exists>x. (if liquidity \<noteq> 0 then emit_reward liquidity ?l r else Inr (Some r)) = Inr x \<and>
      (case x of None \<Rightarrow> Inr r | Some r \<Rightarrow> Inr (finish_update ?l r)) = (Inr r' :: reward_info res)"
    using assms unfolding eq by (simp only: and_then_Inr)
  then obtain x where x: "(if liquidity \<noteq> 0 then emit_reward liquidity ?l r else Inr (Some r)) = Inr x"
      "(case x of None \<Rightarrow> Inr r | Some r \<Rightarrow> Inr (finish_update ?l r)) = (Inr r' :: reward_info res)" by (elim exE conjE)
  show ?thesis
  proof (cases x)
    case None
    then show ?thesis using x(2) that(1) by simp
  next
    case (Some r1)
    then show ?thesis using x False that(2) [of r1] by (simp split: if_split_asm)
  qed
qed

lemma update_reward_info_sound:
  assumes "update_reward_info liquidity now r = Inr r'" "emission_fits now r"
    and "ri_reward_total_emitted r \<le> U64_MAX"
  shows "emission_covered liquidity r r' \<and> (reward_ok r \<longrightarrow> reward_ok r') \<and> same_terms r r'"
  using assms(1)
proof (cases rule: update_reward_info_cases)
  case same
  then show ?thesis by (simp add: emission_covered_refl same_terms_def)
next
  case (new r1)
  show ?thesis
  proof (cases "liquidity = 0")
    case True
    then have r1: "r1 = r" using new(1) by simp
    show ?thesis using new(4) r1 emission_covered_refl [of liquidity r]
      by (simp add: emission_covered_def reward_ok_def same_terms_def)
  next
    case False
    note c = emit_reward_covered [OF _ False assms(3), of "min now (ri_end_time r)" r1]
    show ?thesis
      using c new False assms(2) by (simp add: emission_fits_def emission_covered_def reward_ok_def same_terms_def)
  qed
qed

lemma update_reward_info_idem:
  assumes "update_reward_info liquidity now r = Inr r'" "emission_fits now r"
    and "ri_reward_total_emitted r \<le> U64_MAX"
  shows "update_reward_info liquidity now r' = Inr r'"
  using assms(1)
proof (cases rule: update_reward_info_cases)
  case same
  then show ?thesis using assms(1) by simp
next
  case (new r1)
  let ?l = "min now (ri_end_time r)"
  have t: "same_terms r r1"
  proof (cases "liquidity = 0")
    case False
    then show ?thesis
      using emit_reward_covered(3) [OF _ False assms(3), of ?l r1] new(1) assms(2) by (simp add: emission_fits_def)
  qed (use new(1) in \<open>simp add: same_terms_def\<close>)
  then have l: "min now (ri_end_time r') = ?l" "ri_last_update_time r' = ?l" "ri_open_time r' = ri_open_time r"
    using new(4) by (simp_all add: same_terms_def)
  show ?thesis
  proof (cases "liquidity = 0")
    case True
    then show ?thesis using l new(4) by (simp add: update_reward_info_def Let_def)
  next
    case False
    then show ?thesis using l by (simp add: update_reward_info_def Let_def emit_reward_def saturating_sub_def)
  qed
qed

text \<open>Under the bound an update never fails.\<close>

lemma update_reward_info_succeeds:
  assumes "emission_fits now r"
  shows "\<exists>r'. update_reward_info liquidity now r = Inr r'"
proof -
  let ?dt = "min now (ri_end_time r) - ri_last_update_time r" and ?e = "ri_emissions_per_second_x64 r"
  have q: "Q64 = 2 ^ 64" by (simp add: Q64_def)
  have de: "?dt * ?e \<le> U64_MAX * 2 ^ 64" using assms by (simp add: emission_fits_def)
  then have delta: "ceil_div (?dt * ?e) Q64 \<le> U64_MAX" by (simp add: ceil_div_le_iff q)
  have g: "(case mul_div_floor 256 a b liquidity of Some x \<Rightarrow> x | None \<Rightarrow> 0) < 2 ^ 128"
    if "a * b \<le> U64_MAX * 2 ^ 64" for a b
  proof -
    have "a * b div liquidity \<le> a * b" by (rule div_le_dividend)
    also have "\<dots> < 2 ^ 128" using that by simp
    finally have "a * b div liquidity < 2 ^ 128" .
    then show ?thesis by (auto simp: mul_div_floor_Some split: option.split)
  qed
  have rest: "(U64_MAX - t) * Q64 \<le> U64_MAX * 2 ^ 64" for t by (simp add: q)
  have "\<exists>x. emit_reward liquidity (min now (ri_end_time r)) r = Inr x"
    using delta g [OF de] g [OF rest]
    by (auto simp: emit_reward_def saturating_sub_def Let_def mul_div_eq as_uint_def split: option.split)
  then show ?thesis
    by (auto simp: update_reward_info_def Let_def split: option.split)
qed

lemma update_each_sound:
  assumes "\<forall>r \<in> set rs. emission_fits now r \<and> ri_reward_total_emitted r \<le> U64_MAX"
  shows "\<exists>rs'. update_each liquidity now rs = Inr rs' \<and> update_each liquidity now rs' = Inr rs' \<and>
    list_all2 (\<lambda>r r'. emission_covered liquidity r r' \<and> (reward_ok r \<longrightarrow> reward_ok r') \<and> same_terms r r') rs rs'"
  using assms
proof (induction rs)
  case (Cons r rs)
  then obtain rs' where rs': "update_each liquidity now rs = Inr rs'" "update_each liquidity now rs' = Inr rs'"
      "list_all2 (\<lambda>r r'. emission_covered liquidity r r' \<and> (reward_ok r \<longrightarrow> reward_ok r') \<and> same_terms r r') rs rs'"
    by auto
  have r: "emission_fits now r" "ri_reward_total_emitted r \<le> U64_MAX" using Cons.prems by simp_all
  obtain r' where r': "update_reward_info liquidity now r = Inr r'"
    using update_reward_info_succeeds [OF r(1)] by blast
  show ?case
    using rs' r' update_reward_info_sound [OF r' r] update_reward_info_idem [OF r' r]
    by (intro exI [of _ "r' # rs'"]) simp
qed simp

section \<open>Reachable pools\<close>

text \<open>The operations that touch the reward counters of a pool. A claim pays at most what the check
  before it approved.\<close>

inductive reward_step :: "pool_state \<Rightarrow> pool_state \<Rightarrow> bool" where
  emit: "update_reward_infos epoch now pool = Inr (pool', out) \<Longrightarrow>
      \<forall>r \<in> set (ps_reward_infos pool). emission_fits now r \<Longrightarrow> reward_step pool pool'"
| claim: "check_unclaimed_reward pool index owed = Inr () \<Longrightarrow> amount \<le> owed \<Longrightarrow>
      add_reward_claimed index amount pool = Inr pool' \<Longrightarrow> reward_step pool pool'"
| create: "pool_initialize_reward admin epoch open_time end_time emissions mint freeze vault authority os pool
      = Inr pool' \<Longrightarrow> reward_step pool pool'"
| change: "set_reward_params admin epoch now authority os index emissions open_time end_time pool
      = Inr (pool', amount) \<Longrightarrow>
      \<forall>r \<in> set (ps_reward_infos pool). emission_fits now r \<Longrightarrow> reward_step pool pool'"

inductive_cases reward_stepE [consumes 1, case_names emit claim create change]: "reward_step pool pool'"

definition rewards_ok :: "pool_state \<Rightarrow> bool" where
  "rewards_ok pool \<longleftrightarrow> length (ps_reward_infos pool) = REWARD_NUM \<and>
     (\<forall>r \<in> set (ps_reward_infos pool). reward_ok r)"

lemma rewards_ok_update:
  "rewards_ok pool \<Longrightarrow> reward_ok r \<Longrightarrow>
     rewards_ok (pool\<lparr>ps_reward_infos := (ps_reward_infos pool)[i := r]\<rparr>)"
  by (auto simp: rewards_ok_def dest!: set_update_subset_insert [THEN subsetD])

lemma rewards_ok_nth: "rewards_ok pool \<Longrightarrow> i < REWARD_NUM \<Longrightarrow> reward_ok (ps_reward_infos pool ! i)"
  by (auto simp: rewards_ok_def)

lemma rewards_ok_emit:
  assumes "rewards_ok pool" "update_reward_infos epoch now pool = Inr (pool', out)"
    and "\<forall>r \<in> set (ps_reward_infos pool). emission_fits now r"
  shows "rewards_ok pool'"
proof -
  have fits: "\<forall>r \<in> set (ps_reward_infos pool). emission_fits now r \<and> ri_reward_total_emitted r \<le> U64_MAX"
    using assms(1,3) by (auto simp: rewards_ok_def reward_ok_def)
  obtain rs' where rs': "update_each (ps_liquidity pool) now (ps_reward_infos pool) = Inr rs'"
      "list_all2 (\<lambda>r r'. emission_covered (ps_liquidity pool) r r' \<and> (reward_ok r \<longrightarrow> reward_ok r') \<and>
         same_terms r r') (ps_reward_infos pool) rs'"
    using update_each_sound [OF fits] by blast
  then have "ps_reward_infos pool' = rs'" using assms(2) by (auto simp: update_reward_infos_def)
  moreover have "\<forall>r \<in> set rs'. reward_ok r" "length rs' = length (ps_reward_infos pool)"
    using rs'(2) rewards_ok_nth [OF assms(1)] assms(1)
    by (auto simp: rewards_ok_def in_set_conv_nth [of _ rs'] list_all2_conv_all_nth)
  ultimately show ?thesis using assms(1) by (simp add: rewards_ok_def)
qed

lemma restart_reward_ok: "reward_ok (restart_reward e o' t r) \<longleftrightarrow> reward_ok r"
  by (simp add: restart_reward_def reward_ok_def)

lemma normal_update_ok: "normal_update now e op en r = Inr (r', amount) \<Longrightarrow> reward_ok r \<Longrightarrow> reward_ok r'"
  unfolding normal_update_def Let_def res_simps
  by (auto simp: res_simps restart_reward_def reward_ok_def split: if_split_asm)

lemma admin_update_ok: "admin_update now e op en r = Inr (r', amount) \<Longrightarrow> reward_ok r \<Longrightarrow> reward_ok r'"
  unfolding admin_update_def Let_def res_simps
  by (auto simp: res_simps restart_reward_def reward_ok_def split: if_split_asm)

lemma change_reward_ok:
  assumes "change_reward adm now index e op en pool = Inr (pool', amount)"
    and "rewards_ok pool" "index < REWARD_NUM"
  shows "rewards_ok pool'"
proof -
  have r: "reward_ok (ps_reward_infos pool ! index)" using assms(2,3) by (rule rewards_ok_nth)
  obtain r' where r': "pool' = pool\<lparr>ps_reward_infos := (ps_reward_infos pool)[index := r']\<rparr>"
      "admin_update now e op en (ps_reward_infos pool ! index) = Inr (r', amount) \<or>
       normal_update now e op en (ps_reward_infos pool ! index) = Inr (r', amount)"
    using assms(1)
    by (auto simp: change_reward_def Let_def fail_Inr and_then_Inr split: if_split_asm)
  then have "reward_ok r'" using admin_update_ok [OF _ r] normal_update_ok [OF _ r] by blast
  then show ?thesis using rewards_ok_update [OF assms(2)] by (simp add: r'(1))
qed

lemma set_reward_params_change:
  assumes "set_reward_params admin epoch now authority os index e op en pool = Inr (pool', amount)"
  obtains pool1 out where "update_reward_infos epoch now pool = Inr (pool1, out)" "index < REWARD_NUM"
    "change_reward (authority \<in> set (os_operation_owners os) \<or> authority = admin)
       now index e op en pool1 = Inr (pool', amount)"
proof -
  let ?k = "\<lambda>x :: pool_state \<times> reward_info list. case x of (pool, _) \<Rightarrow>
      change_reward (authority \<in> set (os_operation_owners os) \<or> authority = admin) now index e op en pool"
  have "index < REWARD_NUM" "and_then (update_reward_infos epoch now pool) ?k = Inr (pool', amount)"
    using assms unfolding set_reward_params_def Let_def require_Inr require_plain_Inr by simp_all
  moreover obtain x where "update_reward_infos epoch now pool = Inr x" "?k x = Inr (pool', amount)"
    using calculation(2) unfolding and_then_Inr by (elim exE conjE)
  ultimately show thesis using that by (cases x) simp
qed

lemma rewards_ok_change:
  assumes "rewards_ok pool" "set_reward_params admin epoch now authority os index e op en pool = Inr (pool', amount)"
    and "\<forall>r \<in> set (ps_reward_infos pool). emission_fits now r"
  shows "rewards_ok pool'"
  using assms(2)
proof (rule set_reward_params_change)
  fix pool1 out
  assume p: "update_reward_infos epoch now pool = Inr (pool1, out)" "index < REWARD_NUM"
    "change_reward (authority \<in> set (os_operation_owners os) \<or> authority = admin) now index e op en pool1
       = Inr (pool', amount)"
  show "rewards_ok pool'" by (rule change_reward_ok [OF p(3) rewards_ok_emit [OF assms(1) p(1) assms(3)] p(2)])
qed

lemma first_uninitialized_less: "first_uninitialized rs = Some i \<Longrightarrow> i < length rs"
  by (induction rs arbitrary: i) (auto split: if_split_asm)

lemma rewards_ok_claim:
  assumes "check_unclaimed_reward pool index owed = Inr ()" "amount \<le> owed"
    and "add_reward_claimed index amount pool = Inr pool'" "rewards_ok pool"
  shows "rewards_ok pool'"
proof -
  let ?r = "ps_reward_infos pool ! index"
  have i: "index < REWARD_NUM" using assms(1) by (simp add: check_unclaimed_reward_def require_Inr)
  have ok: "reward_ok ?r" by (rule rewards_ok_nth [OF assms(4) i])
  have "owed \<le> ri_reward_total_emitted ?r - ri_reward_claimed ?r"
    using assms(1) by (auto simp: check_unclaimed_reward_def res_simps)
  then have "reward_ok (?r\<lparr>ri_reward_claimed := ri_reward_claimed ?r + amount\<rparr>)"
    using assms(2) ok unfolding reward_ok_def by simp linarith
  moreover have "pool' = pool\<lparr>ps_reward_infos := (ps_reward_infos pool)
      [index := ?r\<lparr>ri_reward_claimed := ri_reward_claimed ?r + amount\<rparr>]\<rparr>"
    using assms(3) by (auto simp: add_reward_claimed_def res_simps Let_def)
  ultimately show ?thesis using rewards_ok_update [OF assms(4)] by simp
qed

lemma pool_initialize_reward_update:
  assumes "pool_initialize_reward admin epoch op en e mint freeze vault authority os pool = Inr pool'"
  obtains i where "first_uninitialized (ps_reward_infos pool) = Some i" "mint \<notin> set (List.map ri_token_mint (ps_reward_infos pool))"
    "pool' = pool\<lparr>ps_reward_infos := (ps_reward_infos pool)[i := (ps_reward_infos pool ! i)
       \<lparr>ri_last_update_time := op, ri_open_time := op, ri_end_time := en, ri_emissions_per_second_x64 := e,
        ri_token_mint := mint, ri_token_vault := vault, ri_authority := authority\<rparr>], ps_recent_epoch := epoch\<rparr>"
proof (cases "first_uninitialized (ps_reward_infos pool)")
  case None
  then show ?thesis using assms by (simp add: pool_initialize_reward_def fail_Inr)
next
  case (Some i)
  then show ?thesis
    using assms that unfolding pool_initialize_reward_def Let_def option.case require_Inr and_then_Inr Some
    by (elim conjE exE) simp
qed

lemma rewards_ok_create:
  assumes "pool_initialize_reward admin epoch op en e mint freeze vault authority os pool = Inr pool'"
    and "rewards_ok pool"
  shows "rewards_ok pool'"
  using assms(1)
proof (rule pool_initialize_reward_update)
  fix i
  let ?r = "(ps_reward_infos pool ! i)
       \<lparr>ri_last_update_time := op, ri_open_time := op, ri_end_time := en, ri_emissions_per_second_x64 := e,
        ri_token_mint := mint, ri_token_vault := vault, ri_authority := authority\<rparr>"
  assume i: "first_uninitialized (ps_reward_infos pool) = Some i"
    and p: "pool' = pool\<lparr>ps_reward_infos := (ps_reward_infos pool)[i := ?r], ps_recent_epoch := epoch\<rparr>"
  have "i < REWARD_NUM" using first_uninitialized_less [OF i] assms(2) by (simp add: rewards_ok_def)
  then have "reward_ok ?r" using rewards_ok_nth [OF assms(2)] by (simp add: reward_ok_def)
  then show "rewards_ok pool'" using rewards_ok_update [OF assms(2)] by (simp add: p rewards_ok_def)
qed

lemma reward_step_ok: "reward_step pool pool' \<Longrightarrow> rewards_ok pool \<Longrightarrow> rewards_ok pool'"
  by (erule reward_stepE)
    (blast intro: rewards_ok_emit, blast intro: rewards_ok_claim, blast intro: rewards_ok_create,
     blast intro: rewards_ok_change)

section \<open>Properties\<close>

definition example_reward :: reward_info where
  "example_reward = \<lparr>ri_reward_state = 1, ri_open_time = 1000, ri_end_time = 1000 + MIN_REWARD_PERIOD,
     ri_last_update_time = 1000, ri_emissions_per_second_x64 = 1, ri_reward_total_emitted = 0,
     ri_reward_claimed = 0, ri_token_mint = 5, ri_token_vault = 11, ri_authority = 12,
     ri_reward_growth_global_x64 = 0\<rparr>"

definition example_reward_pool :: pool_state where
  "example_reward_pool = (pool_initialize 0 255 (2 ^ 64) 0 0 1 2 3 (4, undefined) (5, 6) (7, 9) 8 FromInput)
     \<lparr>ps_liquidity := 10 ^ 9, ps_reward_infos := [example_reward, new_reward_info 1, new_reward_info 1]\<rparr>"

lemma example_reward_fits: "\<forall>r \<in> set (ps_reward_infos example_reward_pool). emission_fits 5000 r \<and>
    ri_reward_total_emitted r \<le> U64_MAX"
  by (simp add: example_reward_pool_def example_reward_def new_reward_info_def emission_fits_def
      MIN_REWARD_PERIOD_def)

text \<open>
  The emission of rewards is covered and never blocks the pool: if the emission of the elapsed
  time fits 64 bits, \<open>update_reward_infos\<close> succeeds, the growth per unit of liquidity of each reward
  rises by no more than the tokens it counts as emitted pay for, the terms and the claims are kept,
  and a second update at the same time changes nothing.
\<close>
theorem update_reward_infos_covered:
  assumes "\<forall>r \<in> set (ps_reward_infos pool). emission_fits now r \<and> ri_reward_total_emitted r \<le> U64_MAX"
  shows "\<exists>rs. update_reward_infos epoch now pool = Inr (pool\<lparr>ps_reward_infos := rs, ps_recent_epoch := epoch\<rparr>, rs) \<and>
    list_all2 (\<lambda>r r'. emission_covered (ps_liquidity pool) r r' \<and> same_terms r r') (ps_reward_infos pool) rs \<and>
    update_reward_infos epoch now (pool\<lparr>ps_reward_infos := rs, ps_recent_epoch := epoch\<rparr>)
      = Inr (pool\<lparr>ps_reward_infos := rs, ps_recent_epoch := epoch\<rparr>, rs)"
proof -
  obtain rs where rs: "update_each (ps_liquidity pool) now (ps_reward_infos pool) = Inr rs"
      "update_each (ps_liquidity pool) now rs = Inr rs"
      "list_all2 (\<lambda>r r'. emission_covered (ps_liquidity pool) r r' \<and> (reward_ok r \<longrightarrow> reward_ok r') \<and> same_terms r r')
        (ps_reward_infos pool) rs"
    using update_each_sound [OF assms] by blast
  have "list_all2 (\<lambda>r r'. emission_covered (ps_liquidity pool) r r' \<and> same_terms r r') (ps_reward_infos pool) rs"
    using rs(3) by (rule list_all2_mono) blast
  then show ?thesis using rs by (intro exI [of _ rs]) (simp add: update_reward_infos_def)
qed

theorem update_reward_infos_covered_witness:
  "\<exists>rs. update_reward_infos 3 5000 example_reward_pool
      = Inr (example_reward_pool\<lparr>ps_reward_infos := rs, ps_recent_epoch := 3\<rparr>, rs)"
  using update_reward_infos_covered [OF example_reward_fits, of 3] by blast



text \<open>\<open>n\<close> updates of a reward, one second apart.\<close>

primrec update_each_second :: "nat \<Rightarrow> nat \<Rightarrow> reward_info \<Rightarrow> reward_info res" where
  "update_each_second liquidity 0 r = Inr r"
| "update_each_second liquidity (Suc n) r =
     and_then (update_each_second liquidity n r) (\<lambda>r. update_reward_info liquidity (ri_last_update_time r + 1) r)"

lemma update_one_second:
  assumes "reward_initialized r" "0 < ri_emissions_per_second_x64 r" "ri_emissions_per_second_x64 r \<le> Q64"
    "liquidity \<noteq> 0" "ri_open_time r \<le> ri_last_update_time r" "ri_last_update_time r < ri_end_time r"
    "ri_reward_total_emitted r < U64_MAX"
  shows "\<exists>r'. update_reward_info liquidity (ri_last_update_time r + 1) r = Inr r' \<and>
    ri_reward_total_emitted r' = ri_reward_total_emitted r + 1 \<and>
    ri_last_update_time r' = ri_last_update_time r + 1 \<and> same_terms r r'"
proof -
  let ?e = "ri_emissions_per_second_x64 r"
  have pos: "0 < Q64" by (rule Q64_pos)
  have "ceil_div ?e Q64 \<le> 1" "0 < ceil_div ?e Q64"
    using assms(2,3) ceil_div_le_iff [OF pos, of ?e 1] ceil_div_le_iff [OF pos, of ?e 0] by auto
  then have "ceil_div ?e Q64 = 1" by linarith
  then have ceil: "mul_div_ceil 128 (Suc 0) ?e Q64 = Some 1" by (simp add: mul_div_eq Q64_def)
  have "?e div liquidity \<le> Q64" using assms(3) div_le_dividend [of ?e liquidity] by linarith
  then have small: "(case mul_div_floor 256 (Suc 0) ?e liquidity of Some x \<Rightarrow> x | None \<Rightarrow> 0) < 2 ^ 128"
    by (auto simp: mul_div_floor_Some Q64_def split: option.split)
  have m: "min (Suc (ri_last_update_time r)) (ri_end_time r) = Suc (ri_last_update_time r)" using assms(6) by simp
  have "\<exists>r1. emit_reward liquidity (Suc (ri_last_update_time r)) r = Inr (Some r1) \<and>
      ri_reward_total_emitted r1 = ri_reward_total_emitted r + 1 \<and> same_terms r r1"
    using assms(7) small
    by (simp add: emit_reward_def saturating_sub_def Let_def ceil as_uint_def checked_add_def same_terms_def)
  then show ?thesis
    using assms m by (auto simp: update_reward_info_def Let_def same_terms_def)
qed

text \<open>
  Rounding makes the counted emission exceed the deposit: every update rounds the emitted tokens
  up, so a reward that emits a positive amount of at most one token a second counts one whole token
  per update when it is updated each second, \<open>n\<close> tokens after \<open>n\<close> seconds, while the deposit that was
  required for those \<open>n\<close> seconds is only \<open>n * emissions\<close> divided by \<open>2^64\<close>, rounded up once.
\<close>
theorem reward_rounding_overcount:
  assumes "reward_initialized r" "0 < ri_emissions_per_second_x64 r" "ri_emissions_per_second_x64 r \<le> Q64"
    "liquidity \<noteq> 0" "ri_open_time r \<le> ri_last_update_time r" "ri_last_update_time r + n \<le> ri_end_time r"
    "ri_reward_total_emitted r + n \<le> U64_MAX"
  shows "\<exists>r'. update_each_second liquidity n r = Inr r' \<and>
      ri_reward_total_emitted r' = ri_reward_total_emitted r + n \<and>
      ri_last_update_time r' = ri_last_update_time r + n \<and> same_terms r r' \<and>
      reward_amount_ceil n (ri_emissions_per_second_x64 r) = Inr (ceil_div (n * ri_emissions_per_second_x64 r) Q64)"
proof -
  have "\<exists>r'. update_each_second liquidity n r = Inr r' \<and>
      ri_reward_total_emitted r' = ri_reward_total_emitted r + n \<and>
      ri_last_update_time r' = ri_last_update_time r + n \<and> same_terms r r'"
    using assms(6,7)
  proof (induction n)
    case (Suc n)
    then obtain r1 where r1: "update_each_second liquidity n r = Inr r1"
        "ri_reward_total_emitted r1 = ri_reward_total_emitted r + n"
        "ri_last_update_time r1 = ri_last_update_time r + n" "same_terms r r1" by auto
    have "\<exists>r'. update_reward_info liquidity (ri_last_update_time r1 + 1) r1 = Inr r' \<and>
        ri_reward_total_emitted r' = ri_reward_total_emitted r1 + 1 \<and>
        ri_last_update_time r' = ri_last_update_time r1 + 1 \<and> same_terms r1 r'"
      using r1 Suc.prems assms(1-5)
      by (intro update_one_second) (auto simp: same_terms_def reward_initialized_def)
    then show ?case using r1 by (auto simp: same_terms_def)
  qed (simp add: same_terms_def)
  moreover let ?e = "ri_emissions_per_second_x64 r"
  have "n * ?e \<le> U64_MAX * Q64" using assms(3,7) by (intro mult_mono) auto
  then have "ceil_div (n * ?e) Q64 \<le> U64_MAX" using ceil_div_le_iff [OF Q64_pos] by blast
  then have "reward_amount_ceil n ?e = Inr (ceil_div (n * ?e) Q64)"
    by (simp add: reward_amount_ceil_def mul_div_eq as_uint_def Q64_def)
  ultimately show ?thesis by blast
qed

theorem reward_rounding_overcount_witness:
  "(\<exists>r'. update_each_second (10 ^ 9) 1000 example_reward = Inr r' \<and> ri_reward_total_emitted r' = 1000) \<and>
   reward_amount_ceil 1000 (ri_emissions_per_second_x64 example_reward) = Inr 1"
proof -
  have h: "reward_initialized example_reward" "0 < ri_emissions_per_second_x64 example_reward"
    "ri_emissions_per_second_x64 example_reward \<le> Q64" "(10 :: nat) ^ 9 \<noteq> 0"
    "ri_open_time example_reward \<le> ri_last_update_time example_reward"
    "ri_last_update_time example_reward + 1000 \<le> ri_end_time example_reward"
    "ri_reward_total_emitted example_reward + 1000 \<le> U64_MAX" "ri_reward_total_emitted example_reward = 0"
    by (simp_all add: example_reward_def reward_initialized_def Q64_def MIN_REWARD_PERIOD_def)
  have "ceil_div (1000 * ri_emissions_per_second_x64 example_reward) Q64 = 1"
    by (simp add: ceil_div_def example_reward_def Q64_def)
  then show ?thesis
    using reward_rounding_overcount [OF h(1-7)] h(8) by auto
qed

end
