(* ===== verification/Oracle.thy ===== *)
theory Oracle
  imports Prelude
begin

text \<open>
  \<open>states/oracle.rs\<close>: the ring of the last 100 observations of a pool's tick. The lemmas show that the
  ring implements an unbounded history: it holds the newest entries of that history, newest at
  \<open>observation_index\<close>, each at least 15 seconds after the one before it, and the cumulative ticks of two
  neighbours differ by tick times elapsed time modulo \<open>2 ^ 64\<close>.
\<close>

section \<open>Data and operations\<close>

definition OBSERVATION_NUM :: nat where "OBSERVATION_NUM = 100"
definition OBSERVATION_UPDATE_DURATION_DEFAULT :: nat where "OBSERVATION_UPDATE_DURATION_DEFAULT = 15"

record observation =
  ob_block_timestamp :: nat
  ob_tick_cumulative :: int

record observation_state =
  obs_initialized :: bool
  obs_recent_epoch :: nat
  obs_observation_index :: nat
  obs_pool_id :: nat
  obs_observations :: "observation list"

definition default_observation :: observation where
  "default_observation = \<lparr>ob_block_timestamp = 0, ob_tick_cumulative = 0\<rparr>"

definition observation_initialize :: "nat \<Rightarrow> nat \<Rightarrow> observation_state" where
  "observation_initialize epoch pool_id =
     \<lparr>obs_initialized = False, obs_recent_epoch = epoch, obs_observation_index = 0, obs_pool_id = pool_id,
      obs_observations = replicate OBSERVATION_NUM default_observation\<rparr>"

text \<open>An index outside the array panics.\<close>

definition write_observation :: "nat \<Rightarrow> observation \<Rightarrow> observation_state \<Rightarrow> observation_state res" where
  "write_observation i ob s =
     (if i < length (obs_observations s)
      then Inr (s\<lparr>obs_observations := (obs_observations s)[i := ob]\<rparr>) else Inl Panic)"

definition read_observation :: "nat \<Rightarrow> observation_state \<Rightarrow> observation res" where
  "read_observation i s = (if i < length (obs_observations s) then Inr (obs_observations s ! i) else Inl Panic)"

definition observation_update :: "nat \<Rightarrow> int \<Rightarrow> observation_state \<Rightarrow> observation_state res" where
  "observation_update block_timestamp tick s =
     (let observation_index = obs_observation_index s in
      if \<not> obs_initialized s then
        write_observation observation_index
          \<lparr>ob_block_timestamp = block_timestamp, ob_tick_cumulative = 0\<rparr> (s\<lparr>obs_initialized := True\<rparr>)
      else
        and_then (read_observation observation_index s) (\<lambda>last_observation.
        let delta_time = saturating_sub block_timestamp (ob_block_timestamp last_observation) in
        if delta_time < OBSERVATION_UPDATE_DURATION_DEFAULT then Inr s
        else
          let delta_tick_cumulative = saturate_i 64 (tick * int delta_time);
              next_observation_index =
                (if observation_index = OBSERVATION_NUM - 1 then 0 else observation_index + 1)
          in and_then (write_observation next_observation_index
               \<lparr>ob_block_timestamp = block_timestamp,
                ob_tick_cumulative = wrap_int 64 (ob_tick_cumulative last_observation + delta_tick_cumulative)\<rparr> s)
               (\<lambda>s. Inr (s\<lparr>obs_observation_index := next_observation_index\<rparr>))))"

section \<open>The history it stands for\<close>

text \<open>Newest first.\<close>

fun record_tick :: "nat \<Rightarrow> int \<Rightarrow> observation list \<Rightarrow> observation list" where
  "record_tick now tick [] = [\<lparr>ob_block_timestamp = now, ob_tick_cumulative = 0\<rparr>]"
| "record_tick now tick (newest # older) =
     (if now < ob_block_timestamp newest + 15 then newest # older
      else \<lparr>ob_block_timestamp = now,
            ob_tick_cumulative = wrap_int 64 (ob_tick_cumulative newest
              + tick * (int now - int (ob_block_timestamp newest)))\<rparr> # newest # older)"

definition ring_of :: "observation list \<Rightarrow> observation_state \<Rightarrow> bool" where
  "ring_of h s \<longleftrightarrow> length (obs_observations s) = 100 \<and> obs_observation_index s < 100 \<and>
     (obs_initialized s \<longleftrightarrow> h \<noteq> []) \<and>
     (\<forall>k < min 100 (length h). obs_observations s ! ((obs_observation_index s + 100 - k) mod 100) = h ! k)"

fun spaced :: "observation list \<Rightarrow> bool" where
  "spaced (a # b # h) \<longleftrightarrow> ob_block_timestamp b + 15 \<le> ob_block_timestamp a \<and> spaced (b # h)"
| "spaced h \<longleftrightarrow> True"

lemma ring_of_init: "ring_of [] (observation_initialize epoch pool)"
  by (simp add: ring_of_def observation_initialize_def OBSERVATION_NUM_def)

lemma spaced_record: "spaced h \<Longrightarrow> spaced (record_tick now tick h)"
  by (cases h) auto

lemma tick_delta_fits:
  assumes "fits_i 32 tick" "d < 2 ^ 32"
  shows "saturate_i 64 (tick * int d) = tick * int d"
proof -
  have t: "\<bar>tick\<bar> \<le> 2 ^ 31" using assms(1) by (auto simp: fits_i_def)
  have d: "\<bar>int d\<bar> \<le> 2 ^ 32 - 1" using assms(2) by simp
  have "\<bar>tick * int d\<bar> \<le> 2 ^ 31 * (2 ^ 32 - 1)" unfolding abs_mult by (rule mult_mono [OF t d]) simp_all
  then show ?thesis by (simp add: saturate_i_def)
qed

lemma ring_of_update:
  assumes r: "ring_of h s" and fits: "now < 2 ^ 32" "fits_i 32 tick"
  shows "\<exists>s'. observation_update now tick s = Inr s' \<and> ring_of (record_tick now tick h) s' \<and>
    obs_pool_id s' = obs_pool_id s"
proof (cases h)
  case Nil
  then show ?thesis using r by (simp add: ring_of_def observation_update_def write_observation_def Let_def)
next
  case (Cons newest older)
  let ?i = "obs_observation_index s"
  have len: "length (obs_observations s) = 100" "?i < 100" "obs_initialized s" using r Cons by (auto simp: ring_of_def)
  have at: "\<forall>k < min 100 (length h). obs_observations s ! ((?i + 100 - k) mod 100) = h ! k"
    using r by (simp add: ring_of_def)
  have "obs_observations s ! ((?i + 100 - 0) mod 100) = h ! 0" by (rule at [rule_format]) (simp add: Cons)
  then have newest: "obs_observations s ! ?i = newest" using len Cons by simp
  show ?thesis
  proof (cases "now < ob_block_timestamp newest + 15")
    case True
    then have "now - ob_block_timestamp newest < 15" by linarith
    then show ?thesis
      using True r len Cons newest
      by (simp add: observation_update_def read_observation_def saturating_sub_def Let_def
          OBSERVATION_UPDATE_DURATION_DEFAULT_def)
  next
    case False
    define j where "j = (if ?i = 99 then 0 else ?i + 1)"
    define new where "new = \<lparr>ob_block_timestamp = now, ob_tick_cumulative = wrap_int 64 (ob_tick_cumulative newest
        + tick * (int now - int (ob_block_timestamp newest)))\<rparr>"
    have j: "j < 100" "(j + 100) mod 100 = j" using len(2) by (auto simp: j_def)
    have sat: "saturate_i 64 (tick * int (now - ob_block_timestamp newest))
        = tick * (int now - int (ob_block_timestamp newest))"
      using tick_delta_fits [OF fits(2), of "now - ob_block_timestamp newest"] fits(1) False by (simp add: of_nat_diff)
    have upd: "observation_update now tick s
        = Inr (s\<lparr>obs_observations := (obs_observations s)[j := new], obs_observation_index := j\<rparr>)"
      using False len newest j sat
      by (simp add: observation_update_def read_observation_def write_observation_def saturating_sub_def Let_def
          OBSERVATION_UPDATE_DURATION_DEFAULT_def OBSERVATION_NUM_def j_def new_def)
    have "(obs_observations s)[j := new] ! ((j + 100 - k) mod 100) = (new # h) ! k"
      if "k < min 100 (length (new # h))" for k
    proof (cases k)
      case 0
      then show ?thesis using j len by simp
    next
      case (Suc m)
      have "(j + 100 - k) mod 100 = (?i + 100 - m) mod 100 \<and> (?i + 100 - m) mod 100 \<noteq> j"
        using len(2) that Suc by (auto simp: j_def mod_if)
      moreover have "obs_observations s ! ((?i + 100 - m) mod 100) = h ! m" using at that Suc by simp
      ultimately show ?thesis using Suc by simp
    qed
    then have "ring_of (new # h) (s\<lparr>obs_observations := (obs_observations s)[j := new], obs_observation_index := j\<rparr>)"
      using len j by (simp add: ring_of_def)
    then show ?thesis using upd False Cons by (simp add: new_def)
  qed
qed

section \<open>Properties\<close>

text \<open>A run of updates, oldest first, and the history it gives.\<close>

fun observe_all :: "(nat \<times> int) list \<Rightarrow> observation_state \<Rightarrow> observation_state res" where
  "observe_all [] s = Inr s"
| "observe_all ((now, tick) # us) s = and_then (observation_update now tick s) (observe_all us)"

definition history_of :: "(nat \<times> int) list \<Rightarrow> observation list" where
  "history_of us = fold (\<lambda>(now, tick). record_tick now tick) us []"

lemma observe_all_ring:
  assumes "\<forall>(now, tick) \<in> set us. now < 2 ^ 32 \<and> fits_i 32 tick" "ring_of h s"
  shows "\<exists>s'. observe_all us s = Inr s' \<and> ring_of (fold (\<lambda>(now, tick). record_tick now tick) us h) s' \<and>
    obs_pool_id s' = obs_pool_id s"
  using assms
proof (induction us arbitrary: s h)
  case (Cons u us)
  obtain now tick where u: "u = (now, tick)" by (cases u)
  have fits: "now < 2 ^ 32" "fits_i 32 tick" using Cons.prems(1) by (auto simp: u)
  obtain s1 where s1: "observation_update now tick s = Inr s1" "ring_of (record_tick now tick h) s1"
      "obs_pool_id s1 = obs_pool_id s"
    using ring_of_update [OF Cons.prems(2) fits] by blast
  have "\<forall>(now, tick) \<in> set us. now < 2 ^ 32 \<and> fits_i 32 tick" using Cons.prems(1) by simp
  then show ?case using Cons.IH [OF _ s1(2)] s1 by (simp add: u)
qed simp

lemma history_spaced: "spaced h \<Longrightarrow> spaced (fold (\<lambda>(now, tick). record_tick now tick) us h)"
  by (induction us arbitrary: h) (auto simp: spaced_record)

text \<open>
  C13. The ring of observations refines an unbounded history: after any sequence of updates with 32-bit
  times and ticks, none of which can fail, the account holds the 100 newest entries of the history,
  the newest at \<open>observation_index\<close> and each older one a slot further back around the ring; entries are
  at least 15 seconds apart, and each adds tick times elapsed seconds to the cumulative tick before
  it, modulo \<open>2 ^ 64\<close> (the definition of the history).
\<close>
theorem observations_refine_history:
  assumes "\<forall>(now, tick) \<in> set us. now < 2 ^ 32 \<and> fits_i 32 tick"
  shows "\<exists>s. observe_all us (observation_initialize epoch pool) = Inr s \<and> obs_pool_id s = pool \<and>
    ring_of (history_of us) s \<and> spaced (history_of us)"
proof -
  have "obs_pool_id (observation_initialize epoch pool) = pool" by (simp add: observation_initialize_def)
  moreover have "spaced (history_of us)" unfolding history_of_def by (rule history_spaced) simp
  ultimately show ?thesis
    using observe_all_ring [OF assms ring_of_init, of epoch pool] by (auto simp: history_of_def)
qed

theorem observations_refine_history_witness:
  "\<exists>s. observe_all [(100, 5), (110, 7), (120, - 3)] (observation_initialize 1 9) = Inr s \<and>
     obs_observations s ! obs_observation_index s = \<lparr>ob_block_timestamp = 120, ob_tick_cumulative = - 60\<rparr>"
proof -
  let ?us = "[(100, 5), (110, 7), (120, - 3)] :: (nat \<times> int) list"
  have fits: "\<forall>(now, tick) \<in> set ?us. now < 2 ^ 32 \<and> fits_i 32 tick" by (simp add: fits_i_def)
  obtain s where s: "observe_all ?us (observation_initialize 1 9) = Inr s" "ring_of (history_of ?us) s"
    using observations_refine_history [OF fits, of 1 9] by blast
  have h: "history_of ?us = [\<lparr>ob_block_timestamp = 120, ob_tick_cumulative = - 60\<rparr>,
      \<lparr>ob_block_timestamp = 100, ob_tick_cumulative = 0\<rparr>]"
    by (simp add: history_of_def wrap_int_def)
  have "obs_observation_index s < 100"
    and at: "\<forall>k < min 100 (length (history_of ?us)).
      obs_observations s ! ((obs_observation_index s + 100 - k) mod 100) = history_of ?us ! k"
    using s(2) unfolding ring_of_def by blast+
  then have "obs_observations s ! obs_observation_index s = \<lparr>ob_block_timestamp = 120, ob_tick_cumulative = - 60\<rparr>"
    using at [rule_format, of 0] by (simp add: h)
  then show ?thesis using s(1) by blast
qed

end
