(* ===== verification/Position.thy ===== *)
theory Position
  imports Tick_Array Pool_Reward
begin

text \<open>
  Positions: \<open>states/personal_position.rs\<close>, \<open>states/protocol_position.rs\<close>, and the change of the liquidity
  of a range, which \<open>modify_position\<close> of \<open>open_position.rs\<close> does on the pool and its two ticks. The
  instructions around it are in \<open>Liquidity_Handlers\<close>.
\<close>

section \<open>Personal positions\<close>

record position_reward_info =
  pr_growth_inside_last_x64 :: growth
  pr_reward_amount_owed :: nat

record personal_position_state =
  pp_bump :: nat
  pp_nft_mint :: pubkey
  pp_pool_id :: pubkey
  pp_tick_lower_index :: int
  pp_tick_upper_index :: int
  pp_liquidity :: nat
  pp_fee_growth_inside_0_last_x64 :: growth
  pp_fee_growth_inside_1_last_x64 :: growth
  pp_token_fees_owed_0 :: nat
  pp_token_fees_owed_1 :: nat
  pp_reward_infos :: "position_reward_info list"
  pp_recent_epoch :: nat

definition default_position :: personal_position_state where
  "default_position =
     \<lparr>pp_bump = 0, pp_nft_mint = 0, pp_pool_id = 0, pp_tick_lower_index = 0, pp_tick_upper_index = 0,
      pp_liquidity = 0, pp_fee_growth_inside_0_last_x64 = 0, pp_fee_growth_inside_1_last_x64 = 0,
      pp_token_fees_owed_0 = 0, pp_token_fees_owed_1 = 0,
      pp_reward_infos = replicate REWARD_NUM \<lparr>pr_growth_inside_last_x64 = 0, pr_reward_amount_owed = 0\<rparr>,
      pp_recent_epoch = 0\<rparr>"

definition calculate_latest_token_fees :: "nat \<Rightarrow> growth \<Rightarrow> growth \<Rightarrow> nat \<Rightarrow> nat res" where
  "calculate_latest_token_fees last_total_fees growth_last growth_latest liquidity =
     and_then (ok_or (mul_div_floor 128 (unat (growth_latest - growth_last)) liquidity Q64) CalculateOverflow)
       (\<lambda>delta.
     ok_or (checked_add 64 last_total_fees (to_underflow_u64 delta)) CalculateOverflow)"

text \<open>One slot of the reward loop, and the loop.\<close>

definition update_position_reward ::
  "nat \<Rightarrow> bool \<Rightarrow> growth \<Rightarrow> position_reward_info \<Rightarrow> position_reward_info res" where
  "update_position_reward liquidity add growth_inside r =
     and_then
       (if add then
          and_then (ok_or (mul_div_floor 256 (unat (growth_inside - pr_growth_inside_last_x64 r)) liquidity Q64)
            CalculateOverflow) (\<lambda>delta.
          and_then (ok_or (checked_add 64 (pr_reward_amount_owed r) (to_underflow_u64 delta)) CalculateOverflow)
            (\<lambda>owed. Inr (r\<lparr>pr_reward_amount_owed := owed\<rparr>)))
        else Inr r) (\<lambda>r.
     Inr (r\<lparr>pr_growth_inside_last_x64 := growth_inside\<rparr>))"

fun update_position_rewards ::
  "nat \<Rightarrow> bool \<Rightarrow> growth list \<Rightarrow> position_reward_info list \<Rightarrow> position_reward_info list res" where
  "update_position_rewards liquidity add (g # gs) (r # rs) =
     and_then (update_position_reward liquidity add g r) (\<lambda>r.
     and_then (update_position_rewards liquidity add gs rs) (\<lambda>rs. Inr (r # rs)))"
| "update_position_rewards liquidity add gs rs = Inr rs"

definition update_rewards ::
  "growth list \<Rightarrow> bool \<Rightarrow> nat \<Rightarrow> personal_position_state \<Rightarrow> personal_position_state res" where
  "update_rewards reward_growths_inside add recent_epoch p =
     and_then (update_position_rewards (pp_liquidity p) add reward_growths_inside (pp_reward_infos p)) (\<lambda>rs.
     Inr (p\<lparr>pp_reward_infos := rs, pp_recent_epoch := recent_epoch\<rparr>))"

definition position_initialize ::
  "nat \<Rightarrow> pubkey \<Rightarrow> pubkey \<Rightarrow> int \<Rightarrow> int \<Rightarrow> nat \<Rightarrow> growth \<Rightarrow> growth \<Rightarrow> growth list \<Rightarrow> nat
     \<Rightarrow> personal_position_state \<Rightarrow> personal_position_state res" where
  "position_initialize bump nft_mint pool_id tick_lower_index tick_upper_index liquidity growth_0 growth_1
     reward_growths_inside recent_epoch p =
   and_then (update_rewards reward_growths_inside False recent_epoch
     (p\<lparr>pp_bump := bump, pp_nft_mint := nft_mint, pp_pool_id := pool_id, pp_tick_lower_index := tick_lower_index,
        pp_tick_upper_index := tick_upper_index, pp_fee_growth_inside_0_last_x64 := growth_0,
        pp_fee_growth_inside_1_last_x64 := growth_1, pp_token_fees_owed_0 := 0, pp_token_fees_owed_1 := 0\<rparr>)) (\<lambda>p.
   Inr (p\<lparr>pp_liquidity := liquidity\<rparr>))"

definition update_fee_and_reward ::
  "growth \<Rightarrow> growth \<Rightarrow> growth list \<Rightarrow> nat \<Rightarrow> personal_position_state \<Rightarrow> personal_position_state res" where
  "update_fee_and_reward growth_0 growth_1 reward_growths_inside recent_epoch p =
     and_then (calculate_latest_token_fees (pp_token_fees_owed_0 p) (pp_fee_growth_inside_0_last_x64 p) growth_0
       (pp_liquidity p)) (\<lambda>owed_0.
     and_then (calculate_latest_token_fees (pp_token_fees_owed_1 p) (pp_fee_growth_inside_1_last_x64 p) growth_1
       (pp_liquidity p)) (\<lambda>owed_1.
     update_rewards reward_growths_inside True recent_epoch
       (p\<lparr>pp_token_fees_owed_0 := owed_0, pp_token_fees_owed_1 := owed_1,
          pp_fee_growth_inside_0_last_x64 := growth_0, pp_fee_growth_inside_1_last_x64 := growth_1\<rparr>)))"

definition position_increase_liquidity ::
  "nat \<Rightarrow> growth \<Rightarrow> growth \<Rightarrow> growth list \<Rightarrow> nat \<Rightarrow> personal_position_state \<Rightarrow> personal_position_state res" where
  "position_increase_liquidity liquidity_delta growth_0 growth_1 reward_growths_inside recent_epoch p =
     and_then (update_fee_and_reward growth_0 growth_1 reward_growths_inside recent_epoch p) (\<lambda>p.
     and_then (ok_or (checked_add 128 (pp_liquidity p) liquidity_delta) CalculateOverflow) (\<lambda>liquidity.
     Inr (p\<lparr>pp_liquidity := liquidity\<rparr>)))"

definition position_decrease_liquidity ::
  "nat \<Rightarrow> growth \<Rightarrow> growth \<Rightarrow> growth list \<Rightarrow> nat \<Rightarrow> personal_position_state \<Rightarrow> personal_position_state res" where
  "position_decrease_liquidity liquidity_delta growth_0 growth_1 reward_growths_inside recent_epoch p =
     and_then (update_fee_and_reward growth_0 growth_1 reward_growths_inside recent_epoch p) (\<lambda>p.
     and_then (ok_or (checked_sub (pp_liquidity p) liquidity_delta) CalculateOverflow) (\<lambda>liquidity.
     Inr (p\<lparr>pp_liquidity := liquidity\<rparr>)))"

section \<open>Protocol positions\<close>

record protocol_position_state =
  pt_bump :: nat
  pt_pool_id :: pubkey
  pt_tick_lower_index :: int
  pt_tick_upper_index :: int
  pt_liquidity :: nat
  pt_fee_growth_inside_0_last_x64 :: growth
  pt_fee_growth_inside_1_last_x64 :: growth
  pt_token_fees_owed_0 :: nat
  pt_token_fees_owed_1 :: nat
  pt_reward_growth_inside :: "growth list"
  pt_recent_epoch :: nat

definition protocol_position_update ::
  "nat \<Rightarrow> int \<Rightarrow> int \<Rightarrow> int \<Rightarrow> growth \<Rightarrow> growth \<Rightarrow> growth list
     \<Rightarrow> protocol_position_state \<Rightarrow> protocol_position_state res" where
  "protocol_position_update epoch tick_lower_index tick_upper_index liquidity_delta growth_0 growth_1
     reward_growths_inside p =
   (if pt_liquidity p = 0 \<and> liquidity_delta = 0 then Inr p
    else
      require (tick_lower_index \<ge> MIN_TICK \<and> tick_lower_index \<le> MAX_TICK) TickLowerOverflow
      (require (tick_upper_index \<ge> MIN_TICK \<and> tick_upper_index \<le> MAX_TICK) TickUpperOverflow
      (and_then (ok_or (mul_div_floor 128 (unat (growth_0 - pt_fee_growth_inside_0_last_x64 p)) (pt_liquidity p) Q64)
         CalculateOverflow) (\<lambda>d0.
       and_then (ok_or (mul_div_floor 128 (unat (growth_1 - pt_fee_growth_inside_1_last_x64 p)) (pt_liquidity p) Q64)
         CalculateOverflow) (\<lambda>d1.
       let tokens_owed_0 = to_underflow_u64 d0; tokens_owed_1 = to_underflow_u64 d1 in
       and_then (add_delta (pt_liquidity p) liquidity_delta) (\<lambda>liquidity.
       let p = p\<lparr>pt_liquidity := liquidity, pt_fee_growth_inside_0_last_x64 := growth_0,
                 pt_fee_growth_inside_1_last_x64 := growth_1, pt_tick_lower_index := tick_lower_index,
                 pt_tick_upper_index := tick_upper_index\<rparr> in
       and_then
         (if tokens_owed_0 > 0 \<or> tokens_owed_1 > 0 then
            and_then (ok_or (checked_add 64 (pt_token_fees_owed_0 p) tokens_owed_0) CalculateOverflow) (\<lambda>o0.
            and_then (ok_or (checked_add 64 (pt_token_fees_owed_1 p) tokens_owed_1) CalculateOverflow) (\<lambda>o1.
            Inr (p\<lparr>pt_token_fees_owed_0 := o0, pt_token_fees_owed_1 := o1\<rparr>)))
          else Inr p) (\<lambda>p.
       Inr (p\<lparr>pt_reward_growth_inside := reward_growths_inside, pt_recent_epoch := epoch\<rparr>))))))))"

section \<open>The liquidity of a range\<close>

record liquidity_change =
  lc_amount_0 :: nat
  lc_amount_1 :: nat
  lc_amount_0_transfer_fee :: nat
  lc_amount_1_transfer_fee :: nat
  lc_tick_lower_flipped :: bool
  lc_tick_upper_flipped :: bool
  lc_fee_growth_inside_0_x64 :: growth
  lc_fee_growth_inside_1_x64 :: growth
  lc_reward_growths_inside :: "growth list"

definition default_liquidity_change :: liquidity_change where
  "default_liquidity_change =
     \<lparr>lc_amount_0 = 0, lc_amount_1 = 0, lc_amount_0_transfer_fee = 0, lc_amount_1_transfer_fee = 0,
      lc_tick_lower_flipped = False, lc_tick_upper_flipped = False, lc_fee_growth_inside_0_x64 = 0,
      lc_fee_growth_inside_1_x64 = 0, lc_reward_growths_inside = replicate REWARD_NUM 0\<rparr>"

text \<open>\<open>modify_ticks\<close> is the update of the two ticks, \<open>range_amounts\<close> the amounts of the change and the new
  active liquidity of the pool.\<close>

definition modify_ticks ::
  "int \<Rightarrow> reward_info list \<Rightarrow> pool_state \<Rightarrow> tick_state \<Rightarrow> tick_state
     \<Rightarrow> (tick_state \<times> bool \<times> tick_state \<times> bool) res" where
  "modify_ticks liquidity_delta reward_infos pool lower upper =
     (if liquidity_delta \<noteq> 0 then
        and_then (tick_update (ps_tick_current pool) liquidity_delta (ps_fee_growth_global_0_x64 pool)
          (ps_fee_growth_global_1_x64 pool) False reward_infos lower) (\<lambda>(lower, flipped_lower).
        and_then (tick_update (ps_tick_current pool) liquidity_delta (ps_fee_growth_global_0_x64 pool)
          (ps_fee_growth_global_1_x64 pool) True reward_infos upper) (\<lambda>(upper, flipped_upper).
        Inr (lower, flipped_lower, upper, flipped_upper)))
      else Inr (lower, False, upper, False))"

definition range_amounts ::
  "int \<Rightarrow> pool_state \<Rightarrow> int \<Rightarrow> int \<Rightarrow> (pool_state \<times> nat \<times> nat) res" where
  "range_amounts liquidity_delta pool tick_lower tick_upper =
     (if liquidity_delta \<noteq> 0 then
        and_then (get_delta_amounts_signed (ps_tick_current pool) (ps_sqrt_price_x64 pool) tick_lower tick_upper
          liquidity_delta) (\<lambda>(amount_0, amount_1).
        if ps_tick_current pool \<ge> tick_lower \<and> ps_tick_current pool < tick_upper then
          and_then (add_delta (ps_liquidity pool) liquidity_delta) (\<lambda>liquidity.
          Inr (pool\<lparr>ps_liquidity := liquidity\<rparr>, amount_0, amount_1))
        else Inr (pool, amount_0, amount_1))
      else Inr (pool, 0, 0))"

definition modify_position ::
  "nat \<Rightarrow> nat \<Rightarrow> int \<Rightarrow> pool_state \<Rightarrow> tick_state \<Rightarrow> tick_state
     \<Rightarrow> (pool_state \<times> tick_state \<times> tick_state \<times> liquidity_change) res" where
  "modify_position epoch timestamp liquidity_delta pool lower upper =
     and_then (update_reward_infos epoch timestamp pool) (\<lambda>(pool, reward_infos).
     and_then (modify_ticks liquidity_delta reward_infos pool lower upper)
       (\<lambda>(lower, flipped_lower, upper, flipped_upper).
     let (growth_0, growth_1) = get_fee_growth_inside lower upper (ps_tick_current pool)
           (ps_fee_growth_global_0_x64 pool) (ps_fee_growth_global_1_x64 pool);
         reward_growths = get_reward_growths_inside lower upper (ps_tick_current pool) reward_infos;
         lower = (if liquidity_delta < 0 \<and> flipped_lower then tick_clear lower else lower);
         upper = (if liquidity_delta < 0 \<and> flipped_upper then tick_clear upper else upper)
     in and_then (range_amounts liquidity_delta pool (t_tick lower) (t_tick upper)) (\<lambda>(pool, amount_0, amount_1).
        Inr (pool, lower, upper,
          \<lparr>lc_amount_0 = amount_0, lc_amount_1 = amount_1, lc_amount_0_transfer_fee = 0,
           lc_amount_1_transfer_fee = 0, lc_tick_lower_flipped = flipped_lower,
           lc_tick_upper_flipped = flipped_upper, lc_fee_growth_inside_0_x64 = growth_0,
           lc_fee_growth_inside_1_x64 = growth_1, lc_reward_growths_inside = reward_growths\<rparr>))))"

end
