(* ===== verification/Liquidity_Handlers.thy ===== *)
theory Liquidity_Handlers
  imports Position
begin

text \<open>
  The instructions on positions: \<open>open_position.rs\<close>, \<open>increase_liquidity.rs\<close>, \<open>decrease_liquidity.rs\<close> and
  \<open>close_position.rs\<close>. The accounts an instruction writes are a record: the pool, the tick arrays by address
  (the lower and the upper array may be one account) and the bitmap extension. A token transfer is the
  amount transferred, which the handlers return; minting, burning and metadata of the position's NFT are not
  modelled, nor are the emitted events.
\<close>

section \<open>Transfer fees\<close>

text \<open>A mint of the classic token program, or one without the fee extension, is \<open>None\<close>. The arithmetic of
  the extension belongs to the token program: \<open>tf_calculate_fee\<close> and \<open>tf_calculate_inverse_fee\<close> are its
  functions for the current epoch, arguments of the model.\<close>

record transfer_fee_config =
  tf_transfer_fee_basis_points :: nat
  tf_maximum_fee :: nat
  tf_calculate_fee :: "nat \<Rightarrow> nat option"
  tf_calculate_inverse_fee :: "nat \<Rightarrow> nat option"

type_synonym mint = "transfer_fee_config option"

definition MAX_FEE_BASIS_POINTS :: nat where "MAX_FEE_BASIS_POINTS = 10000"

definition get_transfer_inverse_fee :: "mint \<Rightarrow> nat \<Rightarrow> nat res" where
  "get_transfer_inverse_fee mint post_fee_amount =
     (case mint of
        None \<Rightarrow> Inr 0
      | Some config \<Rightarrow>
          if tf_transfer_fee_basis_points config = MAX_FEE_BASIS_POINTS then Inr (tf_maximum_fee config)
          else
            and_then (ok_or (tf_calculate_inverse_fee config post_fee_amount) CalculateOverflow) (\<lambda>fee.
            and_then (ok_or (checked_add 64 post_fee_amount fee) CalculateOverflow) (\<lambda>pre_fee_amount.
            and_then (ok_or (tf_calculate_fee config pre_fee_amount) CalculateOverflow) (\<lambda>fee_for_check.
            require (fee = fee_for_check) TransferFeeCalculateNotMatch (Inr fee)))))"

definition get_transfer_fee :: "mint \<Rightarrow> nat \<Rightarrow> nat res" where
  "get_transfer_fee mint pre_fee_amount =
     (case mint of
        None \<Rightarrow> Inr 0
      | Some config \<Rightarrow> ok_or (tf_calculate_fee config pre_fee_amount) CalculateOverflow)"

text \<open>The first version of an instruction passes no mint, and then no fee is asked for.\<close>

definition optional_fee :: "(mint \<Rightarrow> nat \<Rightarrow> nat res) \<Rightarrow> mint option \<Rightarrow> nat \<Rightarrow> nat res" where
  "optional_fee fee mint amount = (case mint of None \<Rightarrow> Inr 0 | Some m \<Rightarrow> fee m amount)"

section \<open>Accounts\<close>

record liquidity_accounts =
  la_pool_key :: pubkey
  la_pool :: pool_state
  la_arrays :: "pubkey \<Rightarrow> tick_array_state"
  la_extension :: extension_account

definition update_array ::
  "pubkey \<Rightarrow> (tick_array_state \<Rightarrow> tick_array_state res) \<Rightarrow> liquidity_accounts \<Rightarrow> liquidity_accounts res" where
  "update_array key f acc =
     and_then (f (la_arrays acc key)) (\<lambda>ta. Inr (acc\<lparr>la_arrays := (la_arrays acc)(key := ta)\<rparr>))"

definition flip_flag :: "pubkey \<Rightarrow> int \<Rightarrow> liquidity_accounts \<Rightarrow> liquidity_accounts res" where
  "flip_flag extension_key start_index acc =
     and_then (flip_tick_array_bit extension_key (la_extension acc) start_index (la_pool acc)) (\<lambda>(pool, touched).
     Inr (acc\<lparr>la_pool := pool,
        la_extension := (case touched of None \<Rightarrow> la_extension acc | Some e \<Rightarrow> Some (extension_key, Inr e))\<rparr>))"

text \<open>The count of initialized ticks of an array, and the flag of the array when it leaves or reaches 0.\<close>

definition count_tick_up :: "pubkey \<Rightarrow> pubkey \<Rightarrow> liquidity_accounts \<Rightarrow> liquidity_accounts res" where
  "count_tick_up extension_key key acc =
     (let before = ta_initialized_tick_count (la_arrays acc key) in
      and_then (update_array key (update_initialized_tick_count True) acc) (\<lambda>acc.
      if before = 0 then flip_flag extension_key (ta_start_tick_index (la_arrays acc key)) acc else Inr acc))"

definition count_tick_down :: "pubkey \<Rightarrow> pubkey \<Rightarrow> liquidity_accounts \<Rightarrow> liquidity_accounts res" where
  "count_tick_down extension_key key acc =
     and_then (update_array key (update_initialized_tick_count False) acc) (\<lambda>acc.
     if ta_initialized_tick_count (la_arrays acc key) = 0
     then flip_flag extension_key (ta_start_tick_index (la_arrays acc key)) acc else Inr acc)"

section \<open>Adding liquidity\<close>

definition choose_liquidity ::
  "mint option \<Rightarrow> mint option \<Rightarrow> nat \<Rightarrow> nat \<Rightarrow> nat \<Rightarrow> int \<Rightarrow> int \<Rightarrow> bool \<Rightarrow> nat res" where
  "choose_liquidity vault_0_mint vault_1_mint sqrt_price_x64 amount_0_max amount_1_max tick_lower_index
     tick_upper_index base_flag =
   (if base_flag then
      and_then (ok_or vault_0_mint MissingMintAccount) (\<lambda>mint.
      and_then (get_transfer_fee mint amount_0_max) (\<lambda>fee.
      and_then (get_sqrt_price_at_tick tick_lower_index) (\<lambda>price_lower.
      and_then (get_sqrt_price_at_tick tick_upper_index) (\<lambda>price_upper.
      and_then (ok_or (checked_sub amount_0_max fee) CalculateOverflow) (\<lambda>amount.
      get_liquidity_from_single_amount_0 sqrt_price_x64 price_lower price_upper amount)))))
    else
      and_then (ok_or vault_1_mint MissingMintAccount) (\<lambda>mint.
      and_then (get_transfer_fee mint amount_1_max) (\<lambda>fee.
      and_then (get_sqrt_price_at_tick tick_lower_index) (\<lambda>price_lower.
      and_then (get_sqrt_price_at_tick tick_upper_index) (\<lambda>price_upper.
      and_then (ok_or (checked_sub amount_1_max fee) CalculateOverflow) (\<lambda>amount.
      get_liquidity_from_single_amount_1 sqrt_price_x64 price_lower price_upper amount))))))"

definition name_tick :: "int \<Rightarrow> tick_state \<Rightarrow> tick_state" where
  "name_tick tick_index t = (if t_tick t = 0 then t\<lparr>t_tick := tick_index\<rparr> else t)"

definition i128_from :: "nat \<Rightarrow> int res" where
  "i128_from n = ok_or (checked_i 128 (int n)) CalculateOverflow"

text \<open>The position change on the accounts: \<open>create\<close> tells the deposit (ticks named, counts raised) from the
  withdrawal (counts lowered).\<close>

definition change_range ::
  "bool \<Rightarrow> nat \<Rightarrow> nat \<Rightarrow> pubkey \<Rightarrow> pubkey \<Rightarrow> pubkey \<Rightarrow> int \<Rightarrow> int \<Rightarrow> nat \<Rightarrow> liquidity_accounts
     \<Rightarrow> (liquidity_accounts \<times> liquidity_change) res" where
  "change_range create epoch timestamp extension_key lower_key upper_key tick_lower_index tick_upper_index
     liquidity acc =
   require_plain (ta_pool_id (la_arrays acc lower_key) = la_pool_key acc)
   (require_plain (ta_pool_id (la_arrays acc upper_key) = la_pool_key acc)
   (let spacing = ps_tick_spacing (la_pool acc); name = (if create then name_tick else (\<lambda>_ t. t)) in
    and_then (get_tick_state (la_arrays acc lower_key) tick_lower_index spacing) (\<lambda>lower.
    and_then (get_tick_state (la_arrays acc upper_key) tick_upper_index spacing) (\<lambda>upper.
    and_then (i128_from liquidity) (\<lambda>l.
    and_then (modify_position epoch timestamp (if create then l else - l) (la_pool acc) (name tick_lower_index lower)
      (name tick_upper_index upper)) (\<lambda>(pool, lower, upper, change).
    and_then (update_array lower_key (update_tick_state epoch tick_lower_index spacing lower) (acc\<lparr>la_pool := pool\<rparr>))
      (\<lambda>acc.
    and_then (update_array upper_key (update_tick_state epoch tick_upper_index spacing upper) acc) (\<lambda>acc.
    and_then
      (if lc_tick_lower_flipped change
       then (if create then count_tick_up else count_tick_down) extension_key lower_key acc else Inr acc) (\<lambda>acc.
    and_then
      (if lc_tick_upper_flipped change
       then (if create then count_tick_up else count_tick_down) extension_key upper_key acc else Inr acc) (\<lambda>acc.
    Inr (acc, change)))))))))))"

text \<open>\<open>add_liquidity\<close> returns the accounts, the liquidity, the change and the two amounts transferred to
  the vaults.\<close>

definition add_liquidity ::
  "nat \<Rightarrow> nat \<Rightarrow> pubkey \<Rightarrow> mint option \<Rightarrow> mint option \<Rightarrow> pubkey \<Rightarrow> pubkey \<Rightarrow> nat \<Rightarrow> nat \<Rightarrow> nat \<Rightarrow> int \<Rightarrow> int
     \<Rightarrow> bool option \<Rightarrow> liquidity_accounts \<Rightarrow> (liquidity_accounts \<times> nat \<times> liquidity_change \<times> nat \<times> nat) res" where
  "add_liquidity epoch timestamp extension_key vault_0_mint vault_1_mint lower_key upper_key liquidity amount_0_max
     amount_1_max tick_lower_index tick_upper_index base_flag acc =
   (if liquidity = 0 \<and> base_flag = None then Inr (acc, 0, default_liquidity_change, 0, 0)
    else
      and_then
        (if liquidity = 0
         then choose_liquidity vault_0_mint vault_1_mint (ps_sqrt_price_x64 (la_pool acc)) amount_0_max amount_1_max
           tick_lower_index tick_upper_index (base_flag = Some True)
         else Inr liquidity) (\<lambda>liquidity.
      require (liquidity > 0) ZeroLiquidity
      (and_then (change_range True epoch timestamp extension_key lower_key upper_key tick_lower_index tick_upper_index
         liquidity acc) (\<lambda>(acc, change).
       require (lc_amount_0 change > 0 \<or> lc_amount_1 change > 0) ForbidBothZeroForSupplyLiquidity
       (and_then (optional_fee get_transfer_inverse_fee vault_0_mint (lc_amount_0 change)) (\<lambda>fee_0.
        and_then (optional_fee get_transfer_inverse_fee vault_1_mint (lc_amount_1 change)) (\<lambda>fee_1.
        let change = change\<lparr>lc_amount_0_transfer_fee := fee_0, lc_amount_1_transfer_fee := fee_1\<rparr> in
        and_then (add_u 64 (lc_amount_0 change) fee_0) (\<lambda>deposit_0.
        require (amount_0_max \<ge> deposit_0) PriceSlippageCheck
        (and_then (add_u 64 (lc_amount_1 change) fee_1) (\<lambda>deposit_1.
         require (amount_1_max \<ge> deposit_1) PriceSlippageCheck
         (Inr (acc, liquidity, change, deposit_0, deposit_1))))))))))))"

text \<open>The extension is taken from the first remaining account only when it is needed; an index into an
  empty list panics.\<close>

definition needed_extension ::
  "bool \<Rightarrow> pubkey \<Rightarrow> (pubkey \<times> bitmap_extension res) list \<Rightarrow> extension_account res" where
  "needed_extension needed extension_key remaining =
     (if needed then
        (case remaining of
           [] \<Rightarrow> Inl Panic
         | account # _ \<Rightarrow> require_plain (fst account = extension_key) (Inr (Some account)))
      else Inr None)"

text \<open>The entry points refuse a zero liquidity without a base flag.\<close>

definition increase_liquidity ::
  "nat \<Rightarrow> nat \<Rightarrow> pubkey \<Rightarrow> mint option \<Rightarrow> mint option \<Rightarrow> pubkey \<Rightarrow> pubkey
     \<Rightarrow> (pubkey \<times> bitmap_extension res) list \<Rightarrow> nat \<Rightarrow> nat \<Rightarrow> nat \<Rightarrow> bool option
     \<Rightarrow> personal_position_state \<Rightarrow> liquidity_accounts
     \<Rightarrow> (personal_position_state \<times> liquidity_accounts \<times> nat \<times> nat) res" where
  "increase_liquidity epoch timestamp extension_key vault_0_mint vault_1_mint lower_key upper_key remaining liquidity
     amount_0_max amount_1_max base_flag p acc =
   (if \<not> get_status_by_bit (la_pool acc) OpenPositionOrIncreaseLiquidity then fail NotApproved
    else
      and_then (is_overflow_default_tickarray_bitmap (la_pool acc) [pp_tick_lower_index p, pp_tick_upper_index p])
        (\<lambda>needed.
      and_then (needed_extension needed extension_key remaining) (\<lambda>extension.
      and_then (add_liquidity epoch timestamp extension_key vault_0_mint vault_1_mint lower_key upper_key liquidity
        amount_0_max amount_1_max (pp_tick_lower_index p) (pp_tick_upper_index p) base_flag
        (acc\<lparr>la_extension := extension\<rparr>)) (\<lambda>(acc, liquidity, change, deposit_0, deposit_1).
      and_then (position_increase_liquidity liquidity (lc_fee_growth_inside_0_x64 change)
        (lc_fee_growth_inside_1_x64 change) (lc_reward_growths_inside change) epoch p) (\<lambda>p.
      Inr (p, acc, deposit_0, deposit_1))))))"

definition increase_liquidity_entry :: "nat \<Rightarrow> 'a res \<Rightarrow> 'a res" where
  "increase_liquidity_entry liquidity k = require_plain (liquidity > 0) k"

definition increase_liquidity_v2_entry :: "nat \<Rightarrow> bool option \<Rightarrow> 'a res \<Rightarrow> 'a res" where
  "increase_liquidity_v2_entry liquidity base_flag k =
     (if liquidity = 0 then require (base_flag \<noteq> None) MissingBaseFlag k else k)"

section \<open>Opening a position\<close>

text \<open>\<open>get_or_create_tick_array\<close>: \<open>fresh key\<close> says that the account is still owned by the system program,
  \<open>array_address\<close> derives the address of an array.\<close>

definition get_or_create_tick_array ::
  "(int \<Rightarrow> pubkey) \<Rightarrow> (pubkey \<Rightarrow> bool) \<Rightarrow> nat \<Rightarrow> pubkey \<Rightarrow> int \<Rightarrow> liquidity_accounts
     \<Rightarrow> liquidity_accounts res" where
  "get_or_create_tick_array array_address fresh epoch key start_index acc =
     and_then (check_is_valid_start_index start_index (ps_tick_spacing (la_pool acc))) (\<lambda>valid.
     require valid InvalidTickIndex
     (if fresh key then
        require_plain (array_address start_index = key)
        (update_array key (\<lambda>_. tick_array_initialize epoch start_index (ps_tick_spacing (la_pool acc))
           (la_pool_key acc) default_tick_array_state) acc)
      else Inr acc))"

definition open_position ::
  "(int \<Rightarrow> pubkey) \<Rightarrow> (pubkey \<Rightarrow> bool) \<Rightarrow> nat \<Rightarrow> nat \<Rightarrow> nat \<Rightarrow> pubkey \<Rightarrow> pubkey \<Rightarrow> mint option \<Rightarrow> mint option
     \<Rightarrow> pubkey \<Rightarrow> pubkey \<Rightarrow> (pubkey \<times> bitmap_extension res) list \<Rightarrow> nat \<Rightarrow> nat \<Rightarrow> nat \<Rightarrow> int \<Rightarrow> int \<Rightarrow> int \<Rightarrow> int
     \<Rightarrow> bool option \<Rightarrow> liquidity_accounts \<Rightarrow> (personal_position_state \<times> liquidity_accounts \<times> nat \<times> nat) res" where
  "open_position array_address fresh epoch timestamp bump nft_mint extension_key vault_0_mint vault_1_mint
     lower_key upper_key remaining liquidity amount_0_max amount_1_max tick_lower_index tick_upper_index
     lower_start upper_start base_flag acc =
   (if \<not> get_status_by_bit (la_pool acc) OpenPositionOrIncreaseLiquidity then fail NotApproved
    else
      let spacing = ps_tick_spacing (la_pool acc) in
      and_then (check_ticks_order tick_lower_index tick_upper_index) (\<lambda>_.
      and_then (check_tick_array_start_index lower_start tick_lower_index spacing) (\<lambda>_.
      and_then (check_tick_array_start_index upper_start tick_upper_index spacing) (\<lambda>_.
      and_then (get_or_create_tick_array array_address fresh epoch lower_key lower_start acc) (\<lambda>acc.
      and_then (if lower_start = upper_start then Inr acc
        else get_or_create_tick_array array_address fresh epoch upper_key upper_start acc) (\<lambda>acc.
      and_then (is_overflow_default_tickarray_bitmap (la_pool acc) [lower_start, upper_start]) (\<lambda>needed.
      and_then (needed_extension needed extension_key remaining) (\<lambda>extension.
      and_then (add_liquidity epoch timestamp extension_key vault_0_mint vault_1_mint lower_key upper_key liquidity
        amount_0_max amount_1_max tick_lower_index tick_upper_index base_flag (acc\<lparr>la_extension := extension\<rparr>))
        (\<lambda>(acc, liquidity, change, deposit_0, deposit_1).
      and_then (position_initialize bump nft_mint (la_pool_key acc) tick_lower_index tick_upper_index liquidity
        (lc_fee_growth_inside_0_x64 change) (lc_fee_growth_inside_1_x64 change) (lc_reward_growths_inside change)
        epoch default_position) (\<lambda>p.
      Inr (p, acc, deposit_0, deposit_1)))))))))))"

section \<open>Removing liquidity\<close>

definition burn_liquidity ::
  "nat \<Rightarrow> nat \<Rightarrow> pubkey \<Rightarrow> pubkey \<Rightarrow> pubkey \<Rightarrow> int \<Rightarrow> int \<Rightarrow> nat \<Rightarrow> liquidity_accounts
     \<Rightarrow> (liquidity_accounts \<times> liquidity_change) res" where
  "burn_liquidity epoch timestamp extension_key lower_key upper_key tick_lower_index tick_upper_index liquidity acc =
     change_range False epoch timestamp extension_key lower_key upper_key tick_lower_index tick_upper_index
       liquidity acc"

definition decrease_liquidity_and_update_position ::
  "nat \<Rightarrow> nat \<Rightarrow> pubkey \<Rightarrow> pubkey \<Rightarrow> pubkey \<Rightarrow> nat \<Rightarrow> personal_position_state \<Rightarrow> liquidity_accounts
     \<Rightarrow> (personal_position_state \<times> liquidity_accounts \<times> nat \<times> nat \<times> nat \<times> nat) res" where
  "decrease_liquidity_and_update_position epoch timestamp extension_key lower_key upper_key liquidity p acc =
     and_then
       (if get_status_by_bit (la_pool acc) DecreaseLiquidity then
          and_then (burn_liquidity epoch timestamp extension_key lower_key upper_key (pp_tick_lower_index p)
            (pp_tick_upper_index p) liquidity acc) (\<lambda>(acc, change).
          and_then (position_decrease_liquidity liquidity (lc_fee_growth_inside_0_x64 change)
            (lc_fee_growth_inside_1_x64 change) (lc_reward_growths_inside change) epoch p) (\<lambda>p.
          Inr (p, acc, lc_amount_0 change, lc_amount_1 change)))
        else Inr (p, acc, 0, 0)) (\<lambda>(p, acc, amount_0, amount_1).
     if get_status_by_bit (la_pool acc) CollectFee
     then Inr (p\<lparr>pp_token_fees_owed_0 := 0, pp_token_fees_owed_1 := 0\<rparr>, acc,
            amount_0, pp_token_fees_owed_0 p, amount_1, pp_token_fees_owed_1 p)
     else Inr (p, acc, amount_0, 0, amount_1, 0))"

text \<open>A group of reward accounts: the vault with its mint and balance, and the mint of the recipient.\<close>

record reward_group =
  rg_vault_key :: pubkey
  rg_vault_mint :: pubkey
  rg_vault_amount :: nat
  rg_recipient_mint :: pubkey

definition check_required_accounts_length :: "pool_state \<Rightarrow> nat \<Rightarrow> nat \<Rightarrow> unit res" where
  "check_required_accounts_length pool accounts_len group_account_num =
     (let valid_reward_count = length (List.filter reward_initialized (ps_reward_infos pool)) in
      if accounts_len \<noteq> valid_reward_count * group_account_num then fail InvalidRewardInputAccountNumber
      else Inr ())"

text \<open>One round of the loop; it returns the position, the pool and the amount transferred.\<close>

definition collect_reward ::
  "nat \<Rightarrow> reward_group \<Rightarrow> personal_position_state \<Rightarrow> pool_state \<Rightarrow> (personal_position_state \<times> pool_state \<times> nat) res"
  where
  "collect_reward i g p pool =
     require_plain (rg_vault_mint g = rg_recipient_mint g)
     (if \<not> i < length (ps_reward_infos pool) then Inl Panic
      else
        require_plain (rg_vault_key g = ri_token_vault (ps_reward_infos pool ! i))
        (let r = pp_reward_infos p ! i; owed = pr_reward_amount_owed r in
         if owed = 0 then Inr (p, pool, 0)
         else
           and_then (check_unclaimed_reward pool i owed) (\<lambda>_.
           let transfer_amount = (if owed > rg_vault_amount g then rg_vault_amount g else owed) in
           if transfer_amount > 0 then
             and_then (ok_or (checked_sub owed transfer_amount) CalculateOverflow) (\<lambda>left.
             and_then (add_reward_claimed i transfer_amount pool) (\<lambda>pool.
             Inr (p\<lparr>pp_reward_infos := (pp_reward_infos p)[i := r\<lparr>pr_reward_amount_owed := left\<rparr>]\<rparr>,
                  pool, transfer_amount)))
           else Inr (p, pool, transfer_amount))))"

fun collect_reward_groups ::
  "nat \<Rightarrow> reward_group list \<Rightarrow> personal_position_state \<Rightarrow> pool_state
     \<Rightarrow> (personal_position_state \<times> pool_state \<times> nat list) res" where
  "collect_reward_groups i [] p pool = Inr (p, pool, [])"
| "collect_reward_groups i (g # gs) p pool =
     and_then (collect_reward i g p pool) (\<lambda>(p, pool, amount).
     and_then (collect_reward_groups (i + 1) gs p pool) (\<lambda>(p, pool, amounts).
     Inr (p, pool, amount # amounts)))"

text \<open>\<open>groups\<close> are the whole groups of the remaining accounts, \<open>accounts_len\<close> their number.\<close>

definition collect_rewards ::
  "nat \<Rightarrow> reward_group list \<Rightarrow> bool \<Rightarrow> personal_position_state \<Rightarrow> pool_state
     \<Rightarrow> (personal_position_state \<times> pool_state \<times> nat list) res" where
  "collect_rewards accounts_len groups need_reward_mint p pool =
     (if \<not> get_status_by_bit pool CollectReward then Inr (p, pool, replicate REWARD_NUM 0)
      else
        and_then (check_required_accounts_length pool accounts_len (if need_reward_mint then 3 else 2)) (\<lambda>_.
        collect_reward_groups 0 groups p pool))"

definition decrease_liquidity ::
  "nat \<Rightarrow> nat \<Rightarrow> pubkey \<Rightarrow> mint option \<Rightarrow> mint option \<Rightarrow> pubkey \<Rightarrow> pubkey \<Rightarrow> extension_account
     \<Rightarrow> nat \<Rightarrow> reward_group list \<Rightarrow> bool \<Rightarrow> nat \<Rightarrow> nat \<Rightarrow> nat \<Rightarrow> personal_position_state \<Rightarrow> liquidity_accounts
     \<Rightarrow> (personal_position_state \<times> liquidity_accounts \<times> nat \<times> nat \<times> nat list) res" where
  "decrease_liquidity epoch timestamp extension_key vault_0_mint vault_1_mint lower_key upper_key extension
     accounts_len groups need_reward_mint liquidity amount_0_min amount_1_min p acc =
   require_plain (pp_liquidity p \<ge> liquidity)
   (if \<not> get_status_by_bit (la_pool acc) DecreaseLiquidity \<and> \<not> get_status_by_bit (la_pool acc) CollectFee \<and>
       \<not> get_status_by_bit (la_pool acc) CollectReward then fail NotApproved
    else
      and_then (is_overflow_default_tickarray_bitmap (la_pool acc)
        [ta_start_tick_index (la_arrays acc lower_key), ta_start_tick_index (la_arrays acc upper_key)]) (\<lambda>needed.
      require (needed \<longrightarrow> extension \<noteq> None) MissingTickArrayBitmapExtensionAccount
      (and_then (decrease_liquidity_and_update_position epoch timestamp extension_key lower_key upper_key liquidity p
         (acc\<lparr>la_extension := extension\<rparr>)) (\<lambda>(p, acc, amount_0, fees_0, amount_1, fees_1).
       and_then (optional_fee get_transfer_fee vault_0_mint amount_0) (\<lambda>transfer_fee_0.
       and_then (optional_fee get_transfer_fee vault_1_mint amount_1) (\<lambda>transfer_fee_1.
       and_then
         (if liquidity > 0 then
            and_then (sub_u amount_0 transfer_fee_0) (\<lambda>net_0.
            require (net_0 \<ge> amount_0_min) PriceSlippageCheck
            (and_then (sub_u amount_1 transfer_fee_1) (\<lambda>net_1.
             require (net_1 \<ge> amount_1_min) PriceSlippageCheck (Inr ()))))
          else Inr ()) (\<lambda>_.
       and_then (add_u 64 amount_0 fees_0) (\<lambda>transfer_0.
       and_then (add_u 64 amount_1 fees_1) (\<lambda>transfer_1.
       and_then (collect_rewards accounts_len groups need_reward_mint p (la_pool acc)) (\<lambda>(p, pool, rewards).
       Inr (p, acc\<lparr>la_pool := pool\<rparr>, transfer_0, transfer_1, rewards)))))))))))"

text \<open>\<open>close_position\<close> before it burns the NFT.\<close>

definition close_position :: "personal_position_state \<Rightarrow> unit res" where
  "close_position p =
     (if pp_liquidity p \<noteq> 0 \<or> pp_token_fees_owed_0 p \<noteq> 0 \<or> pp_token_fees_owed_1 p \<noteq> 0 then fail ClosePositionErr
      else if \<exists>r \<in> set (pp_reward_infos p). pr_reward_amount_owed r \<noteq> 0 then fail ClosePositionErr
      else Inr ())"

end
