(* ===== verification/Swap_State.thy ===== *)
theory Swap_State
  imports Swap_Math Pool_State Amm_Config
begin

text \<open>
  The running state of a swap, \<open>SwapState\<close> of \<open>instructions/swap.rs\<close>: the amounts, the split of the fees,
  the target price of a step, and the tick-spacing index that drives the dynamic fee.
\<close>

record swap_state =
  sw_amount_specified_remaining :: nat
  sw_amount_calculated :: nat
  sw_sqrt_price_x64 :: nat
  sw_tick :: int
  sw_fee_growth_global_x64 :: growth
  sw_lp_fee :: nat
  sw_protocol_fee :: nat
  sw_fund_fee :: nat
  sw_liquidity :: nat
  sw_sqrt_price_next_x64 :: nat
  sw_tick_next :: int
  sw_tick_spacing :: nat
  sw_base_fee_rate :: nat
  sw_tick_spacing_index :: int
  sw_dynamic_fee_info :: "dynamic_fee_info option"

definition swap_state_new :: "pool_state \<Rightarrow> nat \<Rightarrow> nat \<Rightarrow> bool \<Rightarrow> nat \<Rightarrow> swap_state res" where
  "swap_state_new pool amount_specified base_fee_rate zero_for_one block_timestamp =
     (let state = \<lparr>sw_amount_specified_remaining = amount_specified, sw_amount_calculated = 0,
        sw_sqrt_price_x64 = ps_sqrt_price_x64 pool, sw_tick = ps_tick_current pool,
        sw_fee_growth_global_x64 =
          (if is_fee_on_token0 (ps_fee_on pool) zero_for_one then ps_fee_growth_global_0_x64 pool
           else ps_fee_growth_global_1_x64 pool),
        sw_lp_fee = 0, sw_protocol_fee = 0, sw_fund_fee = 0, sw_liquidity = ps_liquidity pool,
        sw_sqrt_price_next_x64 = 0, sw_tick_next = 0, sw_tick_spacing = ps_tick_spacing pool,
        sw_base_fee_rate = base_fee_rate, sw_tick_spacing_index = 0,
        sw_dynamic_fee_info = get_dynamic_fee_info pool\<rparr>
      in case sw_dynamic_fee_info state of
           None \<Rightarrow> Inr state
         | Some info \<Rightarrow>
             and_then (tick_spacing_index_from_tick (sw_tick state) (sw_tick_spacing state)) (\<lambda>index.
             Inr (state\<lparr>sw_tick_spacing_index := index,
                        sw_dynamic_fee_info := Some (update_reference index block_timestamp info)\<rparr>)))"

section \<open>Fees and amounts\<close>

text \<open>The share of a fee that a rate takes.\<close>

definition fee_share :: "nat \<Rightarrow> nat \<Rightarrow> nat res" where
  "fee_share fee_amount rate =
     and_then (ok_or (Option.bind (checked_mul 128 fee_amount rate) (\<lambda>v. checked_div v FEE_RATE_DENOMINATOR_VALUE))
       CalculateOverflow) (as_uint 64)"

text \<open>The share of one recipient is added to its total and taken off the remaining fee.\<close>

definition take_fee :: "nat \<Rightarrow> nat \<Rightarrow> nat \<Rightarrow> nat \<Rightarrow> (nat \<times> nat) res" where
  "take_fee fee_amount rate collected remaining_fee =
     (if rate > 0 then
        and_then (fee_share fee_amount rate) (\<lambda>d.
        and_then (ok_or (checked_add 64 collected d) CalculateOverflow) (\<lambda>collected.
        and_then (ok_or (checked_sub remaining_fee d) CalculateOverflow) (\<lambda>remaining_fee.
        Inr (collected, remaining_fee))))
      else Inr (collected, remaining_fee))"

definition spilt_fees :: "nat \<Rightarrow> nat \<Rightarrow> nat \<Rightarrow> swap_state \<Rightarrow> swap_state res" where
  "spilt_fees fee_amount protocol_fee_rate fund_fee_rate s =
     and_then (take_fee fee_amount protocol_fee_rate (sw_protocol_fee s) fee_amount) (\<lambda>(protocol_fee, remaining_fee).
     and_then (take_fee fee_amount fund_fee_rate (sw_fund_fee s) remaining_fee) (\<lambda>(fund_fee, remaining_fee).
     let s = s\<lparr>sw_protocol_fee := protocol_fee, sw_fund_fee := fund_fee\<rparr> in
     if sw_liquidity s > 0 then
       and_then (ok_or (mul_div_floor 128 remaining_fee Q64 (sw_liquidity s)) CalculateOverflow) (\<lambda>d.
       and_then (as_uint 128 d) (\<lambda>d.
       and_then (ok_or (checked_add 64 (sw_lp_fee s) remaining_fee) CalculateOverflow) (\<lambda>lp_fee.
       Inr (s\<lparr>sw_fee_growth_global_x64 := sw_fee_growth_global_x64 s + of_nat d, sw_lp_fee := lp_fee\<rparr>))))
     else
       and_then (ok_or (checked_add 64 (sw_protocol_fee s) remaining_fee) CalculateOverflow) (\<lambda>protocol_fee.
       Inr (s\<lparr>sw_protocol_fee := protocol_fee\<rparr>))))"

definition apply_swap_amounts ::
  "nat \<Rightarrow> nat \<Rightarrow> nat \<Rightarrow> bool \<Rightarrow> bool \<Rightarrow> nat \<Rightarrow> nat \<Rightarrow> swap_state \<Rightarrow> swap_state res" where
  "apply_swap_amounts amount_in amount_out fee_amount is_base_input fee_on_input protocol_fee_rate
     fund_fee_rate s =
   and_then
     (if fee_on_input then ok_or (checked_add 64 amount_in fee_amount) CalculateOverflow else Inr amount_in)
     (\<lambda>amount_in_consumed.
   let (spent, gained) = (if is_base_input then (amount_in_consumed, amount_out) else (amount_out, amount_in_consumed))
   in and_then (ok_or (checked_sub (sw_amount_specified_remaining s) spent) CalculateOverflow) (\<lambda>remaining.
      and_then (ok_or (checked_add 64 (sw_amount_calculated s) gained) CalculateOverflow) (\<lambda>calculated.
      spilt_fees fee_amount protocol_fee_rate fund_fee_rate
        (s\<lparr>sw_amount_specified_remaining := remaining, sw_amount_calculated := calculated\<rparr>))))"

definition settle_amounts :: "nat \<Rightarrow> bool \<Rightarrow> bool \<Rightarrow> bool \<Rightarrow> swap_state \<Rightarrow> (nat \<times> nat \<times> nat \<times> nat) res" where
  "settle_amounts amount_specified zero_for_one is_base_input fee_on_token0 s =
     and_then (ok_or (checked_sub amount_specified (sw_amount_specified_remaining s)) CalculateOverflow) (\<lambda>consumed.
     let (amount_0, amount_1) =
           (if zero_for_one = is_base_input then (consumed, sw_amount_calculated s)
            else (sw_amount_calculated s, consumed))
     in and_then (ok_or (Option.bind (checked_add 64 (sw_lp_fee s) (sw_protocol_fee s))
          (\<lambda>v. checked_add 64 v (sw_fund_fee s))) CalculateOverflow) (\<lambda>total_trade_fee.
        if fee_on_token0 then Inr (amount_0, amount_1, total_trade_fee, 0)
        else Inr (amount_0, amount_1, 0, total_trade_fee)))"

section \<open>Prices\<close>

definition get_target_price_based_on_next_tick ::
  "int \<Rightarrow> bool \<Rightarrow> nat \<Rightarrow> swap_state \<Rightarrow> (swap_state \<times> nat) res" where
  "get_target_price_based_on_next_tick tick_next zero_for_one sqrt_price_limit_x64 s =
     (let tick_next = (if tick_next < MIN_TICK then MIN_TICK else if tick_next > MAX_TICK then MAX_TICK
                       else tick_next);
          s = s\<lparr>sw_tick_next := tick_next\<rparr>
      in and_then (get_sqrt_price_at_tick tick_next) (\<lambda>price_next.
         let s = s\<lparr>sw_sqrt_price_next_x64 := price_next\<rparr>;
             target_price =
               (if (zero_for_one \<and> price_next < sqrt_price_limit_x64) \<or>
                   (\<not> zero_for_one \<and> price_next > sqrt_price_limit_x64)
                then sqrt_price_limit_x64 else price_next)
         in if zero_for_one then
              require_plain (sw_tick s \<ge> tick_next)
              (require_plain (sw_sqrt_price_x64 s \<ge> price_next)
              (require_plain (sw_sqrt_price_x64 s \<ge> target_price) (Inr (s, target_price))))
            else
              require_plain (tick_next > sw_tick s)
              (require_plain (price_next \<ge> sw_sqrt_price_x64 s)
              (require_plain (target_price \<ge> sw_sqrt_price_x64 s) (Inr (s, target_price))))))"

definition swap_update_volatility_accumulator :: "swap_state \<Rightarrow> swap_state res" where
  "swap_update_volatility_accumulator s =
     (case sw_dynamic_fee_info s of
        None \<Rightarrow> Inr s
      | Some info \<Rightarrow>
          and_then (update_volatility_accumulator (sw_tick_spacing_index s) info) (\<lambda>info.
          Inr (s\<lparr>sw_dynamic_fee_info := Some info\<rparr>)))"

definition update_dynamic_fee_index :: "bool \<Rightarrow> bool \<Rightarrow> swap_state \<Rightarrow> swap_state res" where
  "update_dynamic_fee_index zero_for_one is_skipped_tick_spacing s =
     (case sw_dynamic_fee_info s of
        None \<Rightarrow> Inr s
      | Some info \<Rightarrow>
          and_then
            (if is_skipped_tick_spacing then
               let tick_index = (if sw_sqrt_price_x64 s = sw_sqrt_price_next_x64 s then sw_tick_next s else sw_tick s) in
               and_then (tick_spacing_index_from_tick tick_index (sw_tick_spacing s)) (\<lambda>index.
               and_then
                 (if \<not> zero_for_one then
                    and_then (smod_i 32 tick_index (int (sw_tick_spacing s))) (\<lambda>r.
                    if r = 0 then arith_i 32 (index - 1) else Inr index)
                  else Inr index) (\<lambda>index.
               let s = s\<lparr>sw_tick_spacing_index := index\<rparr> in
               if df_volatility_accumulator info \<noteq> df_max_volatility_accumulator info
               then swap_update_volatility_accumulator s else Inr s))
             else Inr s) (\<lambda>s.
          and_then (arith_i 32 (sw_tick_spacing_index s + (if zero_for_one then - 1 else 1))) (\<lambda>index.
          Inr (s\<lparr>sw_tick_spacing_index := index\<rparr>))))"

definition update_volatility_accumulator_on_price :: "swap_state \<Rightarrow> swap_state res" where
  "update_volatility_accumulator_on_price s =
     (if sw_dynamic_fee_info s \<noteq> None then
        and_then (get_tick_at_sqrt_price (sw_sqrt_price_x64 s)) (\<lambda>tick_index.
        and_then (tick_spacing_index_from_tick tick_index (sw_tick_spacing s)) (\<lambda>final_index.
        if sw_tick_spacing_index s \<noteq> final_index
        then swap_update_volatility_accumulator (s\<lparr>sw_tick_spacing_index := final_index\<rparr>)
        else Inr s))
      else Inr s)"

definition get_spacing_bounded_price :: "nat \<Rightarrow> bool \<Rightarrow> swap_state \<Rightarrow> (bool \<times> nat) res" where
  "get_spacing_bounded_price target_price zero_for_one s =
     (case sw_dynamic_fee_info s of
        None \<Rightarrow> Inr (True, target_price)
      | Some info \<Rightarrow>
          if sw_liquidity s = 0 \<or> df_volatility_accumulator info = df_max_volatility_accumulator info
          then Inr (True, target_price)
          else
            let spacing = int (sw_tick_spacing s);
                bounded_tick =
                  (if zero_for_one then saturate_i 32 (sw_tick_spacing_index s * spacing)
                   else saturate_i 32 (saturate_i 32 (sw_tick_spacing_index s + 1) * spacing))
            in and_then (get_sqrt_price_at_tick (max MIN_TICK (min bounded_tick MAX_TICK))) (\<lambda>bounded_sqrt_price.
               Inr (False, if zero_for_one then max target_price bounded_sqrt_price
                           else min target_price bounded_sqrt_price)))"

end
