(* ===== verification/Swap_Loop.thy ===== *)
theory Swap_Loop
  imports Swap_State Tick_Array Pool_Reward Oracle
begin

text \<open>
  The swap: \<open>swap_internal\<close>, \<open>exact_internal\<close> and \<open>swap\<close> of \<open>instructions/swap.rs\<close>. The two loops of
  the code have no bound, so they are partial functions into \<open>option\<close>: \<open>None\<close> is a loop that does not
  end. The tick arrays a swap may visit are a queue; an array that has been left is kept, with its changes,
  in \<open>sr_finished\<close>.
\<close>

section \<open>Data\<close>

text \<open>What does not change during a swap.\<close>

record swap_env =
  se_epoch :: nat
  se_amm_config :: amm_config
  se_pool_key :: pubkey
  se_extension_key :: pubkey
  se_limit :: nat
  se_zero_for_one :: bool
  se_is_base_input :: bool
  se_fee_on_input :: bool
  se_reward_infos :: "reward_info list"

record swap_run =
  sr_state :: swap_state
  sr_pool :: pool_state
  sr_extension :: extension_account
  sr_array :: tick_array_state
  sr_queue :: "tick_array_state list"
  sr_finished :: "tick_array_state list"
  sr_array_index :: int
  sr_contains_pool_tick :: bool

record swap_internal_result =
  si_amount_0 :: nat
  si_amount_1 :: nat
  si_trade_fee_0 :: nat
  si_trade_fee_1 :: nat
  si_sqrt_price_x64 :: nat
  si_liquidity :: nat
  si_tick :: int

text \<open>The accounts a swap writes.\<close>

record swap_accounts =
  sx_pool :: pool_state
  sx_extension :: extension_account
  sx_arrays :: "tick_array_state list"
  sx_observation :: observation_state

section \<open>The next tick\<close>

fun find_first_array :: "int \<Rightarrow> tick_array_state \<Rightarrow> tick_array_state list \<Rightarrow> tick_array_state list
     \<Rightarrow> tick_array_state \<times> tick_array_state list \<times> tick_array_state list" where
  "find_first_array start current [] finished = (current, [], finished)"
| "find_first_array start current (a # queue) finished =
     (if ta_start_tick_index current = start then (current, a # queue, finished)
      else find_first_array start a queue (finished @ [current]))"

fun advance_array :: "pubkey \<Rightarrow> int \<Rightarrow> tick_array_state \<Rightarrow> tick_array_state list \<Rightarrow> tick_array_state list
     \<Rightarrow> (tick_array_state \<times> tick_array_state list \<times> tick_array_state list) res" where
  "advance_array pool_key start current [] finished =
     (if ta_start_tick_index current = start then Inr (current, [], finished) else fail NotEnoughTickArrayAccount)"
| "advance_array pool_key start current (a # queue) finished =
     (if ta_start_tick_index current = start then Inr (current, a # queue, finished)
      else require_plain (ta_pool_id a = pool_key) (advance_array pool_key start a queue (finished @ [current])))"

definition find_next_tick :: "swap_env \<Rightarrow> swap_run \<Rightarrow> (tick_state \<times> swap_run) res" where
  "find_next_tick env run =
     and_then (next_initialized_tick (sr_array run) (sw_tick (sr_state run)) (ps_tick_spacing (sr_pool run))
       (se_zero_for_one env)) (\<lambda>next.
     case next of
       Some t \<Rightarrow> Inr (t, run)
     | None \<Rightarrow>
         if \<not> sr_contains_pool_tick run then
           and_then (first_initialized_tick (sr_array run) (se_zero_for_one env)) (\<lambda>t.
           Inr (t, run\<lparr>sr_contains_pool_tick := True\<rparr>))
         else
           and_then (next_tick_array_index_with_extension_info (sr_pool run) (map_option snd (sr_extension run))
             (sr_array_index run) (se_zero_for_one env)) (\<lambda>found.
           and_then (ok_or found LiquidityInsufficient) (\<lambda>next_tick_array_index.
           and_then (advance_array (se_pool_key env) next_tick_array_index (sr_array run) (sr_queue run)
             (sr_finished run)) (\<lambda>(current, queue, finished).
           and_then (first_initialized_tick current (se_zero_for_one env)) (\<lambda>t.
           Inr (t, run\<lparr>sr_array := current, sr_queue := queue, sr_finished := finished,
                       sr_array_index := next_tick_array_index\<rparr>))))))"

section \<open>One round of the inner loop\<close>

text \<open>Along the curve to the bounded price; the second component is the price reached.\<close>

definition swap_to_price :: "swap_env \<Rightarrow> nat \<Rightarrow> nat \<Rightarrow> swap_state \<Rightarrow> (swap_state \<times> nat) res" where
  "swap_to_price env bounded_price total_fee_rate s =
     (if sw_sqrt_price_x64 s \<noteq> bounded_price then
        and_then (compute_swap (sw_sqrt_price_x64 s) bounded_price (sw_liquidity s) (sw_amount_specified_remaining s)
          total_fee_rate (se_is_base_input env) (se_zero_for_one env) (se_fee_on_input env)) (\<lambda>r.
        and_then (apply_swap_amounts (sc_amount_in r) (sc_amount_out r) (sc_fee_amount r) (se_is_base_input env)
          (se_fee_on_input env) (ac_protocol_fee_rate (se_amm_config env)) (ac_fund_fee_rate (se_amm_config env)) s)
          (\<lambda>s. Inr (s, sc_price_next r)))
      else Inr (s, sc_price_next (new_swap_computation bounded_price)))"

text \<open>The limit orders of the tick, when the price reaches it.\<close>

definition swap_match_orders :: "swap_env \<Rightarrow> nat \<Rightarrow> tick_state \<Rightarrow> swap_state \<Rightarrow> (tick_state \<times> swap_state) res" where
  "swap_match_orders env total_fee_rate tick s =
     and_then (match_limit_order (sw_amount_specified_remaining s) (se_zero_for_one env) (se_is_base_input env)
       total_fee_rate (se_fee_on_input env) tick) (\<lambda>(tick, r).
     if lm_amount_in r > 0 then
       and_then (apply_swap_amounts (lm_amount_in r) (lm_amount_out r) (lm_amm_fee_amount r) (se_is_base_input env)
         (se_fee_on_input env) (ac_protocol_fee_rate (se_amm_config env)) (ac_fund_fee_rate (se_amm_config env)) s)
         (\<lambda>s. Inr (tick, s))
     else Inr (tick, s))"

text \<open>A tick that is no longer initialized leaves the count of its array, and an empty array its flag.\<close>

definition uncount_tick :: "swap_env \<Rightarrow> tick_state \<Rightarrow> swap_run \<Rightarrow> swap_run res" where
  "uncount_tick env tick run =
     (if \<not> is_initialized tick then
        and_then (update_initialized_tick_count False (sr_array run)) (\<lambda>ta.
        let run = run\<lparr>sr_array := ta\<rparr> in
        if ta_initialized_tick_count ta = 0 then
          and_then (flip_tick_array_bit (se_extension_key env) (sr_extension run) (ta_start_tick_index ta) (sr_pool run))
            (\<lambda>(pool, touched).
          Inr (run\<lparr>sr_pool := pool,
             sr_extension := (case touched of None \<Rightarrow> sr_extension run | Some e \<Rightarrow> Some (se_extension_key env, Inr e))\<rparr>))
        else Inr run)
      else Inr run)"

definition cross_liquidity ::
  "bool \<Rightarrow> bool \<Rightarrow> reward_info list \<Rightarrow> pool_state \<Rightarrow> tick_state \<Rightarrow> swap_state \<Rightarrow> (tick_state \<times> nat) res" where
  "cross_liquidity fee_on_token0 zero_for_one reward_infos pool tick s =
     (let (tick, net) = tick_cross
            (if fee_on_token0 then sw_fee_growth_global_x64 s else ps_fee_growth_global_0_x64 pool)
            (if fee_on_token0 then ps_fee_growth_global_1_x64 pool else sw_fee_growth_global_x64 s)
            reward_infos tick
      in and_then (if zero_for_one then arith_i 128 (- net) else Inr net) (\<lambda>net.
         and_then (add_delta (sw_liquidity s) net) (\<lambda>liquidity. Inr (tick, liquidity))))"

text \<open>The tick of the pool when its price is the price of \<open>tick_next\<close>.\<close>

definition tick_after_reach :: "bool \<Rightarrow> bool \<Rightarrow> int \<Rightarrow> int res" where
  "tick_after_reach zero_for_one orders_left tick_next =
     (if (zero_for_one \<and> \<not> orders_left) \<or> (\<not> zero_for_one \<and> orders_left)
      then arith_i 32 (tick_next - 1) else Inr tick_next)"

definition reach_tick ::
  "swap_env \<Rightarrow> nat \<Rightarrow> swap_run \<times> tick_state \<times> nat \<Rightarrow> (swap_run \<times> tick_state \<times> nat) res" where
  "reach_tick env total_fee_rate x =
     (let (run, tick, liquidity_next) = x in
      and_then (swap_match_orders env total_fee_rate tick (sr_state run)) (\<lambda>(tick, s).
      and_then (uncount_tick env tick (run\<lparr>sr_state := s\<rparr>)) (\<lambda>run.
      and_then
        (if has_liquidity tick \<and> \<not> has_limit_orders tick then
           cross_liquidity (is_fee_on_token0 (ps_fee_on (sr_pool run)) (se_zero_for_one env)) (se_zero_for_one env)
             (se_reward_infos env) (sr_pool run) tick s
         else Inr (tick, liquidity_next)) (\<lambda>(tick, liquidity_next).
      and_then (update_tick_state (se_epoch env) (t_tick tick) (ps_tick_spacing (sr_pool run)) tick (sr_array run))
        (\<lambda>ta.
      and_then (tick_after_reach (se_zero_for_one env) (has_limit_orders tick) (sw_tick_next s)) (\<lambda>t.
      Inr (run\<lparr>sr_array := ta, sr_state := s\<lparr>sw_tick := t\<rparr>\<rparr>, tick, liquidity_next)))))))"

text \<open>What follows the move to a price: reaching the next tick, or only a new current tick.\<close>

definition after_price ::
  "swap_env \<Rightarrow> nat \<Rightarrow> nat \<Rightarrow> swap_run \<times> tick_state \<times> nat \<Rightarrow> (swap_run \<times> tick_state \<times> nat) res" where
  "after_price env total_fee_rate price_next x =
     (let (run, tick, liquidity_next) = x; s = sr_state run in
      if sw_sqrt_price_next_x64 s = price_next then reach_tick env total_fee_rate x
      else if sw_sqrt_price_x64 s \<noteq> price_next then
        and_then (get_tick_at_sqrt_price price_next) (\<lambda>t.
        Inr (run\<lparr>sr_state := s\<lparr>sw_tick := t\<rparr>\<rparr>, tick, liquidity_next))
      else Inr x)"

text \<open>The end of a round: \<open>Inl\<close> leaves the loop, \<open>Inr\<close> goes round again.\<close>

definition round_end ::
  "swap_env \<Rightarrow> nat \<Rightarrow> bool \<Rightarrow> nat \<Rightarrow> nat \<Rightarrow> swap_run \<times> tick_state \<times> nat
     \<Rightarrow> ((swap_run \<times> tick_state \<times> nat) + (swap_run \<times> tick_state \<times> nat)) res" where
  "round_end env target_price is_skipped_tick_spacing unfilled_before price_next x =
     (let (run, tick, liquidity_next) = x; s = (sr_state run)\<lparr>sw_sqrt_price_x64 := price_next\<rparr> in
      if sw_amount_specified_remaining s = 0 \<or> price_next = target_price then
        and_then (limit_order_unfilled_amount tick) (\<lambda>unfilled_after.
        require_plain (sw_amount_specified_remaining s \<noteq> 0 \<and> unfilled_after \<noteq> unfilled_before \<longrightarrow> unfilled_after = 0)
        (Inr (Inl (run\<lparr>sr_state := s\<rparr>, tick, liquidity_next))))
      else
        and_then (update_dynamic_fee_index (se_zero_for_one env) is_skipped_tick_spacing s) (\<lambda>s.
        Inr (Inr (run\<lparr>sr_state := s\<rparr>, tick, liquidity_next))))"

definition inner_round ::
  "swap_env \<Rightarrow> nat \<Rightarrow> swap_run \<times> tick_state \<times> nat
     \<Rightarrow> ((swap_run \<times> tick_state \<times> nat) + (swap_run \<times> tick_state \<times> nat)) res" where
  "inner_round env target_price x =
     (let (run, tick, liquidity_next) = x in
      and_then (swap_update_volatility_accumulator (sr_state run)) (\<lambda>s.
      and_then (get_total_fee_rate (sw_dynamic_fee_info s) (sw_base_fee_rate s) (sw_tick_spacing s))
        (\<lambda>total_fee_rate.
      and_then (get_spacing_bounded_price target_price (se_zero_for_one env) s)
        (\<lambda>(is_skipped_tick_spacing, bounded_price).
      and_then (swap_to_price env bounded_price total_fee_rate s) (\<lambda>(s, price_next).
      and_then (limit_order_unfilled_amount tick) (\<lambda>unfilled_before.
      and_then (after_price env total_fee_rate price_next (run\<lparr>sr_state := s\<rparr>, tick, liquidity_next)) (\<lambda>x.
      round_end env target_price is_skipped_tick_spacing unfilled_before price_next x)))))))"

section \<open>The loops\<close>

partial_function (option) inner_loop ::
  "swap_env \<Rightarrow> nat \<Rightarrow> swap_run \<times> tick_state \<times> nat \<Rightarrow> (swap_run \<times> tick_state \<times> nat) res option" where
  "inner_loop env target_price x =
     (case inner_round env target_price x of
        Inl e \<Rightarrow> Some (Inl e)
      | Inr r \<Rightarrow> (case r of Inl y \<Rightarrow> Some (Inr y) | Inr y \<Rightarrow> inner_loop env target_price y))"

definition next_target :: "swap_env \<Rightarrow> swap_run \<Rightarrow> (swap_run \<times> tick_state \<times> nat) res" where
  "next_target env run =
     and_then (find_next_tick env run) (\<lambda>(tick, run).
     require_plain (is_initialized tick)
     (and_then (get_target_price_based_on_next_tick (t_tick tick) (se_zero_for_one env) (se_limit env) (sr_state run))
        (\<lambda>(s, target_price).
      Inr (run\<lparr>sr_state := s\<rparr>, tick, target_price))))"

definition set_liquidity :: "swap_run \<times> tick_state \<times> nat \<Rightarrow> swap_run" where
  "set_liquidity x = (case x of (run, tick, liquidity_next) \<Rightarrow>
     run\<lparr>sr_state := (sr_state run)\<lparr>sw_liquidity := liquidity_next\<rparr>\<rparr>)"

definition outer_round :: "swap_env \<Rightarrow> swap_run \<Rightarrow> swap_run res option" where
  "outer_round env run =
     (case next_target env run of
        Inl e \<Rightarrow> Some (Inl e)
      | Inr (run, tick, target_price) \<Rightarrow>
          map_option (\<lambda>r. and_then r (\<lambda>x. Inr (set_liquidity x)))
            (inner_loop env target_price (run, tick, sw_liquidity (sr_state run))))"

definition swap_finished :: "swap_env \<Rightarrow> swap_run \<Rightarrow> bool" where
  "swap_finished env run \<longleftrightarrow>
     sw_amount_specified_remaining (sr_state run) = 0 \<or> sw_sqrt_price_x64 (sr_state run) = se_limit env"

partial_function (option) swap_loop :: "swap_env \<Rightarrow> swap_run \<Rightarrow> swap_run res option" where
  "swap_loop env run =
     (if swap_finished env run then Some (Inr run)
      else case outer_round env run of
        None \<Rightarrow> None
      | Some r \<Rightarrow> (case r of Inl e \<Rightarrow> Some (Inl e) | Inr run \<Rightarrow> swap_loop env run))"

section \<open>The swap\<close>

text \<open>Before the loop: the checks, the rewards, the first tick array. The last part is \<open>swap_enter\<close>.\<close>

definition first_array_of :: "int \<Rightarrow> tick_array_state list
     \<Rightarrow> (tick_array_state \<times> tick_array_state list \<times> tick_array_state list) res" where
  "first_array_of first_start arrays =
     (case arrays of
        [] \<Rightarrow> fail NotEnoughTickArrayAccount
      | a # queue \<Rightarrow> Inr (find_first_array first_start a queue []))"

definition swap_enter ::
  "nat \<Rightarrow> amm_config \<Rightarrow> pubkey \<Rightarrow> pubkey \<Rightarrow> nat \<Rightarrow> nat \<Rightarrow> bool \<Rightarrow> bool \<Rightarrow> nat \<Rightarrow> swap_accounts
     \<Rightarrow> pool_state \<Rightarrow> reward_info list \<Rightarrow> (swap_env \<times> swap_run) res" where
  "swap_enter epoch config pool_key extension_key amount_specified limit zero_for_one is_base_input
     block_timestamp acc pool reward_infos =
   and_then (first_tick_array_index_with_extension_info pool (map_option snd (sx_extension acc)) zero_for_one)
     (\<lambda>(contains_pool_tick, first_start).
   and_then (first_array_of first_start (sx_arrays acc)) (\<lambda>(current, queue, finished).
   require_plain (ta_pool_id current = pool_key)
   (require (ta_start_tick_index current = first_start) InvalidFirstTickArrayAccount
   (and_then (swap_state_new pool amount_specified (ac_trade_fee_rate config) zero_for_one block_timestamp) (\<lambda>s.
    Inr (\<lparr>se_epoch = epoch, se_amm_config = config, se_pool_key = pool_key, se_extension_key = extension_key,
          se_limit = limit, se_zero_for_one = zero_for_one, se_is_base_input = is_base_input,
          se_fee_on_input = is_fee_on_input (ps_fee_on pool) zero_for_one, se_reward_infos = reward_infos\<rparr>,
         \<lparr>sr_state = s, sr_pool = pool, sr_extension = sx_extension acc, sr_array = current, sr_queue = queue,
          sr_finished = finished, sr_array_index = first_start,
          sr_contains_pool_tick = contains_pool_tick\<rparr>))))))"

definition swap_begin ::
  "nat \<Rightarrow> amm_config \<Rightarrow> pubkey \<Rightarrow> pubkey \<Rightarrow> nat \<Rightarrow> nat \<Rightarrow> bool \<Rightarrow> bool \<Rightarrow> nat \<Rightarrow> swap_accounts
     \<Rightarrow> (swap_env \<times> swap_run) res" where
  "swap_begin epoch config pool_key extension_key amount_specified limit zero_for_one is_base_input
     block_timestamp acc =
   require (amount_specified \<noteq> 0) ZeroAmountSpecified
   (if \<not> get_status_by_bit (sx_pool acc) Swap then fail NotApproved
    else
      require (if zero_for_one
        then limit < ps_sqrt_price_x64 (sx_pool acc) \<and> limit > MIN_SQRT_PRICE_X64
        else limit > ps_sqrt_price_x64 (sx_pool acc) \<and> limit < MAX_SQRT_PRICE_X64) SqrtPriceLimitOverflow
      (and_then (update_reward_infos epoch block_timestamp (sx_pool acc)) (\<lambda>(pool, reward_infos).
       require_plain (obs_pool_id (sx_observation acc) = pool_key)
       (swap_enter epoch config pool_key extension_key amount_specified limit zero_for_one is_base_input
          block_timestamp acc pool reward_infos))))"

text \<open>After it: the volatility, the observation, the amounts and the pool.\<close>

definition swap_end ::
  "nat \<Rightarrow> nat \<Rightarrow> swap_env \<Rightarrow> observation_state \<Rightarrow> swap_run \<Rightarrow> (swap_internal_result \<times> swap_accounts) res" where
  "swap_end amount_specified block_timestamp env observation run =
     and_then (update_volatility_accumulator_on_price (sr_state run)) (\<lambda>s.
     let pool = sr_pool run; z = se_zero_for_one env in
     and_then
       (if sw_tick s \<noteq> ps_tick_current pool
        then observation_update block_timestamp (ps_tick_current pool) observation else Inr observation)
       (\<lambda>observation.
     and_then (settle_amounts amount_specified z (se_is_base_input env) (is_fee_on_token0 (ps_fee_on pool) z) s)
       (\<lambda>(amount_0, amount_1, trade_fee_0, trade_fee_1).
     and_then (update_after_swap (sw_tick s) (sw_sqrt_price_x64 s) (sw_liquidity s) (sw_lp_fee s) (sw_protocol_fee s)
       (sw_fund_fee s) (sw_fee_growth_global_x64 s) z (sw_dynamic_fee_info s) pool) (\<lambda>pool.
     Inr (\<lparr>si_amount_0 = amount_0, si_amount_1 = amount_1, si_trade_fee_0 = trade_fee_0,
           si_trade_fee_1 = trade_fee_1, si_sqrt_price_x64 = ps_sqrt_price_x64 pool,
           si_liquidity = ps_liquidity pool, si_tick = ps_tick_current pool\<rparr>,
          \<lparr>sx_pool = pool, sx_extension = sr_extension run,
           sx_arrays = sr_finished run @ sr_array run # sr_queue run, sx_observation = observation\<rparr>)))))"

definition swap_internal ::
  "nat \<Rightarrow> amm_config \<Rightarrow> pubkey \<Rightarrow> pubkey \<Rightarrow> nat \<Rightarrow> nat \<Rightarrow> bool \<Rightarrow> bool \<Rightarrow> nat \<Rightarrow> swap_accounts
     \<Rightarrow> (swap_internal_result \<times> swap_accounts) res option" where
  "swap_internal epoch config pool_key extension_key amount_specified limit zero_for_one is_base_input
     block_timestamp acc =
   (case swap_begin epoch config pool_key extension_key amount_specified limit zero_for_one is_base_input
      block_timestamp acc of
      Inl e \<Rightarrow> Some (Inl e)
    | Inr (env, run) \<Rightarrow>
        map_option (\<lambda>r. and_then r (swap_end amount_specified block_timestamp env (sx_observation acc)))
          (swap_loop env run))"

text \<open>The input and output vaults by address, the mint of the input vault, and the mints' transfers: the
  classic token program moves exactly the amounts asked for.\<close>

definition exact_internal ::
  "nat \<Rightarrow> amm_config \<Rightarrow> pubkey \<Rightarrow> pubkey \<Rightarrow> pubkey \<Rightarrow> pubkey \<Rightarrow> pubkey \<Rightarrow> nat \<Rightarrow> nat \<Rightarrow> nat \<Rightarrow> bool
     \<Rightarrow> swap_accounts \<Rightarrow> (nat \<times> swap_internal_result \<times> swap_accounts) res option" where
  "exact_internal epoch config pool_key extension_key input_mint input_vault output_vault block_timestamp
     amount_specified sqrt_price_limit is_base_input acc =
   (let pool = sx_pool acc; z = (input_mint = ps_token_mint_0 pool);
        limit = (if sqrt_price_limit = 0
          then (if z then MIN_SQRT_PRICE_X64 + 1 else MAX_SQRT_PRICE_X64 - 1) else sqrt_price_limit)
    in if \<not> block_timestamp > ps_open_time pool then Some (Inl RequireViolated)
       else if \<not> (if z then input_vault = ps_token_vault_0 pool \<and> output_vault = ps_token_vault_1 pool
                  else input_vault = ps_token_vault_1 pool \<and> output_vault = ps_token_vault_0 pool)
       then Some (fail InvalidInputPoolVault)
       else map_option (\<lambda>r. and_then r (\<lambda>(result, acc).
         let amount_in = (if z then si_amount_0 result else si_amount_1 result);
             amount_out = (if z then si_amount_1 result else si_amount_0 result) in
         require (si_amount_0 result \<noteq> 0 \<and> si_amount_1 result \<noteq> 0) TooSmallInputOrOutputAmount
         (require_plain (if z then ps_sqrt_price_x64 pool \<ge> si_sqrt_price_x64 result
                         else si_sqrt_price_x64 result \<ge> ps_sqrt_price_x64 pool)
         (require_plain (sqrt_price_limit = 0 \<longrightarrow> amount_specified = (if is_base_input then amount_in else amount_out))
         (Inr (if is_base_input then amount_out else amount_in, result, acc))))))
         (swap_internal epoch config pool_key extension_key amount_specified limit z is_base_input
           (wrap_uint 32 block_timestamp) acc))"

text \<open>\<open>swap\<close>: the slippage check on the other amount.\<close>

definition check_other_amount :: "nat \<Rightarrow> bool \<Rightarrow> nat \<Rightarrow> unit res" where
  "check_other_amount other_amount_threshold is_base_input amount =
     (if is_base_input then require (amount \<ge> other_amount_threshold) TooLittleOutputReceived (Inr ())
      else require (amount \<le> other_amount_threshold) TooMuchInputPaid (Inr ()))"

end
