(* ===== verification/Swap_Safety.thy ===== *)
theory Swap_Safety
  imports Swap_Loop
begin

text \<open>
  What the steps of a swap change: the split of the fees, the prices and amounts of a round, of both loops and
  of the whole swap, which steps end and which do not. The properties are in \<open>Swap_Theorems\<close>.
\<close>

section \<open>What the steps change\<close>

text \<open>The fee split writes the fee fields only, and it loses nothing.\<close>

definition total_fees :: "swap_state \<Rightarrow> nat" where
  "total_fees s = sw_lp_fee s + sw_protocol_fee s + sw_fund_fee s"

lemma fee_share_Inr: "fee_share fee rate = Inr d \<longleftrightarrow> fee * rate < 2 ^ 128 \<and> d = fee * rate div 1000000 \<and> d < 2 ^ 64"
  by (auto simp: fee_share_def res_simps Option.bind_eq_Some_conv FEE_RATE_DENOMINATOR_VALUE_def)

definition share_or_zero :: "nat \<Rightarrow> nat \<Rightarrow> nat" where
  "share_or_zero fee rate = fee * rate div 1000000"

lemma share_or_zero_0 [simp]: "share_or_zero fee 0 = 0"
  by (simp add: share_or_zero_def)

text \<open>The result of the split in one equation.\<close>

definition split_result :: "nat \<Rightarrow> nat \<Rightarrow> nat \<Rightarrow> swap_state \<Rightarrow> swap_state" where
  "split_result fee pr fr s =
     (let left = fee - share_or_zero fee pr - share_or_zero fee fr in
      if sw_liquidity s > 0 then
        s\<lparr>sw_protocol_fee := sw_protocol_fee s + share_or_zero fee pr,
          sw_fund_fee := sw_fund_fee s + share_or_zero fee fr,
          sw_fee_growth_global_x64 := sw_fee_growth_global_x64 s + of_nat (left * Q64 div sw_liquidity s),
          sw_lp_fee := sw_lp_fee s + left\<rparr>
      else
        s\<lparr>sw_protocol_fee := sw_protocol_fee s + share_or_zero fee pr + left,
          sw_fund_fee := sw_fund_fee s + share_or_zero fee fr\<rparr>)"

lemma take_fee_Inr:
  "take_fee fee rate collected rest = Inr (c, r) \<Longrightarrow>
     c = collected + share_or_zero fee rate \<and> r = rest - share_or_zero fee rate \<and> share_or_zero fee rate \<le> rest"
  by (auto simp: take_fee_def res_simps fee_share_Inr share_or_zero_def split: if_split_asm)

lemma spilt_fees_Inr:
  assumes "spilt_fees fee pr fr s = Inr s'"
  shows "s' = split_result fee pr fr s \<and> share_or_zero fee pr + share_or_zero fee fr \<le> fee"
proof -
  obtain c1 r1 c2 r2 where 1: "take_fee fee pr (sw_protocol_fee s) fee = Inr (c1, r1)"
    and 2: "take_fee fee fr (sw_fund_fee s) r1 = Inr (c2, r2)"
    and 3: "(let s = s\<lparr>sw_protocol_fee := c1, sw_fund_fee := c2\<rparr> in
     if sw_liquidity s > 0 then
       and_then (ok_or (mul_div_floor 128 r2 Q64 (sw_liquidity s)) CalculateOverflow) (\<lambda>d.
       and_then (as_uint 128 d) (\<lambda>d.
       and_then (ok_or (checked_add 64 (sw_lp_fee s) r2) CalculateOverflow) (\<lambda>lp_fee.
       Inr (s\<lparr>sw_fee_growth_global_x64 := sw_fee_growth_global_x64 s + of_nat d, sw_lp_fee := lp_fee\<rparr>))))
     else
       and_then (ok_or (checked_add 64 (sw_protocol_fee s) r2) CalculateOverflow) (\<lambda>protocol_fee.
       Inr (s\<lparr>sw_protocol_fee := protocol_fee\<rparr>))) = Inr s'"
    using assms unfolding spilt_fees_def and_then_pair_Inr by (elim exE conjE)
  note t = take_fee_Inr [OF 1] take_fee_Inr [OF 2]
  have "s' = split_result fee pr fr s"
    using 3 t by (auto simp: split_result_def Let_def res_simps mul_div_floor_Some split: if_split_asm)
  then show ?thesis using t by linarith
qed

lemma split_result_simps [simp]:
  "sw_amount_specified_remaining (split_result fee pr fr s) = sw_amount_specified_remaining s"
  "sw_amount_calculated (split_result fee pr fr s) = sw_amount_calculated s"
  "sw_sqrt_price_x64 (split_result fee pr fr s) = sw_sqrt_price_x64 s"
  "sw_tick (split_result fee pr fr s) = sw_tick s"
  "sw_liquidity (split_result fee pr fr s) = sw_liquidity s"
  "sw_sqrt_price_next_x64 (split_result fee pr fr s) = sw_sqrt_price_next_x64 s"
  "sw_tick_next (split_result fee pr fr s) = sw_tick_next s"
  "sw_tick_spacing (split_result fee pr fr s) = sw_tick_spacing s"
  "sw_base_fee_rate (split_result fee pr fr s) = sw_base_fee_rate s"
  "sw_tick_spacing_index (split_result fee pr fr s) = sw_tick_spacing_index s"
  "sw_dynamic_fee_info (split_result fee pr fr s) = sw_dynamic_fee_info s"
  by (simp_all add: split_result_def Let_def)

text \<open>What an exchange of amounts leaves: \<open>same_place\<close> is everything but amounts and fees.\<close>

definition same_place :: "swap_state \<Rightarrow> swap_state \<Rightarrow> bool" where
  "same_place s s' \<longleftrightarrow> sw_sqrt_price_x64 s' = sw_sqrt_price_x64 s \<and> sw_tick s' = sw_tick s \<and>
     sw_liquidity s' = sw_liquidity s \<and> sw_sqrt_price_next_x64 s' = sw_sqrt_price_next_x64 s \<and>
     sw_tick_next s' = sw_tick_next s \<and> sw_tick_spacing s' = sw_tick_spacing s \<and>
     sw_base_fee_rate s' = sw_base_fee_rate s \<and> sw_tick_spacing_index s' = sw_tick_spacing_index s \<and>
     sw_dynamic_fee_info s' = sw_dynamic_fee_info s"

lemma same_place_refl [simp]: "same_place s s"
  by (simp add: same_place_def)

lemma same_place_trans: "same_place s t \<Longrightarrow> same_place t u \<Longrightarrow> same_place s u"
  by (simp add: same_place_def)

lemma apply_swap_amounts_Inr:
  assumes "apply_swap_amounts i out fee base on_input pr fr s = Inr s'"
  shows "same_place s s' \<and>
    sw_amount_specified_remaining s' + (if base then i + (if on_input then fee else 0) else out)
      = sw_amount_specified_remaining s"
proof -
  obtain consumed remaining calculated where
    c: "consumed = (if on_input then i + fee else i)"
    and r: "remaining = sw_amount_specified_remaining s - (if base then consumed else out)"
      "(if base then consumed else out) \<le> sw_amount_specified_remaining s"
    and f: "spilt_fees fee pr fr (s\<lparr>sw_amount_specified_remaining := remaining, sw_amount_calculated := calculated\<rparr>) = Inr s'"
    using assms by (cases base) (auto simp: apply_swap_amounts_def res_simps split: if_split_asm)
  note f = spilt_fees_Inr [OF f, THEN conjunct1]
  show ?thesis using c r by (simp add: f same_place_def)
qed

section \<open>One round without the dynamic fee\<close>

text \<open>The range of the values of a running swap.\<close>

definition swap_ok :: "swap_state \<Rightarrow> bool" where
  "swap_ok s \<longleftrightarrow> sw_dynamic_fee_info s = None \<and> 0 < sw_sqrt_price_x64 s \<and> sw_sqrt_price_x64 s < 2 ^ 128 \<and>
     sw_liquidity s < 2 ^ 128 \<and> sw_amount_specified_remaining s < 2 ^ 64 \<and>
     sw_base_fee_rate s < FEE_RATE_DENOMINATOR_VALUE"

lemma swap_to_price_Inr:
  assumes "swap_to_price env t (sw_base_fee_rate s) s = Inr (s', q)" "swap_ok s" "0 < t" "t < 2 ^ 128"
    and "towards (se_zero_for_one env) (sw_sqrt_price_x64 s) t t"
  shows "same_place s s' \<and> sw_amount_specified_remaining s' \<le> sw_amount_specified_remaining s \<and>
    towards (se_zero_for_one env) (sw_sqrt_price_x64 s) q t \<and>
    (q \<noteq> t \<and> (se_fee_on_input env \<or> \<not> se_is_base_input env) \<longrightarrow> sw_amount_specified_remaining s' = 0)"
proof (cases "sw_sqrt_price_x64 s = t")
  case True
  then show ?thesis using assms(1,5) by (simp add: swap_to_price_def new_swap_computation_def)
next
  case False
  let ?z = "se_zero_for_one env" and ?base = "se_is_base_input env" and ?on = "se_fee_on_input env"
  have args: "swap_args ?z (sw_sqrt_price_x64 s) t (sw_liquidity s) (sw_amount_specified_remaining s) (sw_base_fee_rate s)"
    using assms(2-5) by (simp add: swap_args_def swap_ok_def)
  obtain r where r: "compute_swap (sw_sqrt_price_x64 s) t (sw_liquidity s) (sw_amount_specified_remaining s)
        (sw_base_fee_rate s) ?base ?z ?on = Inr r"
    and a: "apply_swap_amounts (sc_amount_in r) (sc_amount_out r) (sc_fee_amount r) ?base ?on
        (ac_protocol_fee_rate (se_amm_config env)) (ac_fund_fee_rate (se_amm_config env)) s = Inr s'"
    and q: "q = sc_price_next r"
    using assms(1) False by (auto simp: swap_to_price_def res_simps)
  note sr = compute_swap_Inr [OF args r]
  have tw: "towards ?z (sw_sqrt_price_x64 s) q t"
    using swap_result_price [OF sr] reached_towards [OF args] by (simp add: q)
  have stop: "sw_amount_specified_remaining s' = 0" if "q \<noteq> t" "?on \<or> \<not> ?base"
  proof (cases ?base)
    case True
    then have sr': "swap_result True ?on (sw_sqrt_price_x64 s) t (sw_liquidity s) (sw_amount_specified_remaining s)
        (sw_base_fee_rate s) ?z r" using sr by simp
    show ?thesis
      using that True swap_result_input(2) [OF args sr'] apply_swap_amounts_Inr [OF a] by (simp add: q)
  next
    case base: False
    then have sr': "swap_result False ?on (sw_sqrt_price_x64 s) t (sw_liquidity s) (sw_amount_specified_remaining s)
        (sw_base_fee_rate s) ?z r" using sr by simp
    show ?thesis
      using that base swap_result_output(2) [OF args sr'] apply_swap_amounts_Inr [OF a] by (simp add: q)
  qed
  show ?thesis
    using apply_swap_amounts_Inr [OF a] tw stop by auto
qed

lemma add_delta_bound: "add_delta x y = Inr z \<Longrightarrow> x < 2 ^ 128 \<Longrightarrow> z < 2 ^ 128"
  by (auto simp: add_delta_def res_simps split: if_split_asm)

lemma uncount_tick_state: "uncount_tick env tick run = Inr run' \<Longrightarrow> sr_state run' = sr_state run"
  by (auto simp: uncount_tick_def Let_def and_then_Inr split: if_split_asm)

lemma swap_match_orders_Inr:
  assumes "swap_match_orders env f tick s = Inr (tick', s')"
  shows "same_place s s' \<and> sw_amount_specified_remaining s' \<le> sw_amount_specified_remaining s"
proof -
  have "\<exists>i out fee. s' = s \<or> apply_swap_amounts i out fee (se_is_base_input env) (se_fee_on_input env)
      (ac_protocol_fee_rate (se_amm_config env)) (ac_fund_fee_rate (se_amm_config env)) s = Inr s'"
    using assms unfolding swap_match_orders_def and_then_pair_Inr
    by (elim exE conjE) (auto simp: and_then_Inr split: if_split_asm)
  then show ?thesis by (auto dest!: apply_swap_amounts_Inr)
qed

lemma cross_liquidity_bound:
  "cross_liquidity f0 z infos pool tick s = Inr (tick', l) \<Longrightarrow> sw_liquidity s < 2 ^ 128 \<Longrightarrow> l < 2 ^ 128"
  by (auto simp: cross_liquidity_def tick_cross_def res_simps Let_def add_delta_bound split: if_split_asm)

lemma reach_tick_Inr:
  assumes "reach_tick env f (run, tick, ln) = Inr (run', tick', ln')"
  shows "\<exists>s t. sr_state run' = s\<lparr>sw_tick := t\<rparr> \<and> same_place (sr_state run) s \<and>
    sw_amount_specified_remaining s \<le> sw_amount_specified_remaining (sr_state run) \<and>
    (sw_liquidity (sr_state run) < 2 ^ 128 \<and> ln < 2 ^ 128 \<longrightarrow> ln' < 2 ^ 128)"
proof -
  obtain tick1 s where 1: "swap_match_orders env f tick (sr_state run) = Inr (tick1, s)"
    and 2: "and_then (uncount_tick env tick1 (run\<lparr>sr_state := s\<rparr>)) (\<lambda>run.
      and_then
        (if has_liquidity tick1 \<and> \<not> has_limit_orders tick1 then
           cross_liquidity (is_fee_on_token0 (ps_fee_on (sr_pool run)) (se_zero_for_one env)) (se_zero_for_one env)
             (se_reward_infos env) (sr_pool run) tick1 s
         else Inr (tick1, ln)) (\<lambda>(tick, liquidity_next).
      and_then (update_tick_state (se_epoch env) (t_tick tick) (ps_tick_spacing (sr_pool run)) tick (sr_array run))
        (\<lambda>ta.
      and_then (tick_after_reach (se_zero_for_one env) (has_limit_orders tick) (sw_tick_next s)) (\<lambda>t.
      Inr (run\<lparr>sr_array := ta, sr_state := s\<lparr>sw_tick := t\<rparr>\<rparr>, tick, liquidity_next))))) = Inr (run', tick', ln')"
    using assms(1) unfolding reach_tick_def Let_def prod.case and_then_pair_Inr by (elim exE conjE)
  note m = swap_match_orders_Inr [OF 1]
  obtain run1 where 3: "and_then
        (if has_liquidity tick1 \<and> \<not> has_limit_orders tick1 then
           cross_liquidity (is_fee_on_token0 (ps_fee_on (sr_pool run1)) (se_zero_for_one env)) (se_zero_for_one env)
             (se_reward_infos env) (sr_pool run1) tick1 s
         else Inr (tick1, ln)) (\<lambda>(tick, liquidity_next).
      and_then (update_tick_state (se_epoch env) (t_tick tick) (ps_tick_spacing (sr_pool run1)) tick (sr_array run1))
        (\<lambda>ta.
      and_then (tick_after_reach (se_zero_for_one env) (has_limit_orders tick) (sw_tick_next s)) (\<lambda>t.
      Inr (run1\<lparr>sr_array := ta, sr_state := s\<lparr>sw_tick := t\<rparr>\<rparr>, tick, liquidity_next)))) = Inr (run', tick', ln')"
    using 2 unfolding and_then_Inr [of "uncount_tick env tick1 (run\<lparr>sr_state := s\<rparr>)"] by (elim exE conjE)
  obtain tick2 ln2 where c: "(if has_liquidity tick1 \<and> \<not> has_limit_orders tick1 then
           cross_liquidity (is_fee_on_token0 (ps_fee_on (sr_pool run1)) (se_zero_for_one env)) (se_zero_for_one env)
             (se_reward_infos env) (sr_pool run1) tick1 s
         else Inr (tick1, ln)) = (Inr (tick2, ln2) :: (tick_state \<times> nat) res)"
    and 4: "\<exists>t ta. run' = run1\<lparr>sr_array := ta, sr_state := s\<lparr>sw_tick := t\<rparr>\<rparr> \<and> ln' = ln2"
    using 3 unfolding and_then_pair_Inr by (elim exE conjE) (auto simp: and_then_Inr)
  have "sw_liquidity s = sw_liquidity (sr_state run)" using m by (simp add: same_place_def)
  then have "sw_liquidity (sr_state run) < 2 ^ 128 \<and> ln < 2 ^ 128 \<longrightarrow> ln2 < 2 ^ 128"
    using c cross_liquidity_bound by (auto split: if_split_asm)
  then show ?thesis using 4 m by (intro exI [of _ s]) auto
qed

lemma after_price_Inr:
  assumes "after_price env f q (run, tick, ln) = Inr (run', tick', ln')"
  shows "\<exists>s t. sr_state run' = s\<lparr>sw_tick := t\<rparr> \<and> same_place (sr_state run) s \<and>
    sw_amount_specified_remaining s \<le> sw_amount_specified_remaining (sr_state run) \<and>
    (sw_liquidity (sr_state run) < 2 ^ 128 \<and> ln < 2 ^ 128 \<longrightarrow> ln' < 2 ^ 128)"
proof (cases "sw_sqrt_price_next_x64 (sr_state run) = q")
  case True
  then show ?thesis using assms reach_tick_Inr by (simp add: after_price_def)
next
  case False
  have "\<exists>t. sr_state run' = (sr_state run)\<lparr>sw_tick := t\<rparr> \<and> ln' = ln"
  proof (cases "sw_sqrt_price_x64 (sr_state run) = q")
    case True
    have "sr_state run' = (sr_state run)\<lparr>sw_tick := sw_tick (sr_state run)\<rparr>" "ln' = ln"
      using assms(1) False True by (auto simp: after_price_def)
    then show ?thesis by blast
  next
    case away: False
    then show ?thesis using assms(1) False by (auto simp: after_price_def and_then_Inr Let_def)
  qed
  then obtain t where "sr_state run' = (sr_state run)\<lparr>sw_tick := t\<rparr>" "ln' = ln" by blast
  then show ?thesis by (intro exI [of _ "sr_state run"] exI [of _ t]) simp
qed

text \<open>One round.\<close>

lemma inner_round_Inr:
  assumes "inner_round env t (run, tick, ln) = Inr r" "swap_ok (sr_state run)" "0 < t" "t < 2 ^ 128" "ln < 2 ^ 128"
    and "towards (se_zero_for_one env) (sw_sqrt_price_x64 (sr_state run)) t t"
    and "(case r of Inl y \<Rightarrow> y | Inr y \<Rightarrow> y) = (run', tick', ln')"
  shows "swap_ok (sr_state run') \<and> ln' < 2 ^ 128 \<and>
    towards (se_zero_for_one env) (sw_sqrt_price_x64 (sr_state run)) (sw_sqrt_price_x64 (sr_state run')) t \<and>
    sw_amount_specified_remaining (sr_state run') \<le> sw_amount_specified_remaining (sr_state run) \<and>
    (sw_amount_specified_remaining (sr_state run') = 0 \<or> sw_sqrt_price_x64 (sr_state run') = t \<longleftrightarrow> isl r) \<and>
    (se_fee_on_input env \<or> \<not> se_is_base_input env \<longrightarrow> isl r)"
proof -
  let ?s = "sr_state run"
  have dyn: "sw_dynamic_fee_info ?s = None" using assms(2) by (simp add: swap_ok_def)
  obtain s1 q where 1: "swap_to_price env t (sw_base_fee_rate ?s) ?s = Inr (s1, q)"
    and 2: "and_then (limit_order_unfilled_amount tick) (\<lambda>unfilled_before.
      and_then (after_price env (sw_base_fee_rate ?s) q (run\<lparr>sr_state := s1\<rparr>, tick, ln)) (\<lambda>x.
      round_end env t True unfilled_before q x)) = Inr r"
    using assms(1) dyn
    unfolding inner_round_def Let_def prod.case swap_update_volatility_accumulator_def get_total_fee_rate_def
      get_spacing_bounded_price_def dyn option.case and_then_simps and_then_pair_Inr by (elim exE conjE)
  note p = swap_to_price_Inr [OF 1 assms(2-4,6)]
  have tw: "towards (se_zero_for_one env) (sw_sqrt_price_x64 ?s) q t" using p by blast
  have ok1: "swap_ok s1" using p assms(2) by (auto simp: same_place_def swap_ok_def)
  obtain u x where 3: "after_price env (sw_base_fee_rate ?s) q (run\<lparr>sr_state := s1\<rparr>, tick, ln) = Inr x"
    and 4: "round_end env t True u q x = Inr r"
    using 2 unfolding and_then_Inr by (elim exE conjE)
  obtain run2 tick2 ln2 where x: "x = (run2, tick2, ln2)" by (cases x)
  have "sw_liquidity s1 < 2 ^ 128" using ok1 by (simp add: swap_ok_def)
  with after_price_Inr [OF 3 [unfolded x]] assms(5) obtain s2 tk where
    a: "sr_state run2 = s2\<lparr>sw_tick := tk\<rparr>" "same_place s1 s2"
      "sw_amount_specified_remaining s2 \<le> sw_amount_specified_remaining s1" "ln2 < 2 ^ 128" by auto
  let ?s3 = "(sr_state run2)\<lparr>sw_sqrt_price_x64 := q\<rparr>"
  have dyn2: "sw_dynamic_fee_info ?s3 = None" using a ok1 by (simp add: same_place_def swap_ok_def)
  have r: "sr_state run' = ?s3 \<and> ln' = ln2 \<and> (isl r \<longleftrightarrow> sw_amount_specified_remaining s2 = 0 \<or> q = t)"
    using 4 assms(7) dyn2 a(1) unfolding round_end_def x Let_def prod.case update_dynamic_fee_index_def
    by (auto simp: res_simps split: if_split_asm)
  have q: "0 < q" "q < 2 ^ 128"
    using tw assms(2-4) by (auto simp: towards_def swap_ok_def split: if_split_asm)
  show ?thesis
    using r a p ok1 q tw by (auto simp: same_place_def swap_ok_def)
qed

section \<open>The loops\<close>

lemma towards_trans: "towards z p q t \<Longrightarrow> towards z q r t \<Longrightarrow> towards z p r t"
  by (auto simp: towards_def split: if_split_asm)

lemma towards_target: "towards z p q t \<Longrightarrow> towards z q t t"
  by (auto simp: towards_def split: if_split_asm)

lemma towards_further: "towards z p q t \<Longrightarrow> towards z p t l \<Longrightarrow> towards z p q l"
  by (auto simp: towards_def split: if_split_asm)

lemma inner_loop_safe:
  assumes "inner_loop env t x = Some (Inr (run', tick', ln'))" "x = (run, tick, ln)"
    and "swap_ok (sr_state run)" "0 < t" "t < 2 ^ 128" "ln < 2 ^ 128"
    and "towards (se_zero_for_one env) (sw_sqrt_price_x64 (sr_state run)) t t"
  shows "swap_ok (sr_state run') \<and> ln' < 2 ^ 128 \<and>
    towards (se_zero_for_one env) (sw_sqrt_price_x64 (sr_state run)) (sw_sqrt_price_x64 (sr_state run')) t \<and>
    sw_amount_specified_remaining (sr_state run') \<le> sw_amount_specified_remaining (sr_state run) \<and>
    (sw_amount_specified_remaining (sr_state run') = 0 \<or> sw_sqrt_price_x64 (sr_state run') = t)"
proof -
  define P where "P = (\<lambda>(env :: swap_env) t (x :: swap_run \<times> tick_state \<times> nat) y. \<forall>run tick ln run' tick' ln'. y = (Inr (run', tick', ln') :: (swap_run \<times> tick_state \<times> nat) res) \<longrightarrow>
    x = (run, tick, ln) \<longrightarrow> swap_ok (sr_state run) \<longrightarrow> 0 < t \<longrightarrow> t < 2 ^ 128 \<longrightarrow> ln < 2 ^ 128 \<longrightarrow>
    towards (se_zero_for_one env) (sw_sqrt_price_x64 (sr_state run)) t t \<longrightarrow>
    swap_ok (sr_state run') \<and> ln' < 2 ^ 128 \<and>
    towards (se_zero_for_one env) (sw_sqrt_price_x64 (sr_state run)) (sw_sqrt_price_x64 (sr_state run')) t \<and>
    sw_amount_specified_remaining (sr_state run') \<le> sw_amount_specified_remaining (sr_state run) \<and>
    (sw_amount_specified_remaining (sr_state run') = 0 \<or> sw_sqrt_price_x64 (sr_state run') = t))"
  have "P env t x (Inr (run', tick', ln'))"
  proof (rule inner_loop.raw_induct [of P "((env, t), x)", unfolded case_prod_conv, OF _ assms(1)])
    fix loop env t x and y :: "(swap_run \<times> tick_state \<times> nat) res"
    assume IH: "\<And>env t x y. loop env t x = Some y \<Longrightarrow> P env t x y"
      and body: "(case inner_round env t x of Inl e \<Rightarrow> Some (Inl e)
        | Inr r \<Rightarrow> (case r of Inl y \<Rightarrow> Some (Inr y) | Inr y \<Rightarrow> loop env t y)) = Some y"
    show "P env t x y"
      unfolding P_def
    proof (intro allI impI)
      fix run tick ln run' tick' ln'
      assume y: "y = Inr (run', tick', ln')" and x: "x = (run, tick, ln)"
        and pre: "swap_ok (sr_state run)" "0 < t" "t < 2 ^ 128" "ln < 2 ^ 128"
          "towards (se_zero_for_one env) (sw_sqrt_price_x64 (sr_state run)) t t"
      obtain r where r: "inner_round env t (run, tick, ln) = Inr r"
        using body y x by (cases "inner_round env t x") auto
      obtain run1 tick1 ln1 where x1: "(case r of Inl y \<Rightarrow> y | Inr y \<Rightarrow> y) = (run1, tick1, ln1)"
        by (cases "case r of Inl y \<Rightarrow> y | Inr y \<Rightarrow> y")
      note one = inner_round_Inr [OF r pre x1]
      show "swap_ok (sr_state run') \<and> ln' < 2 ^ 128 \<and>
        towards (se_zero_for_one env) (sw_sqrt_price_x64 (sr_state run)) (sw_sqrt_price_x64 (sr_state run')) t \<and>
        sw_amount_specified_remaining (sr_state run') \<le> sw_amount_specified_remaining (sr_state run) \<and>
        (sw_amount_specified_remaining (sr_state run') = 0 \<or> sw_sqrt_price_x64 (sr_state run') = t)"
      proof (cases r)
        case (Inl y1)
        then have "(run', tick', ln') = (run1, tick1, ln1)" using body r x y x1 by simp
        then show ?thesis using one Inl by simp
      next
        case (Inr y1)
        have "P env t (run1, tick1, ln1) y" by (rule IH) (use body r x x1 Inr in simp)
        then have "swap_ok (sr_state run') \<and> ln' < 2 ^ 128 \<and>
          towards (se_zero_for_one env) (sw_sqrt_price_x64 (sr_state run1)) (sw_sqrt_price_x64 (sr_state run')) t \<and>
          sw_amount_specified_remaining (sr_state run') \<le> sw_amount_specified_remaining (sr_state run1) \<and>
          (sw_amount_specified_remaining (sr_state run') = 0 \<or> sw_sqrt_price_x64 (sr_state run') = t)"
          using one pre(2,3) y towards_target unfolding P_def by blast
        then show ?thesis using one by (meson le_trans towards_trans)
      qed
    qed
  qed
  then show ?thesis using assms(2-) unfolding P_def by blast
qed

text \<open>A round that always leaves the loop makes the loop end.\<close>

lemma inner_loop_ends:
  assumes "swap_ok (sr_state run)" "0 < t" "t < 2 ^ 128" "ln < 2 ^ 128"
    and "towards (se_zero_for_one env) (sw_sqrt_price_x64 (sr_state run)) t t"
    and "se_fee_on_input env \<or> \<not> se_is_base_input env"
  shows "inner_loop env t (run, tick, ln) \<noteq> None"
proof (cases "inner_round env t (run, tick, ln)")
  case (Inl e)
  then show ?thesis by (simp add: inner_loop.simps)
next
  case (Inr r)
  obtain run1 tick1 ln1 where x1: "(case r of Inl y \<Rightarrow> y | Inr y \<Rightarrow> y) = (run1, tick1, ln1)"
    by (cases "case r of Inl y \<Rightarrow> y | Inr y \<Rightarrow> y")
  have "isl r" using inner_round_Inr [OF Inr assms(1-5) x1] assms(6) by blast
  then show ?thesis using Inr by (cases r) (simp_all add: inner_loop.simps)
qed

lemma find_next_tick_state: "find_next_tick env run = Inr (tick, run') \<Longrightarrow> sr_state run' = sr_state run"
  unfolding find_next_tick_def and_then_Inr case_option_Inr
  by (auto simp: and_then_Inr and_then_triple_Inr ok_or_Inr split: if_split_asm)

lemma target_price_Inr:
  assumes "get_target_price_based_on_next_tick n z l s = Inr (s', t)" "towards z (sw_sqrt_price_x64 s) l l"
  shows "towards z (sw_sqrt_price_x64 s) t l \<and> (\<exists>a b. s' = s\<lparr>sw_tick_next := a, sw_sqrt_price_next_x64 := b\<rparr>)"
  using assms
  by (cases z) (auto simp: get_target_price_based_on_next_tick_def Let_def res_simps towards_def split: if_split_asm)

lemma outer_round_safe:
  assumes "outer_round env run = Some (Inr run')" "swap_ok (sr_state run)"
    and "0 < se_limit env" "se_limit env < 2 ^ 128"
    and "towards (se_zero_for_one env) (sw_sqrt_price_x64 (sr_state run)) (se_limit env) (se_limit env)"
  shows "swap_ok (sr_state run') \<and>
    towards (se_zero_for_one env) (sw_sqrt_price_x64 (sr_state run)) (sw_sqrt_price_x64 (sr_state run')) (se_limit env) \<and>
    sw_amount_specified_remaining (sr_state run') \<le> sw_amount_specified_remaining (sr_state run)"
proof -
  let ?z = "se_zero_for_one env" and ?l = "se_limit env" and ?s = "sr_state run"
  obtain r where r: "next_target env run = Inr r"
    using assms(1) by (cases "next_target env run") (simp_all add: outer_round_def)
  obtain tick run0 s1 t where f: "find_next_tick env run = Inr (tick, run0)"
    and g: "get_target_price_based_on_next_tick (t_tick tick) ?z ?l (sr_state run0) = Inr (s1, t)"
    and r': "r = (run0\<lparr>sr_state := s1\<rparr>, tick, t)"
    using r unfolding next_target_def and_then_pair_Inr require_plain_Inr by (elim exE conjE) simp
  have s0: "sr_state run0 = ?s" by (rule find_next_tick_state [OF f])
  note tp = target_price_Inr [OF g [unfolded s0] assms(5)]
  have ok1: "swap_ok s1" "sw_sqrt_price_x64 s1 = sw_sqrt_price_x64 ?s"
    "sw_amount_specified_remaining s1 = sw_amount_specified_remaining ?s" "sw_liquidity s1 = sw_liquidity ?s"
    using tp assms(2) by (auto simp: swap_ok_def)
  have t: "0 < t" "t < 2 ^ 128" "towards ?z (sw_sqrt_price_x64 s1) t t"
    using tp assms(2-4) ok1(2) by (auto simp: towards_def swap_ok_def split: if_split_asm)
  let ?loop = "inner_loop env t (run0\<lparr>sr_state := s1\<rparr>, tick, sw_liquidity s1)"
  have o: "outer_round env run = map_option (\<lambda>r. and_then r (\<lambda>x. Inr (set_liquidity x))) ?loop"
    by (simp add: outer_round_def r r')
  obtain y where y: "?loop = Some y" "and_then y (\<lambda>x. Inr (set_liquidity x)) = Inr run'"
    using assms(1) unfolding o by (cases ?loop) simp_all
  obtain run2 tick2 ln2 where l: "?loop = Some (Inr (run2, tick2, ln2))"
    and run': "run' = run2\<lparr>sr_state := (sr_state run2)\<lparr>sw_liquidity := ln2\<rparr>\<rparr>"
    using y by (cases y) (auto simp: set_liquidity_def)
  have "swap_ok (sr_state (run0\<lparr>sr_state := s1\<rparr>))" "sw_liquidity s1 < 2 ^ 128"
    using ok1(1) by (simp_all add: swap_ok_def)
  note i = inner_loop_safe [OF l refl this(1) t(1,2) this(2)]
  have "sw_sqrt_price_x64 (sr_state (run0\<lparr>sr_state := s1\<rparr>)) = sw_sqrt_price_x64 ?s" using ok1(2) by simp
  then have i': "swap_ok (sr_state run2)" "ln2 < 2 ^ 128"
    "towards ?z (sw_sqrt_price_x64 ?s) (sw_sqrt_price_x64 (sr_state run2)) t"
    "sw_amount_specified_remaining (sr_state run2) \<le> sw_amount_specified_remaining ?s"
    using i t(3) ok1(2,3) by simp_all
  have "towards ?z (sw_sqrt_price_x64 ?s) (sw_sqrt_price_x64 (sr_state run2)) ?l"
    using i'(3) tp towards_further by blast
  then show ?thesis using i'(1,2,4) by (simp add: run' swap_ok_def)
qed

lemma swap_loop_safe:
  assumes "swap_loop env run = Some (Inr run')" "swap_ok (sr_state run)"
    and "0 < se_limit env" "se_limit env < 2 ^ 128"
    and "towards (se_zero_for_one env) (sw_sqrt_price_x64 (sr_state run)) (se_limit env) (se_limit env)"
  shows "swap_ok (sr_state run') \<and>
    towards (se_zero_for_one env) (sw_sqrt_price_x64 (sr_state run)) (sw_sqrt_price_x64 (sr_state run')) (se_limit env) \<and>
    sw_amount_specified_remaining (sr_state run') \<le> sw_amount_specified_remaining (sr_state run) \<and>
    swap_finished env run'"
proof -
  define Q where "Q = (\<lambda>(env :: swap_env) (run :: swap_run) (run' :: swap_run). swap_ok (sr_state run') \<and>
    towards (se_zero_for_one env) (sw_sqrt_price_x64 (sr_state run)) (sw_sqrt_price_x64 (sr_state run')) (se_limit env) \<and>
    sw_amount_specified_remaining (sr_state run') \<le> sw_amount_specified_remaining (sr_state run))"
  define pre where "pre = (\<lambda>(env :: swap_env) (run :: swap_run). swap_ok (sr_state run) \<and> 0 < se_limit env \<and>
    se_limit env < 2 ^ 128 \<and>
    towards (se_zero_for_one env) (sw_sqrt_price_x64 (sr_state run)) (se_limit env) (se_limit env))"
  define P where "P = (\<lambda>(env :: swap_env) (run :: swap_run) y. \<forall>run'. y = (Inr run' :: swap_run res) \<longrightarrow> pre env run \<longrightarrow>
    Q env run run' \<and> swap_finished env run')"
  have step: "Q env run run1 \<and> pre env run1" if "outer_round env run = Some (Inr run1)" "pre env run"
    for env :: swap_env and run run1 :: swap_run
    using outer_round_safe [OF that(1)] that(2) towards_target by (auto simp: pre_def Q_def)
  have trans: "Q env run run2" if "Q env run run1" "Q env run1 run2"
    for env :: swap_env and run run1 run2 :: swap_run
    using that towards_trans unfolding Q_def by (meson le_trans)
  have "P env run (Inr run')"
  proof (rule swap_loop.raw_induct [of P, OF _ assms(1)])
    fix loop env run and y :: "swap_run res"
    assume IH: "\<And>env run y. loop env run = Some y \<Longrightarrow> P env run y"
      and body: "(if swap_finished env run then Some (Inr run)
        else case outer_round env run of None \<Rightarrow> None
        | Some r \<Rightarrow> (case r of Inl e \<Rightarrow> Some (Inl e) | Inr run \<Rightarrow> loop env run)) = Some y"
    show "P env run y"
      unfolding P_def
    proof (intro allI impI)
      fix run'
      assume y: "y = Inr run'" and p: "pre env run"
      show "Q env run run' \<and> swap_finished env run'"
      proof (cases "swap_finished env run")
        case True
        then have "run' = run" using body y by simp
        then show ?thesis using p True by (auto simp: pre_def Q_def towards_def split: if_split_asm)
      next
        case False
        then obtain run1 where r1: "outer_round env run = Some (Inr run1)" "loop env run1 = Some y"
          using body y by (auto split: option.splits sum.splits)
        have "P env run1 y" by (rule IH [OF r1(2)])
        then show ?thesis using step [OF r1(1) p] trans y unfolding P_def by blast
      qed
    qed
  qed
  then show ?thesis using assms(2-) by (simp add: P_def pre_def Q_def)
qed

lemma update_reward_infos_pool:
  "update_reward_infos epoch now pool = Inr (pool', rs) \<Longrightarrow>
     pool' = pool\<lparr>ps_reward_infos := rs, ps_recent_epoch := epoch\<rparr>"
  by (auto simp: update_reward_infos_def and_then_Inr)

lemma update_after_swap_price:
  "update_after_swap tick price liquidity lp protocol fund growth z info pool = Inr pool' \<Longrightarrow>
     ps_sqrt_price_x64 pool' = price \<and> ps_tick_current pool' = tick \<and> ps_liquidity pool' = liquidity"
  by (auto simp: update_after_swap_def update_fee_def update_dynamic_fee_variables_def Let_def res_simps
      split: if_split_asm option.splits)

text \<open>What \<open>swap_begin\<close> hands to the loop.\<close>

lemma swap_begin_Inr:
  assumes "swap_begin epoch config pool_key ext amount limit z base now acc = Inr (env, run)"
    and "get_dynamic_fee_info (sx_pool acc) = None" "0 < ps_sqrt_price_x64 (sx_pool acc)"
    "ps_sqrt_price_x64 (sx_pool acc) < 2 ^ 128" "ps_liquidity (sx_pool acc) < 2 ^ 128" "amount < 2 ^ 64"
    "ac_trade_fee_rate config < FEE_RATE_DENOMINATOR_VALUE"
  shows "swap_ok (sr_state run) \<and> sw_sqrt_price_x64 (sr_state run) = ps_sqrt_price_x64 (sx_pool acc) \<and>
    sw_amount_specified_remaining (sr_state run) = amount \<and> se_limit env = limit \<and> se_zero_for_one env = z \<and>
    se_is_base_input env = base \<and> se_fee_on_input env = is_fee_on_input (ps_fee_on (sx_pool acc)) z \<and>
    0 < limit \<and> limit < 2 ^ 128 \<and> towards z (ps_sqrt_price_x64 (sx_pool acc)) limit limit"
proof -
  let ?lim = "if z then limit < ps_sqrt_price_x64 (sx_pool acc) \<and> limit > MIN_SQRT_PRICE_X64
        else limit > ps_sqrt_price_x64 (sx_pool acc) \<and> limit < MAX_SQRT_PRICE_X64"
  have on: "get_status_by_bit (sx_pool acc) Swap"
    using assms(1) by (auto simp: swap_begin_def require_Inr fail_Inr split: if_split_asm)
  then have lim: ?lim and "and_then (update_reward_infos epoch now (sx_pool acc)) (\<lambda>(pool, reward_infos).
       require_plain (obs_pool_id (sx_observation acc) = pool_key)
       (swap_enter epoch config pool_key ext amount limit z base now acc pool reward_infos)) = Inr (env, run)"
    using assms(1) unfolding swap_begin_def by (simp_all add: require_Inr)
  then obtain pool rs where rw: "update_reward_infos epoch now (sx_pool acc) = Inr (pool, rs)"
    and en: "swap_enter epoch config pool_key ext amount limit z base now acc pool rs = Inr (env, run)"
    unfolding and_then_pair_Inr require_plain_Inr by (elim exE conjE)
  obtain s where s: "swap_state_new pool amount (ac_trade_fee_rate config) z now = Inr s" and rest: "sr_state run = s"
      "se_limit env = limit" "se_zero_for_one env = z" "se_is_base_input env = base"
      "se_fee_on_input env = is_fee_on_input (ps_fee_on pool) z"
    using en unfolding swap_enter_def and_then_pair_Inr
    by (elim exE conjE) (auto simp: res_simps split: prod.splits)
  have pool: "pool = (sx_pool acc)\<lparr>ps_reward_infos := rs, ps_recent_epoch := epoch\<rparr>"
    by (rule update_reward_infos_pool [OF rw])
  have "get_dynamic_fee_info pool = None" using assms(2) by (simp add: pool get_dynamic_fee_info_def split: if_split_asm)
  then show ?thesis
    using s rest lim assms(3-7)
    by (cases z) (auto simp: swap_state_new_def Let_def pool swap_ok_def towards_def tick_limits)
qed

lemma swap_end_Inr:
  assumes "swap_end amount now env observation run = Inr (result, acc')" "sw_dynamic_fee_info (sr_state run) = None"
  shows "si_sqrt_price_x64 result = sw_sqrt_price_x64 (sr_state run) \<and>
    ps_sqrt_price_x64 (sx_pool acc') = si_sqrt_price_x64 result \<and>
    (if se_zero_for_one env = se_is_base_input env then si_amount_0 result else si_amount_1 result)
      = amount - sw_amount_specified_remaining (sr_state run)"
proof -
  let ?s = "sr_state run" and ?z = "se_zero_for_one env"
  obtain obs a0 a1 f0 f1 pool where
    st: "settle_amounts amount ?z (se_is_base_input env) (is_fee_on_token0 (ps_fee_on (sr_pool run)) ?z) ?s
        = Inr (a0, a1, f0, f1)"
    and up: "update_after_swap (sw_tick ?s) (sw_sqrt_price_x64 ?s) (sw_liquidity ?s) (sw_lp_fee ?s)
        (sw_protocol_fee ?s) (sw_fund_fee ?s) (sw_fee_growth_global_x64 ?s) ?z None (sr_pool run) = Inr pool"
    and res: "si_amount_0 result = a0" "si_amount_1 result = a1" "si_sqrt_price_x64 result = ps_sqrt_price_x64 pool"
      "sx_pool acc' = pool"
    using assms(1) unfolding swap_end_def update_volatility_accumulator_on_price_def assms(2) Let_def
    by (simp add: and_then_Inr and_then_quad_Inr assms(2)) (elim exE conjE, auto)
  show ?thesis
    using st update_after_swap_price [OF up] res
    by (auto simp: settle_amounts_def res_simps Let_def split: if_split_asm)
qed

section \<open>A round that changes nothing\<close>

lemma inner_loop_stuck:
  assumes "inner_round env t x = Inr (Inr x)"
  shows "inner_loop env t x = None"
proof (rule ccontr)
  assume "inner_loop env t x \<noteq> None"
  then obtain y where y: "inner_loop env t x = Some y" by blast
  define P where "P = (\<lambda>(env' :: swap_env) t' x' (y :: (swap_run \<times> tick_state \<times> nat) res). (env', t', x') \<noteq> (env, t, x))"
  have "P env t x y"
  proof (rule inner_loop.raw_induct [of P "((env, t), x)", unfolded case_prod_conv, OF _ y])
    fix loop env' t' x' and y :: "(swap_run \<times> tick_state \<times> nat) res"
    assume IH: "\<And>env t x y. loop env t x = Some y \<Longrightarrow> P env t x y"
      and body: "(case inner_round env' t' x' of Inl e \<Rightarrow> Some (Inl e)
        | Inr r \<Rightarrow> (case r of Inl y \<Rightarrow> Some (Inr y) | Inr y \<Rightarrow> loop env' t' y)) = Some y"
    show "P env' t' x' y"
    proof (rule ccontr)
      assume "\<not> P env' t' x' y"
      then have e: "env' = env" "t' = t" "x' = x" by (auto simp: P_def)
      then have "loop env t x = Some y" using body assms by simp
      then show False using IH [of env t x y] by (simp add: P_def)
    qed
  qed
  then show False by (simp add: P_def)
qed

lemma mul_div_ceil_zero [simp]: "0 < d \<Longrightarrow> mul_div_ceil w 0 b d = Some 0"
  by (simp add: mul_div_ceil_Some)

lemma curve_same [simp]: "curve_in z L p p = 0" "curve_out z L p p = 0"
  by (simp_all add: curve_in_def curve_out_def delta_0_def delta_1_def rounded_def)

text \<open>A step whose amount is too small to move the price.\<close>

lemma compute_swap_no_move:
  assumes "swap_args z p t L x fee" "0 < L" "t \<noteq> p" "get_next_sqrt_price_from_input p L x z = Inr p"
  shows "compute_swap p t L x fee True z False
    = Inr \<lparr>sc_price_next = p, sc_amount_in = 0, sc_amount_out = 0, sc_fee_amount = 0\<rparr>"
proof -
  have a: "0 < p" "p < 2 ^ 128" "0 < t" "L < 2 ^ 128" "x < 2 ^ 64" "towards z p t t"
    using assms(1) by (simp_all add: swap_args_def)
  have stay: "next_in z p L x = p"
  proof (cases "next_in z p L x < 2 ^ 128")
    case True
    then show ?thesis using assms(2,4) a get_next_sqrt_price_from_input_eq [of L p x z] by simp
  next
    case False
    then show ?thesis
      using assms(2,4) a by (cases z)
        (auto simp: next_in_def get_next_sqrt_price_from_input_def get_next_sqrt_price_from_amount_1_rounding_down_def
          u_defs res_simps next_1_in_def RESOLUTION_def Q64_def split: if_split_asm dest: next_0_in_le [of L p x])
  qed
  have "x < curve_in z L p t"
  proof (rule ccontr)
    assume "\<not> x < curve_in z L p t"
    then show False
      using stay assms(2,3) a delta_0_up_le_iff_next [of L t p x] delta_1_up_le_iff_next [of L p t x]
      by (auto simp: curve_in_def next_in_def towards_def split: if_split_asm)
  qed
  then have "reached True z p t L x = p" using stay by (simp add: reached_def curve_def)
  then show ?thesis
    using compute_swap_eq [OF assms(1), of True False] assms(3) a(5)
    by (simp add: calc_amount_def gross_out_def compute_swap_fee_def checked_sub_def)
qed

lemma spilt_no_fees:
  assumes "sw_lp_fee s < 2 ^ 64" "sw_protocol_fee s < 2 ^ 64" "sw_fund_fee s < 2 ^ 64" "0 < sw_liquidity s"
  shows "spilt_fees 0 pr fr s = Inr s"
  using assms
  by (simp add: spilt_fees_def take_fee_def fee_share_def u_defs Let_def FEE_RATE_DENOMINATOR_VALUE_def
      mul_div_floor_def)

lemma apply_no_amounts:
  assumes "sw_lp_fee s < 2 ^ 64" "sw_protocol_fee s < 2 ^ 64" "sw_fund_fee s < 2 ^ 64" "0 < sw_liquidity s"
    "sw_amount_calculated s < 2 ^ 64"
  shows "apply_swap_amounts 0 0 0 True False pr fr s = Inr s"
  using assms spilt_no_fees [of s pr fr] by (simp add: apply_swap_amounts_def u_defs)

section \<open>The state a step leaves alone\<close>

lemma update_volatility_place:
  "swap_update_volatility_accumulator s = Inr s' \<Longrightarrow> \<exists>i. s' = s\<lparr>sw_dynamic_fee_info := i\<rparr>"
  unfolding swap_update_volatility_accumulator_def
proof (cases "sw_dynamic_fee_info s")
  case None
  moreover assume "(case sw_dynamic_fee_info s of None \<Rightarrow> Inr s
      | Some info \<Rightarrow> and_then (update_volatility_accumulator (sw_tick_spacing_index s) info)
          (\<lambda>info. Inr (s\<lparr>sw_dynamic_fee_info := Some info\<rparr>))) = Inr s'"
  ultimately have "s' = s\<lparr>sw_dynamic_fee_info := sw_dynamic_fee_info s\<rparr>" by simp
  then show ?thesis by blast
qed (auto simp: and_then_Inr)

lemma swap_to_price_place:
  assumes "swap_to_price env b fee s = Inr (s', q)"
  shows "same_place s s'"
proof (cases "sw_sqrt_price_x64 s = b")
  case False
  then obtain i out f where "apply_swap_amounts i out f (se_is_base_input env) (se_fee_on_input env)
      (ac_protocol_fee_rate (se_amm_config env)) (ac_fund_fee_rate (se_amm_config env)) s = Inr s'"
    using assms by (auto simp: swap_to_price_def and_then_Inr)
  then show ?thesis using apply_swap_amounts_Inr by blast
qed (use assms in \<open>simp add: swap_to_price_def\<close>)

lemma swap_to_price_past:
  assumes "swap_to_price env b fee s = Inr (s', q)" "se_zero_for_one env" "sw_sqrt_price_x64 s < b"
  shows "b \<le> q"
  using assms by (auto simp: swap_to_price_def compute_swap_def and_then_Inr require_plain_Inr)
    (auto simp: compute_swap_amounts_def compute_swap_fee_def Let_def res_simps split: if_split_asm)

end
