(* ===== verification/Swap_Example.thy ===== *)
theory Swap_Example
  imports Swap_Safety Pool_Bitmap "HOL-Library.Code_Target_Nat"
begin

text \<open>
  Two concrete runs of the swap. In the first an exact input of \<open>10^9\<close> raises the price of a pool from 1 to the
  price of tick 100, which it crosses; the step, the split of the fees, the crossing and the settlement are
  evaluated one by one. In the second a swap with the dynamic fee crosses a gap without liquidity.
\<close>

section \<open>A swap that crosses a tick\<close>

definition swap_pool :: pool_state where
  "swap_pool = flagged_pool\<lparr>ps_liquidity := 20001499987\<rparr>"

definition swap_tick :: tick_state where
  "swap_tick = default_tick_state\<lparr>t_tick := 100, 
     t_liquidity_gross := 20001499987, t_liquidity_net := - 20001499987\<rparr>"

definition swap_array :: tick_array_state where
  "swap_array = default_tick_array_state\<lparr>ta_pool_id := 77, ta_initialized_tick_count := 1,
     ta_ticks := (replicate 60 default_tick_state)[10 := swap_tick]\<rparr>"

definition swap_acc :: swap_accounts where
  "swap_acc = \<lparr>sx_pool = swap_pool, sx_extension = None, sx_arrays = [swap_array],
     sx_observation = observation_initialize 0 77\<rparr>"

definition example_env :: swap_env where
  "example_env = \<lparr>se_epoch = 0, se_amm_config = example_config, se_pool_key = 77, se_extension_key = 9,
     se_limit = 18539204128674375874, se_zero_for_one = False, se_is_base_input = True,
     se_fee_on_input = True, se_reward_infos = ps_reward_infos swap_pool\<rparr>"

definition start_state :: swap_state where
  "start_state = \<lparr>sw_amount_specified_remaining = 1000000000, sw_amount_calculated = 0,
        sw_sqrt_price_x64 = 2 ^ 64, sw_tick = 0, sw_fee_growth_global_x64 = 0,
        sw_lp_fee = 0, sw_protocol_fee = 0, sw_fund_fee = 0, sw_liquidity = 20001499987,
        sw_sqrt_price_next_x64 = 0, sw_tick_next = 0, sw_tick_spacing = 10,
        sw_base_fee_rate = 2500, sw_tick_spacing_index = 0, sw_dynamic_fee_info = None\<rparr>"

definition start_run :: swap_run where
  "start_run = \<lparr>sr_state = start_state, sr_pool = swap_pool, sr_extension = None, sr_array = swap_array, sr_queue = [],
          sr_finished = [], sr_array_index = 0, sr_contains_pool_tick = True\<rparr>"

lemma swap_pool_simps: "ps_tick_current swap_pool = 0" "ps_tick_spacing swap_pool = 10" "ps_liquidity swap_pool = 20001499987"
  "ps_sqrt_price_x64 swap_pool = 2 ^ 64" "ps_tick_array_bitmap swap_pool = (limbs_zero 16)[8 := 1]"
  "get_dynamic_fee_info swap_pool = None" "ps_fee_growth_global_0_x64 swap_pool = 0" "ps_fee_growth_global_1_x64 swap_pool = 0"
  "get_status_by_bit swap_pool Swap" "is_fee_on_token0 (ps_fee_on swap_pool) False = False" "is_fee_on_input (ps_fee_on swap_pool) False"
  by (simp_all add: swap_pool_def flagged_pool_def example_pool_def pool_initialize_def example_config_def get_dynamic_fee_info_def get_status_by_bit_def is_fee_on_token0_def is_fee_on_input_def)

lemma crossing_rewards: "update_reward_infos 0 1000 swap_pool = Inr (swap_pool, ps_reward_infos swap_pool)"
  by (simp add: update_reward_infos_def swap_pool_def flagged_pool_def example_pool_def pool_initialize_def new_reward_info_def REWARD_NUM_def
      update_reward_info_def reward_initialized_def numeral_3_eq_3)
lemma crossing_first_array: "first_tick_array_index_with_extension_info swap_pool None False = Inr (True, 0)"
  by code_simp
lemma crossing_begin: "swap_begin 0 example_config 77 9 1000000000 18539204128674375874 False True 1000 swap_acc = Inr (example_env, start_run)"
  by (simp add: swap_begin_def crossing_rewards crossing_first_array swap_enter_def first_array_of_def swap_state_new_def swap_pool_simps swap_acc_def
     tick_limits example_env_def start_run_def start_state_def observation_initialize_def swap_array_def default_tick_array_state_def example_config_def)
lemma crossing_price: "get_sqrt_price_at_tick 100 = Inr 18539204128674375874" by code_simp

lemma crossing_find: "find_next_tick example_env start_run = Inr (swap_tick, start_run)" 
proof -
  have "next_initialized_tick swap_array 0 10 False = Inr (Some swap_tick)" by code_simp
  then show ?thesis  by (simp add: find_next_tick_def start_run_def start_state_def example_env_def swap_pool_simps)
qed
definition tick_run where "tick_run = start_run\<lparr>sr_state := start_state\<lparr>sw_tick_next := 100, sw_sqrt_price_next_x64 := 18539204128674375874\<rparr>\<rparr>"
lemma crossing_target: "next_target example_env start_run = Inr (tick_run, swap_tick, 18539204128674375874)"
proof -
  have "t_tick swap_tick = 100" "is_initialized swap_tick" by (simp_all add: swap_tick_def is_initialized_def has_liquidity_def)
  then show ?thesis unfolding next_target_def crossing_find and_then_simps prod.case
  by (simp add: get_target_price_based_on_next_tick_def tick_limits crossing_price Let_def)
   (simp add: start_run_def start_state_def example_env_def tick_run_def)
qed
definition paid_state where "paid_state = (sr_state tick_run)\<lparr>sw_amount_specified_remaining := 1000000000 - 100252911 - 251261, sw_amount_calculated := 99752922\<rparr>"
definition split_state where "split_state = split_result 251261 120000 40000 paid_state"
lemma crossing_to_price: "swap_to_price example_env 18539204128674375874 2500 (sr_state tick_run) = Inr (split_state, 18539204128674375874)"
proof -
  have "compute_swap (2 ^ 64) 18539204128674375874 20001499987 1000000000 2500 True False True =
     Inr \<lparr>sc_price_next = 18539204128674375874, sc_amount_in = 100252911,
       sc_amount_out = 99752922, sc_fee_amount = 251261\<rparr>" by (simp add: swap_evaluation)
  moreover have "apply_swap_amounts 100252911 99752922 251261 True True 120000 40000 (sr_state tick_run) = Inr split_state"
   by (simp add: split_state_def split_result_def share_or_zero_def paid_state_def start_state_def start_run_def tick_run_def take_fee_def fee_share_def 
     apply_swap_amounts_def spilt_fees_def swap_evaluation)
  ultimately show ?thesis
  by (simp add: swap_to_price_def tick_run_def start_state_def start_run_def example_env_def example_config_def)
qed

definition crossed_tick :: tick_state where
  "crossed_tick = swap_tick\<lparr>t_fee_growth_outside_1 := sw_fee_growth_global_x64 split_state\<rparr>"
definition crossed_array :: tick_array_state where
  "crossed_array = swap_array\<lparr>ta_ticks := (ta_ticks swap_array)[10 := crossed_tick]\<rparr>"
definition reached_run :: swap_run where
  "reached_run = start_run\<lparr>sr_array := crossed_array, sr_state := split_state\<lparr>sw_tick := 100\<rparr>\<rparr>"

lemma tick_simps: "t_tick swap_tick = 100" "is_initialized swap_tick" "has_liquidity swap_tick" "\<not> has_limit_orders swap_tick"
   "limit_order_unfilled_amount swap_tick = Inr 0" "t_tick crossed_tick = 100" "\<not> has_limit_orders crossed_tick" "limit_order_unfilled_amount crossed_tick = Inr 0"
  by (simp_all add: swap_tick_def is_initialized_def has_liquidity_def has_limit_orders_def limit_order_unfilled_amount_def default_tick_state_def u_defs crossed_tick_def)

lemma crossing_orders: "swap_match_orders example_env 2500 swap_tick split_state = Inr (swap_tick, split_state)"
  by (simp add: swap_match_orders_def match_limit_order_def tick_simps)
lemma split_simps: "sw_liquidity split_state = 20001499987" "sw_sqrt_price_next_x64 split_state = 18539204128674375874"
  "sw_tick_next split_state = 100" "sw_amount_specified_remaining split_state = 899495828" "sw_amount_calculated split_state = 99752922"
  "sw_dynamic_fee_info split_state = None"
  by (simp_all add: split_state_def paid_state_def tick_run_def start_run_def start_state_def)
lemma crossing_liquidity: "cross_liquidity False False (ps_reward_infos swap_pool) swap_pool swap_tick split_state = Inr (crossed_tick, 0)"
proof -
  have "flip_rewards (ps_reward_infos swap_pool) (t_reward_growths_outside swap_tick) = t_reward_growths_outside swap_tick"
   by code_simp
  then show ?thesis
   by (simp add: cross_liquidity_def split_simps tick_cross_def swap_pool_simps Let_def add_delta_def u_defs crossed_tick_def)
     (simp add: swap_tick_def default_tick_state_def)
qed
lemma crossing_array: "update_tick_state 0 100 10 crossed_tick swap_array = Inr crossed_array"
proof -
  have "get_tick_offset_in_array swap_array 100 10 = Inr 10" by code_simp
  then show ?thesis by (simp add: update_tick_state_def set_tick_state_def crossed_array_def swap_array_def default_tick_array_state_def)
qed
lemma crossing_after: "after_price example_env 2500 18539204128674375874 (start_run\<lparr>sr_state := split_state\<rparr>, swap_tick, 20001499987)
   = Inr (reached_run, crossed_tick, 0)"
proof -
  have "uncount_tick example_env swap_tick r = Inr r" for r by (simp add: uncount_tick_def tick_simps)
  moreover have "se_zero_for_one example_env = False" "sr_pool start_run = swap_pool" "se_reward_infos example_env = ps_reward_infos swap_pool"
     "se_epoch example_env = 0" "sr_array start_run = swap_array" by (simp_all add: example_env_def start_run_def)
  ultimately show ?thesis
  by (simp add: after_price_def reach_tick_def Let_def split_simps crossing_orders tick_simps crossing_liquidity crossing_array tick_after_reach_def swap_pool_simps reached_run_def)
qed
definition final_run where "final_run = reached_run\<lparr>sr_state := split_state\<lparr>sw_tick := 100, sw_sqrt_price_x64 := 18539204128674375874\<rparr>\<rparr>"
lemma crossing_round: "inner_round example_env 18539204128674375874 (tick_run, swap_tick, 20001499987) = Inr (Inl (final_run, crossed_tick, 0))"
proof -
  have 1: "sw_dynamic_fee_info (sr_state tick_run) = None" "sw_base_fee_rate (sr_state tick_run) = 2500" "tick_run\<lparr>sr_state := split_state\<rparr> = start_run\<lparr>sr_state := split_state\<rparr>"
    by (simp_all add: tick_run_def start_state_def)
  show ?thesis by (simp add: inner_round_def swap_update_volatility_accumulator_def get_total_fee_rate_def get_spacing_bounded_price_def 1 crossing_to_price tick_simps crossing_after round_end_def Let_def)
    (simp add: reached_run_def final_run_def split_simps)
qed
definition end_run where "end_run = final_run\<lparr>sr_state := (sr_state final_run)\<lparr>sw_liquidity := 0\<rparr>\<rparr>"
lemma crossing_loop: "swap_loop example_env start_run = Some (Inr end_run)"
proof -
  have "inner_loop example_env 18539204128674375874 (tick_run, swap_tick, 20001499987) = Some (Inr (final_run, crossed_tick, 0))"
    by (subst inner_loop.simps) (simp add: crossing_round)
  moreover have "sw_liquidity (sr_state tick_run) = 20001499987" by (simp add: tick_run_def start_state_def)
  ultimately have 1: "outer_round example_env start_run = Some (Inr end_run)" by (simp add: outer_round_def crossing_target set_liquidity_def end_run_def)
  have "\<not> swap_finished example_env start_run" "swap_finished example_env end_run"
    by (simp_all add: swap_finished_def start_run_def start_state_def example_env_def end_run_def final_run_def)
  then show ?thesis using 1 by (subst swap_loop.simps) (simp add: swap_loop.simps [of _ end_run])
qed
lemma crossing_end: "\<exists>result acc'. swap_end 1000000000 1000 example_env (sx_observation swap_acc) end_run = Inr (result, acc') \<and> si_sqrt_price_x64 result = 18539204128674375874 \<and> si_amount_1 result = 100504172 \<and> si_amount_0 result = 99752922"
proof -
  have "sr_state end_run = split_state\<lparr>sw_tick := 100, sw_sqrt_price_x64 := 18539204128674375874, sw_liquidity := 0\<rparr>" "sr_pool end_run = swap_pool"
    "se_zero_for_one example_env = False" "se_is_base_input example_env = True"
    by (simp_all add: end_run_def final_run_def reached_run_def start_run_def example_env_def)
  moreover obtain ob where "observation_update 1000 0 (sx_observation swap_acc) = Inr ob"
    by (auto simp: observation_update_def swap_acc_def observation_initialize_def write_observation_def OBSERVATION_NUM_def)
  moreover have "sw_lp_fee split_state = 211060" "sw_protocol_fee split_state = 30151" "sw_fund_fee split_state = 10050"
    by (simp_all add: split_state_def split_result_def share_or_zero_def paid_state_def tick_run_def start_state_def Let_def)
  moreover have "ps_protocol_fees_token_1 swap_pool = 0" "ps_fund_fees_token_1 swap_pool = 0" by (simp_all add: swap_pool_def flagged_pool_def example_pool_def pool_initialize_def)
  ultimately show ?thesis
    by (simp add: swap_end_def update_volatility_accumulator_on_price_def split_simps swap_pool_simps settle_amounts_def update_after_swap_def update_fee_def Let_def u_defs update_dynamic_fee_variables_def)
qed

section \<open>A gap without liquidity\<close>

definition gap_info :: dynamic_fee_info where
  "gap_info = example_dynamic_fee\<lparr>df_tick_spacing_index_reference := 0, df_volatility_reference := 0,
     df_volatility_accumulator := 0\<rparr>"

definition gap_tick :: tick_state where
  "gap_tick = default_tick_state\<lparr>t_tick := - 100, t_liquidity_gross := 20001499987, t_liquidity_net := - 20001499987\<rparr>"

definition gap_array :: tick_array_state where
  "gap_array = default_tick_array_state\<lparr>ta_pool_id := 77, ta_start_tick_index := - 600, ta_initialized_tick_count := 1,
     ta_ticks := (replicate 60 default_tick_state)[50 := gap_tick]\<rparr>"

definition gap_env :: swap_env where
  "gap_env = example_env\<lparr>se_zero_for_one := True, se_limit := 18000000000000000000, se_reward_infos := []\<rparr>"

definition gap_state :: swap_state where
  "gap_state = start_state\<lparr>sw_sqrt_price_x64 := 18440000000000000000, sw_tick := - 8, sw_liquidity := 0,
     sw_sqrt_price_next_x64 := 18354745142194513203, sw_tick_next := - 100, sw_tick_spacing_index := - 1,
     sw_dynamic_fee_info := Some gap_info\<rparr>"

definition gap_run :: swap_run where
  "gap_run = start_run\<lparr>sr_state := gap_state, sr_array := gap_array\<rparr>"

definition gap_passed :: swap_state where
  "gap_passed = gap_state\<lparr>sw_dynamic_fee_info := Some (gap_info\<lparr>df_volatility_accumulator := 10000\<rparr>)\<rparr>"

lemma gap_tick_simps: "t_tick gap_tick = - 100" "is_initialized gap_tick" "has_liquidity gap_tick" "\<not> has_limit_orders gap_tick"
   "limit_order_unfilled_amount gap_tick = Inr 0" "t_liquidity_net gap_tick = - 20001499987"
  by (simp_all add: gap_tick_def is_initialized_def has_liquidity_def has_limit_orders_def
      limit_order_unfilled_amount_def default_tick_state_def u_defs)

lemma gap_env_simps: "se_zero_for_one gap_env" "se_is_base_input gap_env" "se_fee_on_input gap_env" "se_epoch gap_env = 0"
    "se_reward_infos gap_env = []" "se_amm_config gap_env = example_config"
  by (simp_all add: gap_env_def example_env_def)

lemma gap_volatility: "swap_update_volatility_accumulator gap_state = Inr gap_passed"
  by (simp add: gap_passed_def gap_state_def swap_update_volatility_accumulator_def update_volatility_accumulator_def
      gap_info_def example_dynamic_fee_def arith_i_def checked_i_def fits_i_def fee_constants wrap_uint_def)

lemma gap_fee_rate: "\<exists>f. get_total_fee_rate (sw_dynamic_fee_info gap_passed) (sw_base_fee_rate gap_passed)
    (sw_tick_spacing gap_passed) = Inr f \<and> f < 1000000"
  by (simp add: gap_passed_def gap_state_def get_total_fee_rate_def compute_dynamic_fee_rate_def u_defs gap_info_def
      example_dynamic_fee_def fee_constants start_state_def Let_def wrap_uint_def mul_div_eq ceil_div_def)

lemma gap_price_step:
  assumes "f < 1000000"
  shows "swap_to_price gap_env 18354745142194513203 f gap_passed = Inr (gap_passed, 18354745142194513203)"
  using assms by (simp add: swap_to_price_def gap_env_simps gap_passed_def gap_state_def start_state_def swap_evaluation
      apply_swap_amounts_def spilt_fees_def take_fee_def fee_share_def example_config_def)

definition gap_crossed :: tick_state where
  "gap_crossed = gap_tick\<lparr>t_reward_growths_outside := []\<rparr>"

lemma gap_crossing: "cross_liquidity True True [] swap_pool gap_tick gap_passed = Inr (gap_crossed, 20001499987)"
  by (simp add: cross_liquidity_def tick_cross_def flip_rewards_def swap_pool_simps gap_crossed_def gap_tick_def
      default_tick_state_def add_delta_def u_defs arith_i_def checked_i_def fits_i_def gap_passed_def gap_state_def
      start_state_def)

lemma gap_crossed_simps: "t_tick gap_crossed = - 100" "\<not> has_limit_orders gap_crossed"
   "limit_order_unfilled_amount gap_crossed = Inr 0"
  by (simp_all add: gap_crossed_def has_limit_orders_def gap_tick_def limit_order_unfilled_amount_def
      default_tick_state_def u_defs)

lemma gap_update: "\<exists>ta. update_tick_state 0 (- 100) 10 gap_crossed gap_array = Inr ta"
proof -
  have "get_tick_offset_in_array gap_array (- 100) 10 = Inr 50" by code_simp
  then show ?thesis by (simp add: update_tick_state_def set_tick_state_def gap_array_def)
qed

lemma gap_reach: "\<exists>run'. after_price gap_env f 18354745142194513203 (gap_run\<lparr>sr_state := gap_passed\<rparr>, gap_tick, 0)
    = Inr (run', gap_crossed, 20001499987) \<and> sr_state run' = gap_passed\<lparr>sw_tick := - 101\<rparr>"
proof -
  have "uncount_tick gap_env gap_tick r = Inr r" for r by (simp add: uncount_tick_def gap_tick_simps)
  moreover have "swap_match_orders gap_env f gap_tick s = Inr (gap_tick, s)" for s
    by (simp add: swap_match_orders_def match_limit_order_def gap_tick_simps)
  moreover obtain ta where "update_tick_state 0 (- 100) 10 gap_crossed gap_array = Inr ta" using gap_update ..
  moreover have "sr_pool gap_run = swap_pool" "sr_array gap_run = gap_array"
    by (simp_all add: gap_run_def start_run_def)
  moreover have "is_fee_on_token0 (ps_fee_on swap_pool) True"
    by (simp add: swap_pool_def flagged_pool_def example_pool_def pool_initialize_def is_fee_on_token0_def)
  moreover have "sw_sqrt_price_next_x64 gap_passed = 18354745142194513203" "sw_tick_next gap_passed = - 100"
    by (simp_all add: gap_passed_def gap_state_def)
  ultimately show ?thesis
    by (simp add: after_price_def reach_tick_def Let_def gap_tick_simps gap_env_simps gap_crossing gap_crossed_simps
        swap_pool_simps tick_after_reach_def arith_i_def checked_i_def fits_i_def)
qed

lemma gap_round: "\<exists>run'. inner_round gap_env 18354745142194513203 (gap_run, gap_tick, 0)
    = Inr (Inl (run', gap_crossed, 20001499987)) \<and>
    sr_state run' = gap_passed\<lparr>sw_tick := - 101, sw_sqrt_price_x64 := 18354745142194513203\<rparr>"
proof -
  obtain f where f: "get_total_fee_rate (sw_dynamic_fee_info gap_passed) (sw_base_fee_rate gap_passed)
      (sw_tick_spacing gap_passed) = Inr f" "f < 1000000" using gap_fee_rate by blast
  obtain run' where r: "after_price gap_env f 18354745142194513203 (gap_run\<lparr>sr_state := gap_passed\<rparr>, gap_tick, 0)
      = Inr (run', gap_crossed, 20001499987)" "sr_state run' = gap_passed\<lparr>sw_tick := - 101\<rparr>" using gap_reach by blast
  have "get_spacing_bounded_price 18354745142194513203 True gap_passed = Inr (True, 18354745142194513203)"
    by (simp add: get_spacing_bounded_price_def gap_passed_def gap_state_def)
  moreover have "sr_state gap_run = gap_state" by (simp add: gap_run_def)
  ultimately have "inner_round gap_env 18354745142194513203 (gap_run, gap_tick, 0)
      = round_end gap_env 18354745142194513203 True 0 18354745142194513203 (run', gap_crossed, 20001499987)"
    using f r gap_price_step [OF f(2)] by (simp add: inner_round_def gap_volatility gap_env_simps gap_tick_simps)
  then show ?thesis
    using r(2) by (simp add: round_end_def Let_def gap_crossed_simps)
qed

end
