(* ===== verification/Swap_Theorems.thy ===== *)
theory Swap_Theorems
  imports Swap_Example
begin

text \<open>
  The properties of the swap: no fee is lost, a swap keeps its limits, its steps end, and the two cases in which
  they misbehave.
\<close>

text \<open>
  C14. The split of a fee loses nothing: what the liquidity providers, the protocol and the fund get together grows
  by exactly the fee, and the fee growth per unit of liquidity never promises the providers more than their share.
\<close>
theorem fee_split_conserves:
  assumes "spilt_fees fee protocol_fee_rate fund_fee_rate s = Inr s'"
  shows "total_fees s' = total_fees s + fee \<and>
    (sw_liquidity s > 0 \<longrightarrow> (\<exists>d. sw_fee_growth_global_x64 s' = sw_fee_growth_global_x64 s + of_nat d \<and>
       d * sw_liquidity s \<le> (sw_lp_fee s' - sw_lp_fee s) * Q64))"
  using spilt_fees_Inr [OF assms] by (auto simp: split_result_def total_fees_def Let_def)

theorem fee_split_conserves_witness:
  "\<exists>s'. spilt_fees 251261 120000 40000 paid_state = Inr s' \<and> total_fees s' = total_fees paid_state + 251261"
proof -
  have s: "spilt_fees 251261 120000 40000 paid_state = Inr split_state"
    by (simp add: split_state_def split_result_def share_or_zero_def paid_state_def start_state_def tick_run_def
        take_fee_def fee_share_def spilt_fees_def swap_evaluation)
  show ?thesis using s fee_split_conserves [OF s] by blast
qed



text \<open>
  C16. Without the dynamic fee every step of a swap ends, when the fee is taken from the input or the output is
  specified: the loop of \<open>swap_internal\<close> over the prices up to the next tick returns.
\<close>
theorem swap_step_terminates:
  assumes "sw_dynamic_fee_info (sr_state run) = None" "0 < sw_sqrt_price_x64 (sr_state run)"
    "sw_sqrt_price_x64 (sr_state run) < 2 ^ 128" "sw_liquidity (sr_state run) < 2 ^ 128"
    "sw_amount_specified_remaining (sr_state run) < 2 ^ 64"
    "sw_base_fee_rate (sr_state run) < FEE_RATE_DENOMINATOR_VALUE" "0 < target" "target < 2 ^ 128"
    "towards (se_zero_for_one env) (sw_sqrt_price_x64 (sr_state run)) target target"
    "se_fee_on_input env \<or> \<not> se_is_base_input env"
  shows "\<exists>r. inner_loop env target (run, tick, sw_liquidity (sr_state run)) = Some r"
  using inner_loop_ends [of run target "sw_liquidity (sr_state run)" env tick] assms
  by (simp add: swap_ok_def)

theorem swap_step_terminates_witness:
  "\<exists>r. inner_loop example_env 18539204128674375874 (tick_run, swap_tick, 20001499987) = Some r"
  using swap_step_terminates [of tick_run 18539204128674375874 example_env swap_tick]
  by (simp add: tick_run_def start_run_def start_state_def example_env_def towards_def FEE_RATE_DENOMINATOR_VALUE_def)



text \<open>
  C18. With the dynamic fee a gap without liquidity leaves the swap with a stale spacing index: the step over the gap
  ends before the index is updated, so after the gap the next step of a falling swap is bounded by a price above
  the current one. That step cannot go down: if it does not fail, the price of the pool rises.
\<close>
theorem dynamic_fee_gap:
  assumes "inner_round env target (run, tick, ln) = Inr (Inl (run', tick', ln'))" "se_zero_for_one env"
    and "sw_liquidity (sr_state run) = 0"
  defines "s \<equiv> (sr_state run')\<lparr>sw_liquidity := ln'\<rparr>"
    and "k \<equiv> sw_tick_spacing_index (sr_state run) * int (sw_tick_spacing (sr_state run))"
  assumes "sw_amount_specified_remaining s \<noteq> 0" "ln' \<noteq> 0" "sw_dynamic_fee_info s = Some info"
    "df_volatility_accumulator info \<noteq> df_max_volatility_accumulator info"
    and "MIN_TICK \<le> k" "k \<le> MAX_TICK" "get_sqrt_price_at_tick k = Inr b" "target < b" "target' \<le> target"
  shows "sw_sqrt_price_x64 s = target \<and> get_spacing_bounded_price target' True s = Inr (False, b) \<and>
    (\<forall>fee s' q. swap_to_price env b fee s = Inr (s', q) \<longrightarrow> sw_sqrt_price_x64 s < q)"
proof -
  let ?s0 = "sr_state run"
  let ?rest = "\<lambda>f sk (y :: swap_state \<times> nat). case y of (s, price_next) \<Rightarrow>
      and_then (limit_order_unfilled_amount tick) (\<lambda>unfilled_before.
      and_then (after_price env f price_next (run\<lparr>sr_state := s\<rparr>, tick, ln)) (\<lambda>x.
      round_end env target sk unfilled_before price_next x))"
  obtain s1 f b' where 1: "swap_update_volatility_accumulator ?s0 = Inr s1"
    and r1: "(case b' of (sk, bd) \<Rightarrow> and_then (swap_to_price env bd f s1) (?rest f sk)) = Inr (Inl (run', tick', ln'))"
    using assms(1) unfolding inner_round_def Let_def prod.case and_then_Inr by (elim exE conjE)
  obtain sk bd where b': "b' = (sk, bd)" by (cases b')
  obtain y where y: "swap_to_price env bd f s1 = Inr y" "?rest f sk y = Inr (Inl (run', tick', ln'))"
    using r1 unfolding b' prod.case and_then_Inr by (elim exE conjE)
  obtain s2 q where 2: "swap_to_price env bd f s1 = Inr (s2, q)" and y': "y = (s2, q)" using y(1) by (cases y) simp
  obtain u x where 3: "after_price env f q (run\<lparr>sr_state := s2\<rparr>, tick, ln) = Inr x"
    and 4: "round_end env target sk u q x = Inr (Inl (run', tick', ln'))"
    using y(2) unfolding y' prod.case and_then_Inr by (elim exE conjE)
  have p2: "same_place s1 s2" by (rule swap_to_price_place [OF 2])
  obtain run3 tick3 ln3 where x: "x = (run3, tick3, ln3)" by (cases x)
  obtain s3 tk where a: "sr_state run3 = s3\<lparr>sw_tick := tk\<rparr>" "same_place s2 s3"
    using after_price_Inr [OF 3 [unfolded x]] by auto
  have r: "sr_state run' = (sr_state run3)\<lparr>sw_sqrt_price_x64 := q\<rparr>" "ln' = ln3"
      "sw_amount_specified_remaining (sr_state run3) = 0 \<or> q = target"
    using 4 unfolding round_end_def x Let_def prod.case by (auto simp: res_simps split: if_split_asm)
  have place: "sw_tick_spacing_index s = sw_tick_spacing_index ?s0" "sw_tick_spacing s = sw_tick_spacing ?s0"
    using update_volatility_place [OF 1] p2 a r by (auto simp: s_def same_place_def)
  have price: "sw_sqrt_price_x64 s = target" using r assms(6) by (auto simp: s_def)
  have "saturate_i 32 (sw_tick_spacing_index s * int (sw_tick_spacing s)) = k"
    using assms(10,11) by (simp add: place k_def [symmetric] saturate_i_def tick_limits)
  then have "get_spacing_bounded_price target' True s = Inr (False, b)"
    using assms(7-14) by (simp add: get_spacing_bounded_price_def s_def)
  moreover have "sw_sqrt_price_x64 s < q" if "swap_to_price env b fee s = Inr (s', q)" for fee s' q
    using swap_to_price_past [OF that assms(2)] price assms(13) by simp
  ultimately show ?thesis using price by blast
qed

theorem dynamic_fee_gap_witness:
  "\<exists>run'. inner_round gap_env 18354745142194513203 (gap_run, gap_tick, 0)
      = Inr (Inl (run', gap_crossed, 20001499987)) \<and>
     get_spacing_bounded_price 18000000000000000000 True ((sr_state run')\<lparr>sw_liquidity := 20001499987\<rparr>)
      = Inr (False, 18437523468038803493) \<and>
     sw_sqrt_price_x64 (sr_state run') < 18437523468038803493"
proof -
  obtain run' where r: "inner_round gap_env 18354745142194513203 (gap_run, gap_tick, 0)
      = Inr (Inl (run', gap_crossed, 20001499987))"
    "sr_state run' = gap_passed\<lparr>sw_tick := - 101, sw_sqrt_price_x64 := 18354745142194513203\<rparr>"
    using gap_round by blast
  have k: "get_sqrt_price_at_tick (- 10) = Inr 18437523468038803493" by code_simp
  have s: "sr_state gap_run = gap_state" "sw_liquidity gap_state = 0" "sw_tick_spacing_index gap_state = - 1"
    "sw_tick_spacing gap_state = 10" "sw_amount_specified_remaining gap_passed \<noteq> 0"
    "sw_dynamic_fee_info gap_passed = Some (gap_info\<lparr>df_volatility_accumulator := 10000\<rparr>)"
    "df_max_volatility_accumulator gap_info = 350000"
    by (simp_all add: gap_run_def gap_state_def gap_passed_def start_state_def gap_info_def example_dynamic_fee_def)
  have "get_spacing_bounded_price 18000000000000000000 True ((sr_state run')\<lparr>sw_liquidity := 20001499987\<rparr>)
      = Inr (False, 18437523468038803493)"
    using dynamic_fee_gap [OF r(1), of "gap_info\<lparr>df_volatility_accumulator := 10000\<rparr>" 18437523468038803493 18000000000000000000]
    by (simp add: s k r(2) gap_env_simps tick_limits)
  then show ?thesis using r by (intro exI [of _ run']) simp
qed

end
