(* ===== verification/Nebula_Shield.thy ===== *)
theory Nebula_Shield
  imports Pool_State Oracle
begin

text \<open>
  The defence against sandwich attacks: \<open>states/nebula_shield.rs\<close>, \<open>instructions/nebula_shield.rs\<close> and
  \<open>instructions/jit_protection.rs\<close>. The two hooks of \<open>swap_v2\<close> take the arbitrage configuration as an
  account: its address, whether the program owns it, and its content if it deserializes; writing it back
  is the account they return.
\<close>

section \<open>The arbitrage configuration\<close>

record arb_config =
  ab_pool :: pubkey
  ab_arb_authority :: pubkey
  ab_treasury :: pubkey
  ab_min_spread_bps :: nat
  ab_treasury_share_bps :: nat
  ab_twap_window_seconds :: nat
  ab_min_sweep_amount :: nat
  ab_max_sweep_amount :: nat
  ab_last_sweep_slot :: nat
  ab_cooldown_slots :: nat
  ab_total_profit_captured_a :: nat
  ab_total_profit_captured_b :: nat
  ab_enabled :: bool
  ab_bump :: nat
  ab_manipulation_tax_bps :: nat
  ab_manipulation_tax_collected_a :: nat
  ab_manipulation_tax_collected_b :: nat
  ab_manipulation_detections :: nat
  ab_manipulation_threshold_bps :: nat

definition DEFAULT_MANIPULATION_THRESHOLD_BPS :: nat where "DEFAULT_MANIPULATION_THRESHOLD_BPS = 500"

definition effective_manipulation_threshold_bps :: "arb_config \<Rightarrow> nat" where
  "effective_manipulation_threshold_bps a =
     (if ab_manipulation_threshold_bps a = 0 then DEFAULT_MANIPULATION_THRESHOLD_BPS
      else ab_manipulation_threshold_bps a)"

section \<open>The price of the oracle\<close>

definition MIN_OBSERVATIONS_FOR_TWAP :: nat where "MIN_OBSERVATIONS_FOR_TWAP = 2"

definition find_observation_at_or_before :: "observation_state \<Rightarrow> nat \<Rightarrow> nat option" where
  "find_observation_at_or_before oracle target_timestamp =
     List.find (\<lambda>i. ob_block_timestamp (obs_observations oracle ! i) \<noteq> 0 \<and>
         ob_block_timestamp (obs_observations oracle ! i) \<le> target_timestamp)
       (List.map (\<lambda>i. (obs_observation_index oracle + OBSERVATION_NUM - i) mod OBSERVATION_NUM) [0..<OBSERVATION_NUM])"

text \<open>The observation both readers take for the latest.\<close>

definition latest_observation :: "observation_state \<Rightarrow> observation" where
  "latest_observation oracle =
     obs_observations oracle ! (saturating_sub (obs_observation_index oracle) 1 mod OBSERVATION_NUM)"

definition clamp_tick :: "int \<Rightarrow> int" where
  "clamp_tick t = max (- 443636) (min t 443636)"

definition average_tick :: "observation \<Rightarrow> observation \<Rightarrow> int option res" where
  "average_tick latest older =
     (let time_delta = int (saturating_sub (ob_block_timestamp latest) (ob_block_timestamp older)) in
      if time_delta = 0 then Inr None
      else
        and_then (sdiv_i 64 (wrap_int 64 (ob_tick_cumulative latest - ob_tick_cumulative older)) time_delta) (\<lambda>q.
        Inr (Some (clamp_tick (wrap_int 32 q)))))"

definition observe_twap :: "observation_state \<Rightarrow> nat \<Rightarrow> nat \<Rightarrow> int option res" where
  "observe_twap oracle window_seconds current_timestamp =
     (if obs_observation_index oracle = 0 \<or> obs_observation_index oracle < MIN_OBSERVATIONS_FOR_TWAP then Inr None
      else
        let latest = latest_observation oracle;
            elapsed = saturating_sub current_timestamp (ob_block_timestamp latest)
        in if ob_block_timestamp latest = 0 \<or> elapsed = 0 then Inr None
           else
             and_then (mul_u 32 window_seconds 2) (\<lambda>stale.
             if elapsed > stale then Inr None
             else
               (case find_observation_at_or_before oracle (saturating_sub current_timestamp window_seconds) of
                  None \<Rightarrow> Inr None
                | Some i \<Rightarrow> average_tick latest (obs_observations oracle ! i))))"

text \<open>The shield goes on without a price when there is none or its tick has none.\<close>

definition reference_price :: "observation_state \<Rightarrow> nat \<Rightarrow> nat \<Rightarrow> nat option res" where
  "reference_price oracle window_seconds current_timestamp =
     and_then (observe_twap oracle window_seconds current_timestamp) (\<lambda>twap_tick.
     case twap_tick of
       None \<Rightarrow> Inr None
     | Some t \<Rightarrow>
         (case get_sqrt_price_at_tick t of Inl Panic \<Rightarrow> Inl Panic | Inl _ \<Rightarrow> Inr None | Inr p \<Rightarrow> Inr (Some p)))"

text \<open>The distance of two prices in basis points of the second.\<close>

definition spread_bps :: "nat \<Rightarrow> nat \<Rightarrow> nat" where
  "spread_bps spot twap =
     (case checked_div (saturating_mul 128 (if spot > twap then spot - twap else twap - spot) 10000) twap of
        Some x \<Rightarrow> x | None \<Rightarrow> 0)"

section \<open>Before the swap: the arbitrage sweep\<close>

definition compute_inline_arb :: "nat \<Rightarrow> nat \<Rightarrow> nat \<Rightarrow> bool \<Rightarrow> nat \<times> nat" where
  "compute_inline_arb price_x64 liquidity amount a_to_b =
     (let virtual = (if a_to_b
            then (case checked_div liquidity (max (drop_bit 32 price_x64) 1) of Some x \<Rightarrow> x | None \<Rightarrow> 1)
            else saturating_mul 128 liquidity (drop_bit 64 price_x64));
          numerator = saturating_mul 128 liquidity amount;
          denominator = saturating_add 128 virtual amount
      in (amount, wrap_uint 64 (case checked_div numerator denominator of Some x \<Rightarrow> x | None \<Rightarrow> 0)))"

definition sweep_amount_of :: "nat \<Rightarrow> nat \<Rightarrow> nat \<Rightarrow> nat \<Rightarrow> nat \<Rightarrow> nat res" where
  "sweep_amount_of spot twap liquidity min_amount max_amount =
     (let a_to_b = spot > twap in
      and_then (mul_u 128 (if a_to_b then spot - twap else twap - spot) 4) (\<lambda>d.
      let target = (if a_to_b then saturating_sub spot (d div 5) else saturating_add 128 spot (d div 5));
          price_delta = (if a_to_b then saturating_sub spot target else saturating_sub target spot);
          raw_amount = wrap_uint 64 (saturating_mul 128 liquidity price_delta div Q64)
      in Inr (min (max raw_amount min_amount) max_amount)))"

definition price_impact :: "nat \<Rightarrow> nat \<Rightarrow> nat" where
  "price_impact sweep_amount liquidity = saturating_mul 128 sweep_amount Q64 div max liquidity 1"

definition correct_price :: "bool \<Rightarrow> nat \<Rightarrow> pool_state \<Rightarrow> pool_state" where
  "correct_price a_to_b sweep_amount pool =
     pool\<lparr>ps_sqrt_price_x64 :=
       (if a_to_b then saturating_sub (ps_sqrt_price_x64 pool) (price_impact sweep_amount (ps_liquidity pool))
        else saturating_add 128 (ps_sqrt_price_x64 pool) (price_impact sweep_amount (ps_liquidity pool)))\<rparr>"

definition execute_sweep ::
  "nat \<Rightarrow> bool \<Rightarrow> nat \<Rightarrow> nat \<Rightarrow> pool_state \<Rightarrow> arb_config \<Rightarrow> (pool_state \<times> arb_config) res" where
  "execute_sweep current_slot a_to_b sweep_amount profit pool arb =
     (let pool = correct_price a_to_b sweep_amount pool;
          arb = (if a_to_b
            then arb\<lparr>ab_total_profit_captured_b := saturating_add 64 (ab_total_profit_captured_b arb) profit\<rparr>
            else arb\<lparr>ab_total_profit_captured_a := saturating_add 64 (ab_total_profit_captured_a arb) profit\<rparr>)
      in and_then
           (case get_tick_at_sqrt_price (ps_sqrt_price_x64 pool) of
              Inl Panic \<Rightarrow> Inl Panic | Inl _ \<Rightarrow> Inr pool | Inr t \<Rightarrow> Inr (pool\<lparr>ps_tick_current := t\<rparr>)) (\<lambda>pool.
         Inr (pool, arb\<lparr>ab_last_sweep_slot := current_slot\<rparr>)))"

text \<open>The result tells whether a sweep took place, its direction and its profit.\<close>

definition pre_swap_arb_check ::
  "nat \<Rightarrow> nat \<Rightarrow> observation_state \<Rightarrow> pool_state \<Rightarrow> arb_config
     \<Rightarrow> (pool_state \<times> arb_config \<times> bool \<times> bool \<times> nat) res" where
  "pre_swap_arb_check current_slot current_timestamp oracle pool arb =
     (let idle = Inr (pool, arb, False, False, 0) in
      if \<not> ab_enabled arb then idle
      else
        and_then (add_u 64 (ab_last_sweep_slot arb) (ab_cooldown_slots arb)) (\<lambda>due.
        if current_slot < due \<or> obs_observation_index oracle < 3 then idle
        else
          and_then (reference_price oracle (ab_twap_window_seconds arb) current_timestamp) (\<lambda>twap_sqrt.
          case twap_sqrt of
            None \<Rightarrow> idle
          | Some twap \<Rightarrow>
              let spot = ps_sqrt_price_x64 pool; a_to_b = spot > twap in
              if spread_bps spot twap < ab_min_spread_bps arb then idle
              else
                and_then (sweep_amount_of spot twap (ps_liquidity pool) (ab_min_sweep_amount arb)
                  (ab_max_sweep_amount arb)) (\<lambda>sweep_amount.
                if sweep_amount = 0 then idle
                else
                  let (amount_in, amount_out) = compute_inline_arb spot (ps_liquidity pool) sweep_amount a_to_b;
                      profit = saturating_sub amount_out amount_in
                  in if profit = 0 then idle
                     else
                       and_then (execute_sweep current_slot a_to_b sweep_amount profit pool arb) (\<lambda>(pool, arb).
                       Inr (pool, arb, True, a_to_b, profit))))))"

section \<open>Manipulation in the slot\<close>

definition detect_same_slot_manipulation ::
  "nat \<Rightarrow> nat \<Rightarrow> observation_state \<Rightarrow> pool_state \<Rightarrow> arb_config \<Rightarrow> (arb_config \<times> nat) res" where
  "detect_same_slot_manipulation current_timestamp threshold_bps oracle pool arb =
     and_then (reference_price oracle 30 current_timestamp) (\<lambda>twap_sqrt.
     case twap_sqrt of
       None \<Rightarrow> Inr (arb, 0)
     | Some twap \<Rightarrow>
         if spread_bps (ps_sqrt_price_x64 pool) twap > threshold_bps
         then Inr (arb\<lparr>ab_manipulation_detections := saturating_add 64 (ab_manipulation_detections arb) 1\<rparr>,
                   ab_manipulation_tax_bps arb)
         else Inr (arb, 0))"

definition record_swap_slot :: "nat \<Rightarrow> pool_state \<Rightarrow> pool_state" where
  "record_swap_slot current_slot pool = pool\<lparr>ps_padding1 := (ps_padding1 pool)[0 := current_slot]\<rparr>"

definition is_suspected_backrun :: "nat \<Rightarrow> pool_state \<Rightarrow> bool" where
  "is_suspected_backrun current_slot pool \<longleftrightarrow> ps_padding1 pool ! 0 = current_slot"

section \<open>The hooks of the swap\<close>

type_synonym arb_account = "pubkey \<times> bool \<times> arb_config option"

definition usable_config :: "pubkey \<Rightarrow> arb_account option \<Rightarrow> arb_config option" where
  "usable_config arb_config_pda account =
     (case account of
        None \<Rightarrow> None
      | Some (key, owned, content) \<Rightarrow> if key = arb_config_pda \<and> owned then content else None)"

definition written :: "arb_account option \<Rightarrow> arb_config \<Rightarrow> arb_account option" where
  "written account arb = map_option (\<lambda>(key, owned, _). (key, owned, Some arb)) account"

definition try_pre_swap_shield ::
  "pubkey \<Rightarrow> nat \<Rightarrow> nat \<Rightarrow> observation_state \<Rightarrow> arb_account option \<Rightarrow> pool_state
     \<Rightarrow> (pool_state \<times> arb_account option) res" where
  "try_pre_swap_shield arb_config_pda slot block_timestamp oracle account pool =
     (case usable_config arb_config_pda account of
        None \<Rightarrow> Inr (pool, account)
      | Some arb \<Rightarrow>
          and_then (pre_swap_arb_check slot block_timestamp oracle pool arb) (\<lambda>(pool, arb, _).
          Inr (pool, written account arb)))"

definition credit_tax :: "bool \<Rightarrow> nat \<Rightarrow> pool_state \<Rightarrow> pool_state" where
  "credit_tax zero_for_one tax_amount pool =
     (if zero_for_one
      then pool\<lparr>ps_protocol_fees_token_0 := saturating_add 64 (ps_protocol_fees_token_0 pool) tax_amount\<rparr>
      else pool\<lparr>ps_protocol_fees_token_1 := saturating_add 64 (ps_protocol_fees_token_1 pool) tax_amount\<rparr>)"

definition count_tax :: "bool \<Rightarrow> nat \<Rightarrow> arb_config \<Rightarrow> arb_config" where
  "count_tax zero_for_one tax_amount arb =
     (if zero_for_one
      then arb\<lparr>ab_manipulation_tax_collected_a := saturating_add 64 (ab_manipulation_tax_collected_a arb) tax_amount\<rparr>
      else arb\<lparr>ab_manipulation_tax_collected_b := saturating_add 64 (ab_manipulation_tax_collected_b arb) tax_amount\<rparr>)"

definition try_apply_manipulation_tax ::
  "pubkey \<Rightarrow> nat \<Rightarrow> observation_state \<Rightarrow> nat \<Rightarrow> bool \<Rightarrow> arb_account option \<Rightarrow> pool_state
     \<Rightarrow> (pool_state \<times> arb_account option \<times> nat) res" where
  "try_apply_manipulation_tax arb_config_pda block_timestamp oracle swap_amount zero_for_one account pool =
     (case usable_config arb_config_pda account of
        None \<Rightarrow> Inr (pool, account, 0)
      | Some arb \<Rightarrow>
          and_then (detect_same_slot_manipulation block_timestamp (effective_manipulation_threshold_bps arb) oracle
            pool arb) (\<lambda>(arb, tax_bps).
          if tax_bps = 0 \<or> tax_bps > 10000 then Inr (pool, written account arb, 0)
          else
            let tax_amount = wrap_uint 64 ((swap_amount * tax_bps) div 10000) in
            if tax_amount = 0 \<or> tax_amount \<ge> swap_amount then Inr (pool, written account arb, 0)
            else Inr (credit_tax zero_for_one tax_amount pool,
                      written account (count_tax zero_for_one tax_amount arb), tax_amount)))"

section \<open>The guard against just-in-time liquidity\<close>

record jit_guard =
  jg_pool :: pubkey
  jg_position_nft_mint :: pubkey
  jg_min_lock_slots :: nat
  jg_last_add_slot :: nat
  jg_add_count :: nat
  jg_remove_count :: nat
  jg_jit_blocks :: nat
  jg_bump :: nat

definition MAX_LOCK_SLOTS :: nat where "MAX_LOCK_SLOTS = 100"
definition DEFAULT_MIN_LOCK_SLOTS :: nat where "DEFAULT_MIN_LOCK_SLOTS = 5"

definition can_remove :: "nat \<Rightarrow> jit_guard \<Rightarrow> (bool \<times> nat) res" where
  "can_remove current_slot g =
     and_then (add_u 64 (jg_last_add_slot g) (jg_min_lock_slots g)) (\<lambda>unlock_slot.
     Inr (if current_slot \<ge> unlock_slot then (True, 0) else (False, unlock_slot - current_slot)))"

definition record_add :: "nat \<Rightarrow> jit_guard \<Rightarrow> jit_guard" where
  "record_add slot g = g\<lparr>jg_last_add_slot := slot, jg_add_count := saturating_add 64 (jg_add_count g) 1\<rparr>"

definition record_remove :: "bool \<Rightarrow> jit_guard \<Rightarrow> jit_guard" where
  "record_remove blocked g =
     (let g = g\<lparr>jg_remove_count := saturating_add 64 (jg_remove_count g) 1\<rparr> in
      if blocked then g\<lparr>jg_jit_blocks := saturating_add 64 (jg_jit_blocks g) 1\<rparr> else g)"

definition jit_handler_init :: "nat \<Rightarrow> pubkey \<Rightarrow> pubkey \<Rightarrow> nat \<Rightarrow> nat \<Rightarrow> jit_guard res" where
  "jit_handler_init slot pool_key position_nft_mint bump min_lock_slots =
     require (min_lock_slots \<le> MAX_LOCK_SLOTS) InvalidTickIndex
     (Inr \<lparr>jg_pool = pool_key, jg_position_nft_mint = position_nft_mint,
       jg_min_lock_slots = (if min_lock_slots = 0 then DEFAULT_MIN_LOCK_SLOTS else min_lock_slots),
       jg_last_add_slot = slot, jg_add_count = 1, jg_remove_count = 0, jg_jit_blocks = 0, jg_bump = bump\<rparr>)"

text \<open>The write before the error is part of the code; the error discards it.\<close>

definition jit_handler_check_remove :: "nat \<Rightarrow> jit_guard \<Rightarrow> jit_guard res" where
  "jit_handler_check_remove slot g =
     and_then (can_remove slot g) (\<lambda>(allowed, slots_remaining).
     if \<not> allowed then let g = record_remove True g in fail JitBackRunDetected
     else Inr (record_remove False g))"

definition jit_handler_record_add :: "nat \<Rightarrow> jit_guard \<Rightarrow> jit_guard res" where
  "jit_handler_record_add slot g = Inr (record_add slot g)"

end
