(* ===== verification/Swap_V2.thy ===== *)
theory Swap_V2
  imports Swap_Loop Nebula_Shield Liquidity_Handlers
begin

text \<open>
  \<open>instructions/swap_v2.rs\<close>: the swap of mints with transfer fees, behind the shield. The remaining accounts are
  classified by address and size as the code does; a transfer is its amount, and \<open>received\<close>, an argument,
  is what the token program credits to the user for an output transfer.
\<close>

section \<open>Accounts\<close>

datatype remaining_account =
    ExtensionAccount "bitmap_extension res"
  | ArbAccount bool "arb_config option"
  | TickArrayAccount "tick_array_state res"
  | OtherAccount

text \<open>The extension, the arbitrage account and the tick arrays, whose load may fail; the scan stops at any other
  account.\<close>

fun sort_accounts ::
  "pubkey \<Rightarrow> pubkey \<Rightarrow> remaining_account list \<Rightarrow> extension_account \<times> arb_account option \<times> tick_array_state list
     \<Rightarrow> (extension_account \<times> arb_account option \<times> tick_array_state list) res" where
  "sort_accounts extension_key arb_pda [] acc = Inr acc"
| "sort_accounts extension_key arb_pda (ExtensionAccount e # rest) (ext, arb, arrays) =
     sort_accounts extension_key arb_pda rest (Some (extension_key, e), arb, arrays)"
| "sort_accounts extension_key arb_pda (ArbAccount owned a # rest) (ext, arb, arrays) =
     sort_accounts extension_key arb_pda rest (ext, Some (arb_pda, owned, a), arrays)"
| "sort_accounts extension_key arb_pda (TickArrayAccount loaded # rest) (ext, arb, arrays) =
     and_then loaded (\<lambda>ta. sort_accounts extension_key arb_pda rest (ext, arb, arrays @ [ta]))"
| "sort_accounts extension_key arb_pda (OtherAccount # rest) acc = Inr acc"

section \<open>Amounts and fees\<close>

text \<open>The amount to swap and the transfer fee: the specified amount includes the fee as an input, and is net
  of it as an output.\<close>

definition specified_amount :: "mint \<Rightarrow> mint \<Rightarrow> bool \<Rightarrow> nat \<Rightarrow> (nat \<times> nat) res" where
  "specified_amount input_mint output_mint is_base_input amount_specified =
     (if is_base_input then
        and_then (get_transfer_fee input_mint amount_specified) (\<lambda>fee.
        and_then (sub_u amount_specified fee) (\<lambda>amount. Inr (amount, fee)))
      else
        and_then (get_transfer_inverse_fee output_mint amount_specified) (\<lambda>fee.
        and_then (add_u 64 amount_specified fee) (\<lambda>amount. Inr (amount, fee))))"

text \<open>The sweep, and for an exact input the tax.\<close>

definition apply_shield ::
  "pubkey \<Rightarrow> nat \<Rightarrow> nat \<Rightarrow> observation_state \<Rightarrow> bool \<Rightarrow> nat \<Rightarrow> bool \<Rightarrow> arb_account option \<Rightarrow> pool_state
     \<Rightarrow> (pool_state \<times> arb_account option \<times> nat) res" where
  "apply_shield arb_pda slot block_timestamp oracle is_base_input amount zero_for_one arb pool =
     and_then (try_pre_swap_shield arb_pda slot block_timestamp oracle arb pool) (\<lambda>(pool, arb).
     if is_base_input
     then try_apply_manipulation_tax arb_pda block_timestamp oracle amount zero_for_one arb pool
     else Inr (pool, arb, 0))"

definition add_tax :: "bool \<Rightarrow> nat \<Rightarrow> swap_internal_result \<Rightarrow> swap_internal_result" where
  "add_tax zero_for_one tax r =
     (if tax > 0 then
        if zero_for_one then r\<lparr>si_amount_0 := saturating_add 64 (si_amount_0 r) tax\<rparr>
        else r\<lparr>si_amount_1 := saturating_add 64 (si_amount_1 r) tax\<rparr>
      else r)"

text \<open>The amounts of the two transfers, in and out.\<close>

definition transfer_amounts ::
  "mint \<Rightarrow> mint \<Rightarrow> bool \<Rightarrow> bool \<Rightarrow> nat \<Rightarrow> nat \<Rightarrow> nat \<Rightarrow> nat \<Rightarrow> (nat \<times> nat) res" where
  "transfer_amounts input_mint output_mint zero_for_one is_base_input amount_calculate_specified transfer_fee
     amount_in amount_out =
   (let fee_of_input = (if is_base_input \<and> amount_in = amount_calculate_specified then Inr transfer_fee
          else get_transfer_inverse_fee input_mint amount_in);
        fee_of_output = get_transfer_fee output_mint amount_out
    in and_then (if zero_for_one then fee_of_input else fee_of_output) (\<lambda>fee_0.
       and_then (if zero_for_one then fee_of_output else fee_of_input) (\<lambda>fee_1.
       let (fee_in, fee_out) = (if zero_for_one then (fee_0, fee_1) else (fee_1, fee_0)) in
       and_then (ok_or (checked_sub amount_out fee_out) CalculateOverflow) (\<lambda>_.
       and_then (ok_or (checked_add 64 amount_in fee_in) CalculateOverflow) (\<lambda>transfer_in.
       Inr (transfer_in, amount_out))))))"

section \<open>The swap\<close>

record swap_v2_args =
  v2_epoch :: nat
  v2_slot :: nat
  v2_block_timestamp :: nat
  v2_config :: amm_config
  v2_pool_key :: pubkey
  v2_extension_key :: pubkey
  v2_arb_pda :: pubkey
  v2_input_mint_key :: pubkey
  v2_input_vault :: pubkey
  v2_output_vault :: pubkey
  v2_input_mint :: mint
  v2_output_mint :: mint
  v2_received :: "nat \<Rightarrow> nat"

record swap_v2_result =
  vr_amount :: nat
  vr_transfer_in :: nat
  vr_transfer_out :: nat
  vr_tax :: nat
  vr_swap :: swap_internal_result
  vr_accounts :: swap_accounts
  vr_arb :: "arb_account option"

definition limit_or_extreme :: "bool \<Rightarrow> nat \<Rightarrow> nat" where
  "limit_or_extreme zero_for_one sqrt_price_limit_x64 =
     (if sqrt_price_limit_x64 = 0
      then (if zero_for_one then MIN_SQRT_PRICE_X64 + 1 else MAX_SQRT_PRICE_X64 - 1)
      else sqrt_price_limit_x64)"

text \<open>After \<open>swap_internal\<close>: the tax joins the input, the slot is recorded, the transfers and the last checks.\<close>

definition finish_v2 ::
  "swap_v2_args \<Rightarrow> bool \<Rightarrow> nat \<Rightarrow> nat \<Rightarrow> nat \<Rightarrow> nat \<Rightarrow> bool \<Rightarrow> nat \<Rightarrow> nat \<Rightarrow> arb_account option
     \<Rightarrow> swap_internal_result \<times> swap_accounts \<Rightarrow> swap_v2_result res" where
  "finish_v2 v z amount_specified calculated transfer_fee limit is_base_input price_before tax arb x =
     (let (r, acc) = x; r = add_tax z tax r;
          amount_in = (if z then si_amount_0 r else si_amount_1 r);
          amount_out = (if z then si_amount_1 r else si_amount_0 r);
          acc = acc\<lparr>sx_pool := record_swap_slot (v2_slot v) (sx_pool acc)\<rparr>
      in require (si_amount_0 r \<noteq> 0 \<and> si_amount_1 r \<noteq> 0) TooSmallInputOrOutputAmount
         (and_then (transfer_amounts (v2_input_mint v) (v2_output_mint v) z is_base_input calculated transfer_fee
            amount_in amount_out) (\<lambda>(transfer_in, transfer_out).
          require_plain (if z then price_before \<ge> si_sqrt_price_x64 r else si_sqrt_price_x64 r \<ge> price_before)
          (require_plain (limit = 0 \<longrightarrow>
             (if is_base_input then amount_specified = transfer_in else calculated = transfer_out))
          (Inr \<lparr>vr_amount = (if is_base_input then v2_received v transfer_out else transfer_in),
               vr_transfer_in = transfer_in, vr_transfer_out = transfer_out, vr_tax = tax, vr_swap = r,
               vr_accounts = acc, vr_arb = arb\<rparr>)))))"

definition exact_internal_v2 ::
  "swap_v2_args \<Rightarrow> remaining_account list \<Rightarrow> nat \<Rightarrow> nat \<Rightarrow> bool \<Rightarrow> observation_state \<Rightarrow> pool_state
     \<Rightarrow> swap_v2_result res option" where
  "exact_internal_v2 v remaining amount_specified limit is_base_input observation pool =
     (let z = (v2_input_mint_key v = ps_token_mint_0 pool); now = wrap_uint 32 (v2_block_timestamp v) in
      case and_then (specified_amount (v2_input_mint v) (v2_output_mint v) is_base_input amount_specified)
          (\<lambda>(calculated, transfer_fee).
         require_plain (v2_block_timestamp v > ps_padding1 pool ! 0)
         (require (if z then v2_input_vault v = ps_token_vault_0 pool \<and> v2_output_vault v = ps_token_vault_1 pool
                   else v2_input_vault v = ps_token_vault_1 pool \<and> v2_output_vault v = ps_token_vault_0 pool)
            InvalidInputPoolVault
         (and_then (sort_accounts (v2_extension_key v) (v2_arb_pda v) remaining (None, None, []))
            (\<lambda>(extension, arb, arrays).
          and_then (apply_shield (v2_arb_pda v) (v2_slot v) now observation is_base_input calculated z arb pool)
            (\<lambda>(pool, arb, tax). Inr (calculated, transfer_fee, extension, arrays, pool, arb, tax)))))) of
        Inl e \<Rightarrow> Some (Inl e)
      | Inr (calculated, transfer_fee, extension, arrays, pool, arb, tax) \<Rightarrow>
          map_option (\<lambda>r. and_then r
              (finish_v2 v z amount_specified calculated transfer_fee limit is_base_input (ps_sqrt_price_x64 pool) tax arb))
            (swap_internal (v2_epoch v) (v2_config v) (v2_pool_key v) (v2_extension_key v)
              (saturating_sub calculated tax) (limit_or_extreme z limit) z is_base_input now
              \<lparr>sx_pool = pool, sx_extension = extension, sx_arrays = arrays, sx_observation = observation\<rparr>))"

text \<open>\<open>swap_v2\<close> checks the other amount.\<close>

definition swap_v2 ::
  "swap_v2_args \<Rightarrow> remaining_account list \<Rightarrow> nat \<Rightarrow> nat \<Rightarrow> nat \<Rightarrow> bool \<Rightarrow> observation_state \<Rightarrow> pool_state
     \<Rightarrow> swap_v2_result res option" where
  "swap_v2 v remaining amount other_amount_threshold limit is_base_input observation pool =
     map_option (\<lambda>r. and_then r (\<lambda>x.
         and_then (check_other_amount other_amount_threshold is_base_input (vr_amount x)) (\<lambda>_. Inr x)))
       (exact_internal_v2 v remaining amount limit is_base_input observation pool)"

end
