(* ===== verification/Arb_Sweep.thy ===== *)
theory Arb_Sweep
  imports Nebula_Shield
begin

text \<open>
  The arbitrage sweep of the protocol, \<open>instructions/arb_sweep.rs\<close>. The handler returns the pool, the
  configuration and the amount it transfers from the vault of the output token to the treasury.
\<close>

definition FEE_DENOMINATOR :: nat where "FEE_DENOMINATOR = 10000"

section \<open>The arithmetic\<close>

definition get_twap_tick :: "observation_state \<Rightarrow> nat \<Rightarrow> int option res" where
  "get_twap_tick oracle current_timestamp =
     (if obs_observation_index oracle = 0 then Inr None
      else
        let latest = latest_observation oracle;
            elapsed = saturating_sub current_timestamp (ob_block_timestamp latest)
        in if ob_block_timestamp latest = 0 \<or> elapsed = 0 then Inr None
           else
             and_then (sdiv_i 64 (ob_tick_cumulative latest) (int (max elapsed 1))) (\<lambda>q.
             Inr (Some (clamp_tick (wrap_int 32 q)))))"

definition calculate_spread :: "nat \<Rightarrow> nat \<Rightarrow> nat \<times> bool" where
  "calculate_spread spot twap = (spread_bps spot twap, spot > twap)"

definition calculate_sweep_amount :: "nat \<Rightarrow> nat \<Rightarrow> nat \<Rightarrow> nat \<Rightarrow> nat \<Rightarrow> bool \<Rightarrow> nat res" where
  "calculate_sweep_amount spot twap liquidity min_amount max_amount a_to_b =
     and_then (if a_to_b then sub_u spot twap else sub_u twap spot) (\<lambda>gap.
     and_then (mul_u 128 gap 4) (\<lambda>d.
     let target = (if a_to_b then saturating_sub spot (d div 5) else saturating_add 128 spot (d div 5));
         price_delta = (if a_to_b then saturating_sub spot target else saturating_sub target spot);
         raw_amount = wrap_uint 64 (saturating_mul 128 liquidity price_delta div Q64)
     in Inr (min (max raw_amount min_amount) max_amount)))"

definition compute_arb_swap :: "nat \<Rightarrow> nat \<Rightarrow> nat \<Rightarrow> bool \<Rightarrow> (nat \<times> nat) res" where
  "compute_arb_swap price_x64 liquidity amount a_to_b =
     (let virtual = (if a_to_b
        then (case checked_div liquidity (max (drop_bit 32 price_x64) 1) of Some x \<Rightarrow> x | None \<Rightarrow> 1)
        else saturating_mul 128 liquidity (drop_bit 64 price_x64))
      in and_then (mul_u 128 liquidity amount) (\<lambda>numerator.
         and_then (add_u 128 virtual amount) (\<lambda>denominator.
         and_then (div_u numerator denominator) (\<lambda>q. Inr (amount, wrap_uint 64 q)))))"

definition apply_arb_to_pool :: "nat \<Rightarrow> bool \<Rightarrow> pool_state \<Rightarrow> pool_state res" where
  "apply_arb_to_pool amount a_to_b pool =
     (let pool = correct_price a_to_b amount pool in
      and_then (get_tick_at_sqrt_price (ps_sqrt_price_x64 pool)) (\<lambda>t. Inr (pool\<lparr>ps_tick_current := t\<rparr>)))"

definition treasury_share :: "nat \<Rightarrow> nat \<Rightarrow> nat res" where
  "treasury_share profit treasury_share_bps =
     and_then (ok_or (checked_mul 128 profit treasury_share_bps) ArithmeticOverflow) (\<lambda>v.
     and_then (ok_or (checked_div v FEE_DENOMINATOR) DivisionByZero) (\<lambda>v. Inr (wrap_uint 64 v)))"

section \<open>Instructions\<close>

text \<open>\<open>arb_sweep_check\<close> are the constraints of the accounts.\<close>

definition arb_sweep_check :: "pubkey \<Rightarrow> pubkey \<Rightarrow> pubkey \<Rightarrow> arb_config \<Rightarrow> 'a res \<Rightarrow> 'a res" where
  "arb_sweep_check pool_key arb_authority treasury_vault arb k =
     require_plain (ab_pool arb = pool_key)
     (require (ab_arb_authority arb = arb_authority) NotSender
     (require (ab_enabled arb) ArbDisabled
     (require (ab_treasury arb = treasury_vault) InvalidTreasury k)))"

definition capture_profit :: "bool \<Rightarrow> nat \<Rightarrow> arb_config \<Rightarrow> arb_config" where
  "capture_profit a_to_b treasury_amount arb =
     (if \<not> treasury_amount > 0 then arb
      else if a_to_b
      then arb\<lparr>ab_total_profit_captured_b := saturating_add 64 (ab_total_profit_captured_b arb) treasury_amount\<rparr>
      else arb\<lparr>ab_total_profit_captured_a := saturating_add 64 (ab_total_profit_captured_a arb) treasury_amount\<rparr>)"

definition sweep_handler ::
  "nat \<Rightarrow> nat \<Rightarrow> observation_state \<Rightarrow> pool_state \<Rightarrow> arb_config \<Rightarrow> (pool_state \<times> arb_config \<times> nat) res" where
  "sweep_handler current_slot current_timestamp oracle pool arb =
     and_then (add_u 64 (ab_last_sweep_slot arb) (ab_cooldown_slots arb)) (\<lambda>due.
     require (current_slot \<ge> due) ArbCooldownActive
     (require (obs_observation_index oracle \<ge> 3) InsufficientOracleData
     (and_then (get_twap_tick oracle current_timestamp) (\<lambda>twap.
      and_then (ok_or twap InsufficientOracleData) (\<lambda>twap_tick.
      and_then (get_sqrt_price_at_tick twap_tick) (\<lambda>twap_sqrt_price.
      let (spread, a_to_b) = calculate_spread (ps_sqrt_price_x64 pool) twap_sqrt_price in
      require (spread \<ge> ab_min_spread_bps arb) SpreadTooSmall
      (and_then (calculate_sweep_amount (ps_sqrt_price_x64 pool) twap_sqrt_price (ps_liquidity pool)
         (ab_min_sweep_amount arb) (ab_max_sweep_amount arb) a_to_b) (\<lambda>sweep_amount.
       and_then (compute_arb_swap (ps_sqrt_price_x64 pool) (ps_liquidity pool) sweep_amount a_to_b)
         (\<lambda>(amount_in, amount_out).
       let profit = saturating_sub amount_out amount_in in
       require (profit > 0) NoArbProfit
       (and_then (treasury_share profit (ab_treasury_share_bps arb)) (\<lambda>treasury_amount.
        and_then (apply_arb_to_pool sweep_amount a_to_b pool) (\<lambda>pool.
        Inr (pool, (capture_profit a_to_b treasury_amount arb)\<lparr>ab_last_sweep_slot := current_slot\<rparr>,
             treasury_amount)))))))))))))"

definition arb_handler_init ::
  "pubkey \<Rightarrow> nat \<Rightarrow> pubkey \<Rightarrow> pubkey \<Rightarrow> nat \<Rightarrow> nat \<Rightarrow> nat \<Rightarrow> nat \<Rightarrow> nat \<Rightarrow> nat \<Rightarrow> nat \<Rightarrow> arb_config res" where
  "arb_handler_init pool_key bump arb_authority treasury min_spread_bps treasury_share_bps twap_window_seconds
     min_sweep_amount max_sweep_amount cooldown_slots manipulation_tax_bps =
   require (treasury_share_bps \<le> 10000) ArithmeticOverflow
   (require (manipulation_tax_bps \<le> 10000) ArithmeticOverflow
   (require (min_spread_bps > 0) ZeroLiquidity
   (require (min_sweep_amount < max_sweep_amount) AmountBelowMin
   (require (twap_window_seconds \<ge> 15) InsufficientOracleData
   (Inr \<lparr>ab_pool = pool_key, ab_arb_authority = arb_authority, ab_treasury = treasury,
      ab_min_spread_bps = min_spread_bps, ab_treasury_share_bps = treasury_share_bps,
      ab_twap_window_seconds = twap_window_seconds, ab_min_sweep_amount = min_sweep_amount,
      ab_max_sweep_amount = max_sweep_amount, ab_last_sweep_slot = 0, ab_cooldown_slots = cooldown_slots,
      ab_total_profit_captured_a = 0, ab_total_profit_captured_b = 0, ab_enabled = True, ab_bump = bump,
      ab_manipulation_tax_bps = (if manipulation_tax_bps = 0 then 9000 else manipulation_tax_bps),
      ab_manipulation_tax_collected_a = 0, ab_manipulation_tax_collected_b = 0, ab_manipulation_detections = 0,
      ab_manipulation_threshold_bps = 0\<rparr>)))))"

definition handler_update_manipulation_tax :: "pubkey \<Rightarrow> pubkey \<Rightarrow> nat \<Rightarrow> arb_config \<Rightarrow> arb_config res" where
  "handler_update_manipulation_tax admin_id admin new_tax_bps arb =
     require (admin = admin_id) NotApproved
     (require (new_tax_bps \<le> 10000) ArithmeticOverflow (Inr (arb\<lparr>ab_manipulation_tax_bps := new_tax_bps\<rparr>)))"

definition handler_toggle :: "pubkey \<Rightarrow> bool \<Rightarrow> arb_config \<Rightarrow> arb_config res" where
  "handler_toggle arb_authority enabled arb =
     require (ab_arb_authority arb = arb_authority) NotSender (Inr (arb\<lparr>ab_enabled := enabled\<rparr>))"

end
