(* ===== verification/Perp_Market.thy ===== *)
theory Perp_Market
  imports Prelude
begin

text \<open>
  The perpetuals market: \<open>states/perp_market.rs\<close> and \<open>instructions/perp_market.rs\<close>. A handler takes the
  accounts it loads and returns the accounts it writes, with the amount of a token transfer where it makes
  one; the slot, the bumps and the account addresses are arguments, and events are left out. Account
  constraints that are conditions on the data (\<open>price_authority\<close>) are the first check of their handler.
\<close>

section \<open>The market\<close>

definition BASE_FUNDING_RATE_BPS :: nat where "BASE_FUNDING_RATE_BPS = 1"
definition FUNDING_EPOCH_SLOTS :: nat where "FUNDING_EPOCH_SLOTS = 72000"

record perp_market =
  pm_market_id :: nat
  pm_base_mint :: pubkey
  pm_quote_mint :: pubkey
  pm_collateral_vault :: pubkey
  pm_insurance_fund_vault :: pubkey
  pm_price_authority :: pubkey
  pm_mark_price_x64 :: nat
  pm_index_price_x64 :: nat
  pm_funding_rate_x64 :: int
  pm_last_funding_slot :: nat
  pm_cumulative_funding_x64 :: int
  pm_long_open_interest :: nat
  pm_short_open_interest :: nat
  pm_long_oi_notional :: nat
  pm_short_oi_notional :: nat
  pm_insurance_fund_balance :: nat
  pm_max_leverage :: nat
  pm_liquidation_fee_bps :: nat
  pm_taker_fee_bps :: nat
  pm_maker_fee_bps :: nat
  pm_min_collateral :: nat
  pm_total_trades :: nat
  pm_total_volume :: nat
  pm_status :: nat
  pm_bump :: nat

definition default_perp_market :: perp_market where
  "default_perp_market =
     \<lparr>pm_market_id = 0, pm_base_mint = 0, pm_quote_mint = 0, pm_collateral_vault = 0, pm_insurance_fund_vault = 0,
      pm_price_authority = 0, pm_mark_price_x64 = 0, pm_index_price_x64 = 0, pm_funding_rate_x64 = 0,
      pm_last_funding_slot = 0, pm_cumulative_funding_x64 = 0, pm_long_open_interest = 0,
      pm_short_open_interest = 0, pm_long_oi_notional = 0, pm_short_oi_notional = 0,
      pm_insurance_fund_balance = 0, pm_max_leverage = 0, pm_liquidation_fee_bps = 0, pm_taker_fee_bps = 0,
      pm_maker_fee_bps = 0, pm_min_collateral = 0, pm_total_trades = 0, pm_total_volume = 0, pm_status = 0,
      pm_bump = 0\<rparr>"

definition is_active :: "perp_market \<Rightarrow> bool" where
  "is_active m \<longleftrightarrow> pm_status m = 0"

definition is_emergency :: "perp_market \<Rightarrow> bool" where
  "is_emergency m \<longleftrightarrow> pm_status m = 2"

definition oi_skew :: "perp_market \<Rightarrow> int" where
  "oi_skew m = int (pm_long_open_interest m) - int (pm_short_open_interest m)"

definition oi_imbalance_bps :: "perp_market \<Rightarrow> nat res" where
  "oi_imbalance_bps m =
     and_then (add_u 64 (pm_long_open_interest m) (pm_short_open_interest m)) (\<lambda>total.
     if total = 0 then Inr 0
     else
       let skew = nat \<bar>int (pm_long_open_interest m) - int (pm_short_open_interest m)\<bar> in
       Inr (wrap_uint 16 (min ((skew * 10000) div total) 10000)))"

definition calculate_funding_rate :: "perp_market \<Rightarrow> int res" where
  "calculate_funding_rate m =
     and_then (add_u 64 (pm_long_open_interest m) (pm_short_open_interest m)) (\<lambda>total.
     if total = 0 then Inr 0
     else
       let skew = int (pm_long_open_interest m) - int (pm_short_open_interest m) in
       sdiv_i 128 (skew * int BASE_FUNDING_RATE_BPS) (int total))"

section \<open>Positions\<close>

text \<open>Hashes are lists of bytes.\<close>

record position_commitment =
  pc_owner :: pubkey
  pc_market :: pubkey
  pc_commitment :: "nat list"
  pc_collateral_amount :: nat
  pc_is_long :: bool
  pc_committed_at_slot :: nat
  pc_last_updated_slot :: nat
  pc_last_cumulative_funding_x64 :: int
  pc_bump :: nat

datatype liquidation_check_result =
    Healthy
  | Underwater (collateral_remaining: nat) (estimated_loss: nat)
  | Insolvent (insurance_shortfall: nat)

section \<open>Instructions\<close>

definition handler_init_market ::
  "pubkey \<Rightarrow> pubkey \<Rightarrow> pubkey \<Rightarrow> pubkey \<Rightarrow> nat \<Rightarrow> nat \<Rightarrow> nat \<Rightarrow> nat \<Rightarrow> nat \<Rightarrow> nat \<Rightarrow> nat \<Rightarrow> pubkey \<Rightarrow> perp_market res" where
  "handler_init_market base_mint quote_mint collateral_vault insurance_fund_vault bump market_id max_leverage
     liquidation_fee_bps taker_fee_bps maker_fee_bps min_collateral price_authority =
   require (max_leverage > 0 \<and> max_leverage \<le> 100) MaxLeverageExceeded
   (require (liquidation_fee_bps \<le> 500) InvalidTreasury
   (require (min_collateral > 0) InsufficientCollateral
   (Inr (default_perp_market
     \<lparr>pm_market_id := market_id, pm_base_mint := base_mint, pm_quote_mint := quote_mint,
      pm_collateral_vault := collateral_vault, pm_insurance_fund_vault := insurance_fund_vault,
      pm_price_authority := price_authority, pm_max_leverage := max_leverage,
      pm_liquidation_fee_bps := liquidation_fee_bps, pm_taker_fee_bps := taker_fee_bps,
      pm_maker_fee_bps := maker_fee_bps, pm_min_collateral := min_collateral, pm_status := 0, pm_bump := bump\<rparr>))))"

definition count_open :: "bool \<Rightarrow> nat \<Rightarrow> perp_market \<Rightarrow> perp_market" where
  "count_open is_long collateral_amount m =
     (let m = (if is_long
        then m\<lparr>pm_long_open_interest := saturating_add 64 (pm_long_open_interest m) 1,
               pm_long_oi_notional := saturating_add 128 (pm_long_oi_notional m) collateral_amount\<rparr>
        else m\<lparr>pm_short_open_interest := saturating_add 64 (pm_short_open_interest m) 1,
               pm_short_oi_notional := saturating_add 128 (pm_short_oi_notional m) collateral_amount\<rparr>)
      in m\<lparr>pm_total_trades := saturating_add 64 (pm_total_trades m) 1,
           pm_total_volume := saturating_add 128 (pm_total_volume m) collateral_amount\<rparr>)"

text \<open>The position is a new account; \<open>collateral_amount\<close> is what is transferred to the vault.\<close>

definition handler_open_position ::
  "nat \<Rightarrow> pubkey \<Rightarrow> pubkey \<Rightarrow> nat \<Rightarrow> nat \<Rightarrow> bool \<Rightarrow> nat list \<Rightarrow> perp_market \<Rightarrow> (perp_market \<times> position_commitment) res"
  where
  "handler_open_position slot owner market_key bump collateral_amount is_long commitment m =
     require (is_active m) MarketPaused
     (require (collateral_amount \<ge> pm_min_collateral m) InsufficientCollateral
     (require (commitment \<noteq> replicate 32 0) InvalidCommitment
     (Inr (count_open is_long collateral_amount m,
        \<lparr>pc_owner = owner, pc_market = market_key, pc_commitment = commitment,
         pc_collateral_amount = collateral_amount, pc_is_long = is_long, pc_committed_at_slot = slot,
         pc_last_updated_slot = slot, pc_last_cumulative_funding_x64 = 0, pc_bump = bump\<rparr>))))"

definition count_close :: "bool \<Rightarrow> nat \<Rightarrow> perp_market \<Rightarrow> perp_market" where
  "count_close is_long collateral_amount m =
     (if is_long
      then m\<lparr>pm_long_open_interest := saturating_sub (pm_long_open_interest m) 1,
             pm_long_oi_notional := saturating_sub (pm_long_oi_notional m) collateral_amount\<rparr>
      else m\<lparr>pm_short_open_interest := saturating_sub (pm_short_open_interest m) 1,
             pm_short_oi_notional := saturating_sub (pm_short_oi_notional m) collateral_amount\<rparr>)"

text \<open>The market and the amount transferred to the trader; the position is only read.\<close>

definition handler_close_position ::
  "pubkey \<Rightarrow> nat \<Rightarrow> position_commitment \<Rightarrow> perp_market \<Rightarrow> (perp_market \<times> nat) res" where
  "handler_close_position owner collateral_to_return p m =
     require (pc_owner p = owner) NotSender
     (Inr (count_close (pc_is_long p) (pc_collateral_amount p) m,
           min collateral_to_return (pc_collateral_amount p)))"

definition handler_update_mark_price :: "pubkey \<Rightarrow> nat \<Rightarrow> nat \<Rightarrow> perp_market \<Rightarrow> perp_market res" where
  "handler_update_mark_price price_authority mark_price_x64 index_price_x64 m =
     require (pm_price_authority m = price_authority) NotSender
     (require (mark_price_x64 > 0) ZeroSqrtPrice
     (Inr (m\<lparr>pm_mark_price_x64 := mark_price_x64, pm_index_price_x64 := index_price_x64\<rparr>)))"

definition handler_update_funding_rate :: "nat \<Rightarrow> perp_market \<Rightarrow> perp_market res" where
  "handler_update_funding_rate slot m =
     and_then (add_u 64 (pm_last_funding_slot m) FUNDING_EPOCH_SLOTS) (\<lambda>due.
     require (slot \<ge> due) FundingRateStale
     (and_then (calculate_funding_rate m) (\<lambda>new_rate.
      Inr (m\<lparr>pm_funding_rate_x64 := new_rate,
             pm_cumulative_funding_x64 := saturate_i 128 (pm_cumulative_funding_x64 m + new_rate),
             pm_last_funding_slot := slot\<rparr>))))"

definition le_bytes :: "nat \<Rightarrow> nat \<Rightarrow> nat list" where
  "le_bytes n x = map (\<lambda>i. x div 256 ^ i mod 256) [0..<n]"

definition reveal_preimage :: "nat \<Rightarrow> nat \<Rightarrow> nat \<Rightarrow> nat \<Rightarrow> nat list \<Rightarrow> nat list" where
  "reveal_preimage position_size leverage_bps entry_price_x64 liquidation_price_x64 salt =
     le_bytes 8 position_size @ le_bytes 2 leverage_bps @ le_bytes 16 entry_price_x64 @ le_bytes 16 liquidation_price_x64 @ salt"

definition estimate_loss :: "nat \<Rightarrow> nat" where
  "estimate_loss collateral_amount =
     (if collateral_amount > 0 then saturating_sub collateral_amount (collateral_amount div 10) else 0)"

definition handler_liquidation_check ::
  "nat \<Rightarrow> nat \<Rightarrow> nat \<Rightarrow> nat \<Rightarrow> nat list \<Rightarrow> position_commitment \<Rightarrow> perp_market \<Rightarrow> liquidation_check_result res" where
  "handler_liquidation_check position_size leverage_bps entry_price_x64 liquidation_price_x64 salt p m =
     require (\<not> is_active m \<or> pm_mark_price_x64 m > 0) MarketNotFound
     (let preimage = reveal_preimage position_size leverage_bps entry_price_x64 liquidation_price_x64 salt in
      require (pc_commitment p \<noteq> replicate 32 0) InvalidCommitment
      (require (length preimage \<ge> 32) InvalidCommitment
      (if \<not> (if pc_is_long p then pm_mark_price_x64 m \<le> liquidation_price_x64
              else pm_mark_price_x64 m \<ge> liquidation_price_x64)
       then Inr Healthy
       else
         let loss_estimate = estimate_loss (pc_collateral_amount p);
             remaining = saturating_sub (pc_collateral_amount p) loss_estimate;
             shortfall = saturating_sub loss_estimate (pc_collateral_amount p)
         in if remaining = 0 \<and> shortfall > 0
            then require (pm_insurance_fund_balance m \<ge> shortfall) InsuranceFundDepleted (Inr (Insolvent shortfall))
            else Inr (Underwater remaining loss_estimate))))"

section \<open>Closing again and again\<close>

text \<open>A sequence of closes of one position, each with the amount its caller asks for, and the total paid out.\<close>

fun close_repeatedly :: "pubkey \<Rightarrow> position_commitment \<Rightarrow> nat list \<Rightarrow> perp_market \<Rightarrow> (perp_market \<times> nat) res" where
  "close_repeatedly owner p [] m = Inr (m, 0)"
| "close_repeatedly owner p (c # cs) m =
     and_then (handler_close_position owner c p m) (\<lambda>(m, paid).
     and_then (close_repeatedly owner p cs m) (\<lambda>(m, rest). Inr (m, paid + rest)))"

lemma close_repeatedly_total:
  assumes "pc_owner p = owner"
  shows "\<exists>m'. close_repeatedly owner p cs m = Inr (m', \<Sum>c\<leftarrow>cs. min c (pc_collateral_amount p))"
proof (induction cs arbitrary: m)
  case (Cons c cs)
  obtain m' where "close_repeatedly owner p cs (count_close (pc_is_long p) (pc_collateral_amount p) m)
      = Inr (m', \<Sum>c\<leftarrow>cs. min c (pc_collateral_amount p))"
    using Cons.IH by blast
  then show ?case using assms by (simp add: handler_close_position_def require_def)
qed simp

text \<open>The funding rate has three values only.\<close>

lemma funding_rate_eq:
  assumes "calculate_funding_rate m = Inr r"
  shows "r = (if pm_short_open_interest m = 0 \<and> pm_long_open_interest m > 0 then 1
    else if pm_long_open_interest m = 0 \<and> pm_short_open_interest m > 0 then - 1 else 0)"
proof -
  let ?l = "int (pm_long_open_interest m)" and ?s = "int (pm_short_open_interest m)"
  have div0: "(a - b) sdiv (a + b) = 0" if "0 < a" "0 < b" for a b :: int
  proof -
    have "\<bar>a - b\<bar> < a + b" using that by linarith
    then show ?thesis by (simp add: signed_divide_int_def div_pos_pos_trivial)
  qed
  consider "?l = 0" "?s = 0" | "?l > 0" "?s = 0" | "?l = 0" "?s > 0" | "?l > 0" "?s > 0" by linarith
  then show ?thesis
    using assms div0 [of ?l ?s]
    by cases (auto simp: calculate_funding_rate_def res_simps Let_def sdiv_i_def BASE_FUNDING_RATE_BPS_def
        signed_divide_int_def sgn_if split: if_split_asm)
qed

section \<open>Properties\<close>


definition example_market :: perp_market where
  "example_market = default_perp_market\<lparr>pm_max_leverage := 20, pm_min_collateral := 1000\<rparr>"


end
