(* ===== verification/Perp_Shield.thy ===== *)
theory Perp_Shield
  imports Perp_Market
begin

text \<open>
  The circuit breaker of a perpetuals market: \<open>states/perp_shield.rs\<close> and \<open>instructions/perp_shield.rs\<close>.
  A failed instruction leaves the account as it was, whatever it had written before the error; \<open>guard_tx\<close>
  says so for the liquidation guard.
\<close>

section \<open>The shield\<close>

definition CASCADE_OI_IMBALANCE_BPS :: nat where "CASCADE_OI_IMBALANCE_BPS = 7000"
definition CASCADE_LIQ_RATE_THRESHOLD :: nat where "CASCADE_LIQ_RATE_THRESHOLD = 50"
definition CASCADE_PRICE_VELOCITY_BPS :: nat where "CASCADE_PRICE_VELOCITY_BPS = 500"
definition CIRCUIT_BREAKER_COOLDOWN_SLOTS :: nat where "CIRCUIT_BREAKER_COOLDOWN_SLOTS = 1800"

datatype shield_action =
    ActionNone | Flagged | CircuitBreakerArmed | LiquidationAllowed | LiquidationDeferred | ActionReset | AutoReset

fun shield_action_u8 :: "shield_action \<Rightarrow> nat" where
  "shield_action_u8 ActionNone = 0"
| "shield_action_u8 Flagged = 1"
| "shield_action_u8 CircuitBreakerArmed = 2"
| "shield_action_u8 LiquidationAllowed = 3"
| "shield_action_u8 LiquidationDeferred = 4"
| "shield_action_u8 ActionReset = 5"
| "shield_action_u8 AutoReset = 6"

record perp_shield =
  sh_market :: pubkey
  sh_authority :: pubkey
  sh_circuit_breaker_active :: nat
  sh_triggered_at_slot :: nat
  sh_reset_at_slot :: nat
  sh_trigger_count :: nat
  sh_last_action :: nat
  sh_last_oi_imbalance_bps :: nat
  sh_liquidations_this_epoch :: nat
  sh_epoch_start_slot :: nat
  sh_epoch_slots :: nat
  sh_last_mark_price_x64 :: nat
  sh_last_price_slot :: nat
  sh_price_velocity_bps :: nat
  sh_oi_imbalance_threshold_bps :: nat
  sh_liq_rate_threshold :: nat
  sh_price_velocity_threshold_bps :: nat
  sh_initialized :: nat
  sh_bump :: nat

definition is_breaker_active :: "perp_shield \<Rightarrow> bool" where
  "is_breaker_active s \<longleftrightarrow> sh_circuit_breaker_active s = 1"

definition cooldown_elapsed :: "nat \<Rightarrow> perp_shield \<Rightarrow> bool res" where
  "cooldown_elapsed current_slot s =
     and_then (if sh_epoch_slots s > 0 then mul_u 64 (sh_epoch_slots s) 3 else Inr CIRCUIT_BREAKER_COOLDOWN_SLOTS)
       (\<lambda>cooldown.
     and_then (add_u 64 (sh_triggered_at_slot s) cooldown) (\<lambda>until. Inr (current_slot \<ge> until)))"

definition oi_threshold :: "perp_shield \<Rightarrow> nat" where
  "oi_threshold s =
     (if sh_oi_imbalance_threshold_bps s = 0 then CASCADE_OI_IMBALANCE_BPS else sh_oi_imbalance_threshold_bps s)"

definition liq_threshold :: "perp_shield \<Rightarrow> nat" where
  "liq_threshold s = (if sh_liq_rate_threshold s = 0 then CASCADE_LIQ_RATE_THRESHOLD else sh_liq_rate_threshold s)"

definition velocity_threshold :: "perp_shield \<Rightarrow> nat" where
  "velocity_threshold s =
     (if sh_price_velocity_threshold_bps s = 0 then CASCADE_PRICE_VELOCITY_BPS
      else sh_price_velocity_threshold_bps s)"

definition reset_epoch :: "nat \<Rightarrow> perp_shield \<Rightarrow> perp_shield" where
  "reset_epoch current_slot s = s\<lparr>sh_epoch_start_slot := current_slot, sh_liquidations_this_epoch := 0\<rparr>"

definition record_liquidation :: "nat \<Rightarrow> perp_shield \<Rightarrow> perp_shield res" where
  "record_liquidation current_slot s =
     (let epoch_len = (if sh_epoch_slots s > 0 then sh_epoch_slots s else 1800) in
      and_then (add_u 64 (sh_epoch_start_slot s) epoch_len) (\<lambda>epoch_end.
      let s = (if current_slot \<ge> epoch_end then reset_epoch current_slot s else s) in
      Inr (s\<lparr>sh_liquidations_this_epoch := saturating_add 16 (sh_liquidations_this_epoch s) 1\<rparr>)))"

text \<open>The velocity between two prices; the divisor is not zero.\<close>

definition velocity :: "nat \<Rightarrow> nat \<Rightarrow> nat \<Rightarrow> nat" where
  "velocity old new slots =
     saturating_mul 128 (if new > old then new - old else old - new) 10000 div max old 1 div slots"

definition update_price_velocity :: "nat \<Rightarrow> nat \<Rightarrow> perp_shield \<Rightarrow> perp_shield" where
  "update_price_velocity new_price_x64 current_slot s =
     (if sh_last_price_slot s = 0 \<or> sh_last_mark_price_x64 s = 0 then
        s\<lparr>sh_last_mark_price_x64 := new_price_x64, sh_last_price_slot := current_slot, sh_price_velocity_bps := 0\<rparr>
      else
        let slots_elapsed = saturating_sub current_slot (sh_last_price_slot s) in
        if slots_elapsed = 0 then s
        else s\<lparr>sh_price_velocity_bps := min (velocity (sh_last_mark_price_x64 s) new_price_x64 slots_elapsed) (2 ^ 16 - 1),
               sh_last_mark_price_x64 := new_price_x64, sh_last_price_slot := current_slot\<rparr>)"

definition should_trip :: "nat \<Rightarrow> perp_shield \<Rightarrow> bool" where
  "should_trip imbalance s \<longleftrightarrow>
     imbalance \<ge> oi_threshold s \<or> sh_liquidations_this_epoch s \<ge> liq_threshold s \<or>
     sh_price_velocity_bps s \<ge> velocity_threshold s"

record cascade_alert =
  ca_shield :: pubkey
  ca_market :: pubkey
  ca_alert_index :: nat
  ca_triggered_at_slot :: nat
  ca_reset_at_slot :: nat
  ca_oi_imbalance_bps :: nat
  ca_liquidations_in_epoch :: nat
  ca_price_velocity_bps :: nat
  ca_trigger_flags :: nat
  ca_resolution :: nat
  ca_bump :: nat

definition is_resolved :: "cascade_alert \<Rightarrow> bool" where
  "is_resolved a \<longleftrightarrow> ca_reset_at_slot a > 0"

section \<open>Instructions\<close>

definition initialize_shield ::
  "nat \<Rightarrow> pubkey \<Rightarrow> pubkey \<Rightarrow> nat \<Rightarrow> nat \<Rightarrow> nat \<Rightarrow> nat \<Rightarrow> nat \<Rightarrow> perp_shield" where
  "initialize_shield slot market_key authority bump epoch_slots oi_threshold_bps liq_rate_threshold
     price_velocity_threshold_bps =
   \<lparr>sh_market = market_key, sh_authority = authority, sh_circuit_breaker_active = 0, sh_triggered_at_slot = 0,
    sh_reset_at_slot = 0, sh_trigger_count = 0, sh_last_action = shield_action_u8 ActionNone,
    sh_last_oi_imbalance_bps = 0, sh_liquidations_this_epoch = 0, sh_epoch_start_slot = slot,
    sh_epoch_slots = (if epoch_slots > 0 then epoch_slots else 1800), sh_last_mark_price_x64 = 0,
    sh_last_price_slot = 0, sh_price_velocity_bps = 0, sh_oi_imbalance_threshold_bps = oi_threshold_bps,
    sh_liq_rate_threshold = liq_rate_threshold, sh_price_velocity_threshold_bps = price_velocity_threshold_bps,
    sh_initialized = 1, sh_bump = bump\<rparr>"

text \<open>The guard in its four parts: automatic reset, metrics, trip check, decision.\<close>

definition auto_reset :: "nat \<Rightarrow> nat \<Rightarrow> perp_shield \<Rightarrow> perp_shield res" where
  "auto_reset current_slot imbalance s =
     (if is_breaker_active s then
        and_then (cooldown_elapsed current_slot s) (\<lambda>elapsed.
        if elapsed \<and> \<not> should_trip imbalance s
        then Inr (s\<lparr>sh_circuit_breaker_active := 0, sh_reset_at_slot := current_slot,
                    sh_last_action := shield_action_u8 AutoReset\<rparr>)
        else Inr s)
      else Inr s)"

definition update_metrics :: "nat \<Rightarrow> nat \<Rightarrow> nat \<Rightarrow> perp_shield \<Rightarrow> perp_shield res" where
  "update_metrics current_slot mark_price_x64 imbalance s =
     record_liquidation current_slot
       (update_price_velocity mark_price_x64 current_slot (s\<lparr>sh_last_oi_imbalance_bps := imbalance\<rparr>))"

definition arm_breaker :: "nat \<Rightarrow> perp_shield \<Rightarrow> perp_shield" where
  "arm_breaker current_slot s =
     s\<lparr>sh_circuit_breaker_active := 1, sh_triggered_at_slot := current_slot,
       sh_trigger_count := saturating_add 64 (sh_trigger_count s) 1,
       sh_last_action := shield_action_u8 CircuitBreakerArmed\<rparr>"

definition guard_decision :: "nat \<Rightarrow> bool \<Rightarrow> nat \<Rightarrow> perp_shield \<Rightarrow> (perp_shield \<times> shield_action) res" where
  "guard_decision current_slot force_liquidate imbalance s =
     (let s = (if \<not> is_breaker_active s \<and> should_trip imbalance s then arm_breaker current_slot s else s) in
      if is_breaker_active s \<and> \<not> force_liquidate then fail CircuitBreakerActive
      else Inr (s\<lparr>sh_last_action := shield_action_u8 LiquidationAllowed\<rparr>, LiquidationAllowed))"

definition perp_shield_liquidation_guard ::
  "nat \<Rightarrow> pubkey \<Rightarrow> bool \<Rightarrow> perp_market \<Rightarrow> perp_shield \<Rightarrow> (perp_shield \<times> shield_action) res" where
  "perp_shield_liquidation_guard current_slot caller force_liquidate m s =
     require (is_active m \<or> is_emergency m) MarketPaused
     (and_then (oi_imbalance_bps m) (\<lambda>imbalance.
      require (sh_initialized s = 1) ShieldNotInitialized
      (require (caller = sh_authority s \<or> caller = pm_price_authority m) NotApproved
      (and_then (auto_reset current_slot imbalance s) (\<lambda>s.
       and_then (update_metrics current_slot (pm_mark_price_x64 m) imbalance s)
         (guard_decision current_slot force_liquidate imbalance))))))"

definition trigger_circuit_breaker ::
  "nat \<Rightarrow> pubkey \<Rightarrow> pubkey \<Rightarrow> pubkey \<Rightarrow> nat \<Rightarrow> nat \<Rightarrow> nat \<Rightarrow> perp_market \<Rightarrow> perp_shield
     \<Rightarrow> (perp_shield \<times> cascade_alert) res" where
  "trigger_circuit_breaker current_slot authority market_key shield_key bump reason_flags alert_index m s =
     require (sh_authority s = authority) NotApproved
     (and_then (oi_imbalance_bps m) (\<lambda>imbalance.
      require (sh_initialized s = 1) ShieldNotInitialized
      (let s = arm_breaker current_slot s in
       require (alert_index = sh_trigger_count s) NotApproved
       (Inr (s, \<lparr>ca_shield = shield_key, ca_market = market_key, ca_alert_index = sh_trigger_count s,
          ca_triggered_at_slot = current_slot, ca_reset_at_slot = 0, ca_oi_imbalance_bps = imbalance,
          ca_liquidations_in_epoch = sh_liquidations_this_epoch s, ca_price_velocity_bps = sh_price_velocity_bps s,
          ca_trigger_flags = reason_flags, ca_resolution = 0, ca_bump = bump\<rparr>)))))"

definition reset_circuit_breaker :: "nat \<Rightarrow> pubkey \<Rightarrow> bool \<Rightarrow> perp_shield \<Rightarrow> perp_shield res" where
  "reset_circuit_breaker current_slot authority force_reset s =
     require (sh_authority s = authority) NotApproved
     (require (sh_initialized s = 1) ShieldNotInitialized
     (if \<not> is_breaker_active s then Inr s
      else
        and_then (if force_reset then Inr True else cooldown_elapsed current_slot s) (\<lambda>elapsed.
        require elapsed CircuitBreakerActive
        (Inr (reset_epoch current_slot
          (s\<lparr>sh_circuit_breaker_active := 0, sh_reset_at_slot := current_slot,
             sh_last_action := shield_action_u8 ActionReset\<rparr>))))))"

section \<open>The life of a shield\<close>

text \<open>What an instruction leaves in the account.\<close>

definition committed :: "'a res \<Rightarrow> ('a \<Rightarrow> perp_shield) \<Rightarrow> perp_shield \<Rightarrow> perp_shield" where
  "committed r f s = (case r of Inl _ \<Rightarrow> s | Inr x \<Rightarrow> f x)"

definition guard_tx :: "nat \<Rightarrow> pubkey \<Rightarrow> bool \<Rightarrow> perp_market \<Rightarrow> perp_shield \<Rightarrow> perp_shield" where
  "guard_tx slot caller force m s = committed (perp_shield_liquidation_guard slot caller force m s) fst s"

text \<open>The steps that need neither the override nor the authority: ordinary liquidation guards, with any
  market, caller and slot.\<close>

inductive guarded :: "perp_shield \<Rightarrow> perp_shield \<Rightarrow> bool" where
  guarded_refl: "guarded s s"
| guarded_step: "guarded s t \<Longrightarrow> guarded s (guard_tx slot caller False m t)"

inductive_cases guardedE: "guarded s t"

lemma committed_cases:
  "committed r f s = s \<or> (\<exists>x. r = Inr x \<and> committed r f s = f x)"
  by (cases r) (auto simp: committed_def)

lemma guard_Inr:
  assumes "perp_shield_liquidation_guard slot caller force m s = Inr x"
  obtains imbalance s1 s2 where "oi_imbalance_bps m = Inr imbalance" "auto_reset slot imbalance s = Inr s1"
    "update_metrics slot (pm_mark_price_x64 m) imbalance s1 = Inr s2" "guard_decision slot force imbalance s2 = Inr x"
  using assms unfolding perp_shield_liquidation_guard_def require_Inr and_then_Inr by blast

lemma decision_inactive:
  assumes "guard_decision slot False imbalance s = Inr (s', a)"
  shows "\<not> is_breaker_active s' \<and> \<not> should_trip imbalance s"
  using assms
  by (auto simp: guard_decision_def Let_def res_simps is_breaker_active_def arm_breaker_def split: if_split_asm)

lemma guard_Inr_inactive:
  assumes "perp_shield_liquidation_guard slot caller False m s = Inr (s', a)"
  shows "\<not> is_breaker_active s'"
  using assms by (rule guard_Inr) (use decision_inactive in blast)

lemma guarded_inactive: "guarded s t \<Longrightarrow> \<not> is_breaker_active s \<Longrightarrow> \<not> is_breaker_active t"
proof (induction rule: guarded.induct)
  case (guarded_step s t slot caller m)
  then show ?case
    using committed_cases [of "perp_shield_liquidation_guard slot caller False m t" fst t] guard_Inr_inactive
    by (force simp: guard_tx_def)
qed

lemma velocity_place [simp]:
  "sh_circuit_breaker_active (update_price_velocity price slot s) = sh_circuit_breaker_active s"
  "sh_oi_imbalance_threshold_bps (update_price_velocity price slot s) = sh_oi_imbalance_threshold_bps s"
  by (simp_all add: update_price_velocity_def Let_def)

lemma record_liquidation_place:
  "record_liquidation slot s = Inr s' \<Longrightarrow> sh_oi_imbalance_threshold_bps s' = sh_oi_imbalance_threshold_bps s"
  by (auto simp: record_liquidation_def reset_epoch_def and_then_Inr Let_def)

lemma metrics_place:
  assumes "update_metrics slot price imbalance s = Inr s'"
  shows "oi_threshold s' = oi_threshold s"
  using record_liquidation_place [OF assms [unfolded update_metrics_def]] by (simp add: oi_threshold_def)

text \<open>An imbalance above the threshold refuses every ordinary liquidation.\<close>

lemma imbalance_refused:
  assumes "oi_imbalance_bps m = Inr imbalance" "imbalance \<ge> oi_threshold s"
  shows "\<exists>e. perp_shield_liquidation_guard slot caller False m s = Inl e"
proof (rule ccontr)
  assume "\<not> ?thesis"
  then obtain x where "perp_shield_liquidation_guard slot caller False m s = Inr x"
    by (cases "perp_shield_liquidation_guard slot caller False m s") auto
  then obtain s1 s2 where 1: "auto_reset slot imbalance s = Inr s1"
    and 2: "update_metrics slot (pm_mark_price_x64 m) imbalance s1 = Inr s2"
    and 3: "guard_decision slot False imbalance s2 = Inr x"
    using assms(1) by (auto elim!: guard_Inr)
  have "oi_threshold s1 = oi_threshold s"
    using 1 by (auto simp: auto_reset_def res_simps oi_threshold_def split: if_split_asm)
  then have "should_trip imbalance s2" using assms(2) metrics_place [OF 2] by (simp add: should_trip_def)
  then show False using 3 decision_inactive by (cases x) blast
qed

section \<open>Properties\<close>

text \<open>
  C34. The circuit breaker cannot trip by itself: a guard that finds a threshold breached returns an error, so
  the armed state and the metrics it has just written are rolled back. Through any sequence of ordinary liquidation
  guards the breaker of a shield stays inactive, and an imbalance above the threshold only makes each of them
  fail without a trace in the account.
\<close>
theorem breaker_never_trips_by_itself:
  assumes "\<not> is_breaker_active s" "guarded s t"
  shows "\<not> is_breaker_active t \<and> (\<forall>slot caller m imbalance. oi_imbalance_bps m = Inr imbalance \<longrightarrow>
    imbalance \<ge> oi_threshold t \<longrightarrow> guard_tx slot caller False m t = t)"
proof -
  have "guard_tx slot caller False m t = t"
    if "oi_imbalance_bps m = Inr imbalance" "imbalance \<ge> oi_threshold t" for slot caller m imbalance
    using imbalance_refused [OF that, of slot caller] by (auto simp: guard_tx_def committed_def)
  then show ?thesis using guarded_inactive [OF assms(2,1)] by blast
qed

definition example_shield :: perp_shield where
  "example_shield = initialize_shield 100 6 5 255 0 0 0 0"

theorem breaker_never_trips_by_itself_witness:
  "\<not> is_breaker_active (guard_tx 200 5 False example_market example_shield) \<and>
   guard_tx 300 5 False (example_market\<lparr>pm_long_open_interest := 9\<rparr>)
     (guard_tx 200 5 False example_market example_shield) = guard_tx 200 5 False example_market example_shield"
proof -
  let ?t = "guard_tx 200 5 False example_market example_shield"
  have g: "guarded example_shield ?t" by (intro guarded.intros)
  have i: "\<not> is_breaker_active example_shield"
    by (simp add: example_shield_def initialize_shield_def is_breaker_active_def)
  have m: "oi_imbalance_bps (example_market\<lparr>pm_long_open_interest := 9\<rparr>) = Inr 10000"
    by (simp add: oi_imbalance_bps_def example_market_def default_perp_market_def u_defs Let_def wrap_uint_def)
  have "oi_threshold ?t = 7000"
    by (simp add: guard_tx_def committed_def perp_shield_liquidation_guard_def guard_decision_def require_def example_market_def
        default_perp_market_def is_active_def oi_imbalance_bps_def u_defs Let_def example_shield_def
        initialize_shield_def auto_reset_def is_breaker_active_def update_metrics_def record_liquidation_def
        update_price_velocity_def reset_epoch_def should_trip_def oi_threshold_def liq_threshold_def
        velocity_threshold_def CASCADE_OI_IMBALANCE_BPS_def CASCADE_LIQ_RATE_THRESHOLD_def
        CASCADE_PRICE_VELOCITY_BPS_def saturating_add_def)
  then show ?thesis using breaker_never_trips_by_itself [OF i g] m by auto
qed

end
