(* ===== verification/Fee_Collection.thy ===== *)
theory Fee_Collection
  imports Pool_State
begin

text \<open>
  Collecting the protocol and fund fees of a pool: \<open>tipy.rs\<close>, \<open>collect_protocol_fee.rs\<close> and
  \<open>collect_fund_fee.rs\<close>. A handler returns the pool and the amounts of its transfers.
\<close>

definition TIPY_ROUTE_BPS :: nat where "TIPY_ROUTE_BPS = 2000"
definition TIPY_BPS_DENOM :: nat where "TIPY_BPS_DENOM = 10000"

text \<open>\<open>split\<close>: the shares of the administrator and of the treasury.\<close>

definition split_fee :: "nat \<Rightarrow> nat \<times> nat" where
  "split_fee amount =
     (let tipy = wrap_uint 64 (saturating_mul 128 amount TIPY_ROUTE_BPS div TIPY_BPS_DENOM)
      in (saturating_sub amount tipy, tipy))"

definition collect_protocol_fee ::
  "nat \<Rightarrow> nat \<Rightarrow> pool_state \<Rightarrow> (pool_state \<times> (nat \<times> nat) \<times> (nat \<times> nat)) res" where
  "collect_protocol_fee amount_0_requested amount_1_requested pool =
     (let amount_0 = min amount_0_requested (ps_protocol_fees_token_0 pool);
          amount_1 = min amount_1_requested (ps_protocol_fees_token_1 pool)
      in and_then (ok_or (checked_sub (ps_protocol_fees_token_0 pool) amount_0) CalculateOverflow) (\<lambda>left_0.
         and_then (ok_or (checked_sub (ps_protocol_fees_token_1 pool) amount_1) CalculateOverflow) (\<lambda>left_1.
         Inr (pool\<lparr>ps_protocol_fees_token_0 := left_0, ps_protocol_fees_token_1 := left_1\<rparr>,
              split_fee amount_0, split_fee amount_1))))"

definition collect_fund_fee :: "nat \<Rightarrow> nat \<Rightarrow> pool_state \<Rightarrow> (pool_state \<times> nat \<times> nat) res" where
  "collect_fund_fee amount_0_requested amount_1_requested pool =
     (let amount_0 = min amount_0_requested (ps_fund_fees_token_0 pool);
          amount_1 = min amount_1_requested (ps_fund_fees_token_1 pool)
      in and_then (ok_or (checked_sub (ps_fund_fees_token_0 pool) amount_0) CalculateOverflow) (\<lambda>left_0.
         and_then (ok_or (checked_sub (ps_fund_fees_token_1 pool) amount_1) CalculateOverflow) (\<lambda>left_1.
         Inr (pool\<lparr>ps_fund_fees_token_0 := left_0, ps_fund_fees_token_1 := left_1\<rparr>, amount_0, amount_1))))"

lemma split_fee_sum: "amount < 2 ^ 64 \<Longrightarrow> fst (split_fee amount) + snd (split_fee amount) = amount"
proof -
  assume a: "amount < 2 ^ 64"
  have "saturating_mul 128 amount 2000 = amount * 2000" using a by (simp add: saturating_mul_def)
  moreover have "amount * 2000 div 10000 \<le> amount" by simp
  ultimately show ?thesis
    using a by (simp add: split_fee_def TIPY_ROUTE_BPS_def TIPY_BPS_DENOM_def wrap_uint_def saturating_sub_def Let_def)
qed

end
