(* ===== verification/Position_Fees.thy ===== *)
theory Position_Fees
  imports Position Swap_Safety
begin

text \<open>
  The fees of the liquidity providers: what the positions of a range are owed for a sequence of swap fees never
  exceeds what the swaps set aside for them.
\<close>

section \<open>A position's share\<close>

lemma latest_fees_le:
  assumes "calculate_latest_token_fees owed g g' l = Inr owed'"
  shows "owed \<le> owed' \<and> (owed' - owed) * Q64 \<le> unat (g' - g) * l"
proof -
  obtain d where d: "d = unat (g' - g) * l div Q64" "owed' = owed + to_underflow_u64 d"
    using assms by (auto simp: calculate_latest_token_fees_def res_simps mul_div_floor_Some)
  have "(owed' - owed) * Q64 \<le> d * Q64" using d to_underflow_u64_le [of d] by simp
  also have "\<dots> \<le> unat (g' - g) * l" unfolding d(1) by simp
  finally show ?thesis using d(2) by simp
qed

section \<open>A sequence of fees at one liquidity\<close>

fun split_all :: "nat list \<Rightarrow> nat \<Rightarrow> nat \<Rightarrow> swap_state \<Rightarrow> swap_state res" where
  "split_all [] protocol_fee_rate fund_fee_rate s = Inr s"
| "split_all (fee # fees) protocol_fee_rate fund_fee_rate s =
     and_then (spilt_fees fee protocol_fee_rate fund_fee_rate s) (split_all fees protocol_fee_rate fund_fee_rate)"

lemma split_all_growth:
  assumes "split_all fees pr fr s = Inr s'" "sw_liquidity s > 0"
  shows "\<exists>d. sw_fee_growth_global_x64 s' = sw_fee_growth_global_x64 s + of_nat d \<and> sw_lp_fee s \<le> sw_lp_fee s' \<and>
    d * sw_liquidity s \<le> (sw_lp_fee s' - sw_lp_fee s) * Q64"
  using assms
proof (induction fees arbitrary: s)
  case (Cons fee fees)
  obtain t where t: "spilt_fees fee pr fr s = Inr t" "split_all fees pr fr t = Inr s'"
    using Cons.prems(1) by (auto simp: and_then_Inr)
  let ?left = "fee - share_or_zero fee pr - share_or_zero fee fr" and ?L = "sw_liquidity s"
  have st: "sw_liquidity t = ?L" "sw_lp_fee t = sw_lp_fee s + ?left"
    "sw_fee_growth_global_x64 t = sw_fee_growth_global_x64 s + of_nat (?left * Q64 div ?L)"
    using spilt_fees_Inr [OF t(1)] Cons.prems(2) by (auto simp: split_result_def Let_def)
  obtain d where d: "sw_fee_growth_global_x64 s' = sw_fee_growth_global_x64 t + of_nat d" "sw_lp_fee t \<le> sw_lp_fee s'"
      "d * ?L \<le> (sw_lp_fee s' - sw_lp_fee t) * Q64"
    using Cons.IH [OF t(2)] Cons.prems(2) st(1) by auto
  have "(?left * Q64 div ?L + d) * ?L \<le> ?left * Q64 + (sw_lp_fee s' - sw_lp_fee t) * Q64"
    using d(3) by (simp add: add_mult_distrib add_mono)
  also have "\<dots> = (sw_lp_fee s' - sw_lp_fee s) * Q64"
    using d(2) st(2) by (simp add: add_mult_distrib [symmetric])
  finally show ?case using d st by (intro exI [of _ "?left * Q64 div ?L + d"]) (simp add: add.assoc)
qed (auto intro: exI [of _ 0])

section \<open>All positions in range\<close>

text \<open>A position is its liquidity, what it is owed and the growth inside its range at its last update. While the
  current tick stays in the range the growth inside grows as the global growth does, by \<open>delta\<close>.\<close>

type_synonym in_range = "nat \<times> nat \<times> growth"

fun owe_all :: "growth \<Rightarrow> in_range list \<Rightarrow> nat list res" where
  "owe_all delta [] = Inr []"
| "owe_all delta ((liquidity, owed, growth_last) # ps) =
     and_then (calculate_latest_token_fees owed growth_last (growth_last + delta) liquidity) (\<lambda>owed'.
     and_then (owe_all delta ps) (\<lambda>rest. Inr (owed' # rest)))"

definition owed_before :: "in_range list \<Rightarrow> nat" where
  "owed_before ps = (\<Sum>(liquidity, owed, growth_last)\<leftarrow>ps. owed)"

definition liquidity_of :: "in_range list \<Rightarrow> nat" where
  "liquidity_of ps = (\<Sum>(liquidity, owed, growth_last)\<leftarrow>ps. liquidity)"

lemma position_sums [simp]:
  "owed_before [] = 0" "owed_before ((l, o', g) # ps) = o' + owed_before ps"
  "liquidity_of [] = 0" "liquidity_of ((l, o', g) # ps) = l + liquidity_of ps"
  by (simp_all add: owed_before_def liquidity_of_def)

lemma owe_all_le:
  assumes "owe_all delta ps = Inr owed'"
  shows "owed_before ps \<le> sum_list owed' \<and> (sum_list owed' - owed_before ps) * Q64 \<le> unat delta * liquidity_of ps"
  using assms
proof (induction ps arbitrary: owed')
  case (Cons p ps)
  obtain l o1 g where p: "p = (l, o1, g)" by (cases p)
  obtain o2 rest where o: "calculate_latest_token_fees o1 g (g + delta) l = Inr o2" "owe_all delta ps = Inr rest"
      "owed' = o2 # rest"
    using Cons.prems by (auto simp: p res_simps)
  note le = latest_fees_le [OF o(1)] Cons.IH [OF o(2)]
  have "sum_list owed' - owed_before (p # ps) = (o2 - o1) + (sum_list rest - owed_before ps)"
    using le by (simp add: p o(3))
  then have "(sum_list owed' - owed_before (p # ps)) * Q64 = (o2 - o1) * Q64 + (sum_list rest - owed_before ps) * Q64"
    by (simp add: add_mult_distrib)
  also have "\<dots> \<le> unat delta * l + unat delta * liquidity_of ps"
    using le by (intro add_mono) auto
  finally show ?case using le by (simp add: p o(3) add_mult_distrib2)
qed simp

section \<open>Properties\<close>


definition fee_example :: swap_state where
  "fee_example = \<lparr>sw_amount_specified_remaining = 0, sw_amount_calculated = 0, sw_sqrt_price_x64 = 2 ^ 64,
     sw_tick = 0, sw_fee_growth_global_x64 = 0, sw_lp_fee = 0, sw_protocol_fee = 0, sw_fund_fee = 0,
     sw_liquidity = 1000, sw_sqrt_price_next_x64 = 0, sw_tick_next = 0, sw_tick_spacing = 10,
     sw_base_fee_rate = 2500, sw_tick_spacing_index = 0, sw_dynamic_fee_info = None\<rparr>"


end
