(* ===== verification/Active_Liquidity.thy ===== *)
theory Active_Liquidity
  imports Liquidity_Handlers Swap_Safety Pool_Bitmap
begin

text \<open>
  The accounting of liquidity: ticks hold the sums of the positions that end at them, and the liquidity of the
  pool is that of the positions around the current tick. The abstract state is the list of positions; the
  steps are the deposit and the withdrawal (\<open>modify_position\<close>), a move of the price inside a stretch without
  ticks, and the crossing of a tick (\<open>cross_liquidity\<close> of the swap) in both directions.
\<close>

section \<open>The abstract state\<close>

type_synonym range_position = "int \<times> int \<times> nat"

record liquidity_book =
  bk_pool :: pool_state
  bk_ticks :: "int \<Rightarrow> tick_state"
  bk_positions :: "range_position list"

fun gross_share :: "int \<Rightarrow> range_position \<Rightarrow> nat" where
  "gross_share t (lo, hi, l) = (if t = lo \<or> t = hi then l else 0)"

fun net_share :: "int \<Rightarrow> range_position \<Rightarrow> int" where
  "net_share t (lo, hi, l) = (if t = lo then int l else if t = hi then - int l else 0)"

fun active_share :: "int \<Rightarrow> range_position \<Rightarrow> nat" where
  "active_share c (lo, hi, l) = (if lo \<le> c \<and> c < hi then l else 0)"

definition gross_at :: "int \<Rightarrow> range_position list \<Rightarrow> nat" where
  "gross_at t ps = sum_list (List.map (gross_share t) ps)"

definition net_at :: "int \<Rightarrow> range_position list \<Rightarrow> int" where
  "net_at t ps = sum_list (List.map (net_share t) ps)"

definition active_at :: "int \<Rightarrow> range_position list \<Rightarrow> nat" where
  "active_at c ps = sum_list (List.map (active_share c) ps)"

definition ordered_position :: "range_position \<Rightarrow> bool" where
  "ordered_position p \<longleftrightarrow> fst p < fst (snd p)"

definition ticks_sum :: "(int \<Rightarrow> tick_state) \<Rightarrow> range_position list \<Rightarrow> bool" where
  "ticks_sum ticks ps \<longleftrightarrow> (\<forall>t. t_liquidity_gross (ticks t) = gross_at t ps \<and> t_liquidity_net (ticks t) = net_at t ps)"

definition ticks_named :: "(int \<Rightarrow> tick_state) \<Rightarrow> range_position list \<Rightarrow> bool" where
  "ticks_named ticks ps \<longleftrightarrow> (\<forall>t. t_tick (ticks t) \<in> {0, t}) \<and>
     (\<forall>(lo, hi, l) \<in> set ps. t_tick (ticks lo) = lo \<and> t_tick (ticks hi) = hi)"

definition book_ok :: "liquidity_book \<Rightarrow> bool" where
  "book_ok b \<longleftrightarrow> list_all ordered_position (bk_positions b) \<and> ticks_named (bk_ticks b) (bk_positions b) \<and>
     ticks_sum (bk_ticks b) (bk_positions b) \<and>
     ps_liquidity (bk_pool b) = active_at (ps_tick_current (bk_pool b)) (bk_positions b)"

section \<open>The steps\<close>

definition no_liquidity_within :: "(int \<Rightarrow> tick_state) \<Rightarrow> int \<Rightarrow> int \<Rightarrow> bool" where
  "no_liquidity_within ticks a b \<longleftrightarrow> (\<forall>t. a < t \<and> t \<le> b \<longrightarrow> \<not> has_liquidity (ticks t))"

definition moved :: "int \<Rightarrow> nat \<Rightarrow> nat \<Rightarrow> pool_state \<Rightarrow> pool_state" where
  "moved tick price liquidity pool =
     pool\<lparr>ps_tick_current := tick, ps_sqrt_price_x64 := price, ps_liquidity := liquidity\<rparr>"

inductive liquidity_step :: "liquidity_book \<Rightarrow> liquidity_book \<Rightarrow> bool" where
  deposit: "lo < hi \<Longrightarrow>
     modify_position epoch now (int l) pool (name_tick lo (ticks lo)) (name_tick hi (ticks hi))
       = Inr (pool', lower, upper, change) \<Longrightarrow>
     liquidity_step \<lparr>bk_pool = pool, bk_ticks = ticks, bk_positions = ps\<rparr>
       \<lparr>bk_pool = pool', bk_ticks = ticks(lo := lower, hi := upper), bk_positions = ps @ [(lo, hi, l)]\<rparr>"
| withdraw: "i < length ps \<Longrightarrow> ps ! i = (lo, hi, l) \<Longrightarrow> d \<le> l \<Longrightarrow>
     modify_position epoch now (- int d) pool (ticks lo) (ticks hi) = Inr (pool', lower, upper, change) \<Longrightarrow>
     liquidity_step \<lparr>bk_pool = pool, bk_ticks = ticks, bk_positions = ps\<rparr>
       \<lparr>bk_pool = pool', bk_ticks = ticks(lo := lower, hi := upper), bk_positions = ps[i := (lo, hi, l - d)]\<rparr>"
| move_down: "c \<le> ps_tick_current pool \<Longrightarrow> no_liquidity_within ticks c (ps_tick_current pool) \<Longrightarrow>
     liquidity_step \<lparr>bk_pool = pool, bk_ticks = ticks, bk_positions = ps\<rparr>
       \<lparr>bk_pool = moved c price (ps_liquidity pool) pool, bk_ticks = ticks, bk_positions = ps\<rparr>"
| move_up: "ps_tick_current pool \<le> c \<Longrightarrow> no_liquidity_within ticks (ps_tick_current pool) c \<Longrightarrow>
     liquidity_step \<lparr>bk_pool = pool, bk_ticks = ticks, bk_positions = ps\<rparr>
       \<lparr>bk_pool = moved c price (ps_liquidity pool) pool, bk_ticks = ticks, bk_positions = ps\<rparr>"
| cross_down: "t \<le> ps_tick_current pool \<Longrightarrow> no_liquidity_within ticks t (ps_tick_current pool) \<Longrightarrow>
     sw_liquidity s = ps_liquidity pool \<Longrightarrow>
     cross_liquidity fee_on_token0 True rewards pool (ticks t) s = Inr (tick, l) \<Longrightarrow>
     liquidity_step \<lparr>bk_pool = pool, bk_ticks = ticks, bk_positions = ps\<rparr>
       \<lparr>bk_pool = moved (t - 1) price l pool, bk_ticks = ticks(t := tick), bk_positions = ps\<rparr>"
| cross_up: "ps_tick_current pool < t \<Longrightarrow> no_liquidity_within ticks (ps_tick_current pool) (t - 1) \<Longrightarrow>
     sw_liquidity s = ps_liquidity pool \<Longrightarrow>
     cross_liquidity fee_on_token0 False rewards pool (ticks t) s = Inr (tick, l) \<Longrightarrow>
     liquidity_step \<lparr>bk_pool = pool, bk_ticks = ticks, bk_positions = ps\<rparr>
       \<lparr>bk_pool = moved t price l pool, bk_ticks = ticks(t := tick), bk_positions = ps\<rparr>"

inductive_cases liquidity_stepE: "liquidity_step b b'"

inductive liquidity_reachable :: "liquidity_book \<Rightarrow> bool" where
  empty_book: "ps_liquidity pool = 0 \<Longrightarrow>
     liquidity_reachable \<lparr>bk_pool = pool, bk_ticks = (\<lambda>t. default_tick_state), bk_positions = []\<rparr>"
| step_book: "liquidity_reachable b \<Longrightarrow> liquidity_step b b' \<Longrightarrow> liquidity_reachable b'"

section \<open>Sums\<close>

lemma share_simps [simp]:
  "gross_at t [] = 0" "gross_at t (p # ps) = gross_share t p + gross_at t ps"
  "gross_at t (ps @ [p]) = gross_at t ps + gross_share t p"
  "net_at t [] = 0" "net_at t (p # ps) = net_share t p + net_at t ps"
  "net_at t (ps @ [p]) = net_at t ps + net_share t p"
  "active_at t [] = 0" "active_at t (p # ps) = active_share t p + active_at t ps"
  "active_at t (ps @ [p]) = active_at t ps + active_share t p"
  by (simp_all add: gross_at_def net_at_def active_at_def)

lemma int_sum_map: "int (sum_list (List.map f xs)) = sum_list (List.map (\<lambda>x. int (f x)) xs)"
  by (induction xs) auto

lemma shares_update:
  assumes "i < length ps"
  shows "int (gross_at t (ps[i := p])) = int (gross_at t ps) - int (gross_share t (ps ! i)) + int (gross_share t p)"
    "net_at t (ps[i := p]) = net_at t ps - net_share t (ps ! i) + net_share t p"
    "int (active_at t (ps[i := p])) = int (active_at t ps) - int (active_share t (ps ! i)) + int (active_share t p)"
  using assms by (simp_all add: gross_at_def net_at_def active_at_def int_sum_map sum_list_update_int)

lemma net_le_gross: "list_all ordered_position ps \<Longrightarrow> \<bar>net_at t ps\<bar> \<le> int (gross_at t ps)"
proof (induction ps)
  case (Cons p ps)
  obtain lo hi l where "p = (lo, hi, l)" by (cases p)
  then show ?case using Cons by auto
qed simp

text \<open>From one tick to the next the active liquidity changes by the net of the tick.\<close>

lemma active_step:
  assumes "list_all ordered_position ps"
  shows "int (active_at t ps) = int (active_at (t - 1) ps) + net_at t ps"
  using assms
proof (induction ps)
  case (Cons p ps)
  obtain lo hi l where p: "p = (lo, hi, l)" by (cases p)
  have "int (active_share t p) = int (active_share (t - 1) p) + net_share t p"
    using Cons.prems by (auto simp: p ordered_position_def)
  then show ?case using Cons by simp
qed simp

lemma active_same:
  assumes "list_all ordered_position ps" "ticks_sum ticks ps" "no_liquidity_within ticks a b" "a \<le> b"
  shows "active_at a ps = active_at b ps"
  using assms(4,3)
proof (induction rule: int_ge_induct)
  case (step b)
  have "\<not> has_liquidity (ticks (b + 1))" using step by (simp add: no_liquidity_within_def)
  then have "net_at (b + 1) ps = 0"
    using net_le_gross [OF assms(1), of "b + 1"] assms(2) by (auto simp: has_liquidity_def ticks_sum_def)
  then have "active_at (b + 1) ps = active_at b ps" using active_step [OF assms(1), of "b + 1"] by simp
  then show ?case using step by (simp add: no_liquidity_within_def)
qed simp

section \<open>The operations on the sums\<close>

text \<open>What a tick is after an update by \<open>d\<close>: the gross moves by \<open>d\<close>; the net moves too unless the tick was
  cleared, which only happens to an empty tick.\<close>

definition tick_moved :: "int \<Rightarrow> int \<Rightarrow> tick_state \<Rightarrow> tick_state \<Rightarrow> bool" where
  "tick_moved d net t t' \<longleftrightarrow> t_tick t' = t_tick t \<and> int (t_liquidity_gross t') = int (t_liquidity_gross t) + d \<and>
     (t_liquidity_net t' = t_liquidity_net t + net \<or> t_liquidity_gross t' = 0 \<and> t_liquidity_net t' = 0)"

lemma tick_update_moved:
  assumes "tick_update c d g0 g1 upper rs t = Inr (t', flipped)"
  shows "tick_moved d (if upper then - d else d) t (if d < 0 \<and> flipped then tick_clear t' else t')"
  using tick_update_Inr [OF assms] by (auto simp: tick_moved_def tick_clear_def)

lemma modify_ticks_moved:
  assumes "modify_ticks d rs pool lower upper = Inr (lower', f, upper', g)"
  shows "tick_moved d d lower (if d < 0 \<and> f then tick_clear lower' else lower')"
    "tick_moved d (- d) upper (if d < 0 \<and> g then tick_clear upper' else upper')"
proof -
  have "tick_moved d d lower (if d < 0 \<and> f then tick_clear lower' else lower') \<and>
    tick_moved d (- d) upper (if d < 0 \<and> g then tick_clear upper' else upper')"
  proof (cases "d = 0")
    case True
    then show ?thesis using assms by (simp add: modify_ticks_def tick_moved_def)
  next
    case False
    then obtain g0 g1 where
      "tick_update (ps_tick_current pool) d g0 g1 False rs lower = Inr (lower', f)"
      "tick_update (ps_tick_current pool) d g0 g1 True rs upper = Inr (upper', g)"
      using assms unfolding modify_ticks_def and_then_pair_Inr by (simp add: and_then_pair_Inr) blast
    from this [THEN tick_update_moved] show ?thesis by simp
  qed
  then show "tick_moved d d lower (if d < 0 \<and> f then tick_clear lower' else lower')"
    "tick_moved d (- d) upper (if d < 0 \<and> g then tick_clear upper' else upper')" by blast+
qed

lemma range_amounts_liquidity:
  assumes "range_amounts d pool lo hi = Inr (pool', a0, a1)"
  shows "ps_tick_current pool' = ps_tick_current pool \<and>
    int (ps_liquidity pool')
      = int (ps_liquidity pool) + (if lo \<le> ps_tick_current pool \<and> ps_tick_current pool < hi then d else 0)"
proof (cases "d = 0")
  case True
  then show ?thesis using assms by (simp add: range_amounts_def)
next
  case False
  note k = assms [unfolded range_amounts_def and_then_pair_Inr]
  show ?thesis
  proof (cases "lo \<le> ps_tick_current pool \<and> ps_tick_current pool < hi")
    case True
    then show ?thesis using False k by (auto simp: and_then_Inr add_delta_Inr simp del: One_nat_def)
  next
    case outside: False
    then obtain a b where "get_delta_amounts_signed (ps_tick_current pool) (ps_sqrt_price_x64 pool) lo hi d = Inr (a, b)"
      and "Inr (pool, a, b) = (Inr (pool', a0, a1) :: (pool_state \<times> nat \<times> nat) res)"
      using k unfolding if_not_P [OF outside] if_P [OF False] and_then_pair_Inr by blast
    then show ?thesis using outside by auto
  qed
qed

lemma modify_position_moved:
  assumes "modify_position epoch now d pool lower upper = Inr (pool', lower', upper', change)"
  shows "tick_moved d d lower lower'" "tick_moved d (- d) upper upper'"
    "ps_tick_current pool' = ps_tick_current pool"
    "int (ps_liquidity pool') = int (ps_liquidity pool)
      + (if t_tick lower \<le> ps_tick_current pool \<and> ps_tick_current pool < t_tick upper then d else 0)"
proof -
  obtain p pa pb where x: "update_reward_infos epoch now pool = Inr p"
    "modify_ticks d (snd p) (fst p) lower upper = Inr pa"
    "range_amounts d (fst p)
       (t_tick (if d < 0 \<and> fst (snd pa) then tick_clear (fst pa) else fst pa))
       (t_tick (if d < 0 \<and> snd (snd (snd pa)) then tick_clear (fst (snd (snd pa))) else fst (snd (snd pa)))) = Inr pb"
    and y: "fst pb = pool'" "lower' = (if d < 0 \<and> fst (snd pa) then tick_clear (fst pa) else fst pa)"
      "upper' = (if d < 0 \<and> snd (snd (snd pa)) then tick_clear (fst (snd (snd pa))) else fst (snd (snd pa)))"
    using assms unfolding modify_position_def Let_def case_prod_unfold and_then_Inr sum.inject prod.inject
    by (elim exE conjE) blast
  obtain p1 rs l1 f u1 g a0 a1 where z: "p = (p1, rs)" "pa = (l1, f, u1, g)" "pb = (pool', a0, a1)"
    using y(1) by (cases p; cases pa; cases pb) auto
  have r: "update_reward_infos epoch now pool = Inr (p1, rs)"
    and m: "modify_ticks d rs p1 lower upper = Inr (l1, f, u1, g)"
    and k: "lower' = (if d < 0 \<and> f then tick_clear l1 else l1)" "upper' = (if d < 0 \<and> g then tick_clear u1 else u1)"
    and a: "range_amounts d p1 (t_tick lower') (t_tick upper') = Inr (pool', a0, a1)"
    using x y unfolding z by simp_all
  note p1 = update_reward_infos_pool [OF r]
  note t = modify_ticks_moved [OF m, folded k]
  show "tick_moved d d lower lower'" "tick_moved d (- d) upper upper'" by (rule t)+
  note l = range_amounts_liquidity [OF a]
  show "ps_tick_current pool' = ps_tick_current pool" using l by (simp add: p1)
  show "int (ps_liquidity pool') = int (ps_liquidity pool)
      + (if t_tick lower \<le> ps_tick_current pool \<and> ps_tick_current pool < t_tick upper then d else 0)"
    using l t by (simp add: p1 tick_moved_def)
qed

lemma cross_liquidity_moved:
  assumes "cross_liquidity on0 z rs pool t s = Inr (t', l)"
  shows "tick_moved 0 0 t t'" "int l = int (sw_liquidity s) + (if z then - t_liquidity_net t else t_liquidity_net t)"
  using assms by (auto simp: cross_liquidity_def tick_cross_def Let_def and_then_Inr add_delta_Inr arith_i_def
      res_simps tick_moved_def split: if_split_asm)

section \<open>Preservation\<close>

text \<open>Two ticks of a book after a change of the position between them by \<open>d\<close>.\<close>

lemma ticks_sum_change:
  assumes "ticks_sum ticks ps" "list_all ordered_position ps'" "lo \<noteq> hi"
    and "tick_moved d d (f (ticks lo)) lower" "tick_moved d (- d) (g (ticks hi)) upper"
    and "\<And>t. t_liquidity_gross (f t) = t_liquidity_gross t \<and> t_liquidity_net (f t) = t_liquidity_net t"
    and "\<And>t. t_liquidity_gross (g t) = t_liquidity_gross t \<and> t_liquidity_net (g t) = t_liquidity_net t"
    and "\<And>t. int (gross_at t ps') = int (gross_at t ps) + (if t = lo \<or> t = hi then d else 0)"
    and "\<And>t. net_at t ps' = net_at t ps + (if t = lo then d else if t = hi then - d else 0)"
  shows "ticks_sum (ticks(lo := lower, hi := upper)) ps'"
proof -
  have zero: "net_at t ps' = 0" if "gross_at t ps' = 0" for t
    using net_le_gross [OF assms(2), of t] that by simp
  have sums: "t_liquidity_gross (ticks t) = gross_at t ps" "t_liquidity_net (ticks t) = net_at t ps" for t
    using assms(1) by (simp_all add: ticks_sum_def)
  have eq: "t_liquidity_gross lower = gross_at lo ps'"
    using assms(4) assms(6) [of "ticks lo"] assms(8) [of lo] sums [of lo] by (simp add: tick_moved_def)
  have eq': "t_liquidity_gross upper = gross_at hi ps'"
    using assms(3,5) assms(7) [of "ticks hi"] assms(8) [of hi] sums [of hi] by (simp add: tick_moved_def)
  have net: "t_liquidity_net lower = net_at lo ps'"
    using assms(4) assms(6) [of "ticks lo"] assms(9) [of lo] sums [of lo] eq zero [of lo]
    by (auto simp: tick_moved_def)
  have net': "t_liquidity_net upper = net_at hi ps'"
    using assms(3,5) assms(7) [of "ticks hi"] assms(9) [of hi] sums [of hi] eq' zero [of hi]
    by (auto simp: tick_moved_def)
  have other: "gross_at t ps' = gross_at t ps" "net_at t ps' = net_at t ps" if "t \<noteq> lo" "t \<noteq> hi" for t
    using assms(8,9) [of t] that by simp_all
  show ?thesis using eq eq' net net' other sums assms(3) by (simp add: ticks_sum_def)
qed

lemma named_change:
  assumes "ticks_named ticks ps" "t_tick lower = lo" "t_tick upper = hi" "lo \<noteq> hi"
    and "\<And>a b l. (a, b, l) \<in> set ps' \<Longrightarrow> (a = lo \<and> b = hi) \<or> (\<exists>l. (a, b, l) \<in> set ps)"
  shows "ticks_named (ticks(lo := lower, hi := upper)) ps'"
proof -
  have "t_tick ((ticks(lo := lower, hi := upper)) a) = a \<and> t_tick ((ticks(lo := lower, hi := upper)) b) = b"
    if "(a, b, l) \<in> set ps'" for a b l
    using assms(5) [OF that] assms(1-4) by (auto simp: ticks_named_def)
  then show ?thesis using assms(1-4) by (auto simp: ticks_named_def)
qed

lemma name_tick_fields [simp]:
  "t_liquidity_gross (name_tick i t) = t_liquidity_gross t" "t_liquidity_net (name_tick i t) = t_liquidity_net t"
  by (simp_all add: name_tick_def)

lemma name_tick_named: "t_tick t \<in> {0, i} \<Longrightarrow> t_tick (name_tick i t) = i"
  by (auto simp: name_tick_def)

lemma ticks_kept:
  assumes "tick_moved 0 0 (ticks t) tick" "list_all ordered_position ps"
  shows "ticks_named ticks ps \<Longrightarrow> ticks_named (ticks(t := tick)) ps"
    "ticks_sum ticks ps \<Longrightarrow> ticks_sum (ticks(t := tick)) ps"
proof -
  show "ticks_named ticks ps \<Longrightarrow> ticks_named (ticks(t := tick)) ps"
    using assms(1) by (fastforce simp: ticks_named_def tick_moved_def)
  show "ticks_sum ticks ps \<Longrightarrow> ticks_sum (ticks(t := tick)) ps"
    using assms(1) net_le_gross [OF assms(2), of t] by (auto simp: ticks_sum_def tick_moved_def)
qed

lemma book_deposit:
  assumes "book_ok \<lparr>bk_pool = pool, bk_ticks = ticks, bk_positions = ps\<rparr>" "lo < hi"
    "modify_position epoch now (int l) pool (name_tick lo (ticks lo)) (name_tick hi (ticks hi))
       = Inr (pool', lower, upper, change)"
  shows "book_ok \<lparr>bk_pool = pool', bk_ticks = ticks(lo := lower, hi := upper), bk_positions = ps @ [(lo, hi, l)]\<rparr>"
proof -
  note m = modify_position_moved [OF assms(3)]
  have ok: "list_all ordered_position ps" "ticks_named ticks ps" "ticks_sum ticks ps"
    "ps_liquidity pool = active_at (ps_tick_current pool) ps"
    using assms(1) by (simp_all add: book_ok_def)
  have named: "t_tick (name_tick lo (ticks lo)) = lo" "t_tick (name_tick hi (ticks hi)) = hi"
    using ok(2) by (simp_all add: ticks_named_def name_tick_named)
  then have n: "t_tick lower = lo" "t_tick upper = hi" using m(1,2) by (simp_all add: tick_moved_def)
  have ord: "list_all ordered_position (ps @ [(lo, hi, l)])"
    using ok(1) assms(2) by (simp add: ordered_position_def)
  have sum: "ticks_sum (ticks(lo := lower, hi := upper)) (ps @ [(lo, hi, l)])"
    by (rule ticks_sum_change [OF ok(3) ord, where f = "name_tick lo" and g = "name_tick hi", OF _ m(1,2)])
      (use assms(2) in auto)
  have "lo \<noteq> hi" using assms(2) by simp
  then have names: "ticks_named (ticks(lo := lower, hi := upper)) (ps @ [(lo, hi, l)])"
    by (rule named_change [OF ok(2) n]) auto
  have "int (ps_liquidity pool') = int (active_at (ps_tick_current pool) (ps @ [(lo, hi, l)]))"
    using m(4) named ok(4) by simp
  then show ?thesis using ord names sum m(3) by (simp add: book_ok_def)
qed

lemma book_withdraw:
  assumes "book_ok \<lparr>bk_pool = pool, bk_ticks = ticks, bk_positions = ps\<rparr>"
    "i < length ps" "ps ! i = (lo, hi, l)" "d \<le> l"
    "modify_position epoch now (- int d) pool (ticks lo) (ticks hi) = Inr (pool', lower, upper, change)"
  shows "book_ok
     \<lparr>bk_pool = pool', bk_ticks = ticks(lo := lower, hi := upper), bk_positions = ps[i := (lo, hi, l - d)]\<rparr>"
proof -
  note m = modify_position_moved [OF assms(5)]
  have ok: "list_all ordered_position ps" "ticks_named ticks ps" "ticks_sum ticks ps"
    "ps_liquidity pool = active_at (ps_tick_current pool) ps"
    using assms(1) by (simp_all add: book_ok_def)
  have mem: "(lo, hi, l) \<in> set ps" using assms(2,3) by (metis nth_mem)
  then have lt: "lo < hi" "lo \<noteq> hi" using ok(1) by (auto simp: list_all_iff ordered_position_def)
  have named: "t_tick (ticks lo) = lo" "t_tick (ticks hi) = hi"
    using ok(2) mem by (auto simp: ticks_named_def)
  then have n: "t_tick lower = lo" "t_tick upper = hi" using m(1,2) by (simp_all add: tick_moved_def)
  have sub: "p \<in> set ps \<or> p = (lo, hi, l - d)" if "p \<in> set (ps[i := (lo, hi, l - d)])" for p
    using that set_update_subset_insert [of ps i] by auto
  have ord: "list_all ordered_position (ps[i := (lo, hi, l - d)])"
    using ok(1) lt sub unfolding list_all_iff ordered_position_def by (metis fst_conv snd_conv)
  note sh = shares_update [OF assms(2), of _ "(lo, hi, l - d)", unfolded assms(3)]
  have dl: "int (l - d) = int l - int d" using assms(4) by simp
  have sum: "ticks_sum (ticks(lo := lower, hi := upper)) (ps[i := (lo, hi, l - d)])"
    by (rule ticks_sum_change [OF ok(3) ord, where f = id and g = id, unfolded id_apply, OF lt(2) m(1,2)])
      (simp_all add: sh dl)
  have names: "ticks_named (ticks(lo := lower, hi := upper)) (ps[i := (lo, hi, l - d)])"
    by (rule named_change [OF ok(2) n lt(2)]) (use sub in blast)
  have "int (ps_liquidity pool') = int (active_at (ps_tick_current pool) (ps[i := (lo, hi, l - d)]))"
    using m(4) named ok(4) dl unfolding sh(3) by simp
  then show ?thesis using ord names sum m(3) by (simp add: book_ok_def)
qed

lemma liquidity_step_ok: "liquidity_step b b' \<Longrightarrow> book_ok b \<Longrightarrow> book_ok b'"
proof (induction rule: liquidity_step.induct)
  case (deposit lo hi epoch now l pool ticks pool' lower upper change ps)
  then show ?case by (blast intro: book_deposit)
next
  case (withdraw i ps lo hi l d epoch now pool ticks pool' lower upper change)
  then show ?case by (blast intro: book_withdraw)
next
  case (move_down c pool ticks ps price)
  then show ?case using active_same [of ps ticks c "ps_tick_current pool"]
    by (simp add: book_ok_def moved_def)
next
  case (move_up pool c ticks ps price)
  then show ?case using active_same [of ps ticks "ps_tick_current pool" c]
    by (simp add: book_ok_def moved_def)
next
  case (cross_down t pool ticks s on0 rewards tick l ps price)
  note m = cross_liquidity_moved [OF cross_down(4)]
  have ok: "list_all ordered_position ps" "ticks_named ticks ps" "ticks_sum ticks ps"
    "ps_liquidity pool = active_at (ps_tick_current pool) ps"
    using cross_down(5) by (simp_all add: book_ok_def)
  have "int l = int (active_at (t - 1) ps)"
    using m(2) ok active_same [OF ok(1,3) cross_down(2,1)] active_step [OF ok(1), of t] cross_down(3)
    by (simp add: ticks_sum_def)
  then show ?case using ok ticks_kept [of ticks t tick ps, OF m(1) ok(1)] by (simp add: book_ok_def moved_def)
next
  case (cross_up pool t ticks s on0 rewards tick l ps price)
  note m = cross_liquidity_moved [OF cross_up(4)]
  have ok: "list_all ordered_position ps" "ticks_named ticks ps" "ticks_sum ticks ps"
    "ps_liquidity pool = active_at (ps_tick_current pool) ps"
    using cross_up(5) by (simp_all add: book_ok_def)
  have "int l = int (active_at t ps)"
    using m(2) ok active_same [OF ok(1,3) cross_up(2)] active_step [OF ok(1), of t] cross_up(1,3)
    by (simp add: ticks_sum_def)
  then show ?case using ok ticks_kept [of ticks t tick ps, OF m(1) ok(1)] by (simp add: book_ok_def moved_def)
qed

section \<open>Reachable books\<close>

text \<open>
  C19. In every book that deposits, withdrawals, price moves and tick crossings can reach, the liquidity of the
  pool is exactly the sum of the positions whose range contains the current tick, and every tick's gross and net
  liquidity are the sums over the positions that end there.
\<close>

theorem active_liquidity_exact:
  assumes "liquidity_reachable b"
  shows "ps_liquidity (bk_pool b) = active_at (ps_tick_current (bk_pool b)) (bk_positions b) \<and>
    t_liquidity_gross (bk_ticks b t) = gross_at t (bk_positions b) \<and>
    t_liquidity_net (bk_ticks b t) = net_at t (bk_positions b)"
proof -
  have "book_ok b" using assms
  proof (induction rule: liquidity_reachable.induct)
    case (empty_book pool)
    then show ?case by (simp add: book_ok_def ticks_named_def ticks_sum_def default_tick_state_def)
  next
    case (step_book b b')
    then show ?case by (blast intro: liquidity_step_ok)
  qed
  then show ?thesis by (simp add: book_ok_def ticks_sum_def)
qed

lemma example_deposit:
  "\<exists>pool' lower upper change. modify_position 0 1000 20001499987 example_pool
     (name_tick (-1) default_tick_state) (name_tick 1 default_tick_state) = Inr (pool', lower, upper, change)"
proof -
  have rw: "\<exists>rs. update_reward_infos 0 1000 example_pool
      = Inr (example_pool\<lparr>ps_reward_infos := rs, ps_recent_epoch := 0\<rparr>, rs)"
    by (simp add: update_reward_infos_def example_pool_def pool_initialize_def new_reward_info_def REWARD_NUM_def
        update_reward_info_def reward_initialized_def numeral_3_eq_3)
  have pool: "ps_tick_current example_pool = 0" "ps_sqrt_price_x64 example_pool = 2 ^ 64" "ps_liquidity example_pool = 0"
    by (simp_all add: example_pool_def pool_initialize_def)
  have tick: "\<exists>t'. tick_update 0 20001499987 g0 g1 upper rs (name_tick i default_tick_state) = Inr (t', True) \<and>
      t_tick t' = i" for g0 g1 upper rs i
    by (simp add: name_tick_def default_tick_state_def tick_update_def add_delta_def limit_order_unfilled_amount_def
        checked_i_def fits_i_def u_defs Let_def)
  obtain rs where rs: "update_reward_infos 0 1000 example_pool
      = Inr (example_pool\<lparr>ps_reward_infos := rs, ps_recent_epoch := 0\<rparr>, rs)" using rw by blast
  obtain lo where lo: "tick_update 0 20001499987 (ps_fee_growth_global_0_x64 example_pool)
      (ps_fee_growth_global_1_x64 example_pool) False rs (name_tick (-1) default_tick_state) = Inr (lo, True)"
    "t_tick lo = -1" using tick by blast
  obtain hi where hi: "tick_update 0 20001499987 (ps_fee_growth_global_0_x64 example_pool)
      (ps_fee_growth_global_1_x64 example_pool) True rs (name_tick 1 default_tick_state) = Inr (hi, True)"
    "t_tick hi = 1" using tick by blast
  have "add_delta 0 20001499987 = Inr 20001499987" by (simp add: add_delta_Inr)
  then show ?thesis
    by (simp add: modify_position_def rs modify_ticks_def pool lo hi range_amounts_def example_amounts(1) [simplified]
        split: prod.splits)
qed

theorem active_liquidity_exact_witness:
  "\<exists>b. liquidity_reachable b \<and> bk_positions b = [(-1, 1, 20001499987)] \<and>
     ps_liquidity (bk_pool b) = active_at (ps_tick_current (bk_pool b)) (bk_positions b)"
proof -
  obtain pool' lower upper change where m: "modify_position 0 1000 (int 20001499987) example_pool
     (name_tick (-1) default_tick_state) (name_tick 1 default_tick_state) = Inr (pool', lower, upper, change)"
    using example_deposit by auto
  have "ps_liquidity example_pool = 0" by (simp add: example_pool_def pool_initialize_def)
  then have "liquidity_reachable \<lparr>bk_pool = example_pool, bk_ticks = (\<lambda>t. default_tick_state), bk_positions = []\<rparr>"
    by (rule empty_book)
  from step_book [OF this deposit [OF _ m]]
  have r: "liquidity_reachable \<lparr>bk_pool = pool', bk_ticks = (\<lambda>t. default_tick_state)(-1 := lower, 1 := upper),
    bk_positions = [] @ [(-1, 1, 20001499987)]\<rparr>" by simp
  show ?thesis using r active_liquidity_exact [OF r] by auto
qed

end
