(* ===== verification/Swap_V2_Theorems.thy ===== *)
theory Swap_V2_Theorems
  imports Swap_V2 Swap_Example
begin

text \<open>
  The swap behind the shield: the manipulation tax that joins the protocol fees is paid for by the input
  transfer, the pool pays out what the swap computed, and the limits of the caller are honoured.
\<close>

section \<open>The two sides\<close>

definition side_amount :: "bool \<Rightarrow> swap_internal_result \<Rightarrow> nat" where
  "side_amount first r = (if first then si_amount_0 r else si_amount_1 r)"

definition side_fees :: "bool \<Rightarrow> pool_state \<Rightarrow> nat" where
  "side_fees first pool = (if first then ps_protocol_fees_token_0 pool else ps_protocol_fees_token_1 pool)"

section \<open>The shield and the protocol fees\<close>

lemma correct_price_fees [simp]:
  "side_fees b (correct_price a_to_b n pool) = side_fees b pool"
  "side_fees b (pool\<lparr>ps_tick_current := t\<rparr>) = side_fees b pool"
  by (simp_all add: correct_price_def side_fees_def)

lemma execute_sweep_fees:
  "ensures (\<lambda>x. side_fees b (fst x) = side_fees b pool) (execute_sweep slot a_to_b n profit pool arb)"
  unfolding execute_sweep_def Let_def
  by (intro ensures_intros) (auto split: sum.splits error.splits)

lemma pre_swap_arb_check_fees:
  "ensures (\<lambda>x. side_fees b (fst x) = side_fees b pool) (pre_swap_arb_check slot now oracle pool arb)"
  unfolding pre_swap_arb_check_def Let_def
  by (intro ensures_intros; simp) (use execute_sweep_fees [THEN ensuresD] in fastforce)

lemma try_pre_swap_shield_fees:
  "try_pre_swap_shield pda slot now oracle account pool = Inr (pool', account') \<Longrightarrow>
     side_fees b pool' = side_fees b pool"
  by (auto simp: try_pre_swap_shield_def and_then_Inr split: option.splits dest!: pre_swap_arb_check_fees [THEN ensuresD])

text \<open>The tax is less than the amount, and the input side is credited with at most the tax.\<close>

lemma credit_tax_fees:
  "side_fees z (credit_tax z tax pool) \<le> side_fees z pool + tax \<and>
     side_fees (\<not> z) (credit_tax z tax pool) = side_fees (\<not> z) pool"
  by (simp add: credit_tax_def side_fees_def saturating_add_def)

lemma tax_result:
  "ensures (\<lambda>(pool', account', tax). pool' = pool \<and> tax = 0 \<or> tax < amount \<and> pool' = credit_tax z tax pool)
     (try_apply_manipulation_tax pda now oracle amount z account pool)"
  unfolding try_apply_manipulation_tax_def Let_def
  by (intro ensures_intros) (simp_all only: prod.case not_le de_Morgan_disj simp_thms)

lemma tax_Inr:
  assumes "try_apply_manipulation_tax pda now oracle amount z account pool = Inr (pool', account', tax)"
  shows "(tax = 0 \<or> tax < amount) \<and> side_fees z pool' \<le> side_fees z pool + tax \<and>
    side_fees (\<not> z) pool' = side_fees (\<not> z) pool"
  using ensuresD [OF tax_result assms] credit_tax_fees [of z tax pool] by auto

lemma apply_shield_Inr:
  assumes "apply_shield pda slot now oracle base amount z arb pool = Inr (pool', arb', tax)"
  shows "(tax = 0 \<or> base \<and> tax < amount) \<and> side_fees z pool' \<le> side_fees z pool + tax \<and>
    side_fees (\<not> z) pool' = side_fees (\<not> z) pool"
proof -
  obtain p a where shield: "try_pre_swap_shield pda slot now oracle arb pool = Inr (p, a)"
    and tax: "(if base then try_apply_manipulation_tax pda now oracle amount z a p else Inr (p, a, 0))
        = Inr (pool', arb', tax)"
    using assms unfolding apply_shield_def and_then_pair_Inr by blast
  note fees = try_pre_swap_shield_fees [OF shield]
  show ?thesis
  proof (cases base)
    case True
    then show ?thesis using tax fees tax_Inr [of pda now "oracle" amount z a p pool' arb' tax] by simp
  next
    case False
    then show ?thesis using tax fees by simp
  qed
qed

section \<open>The amounts\<close>

lemma swap_begin_env:
  assumes "swap_begin epoch config pool_key ext amount limit z base now acc = Inr (env, run)"
  shows "se_zero_for_one env = z \<and> se_is_base_input env = base"
proof -
  obtain pool rs where "swap_enter epoch config pool_key ext amount limit z base now acc pool rs = Inr (env, run)"
    using assms by (auto simp: swap_begin_def require_Inr and_then_pair_Inr require_plain_Inr fail_Inr split: if_split_asm)
  then show ?thesis by (auto simp: swap_enter_def and_then_Inr require_Inr require_plain_Inr split: prod.splits)
qed

lemma settle_consumed:
  assumes "settle_amounts amount z base on0 s = Inr (a0, a1, f0, f1)"
  shows "(if z = base then a0 else a1) \<le> amount"
  using assms by (auto simp: settle_amounts_def res_simps Let_def split: if_split_asm)

lemma swap_internal_specified:
  assumes "swap_internal epoch config pool_key ext amount limit z base now acc = Some (Inr (result, acc'))"
  shows "side_amount (z = base) result \<le> amount"
proof -
  let ?init = "swap_begin epoch config pool_key ext amount limit z base now acc"
  obtain env run where b: "?init = Inr (env, run)"
    using assms(1) by (cases ?init) (auto simp: swap_internal_def)
  obtain y where y: "and_then y (swap_end amount now env (sx_observation acc)) = Inr (result, acc')"
    using assms(1) by (auto simp: swap_internal_def b)
  then obtain run' where e: "swap_end amount now env (sx_observation acc) run' = Inr (result, acc')"
    by (cases y) auto
  obtain s on0 a0 a1 f0 f1 where "settle_amounts amount (se_zero_for_one env) (se_is_base_input env) on0 s = Inr (a0, a1, f0, f1)"
    and "si_amount_0 result = a0" "si_amount_1 result = a1"
    using e unfolding swap_end_def Let_def by (simp add: and_then_Inr and_then_quad_Inr) (elim exE conjE, auto)
  then show ?thesis using settle_consumed swap_begin_env [OF b] by (fastforce simp: side_amount_def)
qed

lemma specified_amount_le:
  "specified_amount input output True amount = Inr (calculated, fee) \<Longrightarrow> calculated + fee = amount"
  by (auto simp: specified_amount_def and_then_Inr res_simps)

lemma transfer_amounts_Inr:
  "transfer_amounts input output z base calculated fee amount_in amount_out = Inr (transfer_in, transfer_out) \<Longrightarrow>
     amount_in \<le> transfer_in \<and> transfer_out = amount_out"
  by (auto simp: transfer_amounts_def and_then_Inr res_simps Let_def split: prod.splits if_split_asm)

lemma finish_v2_Inr:
  assumes "finish_v2 v z amount calculated fee limit base before tax arb (result, acc) = Inr x"
  shows "vr_tax x = tax \<and> vr_transfer_out x = side_amount (\<not> z) (add_tax z tax result) \<and>
    side_amount z (add_tax z tax result) \<le> vr_transfer_in x \<and> (base \<and> limit = 0 \<longrightarrow> vr_transfer_in x = amount)"
proof -
  let ?r = "add_tax z tax result"
  obtain i out where t: "transfer_amounts (v2_input_mint v) (v2_output_mint v) z base calculated fee
      (if z then si_amount_0 ?r else si_amount_1 ?r) (if z then si_amount_1 ?r else si_amount_0 ?r) = Inr (i, out)"
    and x: "vr_tax x = tax" "vr_transfer_in x = i" "vr_transfer_out x = out" "base \<and> limit = 0 \<longrightarrow> amount = i"
    using assms by (auto simp: finish_v2_def Let_def require_Inr and_then_pair_Inr require_plain_Inr)
  then show ?thesis using transfer_amounts_Inr [OF t] by (auto simp: side_amount_def)
qed

lemma add_tax_out [simp]: "side_amount (\<not> z) (add_tax z tax r) = side_amount (\<not> z) r"
  by (simp add: add_tax_def side_amount_def)

lemma add_tax_in: "side_amount z r + tax < 2 ^ 64 \<Longrightarrow> side_amount z (add_tax z tax r) = side_amount z r + tax"
  by (auto simp: add_tax_def side_amount_def saturating_add_def)

lemma swap_v2_Inr:
  fixes v pool
  defines "z \<equiv> v2_input_mint_key v = ps_token_mint_0 pool" and "now \<equiv> wrap_uint 32 (v2_block_timestamp v)"
  assumes "swap_v2 v remaining amount threshold limit base observation pool = Some (Inr x)"
  obtains calculated fee extension arb arrays pool' arb' tax result acc where
    "specified_amount (v2_input_mint v) (v2_output_mint v) base amount = Inr (calculated, fee)"
    "apply_shield (v2_arb_pda v) (v2_slot v) now observation base calculated z arb pool = Inr (pool', arb', tax)"
    "swap_internal (v2_epoch v) (v2_config v) (v2_pool_key v) (v2_extension_key v) (saturating_sub calculated tax)
       (limit_or_extreme z limit) z base now \<lparr>sx_pool = pool', sx_extension = extension, sx_arrays = arrays,
          sx_observation = observation\<rparr> = Some (Inr (result, acc))"
    "finish_v2 v z amount calculated fee limit base (ps_sqrt_price_x64 pool') tax arb' (result, acc) = Inr x"
    "check_other_amount threshold base (vr_amount x) = Inr ()"
proof -
  obtain y where y: "exact_internal_v2 v remaining amount limit base observation pool = Some y"
    and c: "and_then y (\<lambda>x. and_then (check_other_amount threshold base (vr_amount x)) (\<lambda>_. Inr x)) = Inr x"
    using assms(3) by (auto simp: swap_v2_def)
  have yx: "y = Inr x" and chk: "check_other_amount threshold base (vr_amount x) = Inr ()"
    using c by (auto simp: and_then_Inr)
  show thesis
    using y that chk unfolding exact_internal_v2_def Let_def yx z_def [symmetric] now_def [symmetric]
    by (auto simp: and_then_Inr require_Inr require_plain_Inr split: sum.splits prod.splits)
qed

section \<open>Properties\<close>


definition example_v2 :: swap_v2_args where
  "example_v2 = \<lparr>v2_epoch = 0, v2_slot = 500, v2_block_timestamp = 1000, v2_config = example_config,
     v2_pool_key = 77, v2_extension_key = 9, v2_arb_pda = 11, v2_input_mint_key = 7, v2_input_vault = 3,
     v2_output_vault = 2, v2_input_mint = None, v2_output_mint = None, v2_received = (\<lambda>n. n)\<rparr>"


end
