(* ===== verification/Limit_Order_Handlers.thy ===== *)
theory Limit_Order_Handlers
  imports Limit_Order Liquidity_Handlers
begin

text \<open>
  The instructions on limit orders, \<open>instructions/limit_order\<close>: opening, increasing, decreasing, settling and
  closing an order on the accounts of its pool. Token transfers are the amounts the handlers return. A tick array
  counts its initialized ticks and flags itself in the bitmap when the count leaves or reaches 0; the lemmas follow
  this count through the instructions.
\<close>

section \<open>Flags of tick arrays\<close>

definition order_extension ::
  "bool \<Rightarrow> (pubkey \<times> bitmap_extension res) list \<Rightarrow> extension_account res" where
  "order_extension needed remaining =
     (if needed then (case remaining of [] \<Rightarrow> fail AccountLack | account # _ \<Rightarrow> Inr (Some account)) else Inr None)"

definition flip_order_array ::
  "pubkey \<Rightarrow> (pubkey \<times> bitmap_extension res) list \<Rightarrow> int \<Rightarrow> liquidity_accounts \<Rightarrow> liquidity_accounts res" where
  "flip_order_array extension_key remaining start_index acc =
     and_then (is_overflow_default_tickarray_bitmap (la_pool acc) [start_index]) (\<lambda>needed.
     and_then (order_extension needed remaining) (\<lambda>extension.
     flip_flag extension_key start_index (acc\<lparr>la_extension := extension\<rparr>)))"

section \<open>Instructions\<close>

definition orders_open :: "pool_state \<Rightarrow> bool" where
  "orders_open pool \<longleftrightarrow> get_status_by_bit pool LimitOrder \<and> get_status_by_bit pool Swap"

text \<open>The order takes its place on the tick; a tick that was not initialized is counted, and the first one
  of an array raises the flag.\<close>

definition enter_order ::
  "pubkey \<Rightarrow> (pubkey \<times> bitmap_extension res) list \<Rightarrow> pubkey \<Rightarrow> pubkey \<Rightarrow> int \<Rightarrow> bool \<Rightarrow> nat \<Rightarrow> nat
     \<Rightarrow> liquidity_accounts \<Rightarrow> (liquidity_accounts \<times> limit_order) res" where
  "enter_order extension_key remaining key payer tick_index zero_for_one amount timestamp acc =
     (let before_init_tick_count = ta_initialized_tick_count (la_arrays acc key);
          spacing = ps_tick_spacing (la_pool acc)
      in and_then (get_tick_state (la_arrays acc key) tick_index spacing) (\<lambda>tick.
         and_then (place_order (la_pool_key acc) payer tick_index zero_for_one amount timestamp tick)
           (\<lambda>(placed, order).
         and_then (update_array key (set_tick_state tick_index spacing placed) acc) (\<lambda>acc.
         and_then
           (if \<not> is_initialized tick then
              and_then (update_array key (update_initialized_tick_count True) acc) (\<lambda>acc.
              if before_init_tick_count = 0
              then flip_order_array extension_key remaining (ta_start_tick_index (la_arrays acc key)) acc
              else Inr acc)
            else Inr acc) (\<lambda>acc.
         Inr (acc, order))))))"

definition use_nonce :: "pubkey \<Rightarrow> nat \<Rightarrow> limit_order_nonce \<Rightarrow> limit_order_nonce" where
  "use_nonce payer nonce_index n =
     increase_order_nonce
       (if ln_user_wallet n = 0 then n\<lparr>ln_user_wallet := payer, ln_nonce_index := nonce_index\<rparr> else n)"

definition open_limit_order ::
  "(int \<Rightarrow> pubkey) \<Rightarrow> (pubkey \<Rightarrow> bool) \<Rightarrow> nat \<Rightarrow> nat \<Rightarrow> pubkey \<Rightarrow> (pubkey \<times> bitmap_extension res) list \<Rightarrow> mint
     \<Rightarrow> pubkey \<Rightarrow> pubkey \<Rightarrow> nat \<Rightarrow> bool \<Rightarrow> int \<Rightarrow> nat \<Rightarrow> limit_order_nonce \<Rightarrow> liquidity_accounts
     \<Rightarrow> (liquidity_accounts \<times> limit_order \<times> limit_order_nonce \<times> nat) res" where
  "open_limit_order array_address fresh epoch timestamp extension_key remaining input_mint key payer nonce_index
     zero_for_one tick_index amount nonce acc =
   (if \<not> orders_open (la_pool acc) then fail NotApproved
    else
      let spacing = ps_tick_spacing (la_pool acc) in
      and_then (check_tick_index tick_index zero_for_one (ps_tick_current (la_pool acc)) spacing) (\<lambda>_.
      and_then (get_transfer_fee input_mint amount) (\<lambda>transfer_fee.
      and_then (ok_or (checked_sub amount transfer_fee) CalculateOverflow) (\<lambda>amount_without_transfer_fee.
      and_then (check_limit_order_amount amount_without_transfer_fee tick_index zero_for_one) (\<lambda>_.
      and_then (get_array_start_index tick_index spacing) (\<lambda>start_index.
      require_plain (array_address start_index = key)
      (and_then (get_or_create_tick_array array_address fresh epoch key start_index acc) (\<lambda>acc.
       and_then (enter_order extension_key remaining key payer tick_index zero_for_one
         amount_without_transfer_fee timestamp acc) (\<lambda>(acc, order).
       Inr (acc, order, use_nonce payer nonce_index nonce, amount))))))))))"

text \<open>\<open>order_check\<close> are the constraints of the accounts: the tick array and the order belong to the pool, and
  the order to its owner.\<close>

definition order_check :: "pubkey \<Rightarrow> pubkey \<Rightarrow> limit_order \<Rightarrow> liquidity_accounts \<Rightarrow> 'a res \<Rightarrow> 'a res" where
  "order_check key owner order acc k =
     require_plain (ta_pool_id (la_arrays acc key) = la_pool_key acc)
     (require_plain (lo_pool_id order = la_pool_key acc \<and> lo_owner order = owner) k)"

definition increase_limit_order ::
  "mint \<Rightarrow> pubkey \<Rightarrow> pubkey \<Rightarrow> nat \<Rightarrow> limit_order \<Rightarrow> liquidity_accounts
     \<Rightarrow> (liquidity_accounts \<times> limit_order \<times> nat) res" where
  "increase_limit_order input_mint key owner amount order acc =
   order_check key owner order acc
   (require (amount > 0) ZeroAmountSpecified
   (if \<not> orders_open (la_pool acc) then fail NotApproved
    else
      let spacing = ps_tick_spacing (la_pool acc); tick_index = lo_tick_index order in
      and_then (get_tick_state (la_arrays acc key) tick_index spacing) (\<lambda>tick.
      and_then (get_transfer_fee input_mint amount) (\<lambda>transfer_fee.
      and_then (ok_or (checked_sub amount transfer_fee) CalculateOverflow) (\<lambda>amount_without_transfer_fee.
      and_then (increase_amount amount_without_transfer_fee tick order) (\<lambda>(tick, order).
      and_then (update_array key (set_tick_state tick_index spacing tick) acc) (\<lambda>acc.
      and_then (check_limit_order_amount (lo_total_amount order) tick_index (lo_zero_for_one order)) (\<lambda>_.
      Inr (acc, order, amount)))))))))"

text \<open>A tick that is no longer initialized leaves the count, and the last one of an array lowers the flag.\<close>

definition leave_tick ::
  "pubkey \<Rightarrow> (pubkey \<times> bitmap_extension res) list \<Rightarrow> pubkey \<Rightarrow> int \<Rightarrow> liquidity_accounts \<Rightarrow> liquidity_accounts res"
  where
  "leave_tick extension_key remaining key tick_index acc =
     and_then (update_array key (update_initialized_tick_count False) acc) (\<lambda>acc.
     if ta_initialized_tick_count (la_arrays acc key) = 0
     then and_then (get_array_start_index tick_index (ps_tick_spacing (la_pool acc))) (\<lambda>start_index.
       flip_order_array extension_key remaining start_index acc)
     else Inr acc)"

text \<open>The two amounts are those paid to the owner, of the output and of the input.\<close>

definition decrease_limit_order ::
  "pubkey \<Rightarrow> (pubkey \<times> bitmap_extension res) list \<Rightarrow> mint \<Rightarrow> pubkey \<Rightarrow> pubkey \<Rightarrow> nat \<Rightarrow> nat \<Rightarrow> limit_order
     \<Rightarrow> liquidity_accounts \<Rightarrow> (liquidity_accounts \<times> limit_order \<times> nat \<times> nat) res" where
  "decrease_limit_order extension_key remaining input_mint key owner amount amount_min order acc =
   order_check key owner order acc
   (require (amount > 0) ZeroAmountSpecified
   (let spacing = ps_tick_spacing (la_pool acc); tick_index = lo_tick_index order in
    and_then (get_tick_state (la_arrays acc key) tick_index spacing) (\<lambda>tick.
    and_then (decrease_amount amount tick order) (\<lambda>(decreased, order, result).
    and_then (update_array key (set_tick_state tick_index spacing decreased) acc) (\<lambda>acc.
    and_then
      (if is_initialized tick \<and> \<not> is_initialized decreased
       then leave_tick extension_key remaining key tick_index acc else Inr acc) (\<lambda>acc.
    and_then
      (if da_real_decrease_amount result > 0 then
         and_then (get_transfer_fee input_mint (da_real_decrease_amount result)) (\<lambda>transfer_fee.
         and_then (ok_or (checked_sub (da_real_decrease_amount result) transfer_fee) CalculateOverflow) (\<lambda>net.
         require (net \<ge> amount_min) PriceSlippageCheck (Inr ())))
       else Inr ()) (\<lambda>_.
    Inr (acc, order, da_settled_output_amount result, da_real_decrease_amount result))))))))"

definition settle_limit_order ::
  "pubkey \<Rightarrow> pubkey \<Rightarrow> pubkey \<Rightarrow> limit_order \<Rightarrow> liquidity_accounts \<Rightarrow> (limit_order \<times> nat) res" where
  "settle_limit_order limit_order_admin key signer order acc =
     require_plain (signer = lo_owner order \<or> signer = limit_order_admin)
     (require_plain (ta_pool_id (la_arrays acc key) = la_pool_key acc)
     (require_plain (lo_pool_id order = la_pool_key acc)
     (and_then (get_tick_state (la_arrays acc key) (lo_tick_index order) (ps_tick_spacing (la_pool acc))) (\<lambda>tick.
      and_then (settle_filled_order tick order) (\<lambda>(order, amount_out).
      and_then (get_unfilled_amount order) (\<lambda>unfilled_amount.
      require_plain (unfilled_amount \<noteq> 0 \<longrightarrow> amount_out > 0) (Inr (order, amount_out))))))))"

definition close_limit_order :: "pubkey \<Rightarrow> pubkey \<Rightarrow> limit_order \<Rightarrow> unit res" where
  "close_limit_order limit_order_admin signer order =
     require_plain (signer = lo_owner order \<or> signer = limit_order_admin)
     (and_then (get_unfilled_amount order) (\<lambda>unfilled_amount.
      if unfilled_amount \<noteq> 0 then fail InvalidLimitOrderAmount else Inr ()))"

end
