(* ===== verification/Limit_Order_Life.thy ===== *)
theory Limit_Order_Life
  imports Limit_Order_Handlers Pool_Bitmap "HOL-Library.Code_Target_Nat"
begin

text \<open>
  The life of a limit order on the accounts: an order opened and cancelled before any fill gives back what was
  put in and leaves the accounts as they were; an order that was cancelled to nothing and is then increased puts
  its tick back to use without counting it.
\<close>

section \<open>Writing a tick of an array\<close>

definition initialized_ticks :: "tick_array_state \<Rightarrow> nat" where
  "initialized_ticks ta = length (filter is_initialized (ta_ticks ta))"

definition count_exact :: "tick_array_state \<Rightarrow> bool" where
  "count_exact ta \<longleftrightarrow> ta_initialized_tick_count ta = initialized_ticks ta"

lemma filter_update_length:
  "i < length xs \<Longrightarrow> length (filter P (xs[i := x])) + of_bool (P (xs ! i)) = length (filter P xs) + of_bool (P x)"
proof (induction xs arbitrary: i)
  case (Cons a xs)
  show ?case
  proof (cases i)
    case (Suc j)
    then show ?thesis using Cons.IH [of j] Cons.prems by simp
  qed simp
qed simp

lemma get_tick_state_Inr:
  "get_tick_state ta i sp = Inr t \<longleftrightarrow>
     (\<exists>n. get_tick_offset_in_array ta i sp = Inr n \<and> n < length (ta_ticks ta) \<and> t = ta_ticks ta ! n)"
  by (auto simp: get_tick_state_def and_then_Inr)

lemma offset_cong [simp]:
  "get_tick_offset_in_array (ta\<lparr>ta_ticks := xs\<rparr>) i sp = get_tick_offset_in_array ta i sp"
  "get_tick_offset_in_array (ta\<lparr>ta_initialized_tick_count := n\<rparr>) i sp = get_tick_offset_in_array ta i sp"
  by (simp_all add: get_tick_offset_in_array_def)

text \<open>\<open>tick_written i sp t ta ta'\<close>: the array \<open>ta'\<close> is \<open>ta\<close> with the tick \<open>i\<close> replaced by \<open>t\<close>.\<close>

definition tick_written :: "int \<Rightarrow> nat \<Rightarrow> tick_state \<Rightarrow> tick_array_state \<Rightarrow> tick_array_state \<Rightarrow> bool" where
  "tick_written i sp t ta ta' \<longleftrightarrow> (\<exists>n. get_tick_offset_in_array ta i sp = Inr n \<and> n < length (ta_ticks ta) \<and>
     ta' = ta\<lparr>ta_ticks := (ta_ticks ta)[n := t]\<rparr>)"

lemma set_tick_state_Inr: "set_tick_state i sp t ta = Inr ta' \<longleftrightarrow> tick_written i sp t ta ta'"
  by (auto simp: set_tick_state_def tick_written_def and_then_Inr)

lemma set_tick_state_exists: "get_tick_state ta i sp = Inr t \<Longrightarrow> \<exists>ta'. tick_written i sp t' ta ta'"
  by (auto simp: get_tick_state_Inr tick_written_def)

lemma tick_written_get: "tick_written i sp t ta ta' \<Longrightarrow> get_tick_state ta' i sp = Inr t"
  by (auto simp: tick_written_def get_tick_state_Inr)

lemma tick_written_fields:
  "tick_written i sp t ta ta' \<Longrightarrow> ta_initialized_tick_count ta' = ta_initialized_tick_count ta \<and>
     ta_pool_id ta' = ta_pool_id ta \<and> ta_start_tick_index ta' = ta_start_tick_index ta"
  by (auto simp: tick_written_def)

lemma tick_written_count:
  "tick_written i sp t' ta ta' \<Longrightarrow> get_tick_state ta i sp = Inr t \<Longrightarrow>
     initialized_ticks ta' + of_bool (is_initialized t) = initialized_ticks ta + of_bool (is_initialized t')"
  using filter_update_length [of _ "ta_ticks ta" is_initialized t']
  by (fastforce simp: tick_written_def get_tick_state_Inr initialized_ticks_def)

lemma tick_written_twice:
  "tick_written i sp t1 ta ta1 \<Longrightarrow> tick_written i sp t2 (ta1\<lparr>ta_initialized_tick_count := c\<rparr>) ta2 \<Longrightarrow>
     tick_written i sp t2 ta (ta2\<lparr>ta_initialized_tick_count := ta_initialized_tick_count ta\<rparr>)"
  by (auto simp: tick_written_def)

lemma update_array_Inr:
  "update_array key f acc = Inr acc' \<longleftrightarrow>
     (\<exists>ta. f (la_arrays acc key) = Inr ta \<and> acc' = acc\<lparr>la_arrays := (la_arrays acc)(key := ta)\<rparr>)"
  by (auto simp: update_array_def and_then_Inr)

section \<open>Opening and cancelling\<close>

lemma place_order_Inr:
  assumes "place_order pool_id payer i z amount now tick = Inr (placed, order)"
  shows "placed = tick\<lparr>t_tick := i, t_orders_amount := t_orders_amount tick + amount\<rparr>"
    "order = order_initialize pool_id payer i z amount (t_order_phase tick) now" "t_order_phase tick < U64_MAX"
    "t_orders_amount tick + amount < 2 ^ 64"
  using assms by (auto simp: place_order_def Let_def res_simps)

text \<open>Cancelling an order that nobody has filled.\<close>

lemma cancel_placed:
  assumes "place_order pool_id payer i z amount now tick = Inr (placed, order)" "0 < amount"
  shows "\<exists>order'. decrease_amount amount placed order
      = Inr (tick\<lparr>t_tick := i\<rparr>, order', \<lparr>da_settled_output_amount = 0, da_real_decrease_amount = amount\<rparr>) \<and>
    lo_total_amount order' = 0 \<and> lo_filled_amount order' = 0 \<and> lo_owner order' = payer \<and>
    lo_order_phase order' = t_order_phase tick"
proof -
  note p = place_order_Inr [OF assms(1)]
  have phase: "saturating_add 64 (t_order_phase tick) 1 \<noteq> t_order_phase tick"
    using p(3) by (simp add: saturating_add_def)
  show ?thesis
    using assms(2) phase
    by (simp add: decrease_amount_def settle_filled_order_def get_unfilled_amount_def p(1,2) order_initialize_def
        u_defs Let_def)
qed

lemma initialized_orders: "0 < t_orders_amount t \<Longrightarrow> is_initialized t"
  by (simp add: is_initialized_def has_limit_orders_def)

lemma initialized_cong:
  "is_initialized (t\<lparr>t_tick := i\<rparr>) = is_initialized t"
  by (simp add: is_initialized_def has_limit_orders_def has_liquidity_def)

lemma same_count: "ta_initialized_tick_count ta = c \<Longrightarrow> ta\<lparr>ta_initialized_tick_count := c\<rparr> = ta"
  by simp

text \<open>What \<open>enter_order\<close> leaves when the array is in use.\<close>

lemma enter_order_Inr:
  assumes "enter_order ext remaining key payer i z amount now acc = Inr (acc1, order)"
    and "0 < ta_initialized_tick_count (la_arrays acc key)"
  obtains tick placed ta1 c where
    "get_tick_state (la_arrays acc key) i (ps_tick_spacing (la_pool acc)) = Inr tick"
    "place_order (la_pool_key acc) payer i z amount now tick = Inr (placed, order)"
    "tick_written i (ps_tick_spacing (la_pool acc)) placed (la_arrays acc key) ta1"
    "acc1 = acc\<lparr>la_arrays := (la_arrays acc)(key := ta1\<lparr>ta_initialized_tick_count := c\<rparr>)\<rparr>"
    "c = ta_initialized_tick_count (la_arrays acc key) + of_bool (\<not> is_initialized tick)"
proof -
  let ?sp = "ps_tick_spacing (la_pool acc)"
  obtain tick placed acc2 where t: "get_tick_state (la_arrays acc key) i ?sp = Inr tick"
    and p: "place_order (la_pool_key acc) payer i z amount now tick = Inr (placed, order)"
    and u: "update_array key (set_tick_state i ?sp placed) acc = Inr acc2"
    and c: "(if \<not> is_initialized tick then update_array key (update_initialized_tick_count True) acc2 else Inr acc2)
       = Inr acc1"
    using assms by (auto simp: enter_order_def Let_def and_then_Inr and_then_pair_Inr split: if_split_asm)
  obtain ta1 where w: "tick_written i ?sp placed (la_arrays acc key) ta1"
    and a2: "acc2 = acc\<lparr>la_arrays := (la_arrays acc)(key := ta1)\<rparr>"
    using u by (auto simp: update_array_Inr set_tick_state_Inr)
  note f = tick_written_fields [OF w]
  show thesis
  proof (cases "is_initialized tick")
    case True
    have "ta1\<lparr>ta_initialized_tick_count := ta_initialized_tick_count (la_arrays acc key)\<rparr> = ta1"
      by (rule same_count) (use f in simp)
    then show ?thesis using that [OF t p w, of "ta_initialized_tick_count (la_arrays acc key)"] c a2 True by simp
  next
    case False
    then have "acc1 = acc2\<lparr>la_arrays := (la_arrays acc2)
        (key := ta1\<lparr>ta_initialized_tick_count := ta_initialized_tick_count ta1 + 1\<rparr>)\<rparr>"
      using c a2
      by (auto simp: and_then_Inr update_array_Inr update_initialized_tick_count_def ok_or_Inr checked_simps)
    then show ?thesis using that [OF t p w] False a2 f by simp
  qed
qed

lemma cancel_entered:
  assumes "enter_order ext remaining key payer i z amount now acc = Inr (acc1, order)" "0 < amount"
    and "0 < ta_initialized_tick_count (la_arrays acc key)" "ta_pool_id (la_arrays acc key) = la_pool_key acc"
  shows "\<exists>order' tick ta.
    decrease_limit_order ext remaining' None key payer amount amount order acc1
      = Inr (acc\<lparr>la_arrays := (la_arrays acc)(key := ta)\<rparr>, order', 0, amount) \<and>
    get_tick_state (la_arrays acc key) i (ps_tick_spacing (la_pool acc)) = Inr tick \<and>
    tick_written i (ps_tick_spacing (la_pool acc)) (tick\<lparr>t_tick := i\<rparr>) (la_arrays acc key) ta \<and>
    close_limit_order admin payer order' = Inr ()"
proof -
  let ?sp = "ps_tick_spacing (la_pool acc)" and ?ta = "la_arrays acc key"
  obtain tick placed ta1 c where e: "get_tick_state ?ta i ?sp = Inr tick"
    "place_order (la_pool_key acc) payer i z amount now tick = Inr (placed, order)"
    "tick_written i ?sp placed ?ta ta1"
    "acc1 = acc\<lparr>la_arrays := (la_arrays acc)(key := ta1\<lparr>ta_initialized_tick_count := c\<rparr>)\<rparr>"
    "c = ta_initialized_tick_count ?ta + of_bool (\<not> is_initialized tick)"
    using enter_order_Inr [OF assms(1,3)] by metis
  let ?ta1 = "ta1\<lparr>ta_initialized_tick_count := c\<rparr>"
  obtain order' where d: "decrease_amount amount placed order
      = Inr (tick\<lparr>t_tick := i\<rparr>, order', \<lparr>da_settled_output_amount = 0, da_real_decrease_amount = amount\<rparr>)"
    and o: "lo_total_amount order' = 0" "lo_filled_amount order' = 0" "lo_owner order' = payer"
    using cancel_placed [OF e(2) assms(2)] by blast
  have "get_tick_state ta1 i ?sp = Inr placed" by (rule tick_written_get [OF e(3)])
  then have g: "get_tick_state ?ta1 i ?sp = Inr placed" by (simp add: get_tick_state_Inr)
  obtain ta2 where w: "tick_written i ?sp (tick\<lparr>t_tick := i\<rparr>) ?ta1 ta2"
    using set_tick_state_exists [OF g] by blast
  let ?ta2 = "ta2\<lparr>ta_initialized_tick_count := ta_initialized_tick_count ?ta\<rparr>"
  have w2: "tick_written i ?sp (tick\<lparr>t_tick := i\<rparr>) ?ta ?ta2" by (rule tick_written_twice [OF e(3) w])
  have c2: "ta_initialized_tick_count ta2 = c" using tick_written_fields [OF w] by simp
  have init: "is_initialized placed"
    using place_order_Inr(1) [OF e(2)] assms(2) by (intro initialized_orders) simp
  have leave: "(if is_initialized placed \<and> \<not> is_initialized (tick\<lparr>t_tick := i\<rparr>)
      then leave_tick ext remaining' key i (acc\<lparr>la_arrays := (la_arrays acc)(key := ta2)\<rparr>)
      else Inr (acc\<lparr>la_arrays := (la_arrays acc)(key := ta2)\<rparr>))
    = Inr (acc\<lparr>la_arrays := (la_arrays acc)(key := ?ta2)\<rparr>)"
  proof (cases "is_initialized tick")
    case True
    then show ?thesis using e(5) same_count [OF c2] by (simp add: initialized_cong)
  next
    case False
    then show ?thesis using assms(3) e(5) c2 init
      by (simp add: initialized_cong leave_tick_def update_array_def update_initialized_tick_count_def u_defs)
  qed
  have check: "order_check key payer order acc1 k = k" for k :: "'a res"
    using assms(4) e(4) tick_written_fields [OF e(3)] place_order_Inr(2) [OF e(2)]
    by (simp add: order_check_def order_initialize_def)
  have index: "lo_tick_index order = i" using place_order_Inr(2) [OF e(2)] by (simp add: order_initialize_def)
  have upd: "update_array key (set_tick_state i ?sp (tick\<lparr>t_tick := i\<rparr>)) acc1
      = Inr (acc\<lparr>la_arrays := (la_arrays acc)(key := ta2)\<rparr>)"
    using iffD2 [OF set_tick_state_Inr w] e(4) by (simp add: update_array_def)
  have get: "get_tick_state (la_arrays acc1 key) i ?sp = Inr placed"
    "ps_tick_spacing (la_pool acc1) = ?sp" using g e(4) by simp_all
  have "decrease_limit_order ext remaining' None key payer amount amount order acc1
      = Inr (acc\<lparr>la_arrays := (la_arrays acc)(key := ?ta2)\<rparr>, order', 0, amount)"
    using assms(2) d leave
    by (simp add: decrease_limit_order_def check Let_def index get upd get_transfer_fee_def u_defs)
  moreover have "close_limit_order admin payer order' = Inr ()"
    using o by (simp add: close_limit_order_def get_unfilled_amount_def u_defs)
  ultimately show ?thesis using e(1) w2 by blast
qed

section \<open>Increasing a cancelled order\<close>

lemma increase_limit_order_Inr:
  assumes "increase_limit_order None key owner amount order acc = Inr (acc', order', paid)"
  obtains tick ta where "ta_pool_id (la_arrays acc key) = la_pool_key acc" "lo_pool_id order = la_pool_key acc"
    "lo_owner order = owner" "0 < amount"
    "get_tick_state (la_arrays acc key) (lo_tick_index order) (ps_tick_spacing (la_pool acc)) = Inr tick"
    "lo_order_phase order = t_order_phase tick" "lo_settle_base order + amount < 2 ^ 64"
    "order' = order\<lparr>lo_total_amount := lo_total_amount order + amount,
       lo_settle_base := lo_settle_base order + amount\<rparr>"
    "tick_written (lo_tick_index order) (ps_tick_spacing (la_pool acc))
       (tick\<lparr>t_orders_amount := t_orders_amount tick + amount\<rparr>) (la_arrays acc key) ta"
    "acc' = acc\<lparr>la_arrays := (la_arrays acc)(key := ta)\<rparr>"
  using assms
  by (auto simp: increase_limit_order_def order_check_def require_Inr require_plain_Inr Let_def fail_Inr
      and_then_Inr and_then_pair_Inr get_transfer_fee_def increase_amount_def ok_or_Inr checked_simps
      update_array_Inr set_tick_state_Inr split: if_split_asm)

lemma leave_tick_empty:
  "ta_initialized_tick_count (la_arrays acc key) = 0 \<Longrightarrow>
     leave_tick extension_key remaining key i acc = fail CalculateOverflow"
  by (simp add: leave_tick_def update_array_def update_initialized_tick_count_def u_defs fail_def)

section \<open>Properties\<close>


text \<open>A pool at tick 0 with spacing 10 and an array that holds one tick in use, and an order above the price.\<close>

definition used_array :: tick_array_state where
  "used_array = default_tick_array_state\<lparr>ta_pool_id := 77, ta_initialized_tick_count := 1,
     ta_ticks := (replicate 60 default_tick_state)[10 := default_tick_state\<lparr>t_tick := 100, t_liquidity_gross := 5\<rparr>]\<rparr>"

definition order_accounts :: liquidity_accounts where
  "order_accounts = \<lparr>la_pool_key = 77, la_pool = example_pool, la_arrays = (\<lambda>_. used_array), la_extension = None\<rparr>"

lemma order_pool_simps: "ps_tick_current example_pool = 0" "ps_tick_spacing example_pool = 10" "orders_open example_pool"
  by (simp_all add: example_pool_def pool_initialize_def example_config_def orders_open_def get_status_by_bit_def)

lemma example_offset: "get_array_start_index 50 10 = Inr 0" "get_tick_offset_in_array used_array 50 10 = Inr 5"
  by code_simp+

lemma example_order_amount: "check_limit_order_amount 1000 50 True = Inr ()"
  by code_simp

lemma example_open:
  "\<exists>acc1 order nonce1. open_limit_order (\<lambda>_. 3) (\<lambda>_. False) 0 1000 9 [] None 3 55 0 True 50 1000
     \<lparr>ln_user_wallet = 0, ln_nonce_index = 0, ln_order_nonce = 0\<rparr> order_accounts = Inr (acc1, order, nonce1, 1000)"
proof -
  have "get_tick_state used_array 50 10 = Inr default_tick_state"
    by (simp add: get_tick_state_def example_offset) (simp add: used_array_def default_tick_array_state_def)
  moreover have "check_is_valid_start_index 0 10 = Inr True" by code_simp
  moreover have "length (ta_ticks used_array) = 60" "ta_initialized_tick_count used_array = 1"
    by (simp_all add: used_array_def default_tick_array_state_def)
  moreover have "check_tick_index 50 True 0 10 = Inr ()" by code_simp
  ultimately show ?thesis
    by (simp add: open_limit_order_def order_accounts_def order_pool_simps example_order_amount example_offset
        get_transfer_fee_def u_defs get_or_create_tick_array_def enter_order_def place_order_def Let_def
        default_tick_state_def update_array_def set_tick_state_def is_initialized_def has_liquidity_def
        has_limit_orders_def update_initialized_tick_count_def)
qed


text \<open>
  C36. An order that was cancelled to nothing can be increased again. If its tick is no longer in use, the increase
  puts orders on it without counting it: the pool and its bitmap stay as they are, the count of the array is one too
  small, and if the array counted no other tick, cancelling the order fails with an overflow.
\<close>

theorem increase_leaves_tick_uncounted:
  assumes "increase_limit_order None key owner amount order acc = Inr (acc', order', paid)"
    and "get_tick_state (la_arrays acc key) (lo_tick_index order) (ps_tick_spacing (la_pool acc)) = Inr tick"
    and "\<not> is_initialized tick" "count_exact (la_arrays acc key)" "get_unfilled_amount order = Inr 0"
    and "lo_settle_base order = 0"
  shows "la_pool acc' = la_pool acc \<and> la_extension acc' = la_extension acc \<and>
    (\<exists>t. get_tick_state (la_arrays acc' key) (lo_tick_index order) (ps_tick_spacing (la_pool acc)) = Inr t \<and>
       is_initialized t) \<and>
    initialized_ticks (la_arrays acc' key) = ta_initialized_tick_count (la_arrays acc' key) + 1 \<and>
    (ta_initialized_tick_count (la_arrays acc key) = 0 \<longrightarrow>
      decrease_limit_order extension_key remaining None key owner amount 0 order' acc' = fail CalculateOverflow)"
proof -
  let ?sp = "ps_tick_spacing (la_pool acc)" and ?i = "lo_tick_index order"
  let ?t = "tick\<lparr>t_orders_amount := t_orders_amount tick + amount\<rparr>"
  obtain ta where i: "ta_pool_id (la_arrays acc key) = la_pool_key acc" "lo_pool_id order = la_pool_key acc"
    "lo_owner order = owner" "0 < amount" "lo_order_phase order = t_order_phase tick"
    "order' = order\<lparr>lo_total_amount := lo_total_amount order + amount, lo_settle_base := lo_settle_base order + amount\<rparr>"
    and w: "tick_written ?i ?sp ?t (la_arrays acc key) ta" and a: "acc' = acc\<lparr>la_arrays := (la_arrays acc)(key := ta)\<rparr>"
    using increase_limit_order_Inr [OF assms(1)] assms(2) by (metis sum.inject(2))
  have empty: "t_orders_amount tick = 0" "t_part_filled_orders_remaining tick = 0" "t_liquidity_gross tick = 0"
    using assms(3) by (auto simp: is_initialized_def has_limit_orders_def has_liquidity_def)
  have total: "lo_total_amount order = lo_filled_amount order"
    using assms(5) by (auto simp: get_unfilled_amount_def ok_or_Inr checked_simps)
  have init: "is_initialized ?t" using i(4) by (intro initialized_orders) simp
  have f: "ta_pool_id ta = la_pool_key acc" "ta_initialized_tick_count ta = ta_initialized_tick_count (la_arrays acc key)"
    using tick_written_fields [OF w] i(1) by simp_all
  have g: "get_tick_state ta ?i ?sp = Inr ?t" by (rule tick_written_get [OF w])
  have locked: "decrease_limit_order extension_key remaining None key owner amount 0 order' acc' = fail CalculateOverflow"
    if "ta_initialized_tick_count (la_arrays acc key) = 0"
  proof -
    have "tick\<lparr>t_orders_amount := 0\<rparr> = tick" using empty(1) by simp
    then have "\<exists>o2 r. decrease_amount amount ?t order' = Inr (tick, o2, r)"
      using i(4,5) empty(1) total
      by (simp add: i(6) decrease_amount_def settle_filled_order_def get_unfilled_amount_def u_defs Let_def)
    then obtain o2 r where d: "decrease_amount amount ?t order' = Inr (tick, o2, r)" by blast
    obtain ta2 where w2: "tick_written ?i ?sp tick ta ta2" using set_tick_state_exists [OF g] by blast
    have upd: "update_array key (set_tick_state ?i ?sp tick) acc' = Inr (acc'\<lparr>la_arrays := (la_arrays acc')(key := ta2)\<rparr>)"
      using iffD2 [OF set_tick_state_Inr w2] a by (simp add: update_array_def)
    have none: "leave_tick extension_key remaining key ?i (acc'\<lparr>la_arrays := (la_arrays acc')(key := ta2)\<rparr>)
        = fail CalculateOverflow"
      by (rule leave_tick_empty) (use that tick_written_fields [OF w2] f in simp)
    have "lo_tick_index order' = ?i" "lo_pool_id order' = la_pool_key acc'" "lo_owner order' = owner"
      "get_tick_state (la_arrays acc' key) ?i ?sp = Inr ?t" "ta_pool_id (la_arrays acc' key) = la_pool_key acc'"
      "la_pool acc' = la_pool acc"
      using i a f g by simp_all
    then show ?thesis
      using d upd none init assms(3) i(4) by (simp add: decrease_limit_order_def order_check_def Let_def fail_def)
  qed
  show ?thesis
    using a g init locked tick_written_count [OF w assms(2)] assms(3,4) f by (auto simp: count_exact_def)
qed

text \<open>The order of \<open>cancelled_order\<close> is what cancelling leaves of an order on an unused tick.\<close>

definition empty_accounts :: liquidity_accounts where
  "empty_accounts = order_accounts\<lparr>la_arrays := (\<lambda>_. default_tick_array_state\<lparr>ta_pool_id := 77\<rparr>)\<rparr>"

definition cancelled_order :: limit_order where
  "cancelled_order = (order_initialize 77 55 50 True 1000 0 1000)\<lparr>lo_total_amount := 0, lo_settle_base := 0\<rparr>"

lemma example_cancelled:
  "decrease_amount 1000 (default_tick_state\<lparr>t_tick := 50, t_orders_amount := 1000\<rparr>)
     (order_initialize 77 55 50 True 1000 0 1000)
    = Inr (default_tick_state\<lparr>t_tick := 50\<rparr>, cancelled_order,
        \<lparr>da_settled_output_amount = 0, da_real_decrease_amount = 1000\<rparr>)"
  by (simp add: decrease_amount_def settle_filled_order_def get_unfilled_amount_def order_initialize_def
      default_tick_state_def cancelled_order_def u_defs Let_def saturating_add_def)

lemma cancelled_simps:
  "lo_pool_id cancelled_order = 77" "lo_owner cancelled_order = 55" "lo_tick_index cancelled_order = 50"
  "lo_order_phase cancelled_order = 0" "lo_total_amount cancelled_order = 0" "lo_settle_base cancelled_order = 0"
  "lo_zero_for_one cancelled_order" "get_unfilled_amount cancelled_order = Inr 0"
  by (simp_all add: cancelled_order_def order_initialize_def get_unfilled_amount_def u_defs)

abbreviation empty_array :: tick_array_state where
  "empty_array \<equiv> default_tick_array_state\<lparr>ta_pool_id := 77\<rparr>"

lemma empty_simps:
  "la_arrays empty_accounts key = empty_array" "la_pool empty_accounts = example_pool" "la_pool_key empty_accounts = 77"
  by (simp_all add: empty_accounts_def order_accounts_def)

lemma empty_tick: "get_tick_state empty_array 50 10 = Inr default_tick_state"
proof -
  have "get_tick_offset_in_array empty_array 50 10 = Inr 5" by code_simp
  then show ?thesis by (simp add: get_tick_state_def default_tick_array_state_def TICK_ARRAY_SIZE_def)
qed

lemma empty_count: "count_exact empty_array" "\<not> is_initialized default_tick_state"
  by (simp_all add: is_initialized_def has_limit_orders_def has_liquidity_def default_tick_state_def count_exact_def
      initialized_ticks_def default_tick_array_state_def)

lemma example_increase:
  "\<exists>acc' order'. increase_limit_order None 3 55 1000 cancelled_order empty_accounts = Inr (acc', order', 1000) \<and>
     ta_initialized_tick_count (la_arrays acc' 3) = 0"
proof -
  obtain t o2 where inc: "increase_amount 1000 default_tick_state cancelled_order = Inr (t, o2)"
    "lo_total_amount o2 = 1000" "lo_zero_for_one o2"
    by (simp add: increase_amount_def u_defs default_tick_state_def cancelled_simps)
  obtain ta where w: "tick_written 50 10 t empty_array ta" using set_tick_state_exists [OF empty_tick] by blast
  have "increase_limit_order None 3 55 1000 cancelled_order empty_accounts
      = Inr (empty_accounts\<lparr>la_arrays := (la_arrays empty_accounts)(3 := ta)\<rparr>, o2, 1000)"
    using iffD2 [OF set_tick_state_Inr w]
    by (simp add: increase_limit_order_def order_check_def empty_simps cancelled_simps order_pool_simps empty_tick
        get_transfer_fee_def u_defs inc update_array_def example_order_amount)
  then show ?thesis using tick_written_fields [OF w] by (simp add: default_tick_array_state_def)
qed

theorem increase_leaves_tick_uncounted_witness:
  "\<exists>acc' order'. increase_limit_order None 3 55 1000 cancelled_order empty_accounts = Inr (acc', order', 1000) \<and>
     initialized_ticks (la_arrays acc' 3) = 1 \<and> ta_initialized_tick_count (la_arrays acc' 3) = 0 \<and>
     decrease_limit_order 9 [] None 3 55 1000 0 order' acc' = fail CalculateOverflow"
proof -
  obtain acc' order' where r: "increase_limit_order None 3 55 1000 cancelled_order empty_accounts = Inr (acc', order', 1000)"
    and c: "ta_initialized_tick_count (la_arrays acc' 3) = 0" using example_increase by blast
  have "ta_initialized_tick_count empty_array = 0" by (simp add: default_tick_array_state_def)
  then have "initialized_ticks (la_arrays acc' 3) = ta_initialized_tick_count (la_arrays acc' 3) + 1 \<and>
      decrease_limit_order 9 [] None 3 55 1000 0 order' acc' = fail CalculateOverflow"
    using increase_leaves_tick_uncounted [OF r, of default_tick_state 9 "[]"] empty_tick empty_count
    by (simp add: empty_simps order_pool_simps cancelled_simps)
  then show ?thesis using r c by auto
qed

end
