(* ===== verification/Pool_Creation.thy ===== *)
theory Pool_Creation
  imports Pool_State Oracle
begin

text \<open>
  \<open>create_pool.rs\<close> and \<open>create_customizable_pool.rs\<close> with the mints they accept (\<open>util/token.rs\<close>), and the small
  administrative instructions. The content of a mint account is the record below; the extension types the code
  names are constructors. The list of accepted mints and the authority of the allow list are arguments, and so are the
  derived addresses; creating the vault accounts is left to the token program.
\<close>

section \<open>Mints\<close>

datatype mint_extension =
    TransferFeeConfig | MetadataPointer | TokenMetadata | InterestBearingConfig | ScaledUiAmount | OtherExtension nat

record mint_account =
  mi_key :: pubkey
  mi_decimals :: nat
  mi_classic :: bool
  mi_token_2022 :: bool
  mi_extensions :: "mint_extension list"
  mi_freeze_authority :: "pubkey option"
  mi_default_frozen :: bool
  mi_permanent_delegate :: "pubkey option"

definition is_superstate_token :: "pubkey \<Rightarrow> mint_account \<Rightarrow> bool" where
  "is_superstate_token allowlist m =
     (case mi_freeze_authority m of
        None \<Rightarrow> False
      | Some freeze_authority \<Rightarrow>
          allowlist = freeze_authority \<and> mi_token_2022 m \<and> mi_default_frozen m \<and>
          mi_permanent_delegate m = Some allowlist)"

definition accepted_extension :: "mint_extension \<Rightarrow> bool" where
  "accepted_extension e \<longleftrightarrow>
     e = TransferFeeConfig \<or> e = MetadataPointer \<or> e = TokenMetadata \<or> e = InterestBearingConfig \<or> e = ScaledUiAmount"

definition is_supported_mint :: "pubkey list \<Rightarrow> pubkey \<Rightarrow> bool \<Rightarrow> mint_account \<Rightarrow> bool" where
  "is_supported_mint whitelist allowlist mint_associated_is_initialized m =
     (if mi_classic m then True
      else if mi_key m \<in> set whitelist then True
      else if mint_associated_is_initialized then True
      else if is_superstate_token allowlist m then True
      else list_all accepted_extension (mi_extensions m))"

text \<open>A remaining account: its address, whether the program owns it, and the mint it names if it
  deserializes.\<close>

type_synonym support_account = "pubkey \<times> bool \<times> pubkey res"

fun find_support :: "pubkey \<Rightarrow> pubkey \<Rightarrow> support_account list \<Rightarrow> bool res" where
  "find_support expected mint [] = Inr False"
| "find_support expected mint ((key, owned, content) # rest) =
     (if \<not> owned \<or> key \<noteq> expected then find_support expected mint rest
      else and_then content (\<lambda>m. if m = mint then Inr True else find_support expected mint rest))"

definition support_mint_associated_is_initialized ::
  "(pubkey \<Rightarrow> pubkey) \<Rightarrow> support_account list \<Rightarrow> mint_account \<Rightarrow> bool res" where
  "support_mint_associated_is_initialized support_address remaining token_mint =
     (if remaining = [] then Inr False
      else find_support (support_address (mi_key token_mint)) (mi_key token_mint) remaining)"

section \<open>Pools\<close>

record pool_addresses =
  pa_pool :: pubkey
  pa_bump :: nat
  pa_creator :: pubkey
  pa_vault_0 :: pubkey
  pa_vault_1 :: pubkey
  pa_observation :: pubkey
  pa_config :: pubkey

record mint_policy =
  mp_whitelist :: "pubkey list"
  mp_allowlist :: pubkey
  mp_support_address :: "pubkey \<Rightarrow> pubkey"

text \<open>Both instructions ask for mints in order, and for supported ones.\<close>

definition check_mints ::
  "mint_policy \<Rightarrow> support_account list \<Rightarrow> mint_account \<Rightarrow> mint_account \<Rightarrow> 'a res \<Rightarrow> 'a res" where
  "check_mints policy remaining mint_0 mint_1 k =
     require_plain (mi_key mint_0 < mi_key mint_1)
     (and_then (support_mint_associated_is_initialized (mp_support_address policy) remaining mint_0) (\<lambda>associated_0.
      and_then (support_mint_associated_is_initialized (mp_support_address policy) remaining mint_1) (\<lambda>associated_1.
      require (is_supported_mint (mp_whitelist policy) (mp_allowlist policy) associated_0 mint_0 \<and>
          is_supported_mint (mp_whitelist policy) (mp_allowlist policy) associated_1 mint_1) NotSupportMint k)))"

definition new_pool ::
  "nat \<Rightarrow> pool_addresses \<Rightarrow> nat \<Rightarrow> int \<Rightarrow> amm_config \<Rightarrow> mint_account \<Rightarrow> mint_account \<Rightarrow> collect_fee_on \<Rightarrow> pool_state"
  where
  "new_pool epoch a sqrt_price_x64 tick config mint_0 mint_1 fee_on =
     pool_initialize epoch (pa_bump a) sqrt_price_x64 0 tick (pa_creator a) (pa_vault_0 a) (pa_vault_1 a)
       (pa_config a, config) (mi_key mint_0, mi_decimals mint_0) (mi_key mint_1, mi_decimals mint_1)
       (pa_observation a) fee_on"

definition create_pool ::
  "mint_policy \<Rightarrow> nat \<Rightarrow> nat \<Rightarrow> pool_addresses \<Rightarrow> amm_config \<Rightarrow> mint_account \<Rightarrow> mint_account \<Rightarrow> support_account list
     \<Rightarrow> bitmap_extension \<Rightarrow> nat \<Rightarrow> nat \<Rightarrow> (pool_state \<times> observation_state \<times> bitmap_extension) res" where
  "create_pool policy epoch block_timestamp a config mint_0 mint_1 remaining fresh_bitmap sqrt_price_x64 open_time =
     check_mints policy remaining mint_0 mint_1
     (require_plain (block_timestamp > open_time)
     (and_then (get_tick_at_sqrt_price sqrt_price_x64) (\<lambda>tick.
      Inr (new_pool epoch a sqrt_price_x64 tick config mint_0 mint_1 FromInput,
        observation_initialize epoch (pa_pool a), bitmap_extension_initialize (pa_pool a) fresh_bitmap))))"

record create_customizable_params =
  cp_sqrt_price_x64 :: nat
  cp_collect_fee_on :: collect_fee_on
  cp_enable_dynamic_fee :: bool

text \<open>\<open>dynamic_config\<close> is the last remaining account, if it is a configuration of the dynamic fee.\<close>

definition create_customizable_pool ::
  "mint_policy \<Rightarrow> nat \<Rightarrow> pool_addresses \<Rightarrow> amm_config \<Rightarrow> mint_account \<Rightarrow> mint_account \<Rightarrow> support_account list
     \<Rightarrow> dynamic_fee_config res option \<Rightarrow> bitmap_extension \<Rightarrow> create_customizable_params
     \<Rightarrow> (pool_state \<times> observation_state \<times> bitmap_extension) res" where
  "create_customizable_pool policy epoch a config mint_0 mint_1 remaining dynamic_config fresh_bitmap params =
     check_mints policy remaining mint_0 mint_1
     (and_then (get_tick_at_sqrt_price (cp_sqrt_price_x64 params)) (\<lambda>tick.
      let pool = new_pool epoch a (cp_sqrt_price_x64 params) tick config mint_0 mint_1 (cp_collect_fee_on params) in
      and_then
        (if cp_enable_dynamic_fee params then
           and_then (ok_or dynamic_config AccountLack) (\<lambda>loaded.
           and_then loaded (\<lambda>d.
           initialize_dynamic_fee_info tick (dc_filter_period d) (dc_decay_period d) (dc_reduction_factor d)
             (dc_dynamic_fee_control d) (dc_max_volatility_accumulator d) pool))
         else Inr pool) (\<lambda>pool.
      Inr (pool, observation_initialize epoch (pa_pool a), bitmap_extension_initialize (pa_pool a) fresh_bitmap))))"

section \<open>Administration\<close>

definition create_operation_account :: "pubkey \<Rightarrow> pubkey \<Rightarrow> nat \<Rightarrow> operation_state res" where
  "create_operation_account admin owner bump = require (owner = admin) NotApproved (Inr (operation_initialize bump))"

definition transfer_reward_owner :: "pubkey \<Rightarrow> pubkey \<Rightarrow> pubkey \<Rightarrow> pool_state \<Rightarrow> pool_state res" where
  "transfer_reward_owner admin authority new_owner pool =
     require (authority = admin) NotApproved
     (Inr (pool\<lparr>ps_reward_infos := map (\<lambda>r. r\<lparr>ri_authority := new_owner\<rparr>) (ps_reward_infos pool),
                ps_owner := new_owner\<rparr>))"

record support_mint_associated =
  sm_bump :: nat
  sm_mint :: pubkey

definition create_support_mint_associated ::
  "pubkey \<Rightarrow> pubkey \<Rightarrow> pubkey \<Rightarrow> nat \<Rightarrow> mint_account \<Rightarrow> support_mint_associated res" where
  "create_support_mint_associated admin support_owner owner bump token_mint =
     require (owner = admin \<or> owner = support_owner) NotApproved
     (require (mi_token_2022 token_mint) NotApproved
     (Inr \<lparr>sm_bump = bump, sm_mint = mi_key token_mint\<rparr>))"

section \<open>The tick of the price one\<close>

lemma log2_loop_one: "log2_loop n 9223372036854775808 b f = f"
  by (induction n arbitrary: b) simp_all

lemma floor_log2_double: "0 < n \<Longrightarrow> floor_log2 (2 * n) = Suc (floor_log2 n)"
  by (subst floor_log2.simps) simp

lemma floor_log2_power: "floor_log2 (2 ^ n) = n"
  by (induction n) (simp_all add: floor_log2_double floor_log2.simps)

lemma tick_at_one: "get_tick_at_sqrt_price 18446744073709551616 = Inr 0"
  using floor_log2_power [of 64]
  by (simp add: get_tick_at_sqrt_price_def tick_limits require_def log2_loop_one get_sqrt_price_at_tick_def
      tick_ratio_def magic_factors_def)

end
