(* ===== verification/Position_Entries.thy ===== *)
theory Position_Entries
  imports Liquidity_Handlers
begin

text \<open>
  The entry points on positions: the constraints that the account structs of \<open>increase_liquidity*.rs\<close>,
  \<open>decrease_liquidity*.rs\<close>, \<open>open_position*.rs\<close> and \<open>close_position.rs\<close> put on their accounts, and the handlers of
  \<open>Liquidity_Handlers\<close> behind them. The first versions of the instructions know no mints and so no transfer fees.
  A violated constraint is an error of the framework; creating the NFT is left to the token programs.
\<close>

section \<open>Accounts\<close>

text \<open>The token account with the NFT, the vaults with their mints, and the mints of the user's token accounts.\<close>

record position_accounts =
  xa_signer :: pubkey
  xa_nft_mint :: pubkey
  xa_nft_amount :: nat
  xa_nft_authority :: pubkey
  xa_vault_0 :: pubkey
  xa_vault_1 :: pubkey
  xa_vault_0_token :: pubkey
  xa_vault_1_token :: pubkey
  xa_user_0_token :: pubkey
  xa_user_1_token :: pubkey
  xa_mint_0 :: pubkey
  xa_mint_1 :: pubkey

definition holds_nft :: "position_accounts \<Rightarrow> pubkey \<Rightarrow> bool" where
  "holds_nft x nft_mint \<longleftrightarrow> xa_nft_mint x = nft_mint \<and> xa_nft_amount x = 1 \<and> xa_nft_authority x = xa_signer x"

definition vaults_match :: "position_accounts \<Rightarrow> pool_state \<Rightarrow> bool" where
  "vaults_match x pool \<longleftrightarrow> xa_vault_0 x = ps_token_vault_0 pool \<and> xa_vault_1 x = ps_token_vault_1 pool \<and>
     xa_user_0_token x = xa_vault_0_token x \<and> xa_user_1_token x = xa_vault_1_token x"

definition mints_match :: "position_accounts \<Rightarrow> bool" where
  "mints_match x \<longleftrightarrow> xa_mint_0 x = xa_vault_0_token x \<and> xa_mint_1 x = xa_vault_1_token x"

definition position_accounts_ok ::
  "position_accounts \<Rightarrow> pubkey \<Rightarrow> pubkey \<Rightarrow> personal_position_state \<Rightarrow> liquidity_accounts \<Rightarrow> bool" where
  "position_accounts_ok x lower_key upper_key p acc \<longleftrightarrow>
     holds_nft x (pp_nft_mint p) \<and> pp_pool_id p = la_pool_key acc \<and> vaults_match x (la_pool acc) \<and>
     ta_pool_id (la_arrays acc lower_key) = la_pool_key acc \<and>
     ta_pool_id (la_arrays acc upper_key) = la_pool_key acc"

section \<open>Instructions\<close>

definition increase_liquidity_v1 ::
  "nat \<Rightarrow> nat \<Rightarrow> pubkey \<Rightarrow> position_accounts \<Rightarrow> pubkey \<Rightarrow> pubkey \<Rightarrow> (pubkey \<times> bitmap_extension res) list
     \<Rightarrow> nat \<Rightarrow> nat \<Rightarrow> nat \<Rightarrow> personal_position_state \<Rightarrow> liquidity_accounts
     \<Rightarrow> (personal_position_state \<times> liquidity_accounts \<times> nat \<times> nat) res" where
  "increase_liquidity_v1 epoch timestamp extension_key x lower_key upper_key remaining liquidity amount_0_max
     amount_1_max p acc =
   require_plain (position_accounts_ok x lower_key upper_key p acc)
   (increase_liquidity_entry liquidity
     (increase_liquidity epoch timestamp extension_key None None lower_key upper_key remaining liquidity
       amount_0_max amount_1_max None p acc))"

definition increase_liquidity_v2 ::
  "nat \<Rightarrow> nat \<Rightarrow> pubkey \<Rightarrow> mint \<Rightarrow> mint \<Rightarrow> position_accounts \<Rightarrow> pubkey \<Rightarrow> pubkey
     \<Rightarrow> (pubkey \<times> bitmap_extension res) list \<Rightarrow> nat \<Rightarrow> nat \<Rightarrow> nat \<Rightarrow> bool option \<Rightarrow> personal_position_state
     \<Rightarrow> liquidity_accounts \<Rightarrow> (personal_position_state \<times> liquidity_accounts \<times> nat \<times> nat) res" where
  "increase_liquidity_v2 epoch timestamp extension_key mint_0 mint_1 x lower_key upper_key remaining liquidity
     amount_0_max amount_1_max base_flag p acc =
   require_plain (position_accounts_ok x lower_key upper_key p acc \<and> mints_match x)
   (increase_liquidity_v2_entry liquidity base_flag
     (increase_liquidity epoch timestamp extension_key (Some mint_0) (Some mint_1) lower_key upper_key remaining
       liquidity amount_0_max amount_1_max base_flag p acc))"

definition decrease_liquidity_v1 ::
  "nat \<Rightarrow> nat \<Rightarrow> pubkey \<Rightarrow> position_accounts \<Rightarrow> pubkey \<Rightarrow> pubkey \<Rightarrow> extension_account \<Rightarrow> nat \<Rightarrow> reward_group list
     \<Rightarrow> nat \<Rightarrow> nat \<Rightarrow> nat \<Rightarrow> personal_position_state \<Rightarrow> liquidity_accounts
     \<Rightarrow> (personal_position_state \<times> liquidity_accounts \<times> nat \<times> nat \<times> nat list) res" where
  "decrease_liquidity_v1 epoch timestamp extension_key x lower_key upper_key extension accounts_len groups
     liquidity amount_0_min amount_1_min p acc =
   require_plain (position_accounts_ok x lower_key upper_key p acc)
   (decrease_liquidity epoch timestamp extension_key None None lower_key upper_key extension accounts_len groups
     False liquidity amount_0_min amount_1_min p acc)"

definition decrease_liquidity_v2 ::
  "nat \<Rightarrow> nat \<Rightarrow> pubkey \<Rightarrow> mint \<Rightarrow> mint \<Rightarrow> position_accounts \<Rightarrow> pubkey \<Rightarrow> pubkey \<Rightarrow> extension_account \<Rightarrow> nat
     \<Rightarrow> reward_group list \<Rightarrow> nat \<Rightarrow> nat \<Rightarrow> nat \<Rightarrow> personal_position_state \<Rightarrow> liquidity_accounts
     \<Rightarrow> (personal_position_state \<times> liquidity_accounts \<times> nat \<times> nat \<times> nat list) res" where
  "decrease_liquidity_v2 epoch timestamp extension_key mint_0 mint_1 x lower_key upper_key extension accounts_len
     groups liquidity amount_0_min amount_1_min p acc =
   require_plain (position_accounts_ok x lower_key upper_key p acc \<and> mints_match x)
   (decrease_liquidity epoch timestamp extension_key (Some mint_0) (Some mint_1) lower_key upper_key extension
     accounts_len groups True liquidity amount_0_min amount_1_min p acc)"

text \<open>
  The accounts of the tick arrays are at the addresses derived from their start indices. The instruction that makes
  a token-2022 NFT has the same constraints and arguments.
\<close>

definition open_position_v2 ::
  "(int \<Rightarrow> pubkey) \<Rightarrow> (pubkey \<Rightarrow> bool) \<Rightarrow> nat \<Rightarrow> nat \<Rightarrow> nat \<Rightarrow> pubkey \<Rightarrow> pubkey \<Rightarrow> mint \<Rightarrow> mint \<Rightarrow> position_accounts
     \<Rightarrow> pubkey \<Rightarrow> pubkey \<Rightarrow> (pubkey \<times> bitmap_extension res) list \<Rightarrow> nat \<Rightarrow> nat \<Rightarrow> nat \<Rightarrow> int \<Rightarrow> int \<Rightarrow> int \<Rightarrow> int
     \<Rightarrow> bool option \<Rightarrow> liquidity_accounts \<Rightarrow> (personal_position_state \<times> liquidity_accounts \<times> nat \<times> nat) res" where
  "open_position_v2 array_address fresh epoch timestamp bump nft_mint extension_key mint_0 mint_1 x lower_key
     upper_key remaining liquidity amount_0_max amount_1_max tick_lower tick_upper lower_start upper_start
     base_flag acc =
   require_plain (array_address lower_start = lower_key \<and> array_address upper_start = upper_key \<and>
     vaults_match x (la_pool acc) \<and> mints_match x)
   (open_position array_address fresh epoch timestamp bump nft_mint extension_key (Some mint_0) (Some mint_1)
     lower_key upper_key remaining liquidity amount_0_max amount_1_max tick_lower tick_upper lower_start
     upper_start base_flag acc)"

definition open_position_v1 ::
  "(int \<Rightarrow> pubkey) \<Rightarrow> (pubkey \<Rightarrow> bool) \<Rightarrow> nat \<Rightarrow> nat \<Rightarrow> nat \<Rightarrow> pubkey \<Rightarrow> pubkey \<Rightarrow> position_accounts
     \<Rightarrow> pubkey \<Rightarrow> pubkey \<Rightarrow> (pubkey \<times> bitmap_extension res) list \<Rightarrow> nat \<Rightarrow> nat \<Rightarrow> nat \<Rightarrow> int \<Rightarrow> int \<Rightarrow> int \<Rightarrow> int
     \<Rightarrow> liquidity_accounts \<Rightarrow> (personal_position_state \<times> liquidity_accounts \<times> nat \<times> nat) res" where
  "open_position_v1 array_address fresh epoch timestamp bump nft_mint extension_key x lower_key upper_key remaining
     liquidity amount_0_max amount_1_max tick_lower tick_upper lower_start upper_start acc =
   require_plain (array_address lower_start = lower_key \<and> array_address upper_start = upper_key \<and>
     vaults_match x (la_pool acc))
   (open_position array_address fresh epoch timestamp bump nft_mint extension_key None None
     lower_key upper_key remaining liquidity amount_0_max amount_1_max tick_lower tick_upper lower_start
     upper_start None acc)"

text \<open>\<open>burn\<close> is the answer of the token program to burning the NFT and closing its accounts.\<close>

definition close_position_instruction ::
  "unit res \<Rightarrow> position_accounts \<Rightarrow> personal_position_state \<Rightarrow> unit res" where
  "close_position_instruction burn x p =
     require_plain (holds_nft x (pp_nft_mint p)) (and_then (close_position p) (\<lambda>_. burn))"

text \<open>Only the holder of its NFT changes a position, with the vaults and the tick arrays of its pool.\<close>

lemma only_the_holder:
  assumes "decrease_liquidity_v2 epoch timestamp ek m0 m1 x lo up ext n groups liquidity a0 a1 p acc = Inr r \<or>
    decrease_liquidity_v1 epoch timestamp ek x lo up ext n groups liquidity a0 a1 p acc = Inr r"
  shows "xa_nft_authority x = xa_signer x \<and> xa_nft_mint x = pp_nft_mint p \<and> xa_nft_amount x = 1 \<and>
    pp_pool_id p = la_pool_key acc \<and> xa_vault_0 x = ps_token_vault_0 (la_pool acc)"
  using assms
  by (auto simp: decrease_liquidity_v1_def decrease_liquidity_v2_def require_plain_Inr position_accounts_ok_def
      holds_nft_def vaults_match_def)

end
