(* ===== verification/Shield_Program.thy ===== *)
theory Shield_Program
  imports Prelude
begin

text \<open>
  The stand-alone shield program, \<open>programs/nebula-shield\<close>: the configuration of the shield of a pool, the guard
  against just-in-time liquidity of a position, the totals of the program, and one definition per instruction. An
  instruction takes the accounts it names and returns them updated; account constraints come first, in the order
  of the account list. Slots, signers and what the token program answers are arguments. The events are left out.
\<close>

section \<open>Errors and accounts\<close>

text \<open>The errors are numbered by \<open>ShieldError\<close>, the enumeration of this program.\<close>

abbreviation Shield_JitBackRunDetected :: error_code where "Shield_JitBackRunDetected \<equiv> ErrorCode 0"
abbreviation Shield_ShieldDisabled :: error_code where "Shield_ShieldDisabled \<equiv> ErrorCode 1"
abbreviation Shield_ArbCooldownActive :: error_code where "Shield_ArbCooldownActive \<equiv> ErrorCode 2"
abbreviation Shield_NoArbProfit :: error_code where "Shield_NoArbProfit \<equiv> ErrorCode 4"
abbreviation Shield_InvalidTreasury :: error_code where "Shield_InvalidTreasury \<equiv> ErrorCode 6"
abbreviation Shield_ArithmeticOverflow :: error_code where "Shield_ArithmeticOverflow \<equiv> ErrorCode 7"
abbreviation Shield_DivisionByZero :: error_code where "Shield_DivisionByZero \<equiv> ErrorCode 8"
abbreviation Shield_AmountBelowMin :: error_code where "Shield_AmountBelowMin \<equiv> ErrorCode 9"
abbreviation Shield_NotArbAuthority :: error_code where "Shield_NotArbAuthority \<equiv> ErrorCode 10"
abbreviation Shield_NotAdmin :: error_code where "Shield_NotAdmin \<equiv> ErrorCode 11"
abbreviation Shield_PoolMismatch :: error_code where "Shield_PoolMismatch \<equiv> ErrorCode 12"
abbreviation Shield_LockSlotsExceedMax :: error_code where "Shield_LockSlotsExceedMax \<equiv> ErrorCode 13"
abbreviation Shield_InvalidShareBps :: error_code where "Shield_InvalidShareBps \<equiv> ErrorCode 14"
abbreviation Shield_ZeroSpreadBps :: error_code where "Shield_ZeroSpreadBps \<equiv> ErrorCode 15"
abbreviation Shield_InvalidSweepRange :: error_code where "Shield_InvalidSweepRange \<equiv> ErrorCode 16"
abbreviation Shield_TwapWindowTooShort :: error_code where "Shield_TwapWindowTooShort \<equiv> ErrorCode 17"

record shield_config =
  hc_pool :: pubkey
  hc_arb_authority :: pubkey
  hc_treasury :: pubkey
  hc_min_spread_bps :: nat
  hc_treasury_share_bps :: nat
  hc_twap_window_seconds :: nat
  hc_min_sweep_amount :: nat
  hc_max_sweep_amount :: nat
  hc_last_sweep_slot :: nat
  hc_cooldown_slots :: nat
  hc_manipulation_threshold_bps :: nat
  hc_min_jit_lock_slots :: nat
  hc_total_profit_captured_a :: nat
  hc_total_profit_captured_b :: nat
  hc_enabled :: bool
  hc_bump :: nat

record jit_guard_state =
  hj_pool :: pubkey
  hj_position_nft_mint :: pubkey
  hj_min_lock_slots :: nat
  hj_last_add_slot :: nat
  hj_add_count :: nat
  hj_remove_count :: nat
  hj_jit_blocks :: nat
  hj_bump :: nat

record global_shield_state =
  hg_admin :: pubkey
  hg_pools_protected :: nat
  hg_total_jit_blocks :: nat
  hg_total_arb_sweeps :: nat
  hg_total_treasury_routed :: nat
  hg_bump :: nat

definition GUARD_MAX_LOCK_SLOTS :: nat where "GUARD_MAX_LOCK_SLOTS = 100"
definition GUARD_DEFAULT_MIN_LOCK_SLOTS :: nat where "GUARD_DEFAULT_MIN_LOCK_SLOTS = 5"

definition guard_can_remove :: "nat \<Rightarrow> jit_guard_state \<Rightarrow> (bool \<times> nat) res" where
  "guard_can_remove current_slot g =
     and_then (add_u 64 (hj_last_add_slot g) (hj_min_lock_slots g)) (\<lambda>unlock_slot.
     Inr (if current_slot \<ge> unlock_slot then (True, 0) else (False, unlock_slot - current_slot)))"

definition guard_record_add :: "nat \<Rightarrow> jit_guard_state \<Rightarrow> jit_guard_state" where
  "guard_record_add slot g = g\<lparr>hj_last_add_slot := slot, hj_add_count := saturating_add 64 (hj_add_count g) 1\<rparr>"

definition guard_record_remove :: "bool \<Rightarrow> jit_guard_state \<Rightarrow> jit_guard_state" where
  "guard_record_remove blocked g =
     (let g = g\<lparr>hj_remove_count := saturating_add 64 (hj_remove_count g) 1\<rparr> in
      if blocked then g\<lparr>hj_jit_blocks := saturating_add 64 (hj_jit_blocks g) 1\<rparr> else g)"

section \<open>Instructions\<close>

definition initialize_global :: "pubkey \<Rightarrow> nat \<Rightarrow> global_shield_state" where
  "initialize_global admin bump =
     \<lparr>hg_admin = admin, hg_pools_protected = 0, hg_total_jit_blocks = 0, hg_total_arb_sweeps = 0,
       hg_total_treasury_routed = 0, hg_bump = bump\<rparr>"

record shield_init_config =
  hi_arb_authority :: pubkey
  hi_min_spread_bps :: nat
  hi_treasury_share_bps :: nat
  hi_twap_window_seconds :: nat
  hi_min_sweep_amount :: nat
  hi_max_sweep_amount :: nat
  hi_cooldown_slots :: nat
  hi_manipulation_threshold_bps :: nat
  hi_min_jit_lock_slots :: nat

definition initialize_pool_shield ::
  "pubkey \<Rightarrow> pubkey \<Rightarrow> pubkey \<Rightarrow> nat \<Rightarrow> shield_init_config \<Rightarrow> global_shield_state
     \<Rightarrow> (shield_config \<times> global_shield_state) res" where
  "initialize_pool_shield tipy_treasury admin pool bump config global =
     require (admin = hg_admin global) Shield_NotAdmin
     (require (hi_treasury_share_bps config \<le> 10000) Shield_InvalidShareBps
     (require (hi_min_spread_bps config > 0) Shield_ZeroSpreadBps
     (require (hi_min_sweep_amount config < hi_max_sweep_amount config) Shield_InvalidSweepRange
     (require (hi_twap_window_seconds config \<ge> 15) Shield_TwapWindowTooShort
     (require (hi_min_jit_lock_slots config \<le> GUARD_MAX_LOCK_SLOTS) Shield_LockSlotsExceedMax
     (Inr (\<lparr>hc_pool = pool, hc_arb_authority = hi_arb_authority config, hc_treasury = tipy_treasury,
            hc_min_spread_bps = hi_min_spread_bps config, hc_treasury_share_bps = hi_treasury_share_bps config,
            hc_twap_window_seconds = hi_twap_window_seconds config,
            hc_min_sweep_amount = hi_min_sweep_amount config, hc_max_sweep_amount = hi_max_sweep_amount config,
            hc_last_sweep_slot = 0, hc_cooldown_slots = hi_cooldown_slots config,
            hc_manipulation_threshold_bps = hi_manipulation_threshold_bps config,
            hc_min_jit_lock_slots =
              (if hi_min_jit_lock_slots config = 0 then GUARD_DEFAULT_MIN_LOCK_SLOTS else hi_min_jit_lock_slots config),
            hc_total_profit_captured_a = 0, hc_total_profit_captured_b = 0, hc_enabled = True, hc_bump = bump\<rparr>,
          global\<lparr>hg_pools_protected := saturating_add 64 (hg_pools_protected global) 1\<rparr>)))))))"

definition init_jit_guard ::
  "nat \<Rightarrow> pubkey \<Rightarrow> pubkey \<Rightarrow> nat \<Rightarrow> nat \<Rightarrow> shield_config \<Rightarrow> jit_guard_state res" where
  "init_jit_guard slot pool position_nft_mint bump min_lock_slots shield =
     require (hc_pool shield = pool) Shield_PoolMismatch
     (require (hc_enabled shield) Shield_ShieldDisabled
     (let effective_lock = (if min_lock_slots = 0 then hc_min_jit_lock_slots shield
                            else min min_lock_slots GUARD_MAX_LOCK_SLOTS) in
      Inr \<lparr>hj_pool = pool, hj_position_nft_mint = position_nft_mint, hj_min_lock_slots = effective_lock,
        hj_last_add_slot = slot, hj_add_count = 1, hj_remove_count = 0, hj_jit_blocks = 0, hj_bump = bump\<rparr>))"

text \<open>
  The check writes the guard and the totals before it returns its error; the two parts of the result are what it
  has written and what it answers.
\<close>

definition check_jit_protection ::
  "nat \<Rightarrow> jit_guard_state \<Rightarrow> global_shield_state \<Rightarrow> (jit_guard_state \<times> global_shield_state) \<times> unit res" where
  "check_jit_protection current_slot g global =
     (case guard_can_remove current_slot g of
        Inl e \<Rightarrow> ((g, global), Inl e)
      | Inr (can_remove, slots_remaining) \<Rightarrow>
          if \<not> can_remove then
            ((guard_record_remove True g,
              global\<lparr>hg_total_jit_blocks := saturating_add 64 (hg_total_jit_blocks global) 1\<rparr>),
             Inl (Code Shield_JitBackRunDetected))
          else ((guard_record_remove False g, global), Inr ()))"

definition record_jit_add :: "nat \<Rightarrow> jit_guard_state \<Rightarrow> jit_guard_state" where
  "record_jit_add slot g = guard_record_add slot g"

text \<open>\<open>transfer\<close> is the answer of the token program to the transfer of the amount.\<close>

definition execute_arb_sweep ::
  "(nat \<Rightarrow> unit res) \<Rightarrow> nat \<Rightarrow> pubkey \<Rightarrow> pubkey \<Rightarrow> pubkey \<Rightarrow> nat \<Rightarrow> shield_config \<Rightarrow> global_shield_state
     \<Rightarrow> (shield_config \<times> global_shield_state \<times> nat) res" where
  "execute_arb_sweep transfer current_slot arb_authority pool treasury_vault sweep_amount shield global =
     require (arb_authority = hc_arb_authority shield) Shield_NotArbAuthority
     (require (hc_pool shield = pool) Shield_PoolMismatch
     (require (hc_enabled shield) Shield_ShieldDisabled
     (require (treasury_vault = hc_treasury shield) Shield_InvalidTreasury
     (require (hc_enabled shield) Shield_ShieldDisabled
     (and_then (add_u 64 (hc_last_sweep_slot shield) (hc_cooldown_slots shield)) (\<lambda>next_slot.
      require (current_slot \<ge> next_slot) Shield_ArbCooldownActive
      (require (sweep_amount \<ge> hc_min_sweep_amount shield) Shield_AmountBelowMin
      (require (sweep_amount \<le> hc_max_sweep_amount shield) Shield_AmountBelowMin
      (and_then (ok_or (checked_mul 128 sweep_amount (hc_treasury_share_bps shield)) Shield_ArithmeticOverflow) (\<lambda>product.
       and_then (ok_or (checked_div product 10000) Shield_DivisionByZero) (\<lambda>quotient.
       let treasury_amount = wrap_uint 64 quotient in
       require (treasury_amount > 0) Shield_NoArbProfit
       (and_then (transfer treasury_amount) (\<lambda>_.
        Inr (shield\<lparr>hc_last_sweep_slot := current_slot,
               hc_total_profit_captured_a := saturating_add 64 (hc_total_profit_captured_a shield) treasury_amount\<rparr>,
             global\<lparr>hg_total_arb_sweeps := saturating_add 64 (hg_total_arb_sweeps global) 1,
               hg_total_treasury_routed := saturating_add 64 (hg_total_treasury_routed global) treasury_amount\<rparr>,
             treasury_amount))))))))))))))"

record shield_config_update =
  hu_min_spread_bps :: "nat option"
  hu_treasury_share_bps :: "nat option"
  hu_twap_window_seconds :: "nat option"
  hu_min_sweep_amount :: "nat option"
  hu_max_sweep_amount :: "nat option"
  hu_cooldown_slots :: "nat option"
  hu_manipulation_threshold_bps :: "nat option"
  hu_min_jit_lock_slots :: "nat option"
  hu_enabled :: "bool option"

text \<open>\<open>if_some x ok e write s\<close>: the update of one field, if it is given and passes its check.\<close>

definition if_some :: "'a option \<Rightarrow> ('a \<Rightarrow> bool) \<Rightarrow> error_code \<Rightarrow> ('a \<Rightarrow> 's \<Rightarrow> 's) \<Rightarrow> 's \<Rightarrow> 's res" where
  "if_some x ok e write s = (case x of None \<Rightarrow> Inr s | Some v \<Rightarrow> require (ok v) e (Inr (write v s)))"

definition update_shield_config ::
  "pubkey \<Rightarrow> pubkey \<Rightarrow> shield_config_update \<Rightarrow> shield_config \<Rightarrow> shield_config res" where
  "update_shield_config arb_authority pool new_config shield =
     require (arb_authority = hc_arb_authority shield) Shield_NotArbAuthority
     (require (hc_pool shield = pool) Shield_PoolMismatch
     (and_then (if_some (hu_min_spread_bps new_config) (\<lambda>v. v > 0) Shield_ZeroSpreadBps
        (\<lambda>v. hc_min_spread_bps_update (\<lambda>_. v)) shield) (\<lambda>shield.
      and_then (if_some (hu_treasury_share_bps new_config) (\<lambda>v. v \<le> 10000) Shield_InvalidShareBps
        (\<lambda>v. hc_treasury_share_bps_update (\<lambda>_. v)) shield) (\<lambda>shield.
      and_then (if_some (hu_twap_window_seconds new_config) (\<lambda>v. v \<ge> 15) Shield_TwapWindowTooShort
        (\<lambda>v. hc_twap_window_seconds_update (\<lambda>_. v)) shield) (\<lambda>shield.
      let shield = (case hu_min_sweep_amount new_config of None \<Rightarrow> shield
            | Some v \<Rightarrow> shield\<lparr>hc_min_sweep_amount := v\<rparr>);
          shield = (case hu_max_sweep_amount new_config of None \<Rightarrow> shield
            | Some v \<Rightarrow> shield\<lparr>hc_max_sweep_amount := v\<rparr>) in
      require (hc_min_sweep_amount shield < hc_max_sweep_amount shield) Shield_InvalidSweepRange
      (let shield = (case hu_cooldown_slots new_config of None \<Rightarrow> shield
             | Some v \<Rightarrow> shield\<lparr>hc_cooldown_slots := v\<rparr>);
           shield = (case hu_manipulation_threshold_bps new_config of None \<Rightarrow> shield
             | Some v \<Rightarrow> shield\<lparr>hc_manipulation_threshold_bps := v\<rparr>) in
       and_then (if_some (hu_min_jit_lock_slots new_config) (\<lambda>v. v \<le> GUARD_MAX_LOCK_SLOTS) Shield_LockSlotsExceedMax
         (\<lambda>v. hc_min_jit_lock_slots_update (\<lambda>_. v)) shield) (\<lambda>shield.
       Inr (case hu_enabled new_config of None \<Rightarrow> shield | Some v \<Rightarrow> shield\<lparr>hc_enabled := v\<rparr>))))))))"

text \<open>The status: what the instruction sets as its return data.\<close>

definition get_shield_status :: "shield_config \<Rightarrow> nat list" where
  "get_shield_status shield = [of_bool (hc_enabled shield)]"

section \<open>The life of a shield\<close>

text \<open>
  The accounts of one pool and one of its positions. \<open>wd_routed\<close> adds up what the token program has moved to the
  treasury; no instruction reads it.
\<close>

record shield_world =
  wd_config :: shield_config
  wd_guard :: "jit_guard_state option"
  wd_global :: global_shield_state
  wd_routed :: nat

datatype shield_op =
    InitGuard pubkey nat nat
  | CheckJit
  | RecordAdd
  | Sweep pubkey pubkey nat
  | UpdateConfig pubkey shield_config_update
  | ProtectPool pubkey pubkey nat shield_init_config

text \<open>An account that exists already cannot be created, and one that does not cannot be read.\<close>

fun run_op ::
  "pubkey \<Rightarrow> (nat \<Rightarrow> nat \<Rightarrow> unit res) \<Rightarrow> nat \<Rightarrow> shield_op \<Rightarrow> shield_world \<Rightarrow> shield_world res" where
  "run_op tipy transfer slot (InitGuard mint bump lock) w =
     require_plain (wd_guard w = None)
     (and_then (init_jit_guard slot (hc_pool (wd_config w)) mint bump lock (wd_config w)) (\<lambda>g.
      Inr (w\<lparr>wd_guard := Some g\<rparr>)))"
| "run_op tipy transfer slot CheckJit w =
     (case wd_guard w of
        None \<Rightarrow> Inl RequireViolated
      | Some g \<Rightarrow>
          (case check_jit_protection slot g (wd_global w) of
             ((g, global), answer) \<Rightarrow>
               and_then answer (\<lambda>_. Inr (w\<lparr>wd_guard := Some g, wd_global := global\<rparr>))))"
| "run_op tipy transfer slot RecordAdd w =
     (case wd_guard w of
        None \<Rightarrow> Inl RequireViolated
      | Some g \<Rightarrow> Inr (w\<lparr>wd_guard := Some (record_jit_add slot g)\<rparr>))"
| "run_op tipy transfer slot (Sweep authority vault amount) w =
     and_then (execute_arb_sweep (transfer slot) slot authority (hc_pool (wd_config w)) vault amount
         (wd_config w) (wd_global w)) (\<lambda>(config, global, treasury_amount).
       Inr (w\<lparr>wd_config := config, wd_global := global, wd_routed := wd_routed w + treasury_amount\<rparr>))"
| "run_op tipy transfer slot (UpdateConfig authority new_config) w =
     and_then (update_shield_config authority (hc_pool (wd_config w)) new_config (wd_config w)) (\<lambda>config.
       Inr (w\<lparr>wd_config := config\<rparr>))"
| "run_op tipy transfer slot (ProtectPool admin pool bump config) w =
     and_then (initialize_pool_shield tipy admin pool bump config (wd_global w)) (\<lambda>(config, global).
       Inr (w\<lparr>wd_global := global\<rparr>))"

text \<open>A transaction that fails leaves the accounts as they were.\<close>

definition run_tx ::
  "pubkey \<Rightarrow> (nat \<Rightarrow> nat \<Rightarrow> unit res) \<Rightarrow> nat \<times> shield_op \<Rightarrow> shield_world \<Rightarrow> shield_world" where
  "run_tx tipy transfer tx w = (case run_op tipy transfer (fst tx) (snd tx) w of Inl _ \<Rightarrow> w | Inr w' \<Rightarrow> w')"

definition run_txs ::
  "pubkey \<Rightarrow> (nat \<Rightarrow> nat \<Rightarrow> unit res) \<Rightarrow> (nat \<times> shield_op) list \<Rightarrow> shield_world \<Rightarrow> shield_world" where
  "run_txs tipy transfer txs w = fold (run_tx tipy transfer) txs w"

fun_cases run_op_InrE: "run_op tipy transfer slot op w = Inr w'"

lemma run_tx_cases:
  "run_tx tipy transfer (slot, op) w = w \<or> run_op tipy transfer slot op w = Inr (run_tx tipy transfer (slot, op) w)"
  by (simp add: run_tx_def split: sum.splits)

text \<open>What every successful operation keeps, every run keeps.\<close>

lemma run_txs_invariant:
  assumes "\<And>slot op w w'. (slot, op) \<in> set txs \<Longrightarrow> I w \<Longrightarrow> run_op tipy transfer slot op w = Inr w' \<Longrightarrow> I w'" "I w"
  shows "I (run_txs tipy transfer txs w)"
  using assms
proof (induction txs arbitrary: w)
  case (Cons tx txs)
  obtain slot op where tx: "tx = (slot, op)" by (cases tx)
  have "I (run_tx tipy transfer tx w)"
    using run_tx_cases [of tipy transfer slot op w] Cons.prems(1) [of slot op w] Cons.prems(2) by (auto simp: tx)
  moreover have "I w'" if "(slot, op) \<in> set txs" "I w" "run_op tipy transfer slot op w = Inr w'" for slot op w w'
    using Cons.prems(1) that by (meson list.set_intros(2))
  ultimately show ?case using Cons.IH [of "run_tx tipy transfer tx w"] by (simp add: run_txs_def)
qed (simp add: run_txs_def)

section \<open>What an operation keeps\<close>

definition shield_config_ok :: "shield_config \<Rightarrow> bool" where
  "shield_config_ok c \<longleftrightarrow> hc_min_spread_bps c > 0 \<and> hc_treasury_share_bps c \<le> 10000 \<and>
     hc_min_sweep_amount c < hc_max_sweep_amount c \<and> hc_twap_window_seconds c \<ge> 15 \<and>
     hc_min_jit_lock_slots c \<le> GUARD_MAX_LOCK_SLOTS"

lemma if_some_ensures:
  "P s \<Longrightarrow> (\<And>v. ok v \<Longrightarrow> P (write v s)) \<Longrightarrow> (\<And>t. P t \<Longrightarrow> ensures Q (f t)) \<Longrightarrow>
     ensures Q (and_then (if_some x ok e write s) f)"
  by (cases x) (auto simp: if_some_def require_def ensures_def)

lemma case_keeps: "P s \<Longrightarrow> (\<And>v. P (f v)) \<Longrightarrow> P (case x of None \<Rightarrow> s | Some v \<Rightarrow> f v)"
  by (cases x) simp_all

text \<open>All of the validity but the range of the sweep amounts, which holds again only after both are written.\<close>

definition limits_ok :: "pubkey \<Rightarrow> pubkey \<Rightarrow> shield_config \<Rightarrow> bool" where
  "limits_ok treasury pool c \<longleftrightarrow> hc_min_spread_bps c > 0 \<and> hc_treasury_share_bps c \<le> 10000 \<and>
     hc_twap_window_seconds c \<ge> 15 \<and> hc_min_jit_lock_slots c \<le> GUARD_MAX_LOCK_SLOTS \<and>
     hc_treasury c = treasury \<and> hc_pool c = pool"

lemma update_keeps:
  assumes "update_shield_config authority pool u c = Inr c'" "shield_config_ok c"
  shows "shield_config_ok c' \<and> hc_treasury c' = hc_treasury c \<and> hc_pool c' = hc_pool c"
proof -
  let ?P = "limits_ok (hc_treasury c) (hc_pool c)" and ?R = "\<lambda>c. hc_min_sweep_amount c < hc_max_sweep_amount c"
  let ?Q = "\<lambda>c. ?P c \<and> ?R c"
  have start: "?P c" using assms(2) by (simp add: shield_config_ok_def limits_ok_def)
  have "ensures ?Q (update_shield_config authority pool u c)"
    unfolding update_shield_config_def Let_def
    apply (rule ensures_require)+
    apply (rule if_some_ensures [where P = ?P, OF start], use start in \<open>simp add: limits_ok_def\<close>)
    apply (rule if_some_ensures [where P = ?P], assumption, simp add: limits_ok_def)
    apply (rule if_some_ensures [where P = ?P], assumption, simp add: limits_ok_def)
    apply (rule ensures_require)
    apply (rule if_some_ensures [where P = ?Q])
      apply (simp add: limits_ok_def split: option.split option.split_asm)
     apply (simp add: limits_ok_def split: option.split option.split_asm)
    apply (rule ensures_value, simp add: limits_ok_def split: option.split)
    done
  from ensuresD [OF this assms(1)] show ?thesis by (auto simp: limits_ok_def shield_config_ok_def)
qed

lemma sweep_Inr:
  assumes "execute_arb_sweep transfer slot authority pool vault amount c g = Inr (c', g', routed)"
  shows "routed \<le> hc_max_sweep_amount c * hc_treasury_share_bps c div 10000"
    "hc_last_sweep_slot c + hc_cooldown_slots c \<le> slot" "hc_last_sweep_slot c' = slot"
    "\<exists>profit. c' = c\<lparr>hc_last_sweep_slot := slot, hc_total_profit_captured_a := profit\<rparr>"
    "hg_total_jit_blocks g' = hg_total_jit_blocks g" "vault = hc_treasury c" "authority = hc_arb_authority c"
    "transfer routed = Inr ()"
proof -
  have r: "routed = wrap_uint 64 (amount * hc_treasury_share_bps c div 10000)" "amount \<le> hc_max_sweep_amount c"
    using assms by (auto simp: execute_arb_sweep_def res_simps Let_def)
  then have "routed \<le> amount * hc_treasury_share_bps c div 10000" by (simp add: wrap_uint_def)
  also have "\<dots> \<le> hc_max_sweep_amount c * hc_treasury_share_bps c div 10000"
    using r(2) by (intro div_le_mono mult_right_mono) simp_all
  finally show "routed \<le> hc_max_sweep_amount c * hc_treasury_share_bps c div 10000" .
qed (use assms in \<open>auto simp: execute_arb_sweep_def res_simps Let_def\<close>)

lemma sweep_keeps:
  assumes "execute_arb_sweep transfer slot authority pool vault amount c g = Inr (c', g', routed)"
  shows "hc_max_sweep_amount c' = hc_max_sweep_amount c" "hc_treasury_share_bps c' = hc_treasury_share_bps c"
    "hc_cooldown_slots c' = hc_cooldown_slots c" "shield_config_ok c' = shield_config_ok c"
    "hc_treasury c' = hc_treasury c"
  using sweep_Inr(4) [OF assms] by (auto simp: shield_config_ok_def)

lemma check_keeps:
  assumes "check_jit_protection slot g global = ((g', global'), Inr ())"
  shows "hj_jit_blocks g' = hj_jit_blocks g" "hj_min_lock_slots g' = hj_min_lock_slots g" "global' = global"
  using assms by (auto simp: check_jit_protection_def guard_record_remove_def Let_def split: sum.splits if_split_asm)

lemma initialized_shield:
  assumes "initialize_pool_shield tipy admin pool bump init global = Inr (config, global')"
  shows "shield_config_ok config" "hc_treasury config = tipy" "hg_total_jit_blocks global' = hg_total_jit_blocks global"
  using assms
  by (auto simp: initialize_pool_shield_def require_Inr shield_config_ok_def GUARD_MAX_LOCK_SLOTS_def
      GUARD_DEFAULT_MIN_LOCK_SLOTS_def)

text \<open>What holds of the accounts between transactions.\<close>

definition shield_world_ok :: "pubkey \<Rightarrow> shield_world \<Rightarrow> bool" where
  "shield_world_ok tipy w \<longleftrightarrow> shield_config_ok (wd_config w) \<and> hc_treasury (wd_config w) = tipy \<and>
     hg_total_jit_blocks (wd_global w) = 0 \<and>
     (\<forall>g. wd_guard w = Some g \<longrightarrow> hj_jit_blocks g = 0 \<and> hj_min_lock_slots g \<le> GUARD_MAX_LOCK_SLOTS)"

lemma guard_starts:
  "init_jit_guard slot pool mint bump lock c = Inr g \<Longrightarrow> shield_config_ok c \<Longrightarrow>
     hj_jit_blocks g = 0 \<and> hj_min_lock_slots g \<le> GUARD_MAX_LOCK_SLOTS"
  by (auto simp: init_jit_guard_def require_Inr Let_def shield_config_ok_def)

lemma run_op_keeps:
  assumes "run_op tipy transfer slot op w = Inr w'" "shield_world_ok tipy w"
  shows "shield_world_ok tipy w'"
proof (cases op)
  case (InitGuard mint bump lock)
  then show ?thesis using assms
    by (auto simp: shield_world_ok_def require_plain_Inr and_then_Inr dest: guard_starts)
next
  case CheckJit
  then show ?thesis using assms
    by (auto simp: shield_world_ok_def and_then_Inr check_keeps dest: check_keeps(3)
        split: option.split_asm prod.split_asm)
next
  case RecordAdd
  then show ?thesis using assms
    by (auto simp: shield_world_ok_def record_jit_add_def guard_record_add_def split: option.split_asm)
next
  case (Sweep authority vault amount)
  then show ?thesis using assms
    by (auto simp: shield_world_ok_def and_then_triple_Inr sweep_keeps sweep_Inr(5))
next
  case (UpdateConfig authority u)
  then show ?thesis using assms
    by (auto simp: shield_world_ok_def and_then_Inr dest: update_keeps)
next
  case (ProtectPool admin pool bump config)
  then show ?thesis using assms
    by (auto simp: shield_world_ok_def and_then_pair_Inr initialized_shield)
qed

text \<open>
  The lock of a guard: a removal passes exactly when the lock since the last recorded addition is over, and the
  addition can be recorded by any signer, so a lock can be renewed for ever by anyone.
\<close>

lemma recorded_add_locks:
  assumes "slot' < slot + hj_min_lock_slots g" "wd_guard w = Some g" "slot + hj_min_lock_slots g < 2 ^ 64"
  shows "run_txs tipy transfer [(slot, RecordAdd), (slot', CheckJit)] w = run_txs tipy transfer [(slot, RecordAdd)] w"
  using assms
  by (simp add: run_txs_def run_tx_def record_jit_add_def guard_record_add_def check_jit_protection_def
      guard_can_remove_def u_defs)

text \<open>The owner of a position chooses its lock, below the minimum of the shield if he likes.\<close>

lemma lock_below_minimum:
  assumes "hc_enabled c" "hc_pool c = pool" "0 < lock" "lock \<le> GUARD_MAX_LOCK_SLOTS"
  shows "\<exists>g. init_jit_guard slot pool mint bump lock c = Inr g \<and> hj_min_lock_slots g = lock"
  using assms by (simp add: init_jit_guard_def min_def)

section \<open>The rate of sweeps\<close>

text \<open>
  With the configuration \<open>c\<close> left alone, \<open>swept s0 s1 r0 c w\<close> bounds what sweeps in the slots from \<open>s0\<close> to \<open>s1\<close> have
  moved beyond \<open>r0\<close>: after \<open>k\<close> of them the last one is at least \<open>k - 1\<close> cooldowns after \<open>s0\<close>.
\<close>

definition sweep_cap :: "shield_config \<Rightarrow> nat" where
  "sweep_cap c = hc_max_sweep_amount c * hc_treasury_share_bps c div 10000"

definition swept :: "nat \<Rightarrow> nat \<Rightarrow> nat \<Rightarrow> shield_config \<Rightarrow> shield_world \<Rightarrow> bool" where
  "swept s0 s1 r0 c w \<longleftrightarrow>
     hc_cooldown_slots (wd_config w) = hc_cooldown_slots c \<and> sweep_cap (wd_config w) = sweep_cap c \<and>
     (\<exists>k. wd_routed w \<le> r0 + k * sweep_cap c \<and>
       (k = 0 \<or> s0 + (k - 1) * hc_cooldown_slots c \<le> hc_last_sweep_slot (wd_config w) \<and>
         hc_last_sweep_slot (wd_config w) \<le> s1))"

lemma swept_step:
  assumes "swept s0 s1 r0 c w" "run_op tipy transfer slot op w = Inr w'" "s0 \<le> slot" "slot \<le> s1"
    "\<forall>authority u. op \<noteq> UpdateConfig authority u"
  shows "swept s0 s1 r0 c w'"
proof (cases op)
  case (Sweep authority vault amount)
  then obtain c' g' routed where sweep: "execute_arb_sweep (transfer slot) slot authority (hc_pool (wd_config w)) vault
      amount (wd_config w) (wd_global w) = Inr (c', g', routed)"
    and w': "w' = w\<lparr>wd_config := c', wd_global := g', wd_routed := wd_routed w + routed\<rparr>"
    using assms(2) by (auto simp: and_then_triple_Inr)
  note facts = sweep_Inr(1-3) [OF sweep] sweep_keeps [OF sweep]
  obtain k where k: "wd_routed w \<le> r0 + k * sweep_cap c"
    "k = 0 \<or> s0 + (k - 1) * hc_cooldown_slots c \<le> hc_last_sweep_slot (wd_config w)"
    and same: "hc_cooldown_slots (wd_config w) = hc_cooldown_slots c" "sweep_cap (wd_config w) = sweep_cap c"
    using assms(1) by (auto simp: swept_def)
  have "routed \<le> sweep_cap c" using facts(1) same by (simp add: sweep_cap_def)
  then have "wd_routed w' \<le> r0 + Suc k * sweep_cap c" using k(1) by (simp add: w')
  moreover have "s0 + (Suc k - 1) * hc_cooldown_slots c \<le> slot"
    using k(2) facts(2) same assms(3) by (cases k) (auto simp: algebra_simps)
  ultimately show ?thesis using facts same assms(4) by (auto simp: swept_def w' sweep_cap_def intro!: exI [of _ "Suc k"])
qed (use assms in \<open>auto simp: swept_def require_plain_Inr and_then_Inr and_then_pair_Inr split: option.split_asm prod.split_asm\<close>)

lemma swept_bound:
  assumes "swept s0 s1 r0 c w" "0 < hc_cooldown_slots c"
  shows "wd_routed w \<le> r0 + (1 + (s1 - s0) div hc_cooldown_slots c) * sweep_cap c"
proof -
  obtain k where k: "wd_routed w \<le> r0 + k * sweep_cap c" "k = 0 \<or> s0 + (k - 1) * hc_cooldown_slots c \<le> s1"
    using assms(1) by (auto simp: swept_def)
  have "k \<le> 1 + (s1 - s0) div hc_cooldown_slots c"
  proof (cases k)
    case (Suc n)
    then have "n * hc_cooldown_slots c \<le> s1 - s0" using k(2) by simp
    then show ?thesis using assms(2) Suc by (simp add: le_div_iff)
  qed simp
  then have "k * sweep_cap c \<le> (1 + (s1 - s0) div hc_cooldown_slots c) * sweep_cap c" by (rule mult_right_mono) simp
  then show ?thesis using k(1) by linarith
qed

section \<open>Properties\<close>

text \<open>
  C38. The accounts of a shield stay valid through every run of transactions: the limits that the initialization checks
  hold, the treasury stays the one of the program, no lock is longer than the ceiling. And the counters of blocked
  removals never move: the check that blocks a removal returns an error, which discards the counts it has just written.
\<close>

theorem shield_stays_valid:
  assumes "initialize_pool_shield tipy admin pool bump init global = Inr (config, global')" "hg_total_jit_blocks global = 0"
    and "w = run_txs tipy transfer txs
    \<lparr>wd_config = config, wd_guard = None, wd_global = global', wd_routed = 0\<rparr>"
  shows "shield_config_ok (wd_config w) \<and> hc_treasury (wd_config w) = tipy \<and> hg_total_jit_blocks (wd_global w) = 0 \<and>
    (\<forall>g. wd_guard w = Some g \<longrightarrow> hj_jit_blocks g = 0 \<and> hj_min_lock_slots g \<le> GUARD_MAX_LOCK_SLOTS)"
proof -
  have "shield_world_ok tipy w"
    unfolding assms(3)
  proof (rule run_txs_invariant [of _ "shield_world_ok tipy"])
    show "shield_world_ok tipy \<lparr>wd_config = config, wd_guard = None, wd_global = global', wd_routed = 0\<rparr>"
      using initialized_shield [OF assms(1)] assms(2) by (simp add: shield_world_ok_def)
  qed (use run_op_keeps in blast)
  then show ?thesis by (simp add: shield_world_ok_def)
qed


section \<open>Witnesses\<close>

definition example_init :: shield_init_config where
  "example_init = \<lparr>hi_arb_authority = 5, hi_min_spread_bps = 30, hi_treasury_share_bps = 2000,
     hi_twap_window_seconds = 60, hi_min_sweep_amount = 100, hi_max_sweep_amount = 1000000, hi_cooldown_slots = 10,
     hi_manipulation_threshold_bps = 50, hi_min_jit_lock_slots = 0\<rparr>"

definition example_world :: shield_world where
  "example_world =
     (case initialize_pool_shield 77 1 8 255 example_init (initialize_global 1 254) of
        Inr (config, global) \<Rightarrow> \<lparr>wd_config = config, wd_guard = None, wd_global = global, wd_routed = 0\<rparr>)"

lemmas example_simps = example_world_def example_init_def initialize_pool_shield_def initialize_global_def
  GUARD_MAX_LOCK_SLOTS_def GUARD_DEFAULT_MIN_LOCK_SLOTS_def saturating_add_def

theorem shield_stays_valid_witness:
  "hg_total_jit_blocks (wd_global (run_txs 77 (\<lambda>_ _. Inr ()) [(20, InitGuard 9 255 50), (30, CheckJit)] example_world)) = 0 \<and>
   (\<exists>g. wd_guard (run_txs 77 (\<lambda>_ _. Inr ()) [(20, InitGuard 9 255 50), (30, CheckJit)] example_world) = Some g \<and>
      hj_add_count g = 1 \<and> hj_jit_blocks g = 0)"
proof -
  let ?w = "run_txs 77 (\<lambda>_ _. Inr ()) [(20, InitGuard 9 255 50), (30, CheckJit)] example_world"
  have guard: "\<exists>g. wd_guard ?w = Some g \<and> hj_add_count g = 1"
    by (simp add: example_simps run_txs_def run_tx_def init_jit_guard_def check_jit_protection_def guard_can_remove_def
        u_defs)
  obtain config global where start: "initialize_pool_shield 77 1 8 255 example_init (initialize_global 1 254) =
      Inr (config, global)"
    by (simp add: example_simps)
  have "example_world = \<lparr>wd_config = config, wd_guard = None, wd_global = global, wd_routed = 0\<rparr>"
    by (simp only: example_world_def start sum.case prod.case)
  from arg_cong [OF this, of "run_txs 77 (\<lambda>_ _. Inr ()) [(20, InitGuard 9 255 50), (30, CheckJit)]"]
  have "hg_total_jit_blocks (wd_global ?w) = 0 \<and> (\<forall>g. wd_guard ?w = Some g \<longrightarrow> hj_jit_blocks g = 0)"
    using shield_stays_valid [OF start, of ?w "\<lambda>_ _. Inr ()" "[(20, InitGuard 9 255 50), (30, CheckJit)]"]
    by (simp add: initialize_global_def)
  then show ?thesis using guard by blast
qed


end
