(* ===== verification/Nft_Position.thy ===== *)
theory Nft_Position
  imports Prelude
begin

text \<open>
  The program that turns positions into NFTs, \<open>programs/nebula-nft-position\<close>: the record of a position NFT and its four
  instructions. The calls to the token and system programs are arguments, each the answer of the program called;
  a failed call fails the instruction. The events are left out.
\<close>

section \<open>The record and its instructions\<close>

text \<open>The errors are numbered by \<open>NftError\<close>, the enumeration of this program.\<close>

abbreviation Nft_NftNotTransferable :: error_code where "Nft_NftNotTransferable \<equiv> ErrorCode 0"
abbreviation Nft_NotPositionOwner :: error_code where "Nft_NotPositionOwner \<equiv> ErrorCode 1"
abbreviation Nft_InvalidPoolId :: error_code where "Nft_InvalidPoolId \<equiv> ErrorCode 2"
abbreviation Nft_InvalidTreasury :: error_code where "Nft_InvalidTreasury \<equiv> ErrorCode 4"
abbreviation Nft_Unauthorized :: error_code where "Nft_Unauthorized \<equiv> ErrorCode 5"

record nft_position_record =
  nr_nft_mint :: pubkey
  nr_pool_id :: pubkey
  nr_tick_lower :: int
  nr_tick_upper :: int
  nr_owner :: pubkey
  nr_transferable :: bool
  nr_bump :: nat

definition MINT_FEE_LAMPORTS :: nat where "MINT_FEE_LAMPORTS = 1000000"

text \<open>\<open>pay\<close> is the answer of the system program to the transfer of the fee, \<open>mint_to\<close> that of the token program to
  minting one token.\<close>

definition mint_position_nft ::
  "pubkey \<Rightarrow> (nat \<Rightarrow> unit res) \<Rightarrow> unit res \<Rightarrow> pubkey \<Rightarrow> pubkey \<Rightarrow> pubkey \<Rightarrow> nat \<Rightarrow> pubkey \<Rightarrow> int \<Rightarrow> int
     \<Rightarrow> nft_position_record res" where
  "mint_position_nft tipy_treasury pay mint_to owner nft_mint treasury bump pool_id tick_lower tick_upper =
     require (treasury = tipy_treasury) Nft_InvalidTreasury
     (require (tick_lower < tick_upper) Nft_InvalidPoolId
     (and_then (pay MINT_FEE_LAMPORTS) (\<lambda>_.
      and_then mint_to (\<lambda>_.
      Inr \<lparr>nr_nft_mint = nft_mint, nr_pool_id = pool_id, nr_tick_lower = tick_lower, nr_tick_upper = tick_upper,
        nr_owner = owner, nr_transferable = False, nr_bump = bump\<rparr>))))"

text \<open>The record is closed by the framework when the handler returns: the result is what is left of it.\<close>

definition burn_position_nft ::
  "unit res \<Rightarrow> pubkey \<Rightarrow> nft_position_record \<Rightarrow> nft_position_record option res" where
  "burn_position_nft burn owner r =
     require (nr_owner r = owner) Nft_NotPositionOwner (and_then burn (\<lambda>_. Inr None))"

definition set_transferable ::
  "pubkey \<Rightarrow> pubkey \<Rightarrow> bool \<Rightarrow> nft_position_record \<Rightarrow> nft_position_record res" where
  "set_transferable nebula_admin admin transferable r =
     require (admin = nebula_admin) Nft_Unauthorized (Inr (r\<lparr>nr_transferable := transferable\<rparr>))"

definition transfer_position ::
  "unit res \<Rightarrow> pubkey \<Rightarrow> pubkey \<Rightarrow> nft_position_record \<Rightarrow> nft_position_record res" where
  "transfer_position transfer owner new_owner r =
     require (nr_transferable r) Nft_NftNotTransferable
     (require (nr_owner r = owner) Nft_NotPositionOwner
     (and_then transfer (\<lambda>_. Inr (r\<lparr>nr_owner := new_owner\<rparr>))))"

section \<open>The life of a record\<close>

text \<open>
  One transaction on the record \<open>r\<close>: the signer, and whatever the programs called answer. A closed record stays closed,
  since the mint whose address it is derived from cannot be created again.
\<close>

inductive nft_step :: "pubkey \<Rightarrow> pubkey \<Rightarrow> nft_position_record option \<Rightarrow> nft_position_record option \<Rightarrow> bool"
  for nebula_admin :: pubkey where
  nft_burn: "burn_position_nft answer signer r = Inr r' \<Longrightarrow> nft_step nebula_admin signer (Some r) r'"
| nft_set: "set_transferable nebula_admin signer b r = Inr r' \<Longrightarrow> nft_step nebula_admin signer (Some r) (Some r')"
| nft_move: "transfer_position answer signer new_owner r = Inr r' \<Longrightarrow> nft_step nebula_admin signer (Some r) (Some r')"

inductive_cases nft_stepE: "nft_step nebula_admin signer r r'"

inductive_simps nft_step_closed: "nft_step nebula_admin signer None r"

inductive nft_run :: "pubkey \<Rightarrow> pubkey list \<Rightarrow> nft_position_record option \<Rightarrow> nft_position_record option \<Rightarrow> bool"
  for nebula_admin :: pubkey where
  nft_run_done: "nft_run nebula_admin [] r r"
| nft_run_step: "nft_run nebula_admin signers r s \<Longrightarrow> nft_step nebula_admin signer s t \<Longrightarrow>
    nft_run nebula_admin (signers @ [signer]) r t"

lemma nft_step_simps:
  "nft_step nebula_admin signer (Some r) t \<longleftrightarrow>
     (nr_owner r = signer \<and> t = None) \<or>
     (signer = nebula_admin \<and> (\<exists>b. t = Some (r\<lparr>nr_transferable := b\<rparr>))) \<or>
     (nr_transferable r \<and> nr_owner r = signer \<and> (\<exists>new_owner. t = Some (r\<lparr>nr_owner := new_owner\<rparr>)))"
proof
  show "nft_step nebula_admin signer (Some r) t" if "nr_owner r = signer \<and> t = None \<or>
     signer = nebula_admin \<and> (\<exists>b. t = Some (r\<lparr>nr_transferable := b\<rparr>)) \<or>
     nr_transferable r \<and> nr_owner r = signer \<and> (\<exists>new_owner. t = Some (r\<lparr>nr_owner := new_owner\<rparr>))"
    using that nft_burn [of "Inr ()" signer r t nebula_admin] nft_set [of nebula_admin signer _ r]
      nft_move [of "Inr ()" signer _ r _ nebula_admin]
    by (auto simp: burn_position_nft_def set_transferable_def transfer_position_def)
qed (auto elim!: nft_stepE simp: burn_position_nft_def set_transferable_def transfer_position_def res_simps)


definition example_record :: nft_position_record where
  "example_record = \<lparr>nr_nft_mint = 20, nr_pool_id = 30, nr_tick_lower = -10, nr_tick_upper = 10, nr_owner = 7,
     nr_transferable = False, nr_bump = 255\<rparr>"


end
