(* ===== verification/Drift_Math.thy ===== *)
theory Drift_Math
  imports Prelude
begin

text \<open>
  The arithmetic of the perpetuals program, \<open>programs/drift/src/math\<close>: the checked operations of \<open>safe_math.rs\<close>, the
  casts of \<open>casting.rs\<close>, the rounding divisions of \<open>floor_div.rs\<close> and \<open>ceil_div.rs\<close>, the helpers of \<open>helpers.rs\<close> and the
  averages of \<open>stats.rs\<close>. An operation takes the width of its type; unsigned values are naturals and signed ones
  integers. The log messages are left out.
\<close>

section \<open>Errors\<close>

text \<open>The errors are numbered by \<open>ErrorCode\<close> of this program.\<close>

abbreviation Drift_MathError :: error_code where "Drift_MathError \<equiv> ErrorCode 19"
abbreviation Drift_BnConversionError :: error_code where "Drift_BnConversionError \<equiv> ErrorCode 20"
abbreviation Drift_CastingFailure :: error_code where "Drift_CastingFailure \<equiv> ErrorCode 41"
abbreviation Drift_UnableToCastUnixTime :: error_code where "Drift_UnableToCastUnixTime \<equiv> ErrorCode 82"

section \<open>Checked operations\<close>

definition safe_add :: "nat \<Rightarrow> nat \<Rightarrow> nat \<Rightarrow> nat res" where
  "safe_add w a b = ok_or (checked_add w a b) Drift_MathError"

definition safe_sub :: "nat \<Rightarrow> nat \<Rightarrow> nat res" where
  "safe_sub a b = ok_or (checked_sub a b) Drift_MathError"

definition safe_mul :: "nat \<Rightarrow> nat \<Rightarrow> nat \<Rightarrow> nat res" where
  "safe_mul w a b = ok_or (checked_mul w a b) Drift_MathError"

definition safe_div :: "nat \<Rightarrow> nat \<Rightarrow> nat res" where
  "safe_div a b = ok_or (checked_div a b) Drift_MathError"

text \<open>\<open>checked_ceil_div\<close>: the quotient, and one more if there is a remainder.\<close>

definition checked_ceil_div :: "nat \<Rightarrow> nat \<Rightarrow> nat \<Rightarrow> nat option" where
  "checked_ceil_div w a b =
     (if b = 0 then None else if a mod b > 0 then checked_add w (a div b) 1 else Some (a div b))"

definition safe_div_ceil :: "nat \<Rightarrow> nat \<Rightarrow> nat \<Rightarrow> nat res" where
  "safe_div_ceil w a b = ok_or (checked_ceil_div w a b) Drift_MathError"

text \<open>The signed operations; \<open>checked_div\<close> fails on 0 and on the one quotient that does not fit.\<close>

definition safe_i :: "nat \<Rightarrow> int \<Rightarrow> int res" where
  "safe_i w x = ok_or (checked_i w x) Drift_MathError"

definition checked_div_i :: "nat \<Rightarrow> int \<Rightarrow> int \<Rightarrow> int option" where
  "checked_div_i w a b = (if b = 0 then None else checked_i w (a sdiv b))"

definition safe_div_i :: "nat \<Rightarrow> int \<Rightarrow> int \<Rightarrow> int res" where
  "safe_div_i w a b = ok_or (checked_div_i w a b) Drift_MathError"

text \<open>\<open>checked_floor_div\<close> of the source: the truncated quotient, less one whenever there is a remainder.\<close>

definition checked_floor_div :: "nat \<Rightarrow> int \<Rightarrow> int \<Rightarrow> int option" where
  "checked_floor_div w a b =
     (case checked_div_i w a b of
        None \<Rightarrow> None
      | Some q \<Rightarrow> if a smod b \<noteq> 0 then checked_i w (q - 1) else Some q)"

definition safe_div_floor :: "nat \<Rightarrow> int \<Rightarrow> int \<Rightarrow> int res" where
  "safe_div_floor w a b = ok_or (checked_floor_div w a b) Drift_MathError"

text \<open>\<open>cast\<close> to an unsigned and to a signed type.\<close>

definition cast_u :: "nat \<Rightarrow> int \<Rightarrow> nat res" where
  "cast_u w x = (if 0 \<le> x \<and> x < 2 ^ w then Inr (nat x) else fail Drift_CastingFailure)"

definition cast_i :: "nat \<Rightarrow> int \<Rightarrow> int res" where
  "cast_i w x = (if fits_i w x then Inr x else fail Drift_CastingFailure)"

lemma safe_Inr [res_simps]:
  "safe_add w a b = Inr c \<longleftrightarrow> c = a + b \<and> a + b < 2 ^ w"
  "safe_sub a b = Inr c \<longleftrightarrow> c = a - b \<and> b \<le> a"
  "safe_mul w a b = Inr c \<longleftrightarrow> c = a * b \<and> a * b < 2 ^ w"
  "safe_div a b = Inr c \<longleftrightarrow> c = a div b \<and> b \<noteq> 0"
  by (simp_all add: safe_add_def safe_sub_def safe_mul_def safe_div_def ok_or_Inr checked_simps)

lemma ceil_div_mod: "0 < b \<Longrightarrow> ceil_div a b = (if a mod b > 0 then a div b + 1 else a div b)"
proof -
  assume b: "0 < b"
  have "a = a div b * b + a mod b" by simp
  then have "ceil_div a b = (a div b * b + (a mod b + (b - 1))) div b" by (simp add: ceil_div_def)
  also have "\<dots> = a div b + (a mod b + (b - 1)) div b" using b by (intro div_mult_self3) simp
  finally have *: "ceil_div a b = a div b + (a mod b + (b - 1)) div b" .
  show ?thesis
  proof (cases "a mod b = 0")
    case False
    have "a mod b < b" using b by simp
    then have "(a mod b + (b - 1)) div b = 1"
      using False by (simp add: div_nat_eqI)
    then show ?thesis using * False by simp
  qed (use * b in simp)
qed

lemma safe_div_ceil_Inr [res_simps]: "safe_div_ceil w a b = Inr c \<Longrightarrow> c = ceil_div a b \<and> b \<noteq> 0"
  by (auto simp: safe_div_ceil_def checked_ceil_div_def ok_or_Inr checked_simps ceil_div_mod split: if_split_asm)

lemma safe_i_Inr [res_simps]: "safe_i w x = Inr y \<longleftrightarrow> y = x \<and> fits_i w x"
  by (simp add: safe_i_def ok_or_Inr checked_i_Some)

lemma safe_div_i_Inr [res_simps]: "safe_div_i w a b = Inr c \<longleftrightarrow> c = a sdiv b \<and> b \<noteq> 0 \<and> fits_i w (a sdiv b)"
  by (auto simp: safe_div_i_def checked_div_i_def ok_or_Inr checked_i_Some)

lemma cast_Inr [res_simps]:
  "cast_u w x = Inr n \<longleftrightarrow> 0 \<le> x \<and> x < 2 ^ w \<and> n = nat x"
  "cast_i w x = Inr y \<longleftrightarrow> y = x \<and> fits_i w x"
  by (auto simp: cast_u_def cast_i_def fail_Inr split: if_split_asm)

lemmas safe_defs = safe_add_def safe_sub_def safe_mul_def safe_div_def safe_div_ceil_def checked_ceil_div_def safe_i_def
  checked_div_i_def safe_div_i_def cast_u_def cast_i_def checked_i_def fits_i_def u_defs

text \<open>
  On negative dividends the division is the floor. On positive ones with a remainder it is one below it: the tests
  of the source and its callers use it on negative values only.
\<close>

lemma floor_div_negative:
  assumes "safe_div_floor w a b = Inr c" "a \<le> 0" "0 < b"
  shows "c = a div b"
proof -
  have "a sdiv b = - (- a div b)" using assms(2,3) by (simp add: signed_divide_int_def sgn_if)
  moreover have "a smod b = - (- a mod b)"
    using assms(2,3) by (auto simp: signed_modulo_int_def sgn_if)
  moreover have "c = (if a smod b \<noteq> 0 then a sdiv b - 1 else a sdiv b)"
    using assms(1,3)
    by (auto simp: safe_div_floor_def checked_floor_div_def ok_or_Inr checked_div_i_def checked_i_Some
        split: option.split_asm if_split_asm)
  moreover have "a mod b \<noteq> b" using assms(3) pos_mod_bound [of b a] by linarith
  ultimately show ?thesis using assms(3) by (auto simp: zmod_zminus1_eq_if zdiv_zminus1_eq_if split: if_splits)
qed

lemma floor_div_positive:
  assumes "safe_div_floor w a b = Inr c" "0 < a" "0 < b" "\<not> b dvd a"
  shows "c = a div b - 1"
  using assms
  by (auto simp: safe_div_floor_def checked_floor_div_def ok_or_Inr checked_div_i_def checked_i_Some
      signed_divide_int_def sgn_if smod_eq_0_iff split: option.split_asm if_split_asm)

section \<open>Helpers\<close>

definition standardize_value_with_remainder_i128 :: "int \<Rightarrow> nat \<Rightarrow> (int \<times> int) res" where
  "standardize_value_with_remainder_i128 v step_size =
     (if step_size = 0 then fail Drift_MathError
      else
        and_then (cast_i 128 (int (nat \<bar>v\<bar> mod step_size))) (\<lambda>magnitude.
        and_then (safe_i 128 (magnitude * sgn v)) (\<lambda>remainder.
        and_then (safe_i 128 (v - remainder)) (\<lambda>standardized_value. Inr (standardized_value, remainder)))))"

text \<open>A proportion, by three routes: in 192 bits for large values, by the complement for a ratio near 1, else directly.\<close>

definition get_proportion_u128 :: "nat \<Rightarrow> nat \<Rightarrow> nat \<Rightarrow> nat res" where
  "get_proportion_u128 v numerator denominator =
     (if numerator = denominator then Inr v
      else if v \<ge> U64_MAX \<or> numerator \<ge> U64_MAX then
        and_then (safe_mul 192 v numerator) (\<lambda>product.
        and_then (safe_div product denominator) (\<lambda>q. cast_u 128 (int q)))
      else if numerator > denominator div 2 \<and> denominator > numerator then
        and_then (safe_sub denominator numerator) (\<lambda>rest.
        and_then (safe_mul 128 v rest) (\<lambda>product.
        and_then (cast_i 128 (int product)) (\<lambda>product.
        and_then (standardize_value_with_remainder_i128 product denominator) (\<lambda>(std_value, r).
        and_then (cast_u 128 std_value) (\<lambda>std_value.
        and_then (safe_div std_value denominator) (\<lambda>q.
        and_then (safe_sub v q) (\<lambda>left.
        and_then (cast_u 128 (sgn r)) (\<lambda>bias. safe_sub left bias))))))))
      else and_then (safe_mul 128 v numerator) (\<lambda>product. safe_div product denominator))"

definition get_proportion_i128 :: "int \<Rightarrow> nat \<Rightarrow> nat \<Rightarrow> int res" where
  "get_proportion_i128 v numerator denominator =
     and_then (get_proportion_u128 (nat \<bar>v\<bar>) numerator denominator) (\<lambda>proportional.
     and_then (cast_i 128 (int proportional)) (\<lambda>magnitude. safe_i 128 (magnitude * sgn v)))"

text \<open>The time to the next update, which is aligned with multiples of the period.\<close>

definition on_the_hour_update :: "int \<Rightarrow> int \<Rightarrow> int \<Rightarrow> int res" where
  "on_the_hour_update now last_update_ts update_period =
     and_then (safe_i 64 (now - last_update_ts)) (\<lambda>time_since_last_update.
     and_then
       (if update_period > 1 then
          let last_update_delay = last_update_ts mod update_period in
          if last_update_delay \<noteq> 0 then
            and_then (safe_div_i 64 update_period 3) (\<lambda>max_delay_for_next_period.
            and_then (safe_i 64 (update_period * 2)) (\<lambda>two_funding_periods.
            and_then
              (if last_update_delay > max_delay_for_next_period
               then safe_i 64 (two_funding_periods - last_update_delay)
               else safe_i 64 (update_period - last_update_delay)) (\<lambda>next_update_wait.
            if next_update_wait > two_funding_periods then safe_i 64 (next_update_wait - update_period)
            else Inr next_update_wait)))
          else Inr update_period
        else Inr update_period) (\<lambda>next_update_wait.
     and_then (safe_i 64 (next_update_wait - time_since_last_update)) (\<lambda>time_remaining.
     Inr (max time_remaining 0))))"

fun log10_iter :: "nat \<Rightarrow> nat" where
  "log10_iter n = (if n \<ge> 10 then log10_iter (n div 10) + 1 else 0)"

declare log10_iter.simps [simp del]

section \<open>Averages\<close>

text \<open>\<open>bias\<close> moves the average one unit towards the newer value, unless it is given.\<close>

definition calculate_weighted_average :: "int \<Rightarrow> int \<Rightarrow> int \<Rightarrow> int \<Rightarrow> int option \<Rightarrow> int res" where
  "calculate_weighted_average data1 data2 weight1 weight2 bias =
     and_then (safe_i 64 (weight1 + weight2)) (\<lambda>denominator.
     and_then (safe_i 128 (data1 * weight1)) (\<lambda>prev_twap_99.
     and_then (safe_i 128 (data2 * weight2)) (\<lambda>latest_price_01.
     if weight1 = 0 then Inr data2
     else if weight2 = 0 then Inr data1
     else
       let bias = (case bias of Some b \<Rightarrow> b
             | None \<Rightarrow> if weight2 > 1 then
                 (if latest_price_01 < prev_twap_99 then - 1 else if latest_price_01 > prev_twap_99 then 1 else 0)
               else 0)
       in and_then (safe_i 128 (prev_twap_99 + latest_price_01)) (\<lambda>total.
          and_then (safe_div_i 128 total denominator) (\<lambda>q.
          and_then (cast_i 64 q) (\<lambda>twap.
          if twap = 0 \<and> bias < 0 then Inr twap else safe_i 64 (twap + bias)))))))"

definition calculate_new_twap :: "int \<Rightarrow> int \<Rightarrow> int \<Rightarrow> int \<Rightarrow> int \<Rightarrow> int res" where
  "calculate_new_twap current_price current_ts last_twap last_ts period =
     and_then (safe_i 64 (current_ts - last_ts)) (\<lambda>elapsed.
     let since_last = max 0 elapsed in
     and_then (safe_i 64 (period - since_last)) (\<lambda>rest.
     let from_start = max 1 rest in
     calculate_weighted_average current_price last_twap since_last from_start None))"

definition calculate_rolling_sum :: "nat \<Rightarrow> nat \<Rightarrow> int \<Rightarrow> int \<Rightarrow> nat res" where
  "calculate_rolling_sum data1 data2 weight1_numer weight1_denom =
     and_then (safe_i 64 (weight1_denom - weight1_numer)) (\<lambda>rest.
     and_then (cast_u 128 (max 0 rest)) (\<lambda>weight.
     and_then (safe_mul 128 data1 weight) (\<lambda>product.
     and_then (cast_u 128 weight1_denom) (\<lambda>denominator.
     and_then (safe_div product denominator) (\<lambda>prev.
     and_then (cast_u 64 (int prev)) (\<lambda>prev. safe_add 64 prev data2))))))"

section \<open>The proportion is exact\<close>

lemma complement_div:
  fixes v n d :: nat
  assumes "n \<le> d" "0 < d"
  shows "v * (d - n) div d + (if v * (d - n) mod d = 0 then 0 else 1) + v * n div d = v"
proof -
  let ?q = "v * (d - n) div d" and ?r = "v * (d - n) mod d"
  have split: "v * n + v * (d - n) = v * d" using assms(1) by (metis add_mult_distrib2 le_add_diff_inverse)
  have total: "v * n + (?q * d + ?r) = v * d" using split by simp
  have "?q \<le> v * d div d" by (intro div_le_mono mult_le_mono2) simp
  then have q: "?q \<le> v" using assms(2) by simp
  show ?thesis
  proof (cases "?r = 0")
    case True
    then have "v * n = (v - ?q) * d" using total q by (simp add: diff_mult_distrib)
    then have "v * n div d = v - ?q" using assms(2) by simp
    then show ?thesis using True q by simp
  next
    case False
    have r: "?r < d" using assms(2) by simp
    have "?q * d < v * d" using total False by linarith
    then obtain w where w: "v = ?q + 1 + w" using less_imp_add_positive [of ?q v] by (auto dest: less_imp_Suc_add)
    then have "v * d = ?q * d + d + w * d" by (metis add_mult_distrib mult_1)
    then have "v * n = w * d + (d - ?r)" using total r by linarith
    moreover have "(w * d + (d - ?r)) div d = w"
      using False r by (intro div_nat_eqI) (simp_all add: mult.commute [of w])
    ultimately have "v * n div d = w" by simp
    then show ?thesis using False w by presburger
  qed
qed

text \<open>A result is the rounded-down proportion; the values below \<open>2^63\<close> always have one.\<close>

lemma standardize_Inr:
  assumes "standardize_value_with_remainder_i128 (int v) d = Inr (s, r)"
  shows "d \<noteq> 0 \<and> s = int (v - v mod d) \<and> r = int (v mod d)"
proof -
  have d: "d \<noteq> 0"
    using assms by (cases "d = 0") (simp_all add: standardize_value_with_remainder_i128_def fail_Inr)
  have "s = int v - r" "r = int (v mod d) * sgn (int v)"
    using assms d by (auto simp: standardize_value_with_remainder_i128_def and_then_Inr cast_Inr safe_i_Inr)
  moreover have "int (v mod d) * sgn (int v) = int (v mod d)" by (cases v) simp_all
  moreover have "v mod d \<le> v" by simp
  ultimately show ?thesis using d by (simp add: of_nat_diff)
qed

lemma standardize_nat:
  assumes "0 < d" "v < 2 ^ 126"
  shows "standardize_value_with_remainder_i128 (int v) d = Inr (int (v - v mod d), int (v mod d))"
proof -
  have m: "v mod d \<le> v" by simp
  have small: "fits_i 128 (int k)" if "k \<le> v" for k using that assms(2) by (simp add: fits_i_def)
  have sign: "int (v mod d) * sgn (int v) = int (v mod d)" by (cases v) simp_all
  have "cast_i 128 (int (nat \<bar>int v\<bar> mod d)) = Inr (int (v mod d))" using small [OF m] by (simp add: cast_i_def)
  moreover have "safe_i 128 (int (v mod d) * sgn (int v)) = Inr (int (v mod d))"
    unfolding sign using small [OF m] by (simp add: safe_i_Inr)
  moreover have "safe_i 128 (int v - int (v mod d)) = Inr (int (v - v mod d))"
    using small [of "v - v mod d"] by (simp add: safe_i_Inr of_nat_diff)
  ultimately show ?thesis using assms(1) by (simp add: standardize_value_with_remainder_i128_def)
qed

lemma fits_nat: "k < 2 ^ 126 \<Longrightarrow> fits_i 128 (int k)"
  by (simp add: fits_i_def)

lemma cast_nat: "k < 2 ^ 126 \<Longrightarrow> cast_u 128 (int k) = Inr k"
  by (simp add: cast_u_def)

lemma proportion_middle:
  assumes "v < 2 ^ 63" "n < 2 ^ 63" "d div 2 < n" "n < d"
  shows "get_proportion_u128 v n d = Inr (v * n div d)"
proof -
  let ?x = "v * (d - n)" and ?b = "if v * (d - n) mod d = 0 then 0 else 1 :: nat"
  have d: "0 < d" using assms by simp
  have "d - n \<le> 2 ^ 63" using assms by linarith
  then have "?x \<le> v * 2 ^ 63" by (rule mult_le_mono2)
  also have "\<dots> < 2 ^ 63 * 2 ^ 63" using assms(1) by (rule mult_strict_right_mono) simp
  finally have x: "?x < 2 ^ 126" by simp
  have whole: "?x div d + ?b + v * n div d = v" using complement_div [of n d v] assms(4) d by simp
  have q: "(?x - ?x mod d) div d = ?x div d" using d by (metis minus_mod_eq_mult_div nonzero_mult_div_cancel_left not_gr_zero)
  have small: "?x - ?x mod d < 2 ^ 126" using x by (meson diff_le_self le_less_trans)
  have 1: "safe_sub d n = Inr (d - n)" using assms(4) by (simp add: safe_Inr)
  have 2: "safe_mul 128 v (d - n) = Inr ?x" unfolding safe_Inr using x by simp
  have 3: "cast_i 128 (int ?x) = Inr (int ?x)" unfolding cast_Inr using fits_nat [OF x] by blast
  have 4: "cast_u 128 (int (?x - ?x mod d)) = Inr (?x - ?x mod d)" by (rule cast_nat [OF small])
  have 5: "safe_div (?x - ?x mod d) d = Inr (?x div d)" unfolding safe_Inr using q d by simp
  have 6: "safe_sub v (?x div d) = Inr (v - ?x div d)" unfolding safe_Inr using whole by linarith
  have 7: "cast_u 128 (sgn (int (?x mod d))) = Inr ?b" by (cases "?x mod d = 0") (simp_all add: cast_u_def)
  have 8: "safe_sub (v - ?x div d) ?b = Inr (v * n div d)" unfolding safe_Inr using whole by linarith
  have "\<not> (v \<ge> U64_MAX \<or> n \<ge> U64_MAX)" "n \<noteq> d" using assms by auto
  then show ?thesis using assms(3,4)
    by (simp only: get_proportion_u128_def 1 2 3 standardize_nat [OF d x] 4 5 6 7 8 and_then_simps prod.case if_False
        if_True simp_thms)
qed

text \<open>
  \<open>get_proportion_u128\<close> computes the rounded-down proportion whichever of its three routes it takes: for values
  below \<open>2^63\<close> it returns exactly \<open>v * n div d\<close>, and the whole value when numerator and denominator agree.
\<close>

theorem proportion_exact:
  assumes "v < 2 ^ 63" "n < 2 ^ 63" "0 < d"
  shows "get_proportion_u128 v n d = Inr (v * n div d)"
proof (cases "n \<noteq> d \<and> n > d div 2 \<and> d > n")
  case True
  then show ?thesis using proportion_middle assms by blast
next
  case False
  have "v * n \<le> v * 2 ^ 63" using assms(2) by (intro mult_le_mono2) simp
  also have "\<dots> < 2 ^ 63 * 2 ^ 63" using assms(1) by (rule mult_strict_right_mono) simp
  finally have "v * n < 2 ^ 128" by simp
  then have "safe_mul 128 v n = Inr (v * n)" by (simp add: safe_Inr)
  moreover have "safe_div (v * n) d = Inr (v * n div d)" using assms(3) by (simp add: safe_Inr)
  moreover have "\<not> (v \<ge> U64_MAX \<or> n \<ge> U64_MAX)" using assms by simp
  ultimately show ?thesis using False assms(3)
    by (simp only: get_proportion_u128_def if_False and_then_simps) auto
qed

theorem proportion_exact_witness:
  "get_proportion_u128 1000 7 9 = Inr 777 \<and> (1000 * 7 :: nat) div 9 = 777"
  using proportion_exact [of 1000 7 9] by simp

text \<open>Whatever it returns is that proportion, also for large values.\<close>

lemma proportion_Inr:
  assumes "get_proportion_u128 v n d = Inr p"
  shows "p = (if n = d then v else v * n div d)"
proof (cases "n \<noteq> d \<and> \<not> (v \<ge> U64_MAX \<or> n \<ge> U64_MAX) \<and> n > d div 2 \<and> d > n")
  case True
  then have d: "0 < d" "n \<le> d" by simp_all
  let ?x = "v * (d - n)" and ?b = "if v * (d - n) mod d = 0 then 0 else 1 :: nat"
  have form: "get_proportion_u128 v n d = and_then (safe_sub d n) (\<lambda>rest.
      and_then (safe_mul 128 v rest) (\<lambda>product. and_then (cast_i 128 (int product)) (\<lambda>product.
      and_then (standardize_value_with_remainder_i128 product d) (\<lambda>(std_value, r). and_then (cast_u 128 std_value) (\<lambda>std_value.
      and_then (safe_div std_value d) (\<lambda>q. and_then (safe_sub v q) (\<lambda>left. and_then (cast_u 128 (sgn r)) (\<lambda>bias. safe_sub left bias))))))))"
    using True by (simp only: get_proportion_u128_def if_False if_True simp_thms)
  have "p = v * n div d"
    if "rest = d - n" "product = v * rest" "ip = int product" "standardize_value_with_remainder_i128 ip d = Inr (std, r)"
      "sn = nat std" "q = sn div d" "left = v - q" "bias = nat (sgn r)" "p = left - bias"
    for rest product ip std r sn q left bias p
  proof -
    have "standardize_value_with_remainder_i128 (int ?x) d = Inr (std, r)" using that(1-4) by simp
    note std = standardize_Inr [OF this]
    have "sn = ?x - ?x mod d" using std that(5) by (simp del: of_nat_mult)
    then have "q = ?x div d" using that(6) d by (metis minus_mod_eq_mult_div nonzero_mult_div_cancel_left not_gr_zero)
    moreover have "bias = ?b" using std that(8) by (simp add: sgn_if)
    ultimately show ?thesis using complement_div [of n d v] d that(7,9) by linarith
  qed
  then have "ensures (\<lambda>p. p = v * n div d) (get_proportion_u128 v n d)"
    unfolding form
    by (intro ensures_and_then ensures_prod ensuresI) (auto simp only: safe_Inr cast_Inr prod.case)
  then show ?thesis using ensuresD [OF _ assms] True by simp
next
  case False
  then show ?thesis using assms
    by (auto simp: get_proportion_u128_def res_simps split: if_split_asm)
qed

section \<open>Averages\<close>

text \<open>
  The bias compares the weighted values, not the values: the average of a constant price is one above it as long as
  the old value weighs more.
\<close>

lemma constant_price_drifts:
  assumes "0 < p" "p < 2 ^ 62" "0 < w1" "w1 < w2" "w2 < 2 ^ 32"
  shows "calculate_weighted_average p p w1 w2 None = Inr (p + 1)"
proof -
  have "p * w1 \<le> 2 ^ 62 * 2 ^ 32" "p * w2 \<le> 2 ^ 62 * 2 ^ 32"
    using assms by (intro mult_mono; simp)+
  moreover have "0 \<le> p * w1" "0 \<le> p * w2" using assms by simp_all
  ultimately have fits: "fits_i 128 (p * w1)" "fits_i 128 (p * w2)" "fits_i 128 (p * w1 + p * w2)"
    by (simp_all add: fits_i_def)
  have "(p * w1 + p * w2) sdiv (w1 + w2) = p"
    using assms by (simp add: signed_divide_int_eq_divide_int flip: distrib_left)
  moreover have "p * w1 < p * w2" using assms by simp
  moreover have "fits_i 64 (w1 + w2)" "fits_i 64 p" "fits_i 64 (p + 1)" "fits_i 128 p" using assms by (simp_all add: fits_i_def)
  ultimately show ?thesis using fits assms
    by (simp add: calculate_weighted_average_def safe_i_def safe_div_i_def checked_div_i_def cast_i_def checked_i_def)
qed

end
