(* ===== verification/Drift_Spot.thy ===== *)
theory Drift_Spot
  imports Drift_Math
begin

unbundle bit_operations_syntax

text \<open>
  The spot markets of the perpetuals program: scaled balances and interest (\<open>math/spot_balance.rs\<close>), their updates
  (\<open>controller/spot_balance.rs\<close>), and the limits on withdrawals (\<open>math/spot_withdraw.rs\<close>), on the fields of
  \<open>SpotMarket\<close> (\<open>state/spot_market.rs\<close>) that they read or write. A balance is a number of shares: tokens are shares times
  the cumulative interest. The trait \<open>SpotBalance\<close> has three implementations, which differ in the width of the
  balance and in whether its type can change; \<open>spot_balance\<close> is their common shape. Events are left out.
\<close>

section \<open>Markets and balances\<close>

abbreviation Drift_SpotMarketInsufficientDeposits :: error_code where
  "Drift_SpotMarketInsufficientDeposits \<equiv> ErrorCode 92"
abbreviation Drift_InvalidSpotMarketState :: error_code where "Drift_InvalidSpotMarketState \<equiv> ErrorCode 135"
abbreviation Drift_UnequalMarketIndexForSpotTransfer :: error_code where
  "Drift_UnequalMarketIndexForSpotTransfer \<equiv> ErrorCode 165"
abbreviation Drift_CantUpdateSpotBalanceType :: error_code where "Drift_CantUpdateSpotBalanceType \<equiv> ErrorCode 94"
abbreviation Drift_MaxDeposit :: error_code where "Drift_MaxDeposit \<equiv> ErrorCode 38"
abbreviation Drift_MaxBorrows :: error_code where "Drift_MaxBorrows \<equiv> ErrorCode 268"
abbreviation Drift_SpotMarketVaultInvariantViolated :: error_code where
  "Drift_SpotMarketVaultInvariantViolated \<equiv> ErrorCode 173"

datatype spot_balance_type = Deposit | Borrow

record historical_oracle_data =
  hd_last_oracle_price :: int
  hd_last_oracle_conf :: nat
  hd_last_oracle_delay :: int
  hd_last_oracle_price_twap :: int
  hd_last_oracle_price_twap_5min :: int
  hd_last_oracle_price_twap_ts :: int

record oracle_price_data =
  op_price :: int
  op_confidence :: nat
  op_delay :: int

datatype asset_tier = Collateral | Protected | Cross | Isolated | Unlisted

text \<open>\<open>AssetTier\<close> derives its order from the order of its variants.\<close>

fun tier_rank :: "asset_tier \<Rightarrow> nat" where
  "tier_rank Collateral = 0"
| "tier_rank Protected = 1"
| "tier_rank Cross = 2"
| "tier_rank Isolated = 3"
| "tier_rank Unlisted = 4"

lemma tier_rank_inj: "tier_rank a = tier_rank b \<Longrightarrow> a = b"
  by (cases a; cases b) simp_all

instantiation asset_tier :: linorder
begin

definition less_eq_asset_tier :: "asset_tier \<Rightarrow> asset_tier \<Rightarrow> bool" where
  "a \<le> b \<longleftrightarrow> tier_rank a \<le> tier_rank b"

definition less_asset_tier :: "asset_tier \<Rightarrow> asset_tier \<Rightarrow> bool" where
  "a < b \<longleftrightarrow> tier_rank a < tier_rank b"

instance
  by standard (auto simp: less_eq_asset_tier_def less_asset_tier_def intro: tier_rank_inj)

end

record spot_balance =
  sb_market_index :: nat
  sb_type :: spot_balance_type
  sb_balance :: nat
  sb_width :: nat
  sb_fixed_type :: bool

definition pool_balance :: "nat \<Rightarrow> nat \<Rightarrow> spot_balance" where
  "pool_balance market_index scaled_balance =
     \<lparr>sb_market_index = market_index, sb_type = Deposit, sb_balance = scaled_balance, sb_width = 128,
       sb_fixed_type = True\<rparr>"

definition spot_position :: "nat \<Rightarrow> spot_balance_type \<Rightarrow> nat \<Rightarrow> spot_balance" where
  "spot_position market_index balance_type scaled_balance =
     \<lparr>sb_market_index = market_index, sb_type = balance_type, sb_balance = scaled_balance, sb_width = 64,
       sb_fixed_type = False\<rparr>"

definition isolated_balance :: "nat \<Rightarrow> spot_balance" where
  "isolated_balance scaled_balance =
     \<lparr>sb_market_index = 0, sb_type = Deposit, sb_balance = scaled_balance, sb_width = 64, sb_fixed_type = True\<rparr>"

datatype market_status = Initialized | Active | FundingPaused | AmmPaused | FillPaused | WithdrawPaused | ReduceOnly
  | Settlement | Delisted

record insurance_fund =
  if_total_shares :: nat
  if_user_shares :: nat
  if_shares_base :: nat
  if_unstaking_period :: int
  if_last_revenue_settle_ts :: int
  if_revenue_settle_period :: int
  if_total_factor :: nat
  if_user_factor :: nat

record spot_market =
  mk_market_index :: nat
  mk_decimals :: nat
  mk_deposit_balance :: nat
  mk_borrow_balance :: nat
  mk_cumulative_deposit_interest :: nat
  mk_cumulative_borrow_interest :: nat
  mk_revenue_pool :: spot_balance
  mk_insurance_fund :: insurance_fund
  mk_last_interest_ts :: nat
  mk_optimal_utilization :: nat
  mk_optimal_borrow_rate :: nat
  mk_max_borrow_rate :: nat
  mk_min_borrow_rate :: nat
  mk_status :: market_status
  mk_paused_operations :: "8 word"
  mk_if_paused_operations :: "8 word"
  mk_deposit_token_twap :: nat
  mk_borrow_token_twap :: nat
  mk_utilization_twap :: nat
  mk_last_twap_ts :: nat
  mk_oracle_data :: historical_oracle_data
  mk_asset_tier :: asset_tier
  mk_withdraw_guard_threshold :: nat
  mk_max_token_deposits :: nat
  mk_max_token_borrows_fraction :: nat
  mk_pool_id :: nat
  mk_fuel_boost_insurance :: nat

definition increase_balance :: "nat \<Rightarrow> spot_balance \<Rightarrow> spot_balance res" where
  "increase_balance delta s =
     and_then (cast_u (sb_width s) (int delta)) (\<lambda>d.
     and_then (safe_add (sb_width s) (sb_balance s) d) (\<lambda>b. Inr (s\<lparr>sb_balance := b\<rparr>)))"

definition decrease_balance :: "nat \<Rightarrow> spot_balance \<Rightarrow> spot_balance res" where
  "decrease_balance delta s =
     and_then (cast_u (sb_width s) (int delta)) (\<lambda>d.
     and_then (safe_sub (sb_balance s) d) (\<lambda>b. Inr (s\<lparr>sb_balance := b\<rparr>)))"

definition update_balance_type :: "spot_balance_type \<Rightarrow> spot_balance \<Rightarrow> spot_balance res" where
  "update_balance_type t s = (if sb_fixed_type s then fail Drift_CantUpdateSpotBalanceType else Inr (s\<lparr>sb_type := t\<rparr>))"

section \<open>Scaled balances\<close>

text \<open>\<open>scale_precision\<close> is \<open>10.pow(19.safe_sub(decimals))\<close>.\<close>

definition scale_precision :: "spot_market \<Rightarrow> nat res" where
  "scale_precision m = and_then (safe_sub 19 (mk_decimals m)) (\<lambda>e. Inr (10 ^ e))"

fun cumulative_interest :: "spot_balance_type \<Rightarrow> spot_market \<Rightarrow> nat" where
  "cumulative_interest Deposit m = mk_cumulative_deposit_interest m"
| "cumulative_interest Borrow m = mk_cumulative_borrow_interest m"

definition get_spot_balance :: "nat \<Rightarrow> spot_market \<Rightarrow> spot_balance_type \<Rightarrow> bool \<Rightarrow> nat res" where
  "get_spot_balance token_amount m balance_type round_up =
     and_then (scale_precision m) (\<lambda>precision_increase.
     and_then (safe_mul 128 token_amount precision_increase) (\<lambda>product.
     and_then (safe_div product (cumulative_interest balance_type m)) (\<lambda>balance.
     if round_up \<and> balance \<noteq> 0 then safe_add 128 balance 1 else Inr balance)))"

definition get_token_amount :: "nat \<Rightarrow> spot_market \<Rightarrow> spot_balance_type \<Rightarrow> nat res" where
  "get_token_amount balance m balance_type =
     and_then (scale_precision m) (\<lambda>precision_decrease.
     and_then (safe_mul 128 balance (cumulative_interest balance_type m)) (\<lambda>product.
     case balance_type of
       Deposit \<Rightarrow> safe_div product precision_decrease
     | Borrow \<Rightarrow> safe_div_ceil 128 product precision_decrease))"

definition get_signed_token_amount :: "nat \<Rightarrow> spot_balance_type \<Rightarrow> int res" where
  "get_signed_token_amount token_amount balance_type =
     and_then (cast_i 128 (int token_amount)) (\<lambda>x.
     case balance_type of Deposit \<Rightarrow> Inr x | Borrow \<Rightarrow> Inr (- x))"

definition get_interest_token_amount :: "nat \<Rightarrow> spot_market \<Rightarrow> nat \<Rightarrow> nat res" where
  "get_interest_token_amount balance m interest =
     and_then (scale_precision m) (\<lambda>precision_decrease.
     and_then (safe_mul 128 balance interest) (\<lambda>product. safe_div product precision_decrease))"

section \<open>Interest\<close>

definition SPOT_UTILIZATION_PRECISION :: nat where "SPOT_UTILIZATION_PRECISION = 1000000"
definition SPOT_RATE_PRECISION :: nat where "SPOT_RATE_PRECISION = 1000000"
definition IF_FACTOR_PRECISION :: nat where "IF_FACTOR_PRECISION = 1000000"
definition ONE_YEAR :: nat where "ONE_YEAR = 31536000"

definition INTEREST_RATE_SEGMENT_AND_WEIGHTS :: "(nat \<times> nat) list" where
  "INTEREST_RATE_SEGMENT_AND_WEIGHTS =
     [(850000, 50), (900000, 100), (950000, 150), (990000, 200), (995000, 250), (1000000, 250)]"

definition calculate_utilization :: "nat \<Rightarrow> nat \<Rightarrow> nat res" where
  "calculate_utilization deposit_token_amount borrow_token_amount =
     and_then (safe_mul 128 borrow_token_amount SPOT_UTILIZATION_PRECISION) (\<lambda>product.
     Inr (case checked_div product deposit_token_amount of
            Some q \<Rightarrow> q
          | None \<Rightarrow> if deposit_token_amount = 0 \<and> borrow_token_amount = 0 then 0 else SPOT_UTILIZATION_PRECISION))"

definition calculate_spot_market_utilization :: "spot_market \<Rightarrow> nat res" where
  "calculate_spot_market_utilization m =
     and_then (get_token_amount (mk_deposit_balance m) m Deposit) (\<lambda>deposits.
     and_then (get_token_amount (mk_borrow_balance m) m Borrow) (\<lambda>borrows.
     calculate_utilization deposits borrows))"

definition get_min_borrow_rate :: "spot_market \<Rightarrow> nat res" where
  "get_min_borrow_rate m = safe_mul 32 (mk_min_borrow_rate m) (1000000 div 200)"

text \<open>The loop over the segments of the rate curve, with its rate and the end of the previous segment.\<close>

fun rate_segments :: "nat \<Rightarrow> nat \<Rightarrow> nat \<Rightarrow> nat \<Rightarrow> (nat \<times> nat) list \<Rightarrow> nat res" where
  "rate_segments utilization total_extra_rate rate prev_util [] = Inr rate"
| "rate_segments utilization total_extra_rate rate prev_util ((segment_end, weight) # segments) =
     and_then (safe_sub segment_end prev_util) (\<lambda>segment_range.
     and_then (safe_mul 128 total_extra_rate weight) (\<lambda>weighted.
     and_then (safe_div weighted 1000) (\<lambda>segment_rate_total.
     if utilization \<le> segment_end then
       and_then (safe_sub utilization prev_util) (\<lambda>partial_util.
       and_then (safe_mul 128 segment_rate_total partial_util) (\<lambda>product.
       and_then (safe_div product segment_range) (\<lambda>partial_rate. safe_add 128 rate partial_rate)))
     else
       and_then (safe_add 128 rate segment_rate_total) (\<lambda>rate.
       rate_segments utilization total_extra_rate rate segment_end segments))))"

definition calculate_borrow_rate :: "spot_market \<Rightarrow> nat \<Rightarrow> nat res" where
  "calculate_borrow_rate m utilization =
     (let optimal_util = mk_optimal_utilization m; optimal_rate = mk_optimal_borrow_rate m in
      and_then (get_min_borrow_rate m) (\<lambda>min_rate.
      and_then
        (if utilization \<le> optimal_util then
           and_then (safe_mul 128 optimal_rate SPOT_UTILIZATION_PRECISION) (\<lambda>product.
           and_then (safe_div product optimal_util) (\<lambda>slope.
           and_then (safe_mul 128 utilization slope) (\<lambda>product.
           safe_div product SPOT_UTILIZATION_PRECISION)))
         else
           and_then (safe_sub (mk_max_borrow_rate m) optimal_rate) (\<lambda>total_extra_rate.
           rate_segments utilization total_extra_rate optimal_rate optimal_util INTEREST_RATE_SEGMENT_AND_WEIGHTS))
        (\<lambda>borrow_rate. Inr (max borrow_rate min_rate))))"

text \<open>The result is the borrow interest and the deposit interest, both per share.\<close>

definition calculate_accumulated_interest :: "spot_market \<Rightarrow> int \<Rightarrow> (nat \<times> nat) res" where
  "calculate_accumulated_interest m now =
     and_then (cast_i 64 (int (mk_last_interest_ts m))) (\<lambda>last_ts.
     if now \<le> last_ts then Inr (0, 0)
     else
       and_then (calculate_spot_market_utilization m) (\<lambda>utilization.
       if utilization = 0 then Inr (0, 0)
       else
         and_then (calculate_borrow_rate m utilization) (\<lambda>borrow_rate.
         and_then (if 0 \<le> now then Inr (nat now) else fail Drift_UnableToCastUnixTime) (\<lambda>now.
         and_then (safe_sub now (mk_last_interest_ts m)) (\<lambda>time_since_last_update.
         and_then (safe_mul 128 borrow_rate time_since_last_update) (\<lambda>modified_borrow_rate.
         and_then (safe_mul 128 modified_borrow_rate utilization) (\<lambda>product.
         and_then (safe_div product SPOT_UTILIZATION_PRECISION) (\<lambda>modified_deposit_rate.
         and_then (safe_mul 128 (mk_cumulative_borrow_interest m) modified_borrow_rate) (\<lambda>product.
         and_then (safe_div product ONE_YEAR) (\<lambda>q.
         and_then (safe_div q SPOT_RATE_PRECISION) (\<lambda>q.
         and_then (safe_add 128 q 1) (\<lambda>borrow_interest.
         and_then (safe_mul 128 (mk_cumulative_deposit_interest m) modified_deposit_rate) (\<lambda>product.
         and_then (safe_div product ONE_YEAR) (\<lambda>q.
         and_then (safe_div q SPOT_RATE_PRECISION) (\<lambda>deposit_interest.
         Inr (borrow_interest, deposit_interest))))))))))))))))"

section \<open>Updating balances\<close>

definition increase_spot_balance :: "nat \<Rightarrow> spot_balance_type \<Rightarrow> spot_market \<Rightarrow> spot_market res" where
  "increase_spot_balance delta balance_type m =
     (case balance_type of
        Deposit \<Rightarrow> and_then (safe_add 128 (mk_deposit_balance m) delta) (\<lambda>b. Inr (m\<lparr>mk_deposit_balance := b\<rparr>))
      | Borrow \<Rightarrow> and_then (safe_add 128 (mk_borrow_balance m) delta) (\<lambda>b. Inr (m\<lparr>mk_borrow_balance := b\<rparr>)))"

definition decrease_spot_balance :: "nat \<Rightarrow> spot_balance_type \<Rightarrow> spot_market \<Rightarrow> spot_market res" where
  "decrease_spot_balance delta balance_type m =
     (case balance_type of
        Deposit \<Rightarrow> and_then (safe_sub (mk_deposit_balance m) delta) (\<lambda>b. Inr (m\<lparr>mk_deposit_balance := b\<rparr>))
      | Borrow \<Rightarrow> and_then (safe_sub (mk_borrow_balance m) delta) (\<lambda>b. Inr (m\<lparr>mk_borrow_balance := b\<rparr>)))"

text \<open>Both places where the balance of a user grows.\<close>

definition grow_balance ::
  "nat \<Rightarrow> spot_balance_type \<Rightarrow> spot_market \<times> spot_balance \<Rightarrow> (spot_market \<times> spot_balance) res" where
  "grow_balance token_amount direction ms =
     (case ms of (m, s) \<Rightarrow>
        and_then (get_spot_balance token_amount m direction (direction = Borrow)) (\<lambda>balance_delta.
        and_then (increase_balance balance_delta s) (\<lambda>s.
        and_then (increase_spot_balance balance_delta direction m) (\<lambda>m. Inr (m, s)))))"

text \<open>The reduction of an opposite balance; the result has the tokens left over.\<close>

definition reduce_balance ::
  "nat \<Rightarrow> bool \<Rightarrow> spot_market \<times> spot_balance \<Rightarrow> (nat \<times> spot_market \<times> spot_balance) res" where
  "reduce_balance token_amount is_leaving_drift ms =
     (case ms of (m, s) \<Rightarrow>
        and_then (get_token_amount (sb_balance s) m (sb_type s)) (\<lambda>current_token_amount.
        if current_token_amount \<noteq> 0 then
          and_then
            (if current_token_amount > token_amount then
               and_then (get_spot_balance token_amount m (sb_type s) (is_leaving_drift \<or> sb_type s = Borrow))
                 (\<lambda>balance_delta. Inr (token_amount, balance_delta))
             else Inr (current_token_amount, sb_balance s)) (\<lambda>(token_delta, balance_delta).
          and_then (decrease_spot_balance balance_delta (sb_type s) m) (\<lambda>m.
          and_then (decrease_balance balance_delta s) (\<lambda>s.
          and_then (safe_sub token_amount token_delta) (\<lambda>token_amount. Inr (token_amount, m, s)))))
        else Inr (token_amount, m, s)))"

text \<open>Tokens that leave must not exceed the deposits that are not lent.\<close>

definition check_deposits_cover :: "bool \<Rightarrow> spot_market \<Rightarrow> unit res" where
  "check_deposits_cover leaving m =
     (if leaving then
        and_then (get_token_amount (mk_deposit_balance m) m Deposit) (\<lambda>deposits.
        and_then (get_token_amount (mk_borrow_balance m) m Borrow) (\<lambda>borrows.
        require (deposits \<ge> borrows) Drift_SpotMarketInsufficientDeposits (Inr ())))
      else Inr ())"

definition update_spot_balances ::
  "nat \<Rightarrow> spot_balance_type \<Rightarrow> bool \<Rightarrow> spot_market \<times> spot_balance \<Rightarrow> (spot_market \<times> spot_balance) res" where
  "update_spot_balances token_amount direction is_leaving_drift ms =
     and_then
       (if direction = sb_type (snd ms) then grow_balance token_amount direction ms
        else
          and_then (reduce_balance token_amount is_leaving_drift ms) (\<lambda>(token_amount, m, s).
          if token_amount > 0 then
            and_then (update_balance_type direction s) (\<lambda>s. grow_balance token_amount direction (m, s))
          else Inr (m, s))) (\<lambda>(m, s).
     and_then (check_deposits_cover (is_leaving_drift \<and> direction = Borrow) m) (\<lambda>_. Inr (m, s)))"

section \<open>The revenue pool and transfers\<close>

definition update_revenue_pool_balances :: "nat \<Rightarrow> spot_balance_type \<Rightarrow> spot_market \<Rightarrow> spot_market res" where
  "update_revenue_pool_balances token_amount direction m =
     and_then (update_spot_balances token_amount direction False (m, mk_revenue_pool m)) (\<lambda>(m, pool).
     Inr (m\<lparr>mk_revenue_pool := pool\<rparr>))"

text \<open>\<open>transfer_spot_balances\<close>: a positive amount moves from the first balance to the second.\<close>

definition transfer_spot_balances ::
  "int \<Rightarrow> spot_market \<Rightarrow> spot_balance \<Rightarrow> spot_balance \<Rightarrow> (spot_market \<times> spot_balance \<times> spot_balance) res" where
  "transfer_spot_balances token_amount m from_balance to_balance =
     require (sb_market_index from_balance = sb_market_index to_balance) Drift_UnequalMarketIndexForSpotTransfer
       (if token_amount = 0 then Inr (m, from_balance, to_balance)
        else
          require (sb_type from_balance = Deposit \<longrightarrow> mk_deposit_balance m \<ge> sb_balance from_balance)
            Drift_InvalidSpotMarketState
            (and_then (update_spot_balances (nat \<bar>token_amount\<bar>) (if token_amount < 0 then Deposit else Borrow) False
               (m, from_balance)) (\<lambda>(m, from_balance).
             and_then (update_spot_balances (nat \<bar>token_amount\<bar>) (if token_amount < 0 then Borrow else Deposit) False
               (m, to_balance)) (\<lambda>(m, to_balance). Inr (m, from_balance, to_balance)))))"

definition transfer_revenue_pool_to_spot_balance ::
  "nat \<Rightarrow> spot_market \<Rightarrow> spot_balance \<Rightarrow> (spot_market \<times> spot_balance) res" where
  "transfer_revenue_pool_to_spot_balance token_amount m to_balance =
     require (sb_market_index to_balance = mk_market_index m) Drift_UnequalMarketIndexForSpotTransfer
       (and_then (update_revenue_pool_balances token_amount Borrow m) (\<lambda>m.
        update_spot_balances token_amount Deposit False (m, to_balance)))"

definition transfer_spot_balance_to_revenue_pool ::
  "nat \<Rightarrow> spot_market \<Rightarrow> spot_balance \<Rightarrow> (spot_market \<times> spot_balance) res" where
  "transfer_spot_balance_to_revenue_pool token_amount m from_balance =
     require (sb_market_index from_balance = mk_market_index m) Drift_UnequalMarketIndexForSpotTransfer
       (and_then (update_spot_balances token_amount Borrow False (m, from_balance)) (\<lambda>(m, from_balance).
        and_then (update_revenue_pool_balances token_amount Deposit m) (\<lambda>m. Inr (m, from_balance))))"

section \<open>Time-weighted averages and the interest of the market\<close>

definition SPOT_MARKET_TOKEN_TWAP_WINDOW :: int where "SPOT_MARKET_TOKEN_TWAP_WINDOW = 86400"

definition get_sanitize_clamp_denominator :: "asset_tier \<Rightarrow> int option" where
  "get_sanitize_clamp_denominator tier =
     (case tier of Collateral \<Rightarrow> Some 10 | Protected \<Rightarrow> Some 10 | Cross \<Rightarrow> Some 5 | Isolated \<Rightarrow> Some 3 | Unlisted \<Rightarrow> None)"

text \<open>\<open>sanitize_new_price\<close> keeps a new price within a band around the average.\<close>

definition sanitize_new_price :: "int \<Rightarrow> int \<Rightarrow> int option \<Rightarrow> int res" where
  "sanitize_new_price new_price last_price_twap sanitize_clamp_denominator =
     (if last_price_twap = 0 then Inr new_price
      else
        and_then (safe_i 64 (new_price - last_price_twap)) (\<lambda>new_price_spread.
        let denominator = (case sanitize_clamp_denominator of Some d \<Rightarrow> d | None \<Rightarrow> 3) in
        if denominator = 0 then Inr new_price
        else
          and_then (safe_div_i 64 last_price_twap denominator) (\<lambda>price_twap_price_band.
          if \<bar>new_price_spread\<bar> > \<bar>price_twap_price_band\<bar> then
            if new_price > last_price_twap then safe_i 64 (last_price_twap + price_twap_price_band)
            else safe_i 64 (last_price_twap - price_twap_price_band)
          else Inr new_price)))"

text \<open>The average of an unsigned quantity, as \<open>update_spot_market_twap_stats\<close> casts it in and out.\<close>

definition token_twap :: "nat \<Rightarrow> nat \<Rightarrow> int \<Rightarrow> int \<Rightarrow> nat res" where
  "token_twap amount twap since_last from_start =
     and_then (cast_i 64 (int amount)) (\<lambda>data1.
     and_then (cast_i 64 (int twap)) (\<lambda>data2.
     and_then (calculate_weighted_average data1 data2 since_last from_start None) (\<lambda>average. cast_u 64 average)))"

definition update_oracle_twaps ::
  "oracle_price_data \<Rightarrow> int \<Rightarrow> int \<Rightarrow> int option \<Rightarrow> historical_oracle_data \<Rightarrow> historical_oracle_data res" where
  "update_oracle_twaps oracle now since_last denominator h =
     and_then (sanitize_new_price (op_price oracle) (hd_last_oracle_price_twap h) denominator) (\<lambda>capped.
     and_then (calculate_new_twap capped now (hd_last_oracle_price_twap h) (hd_last_oracle_price_twap_ts h) 3600)
       (\<lambda>oracle_price_twap.
     and_then (calculate_new_twap capped now (hd_last_oracle_price_twap_5min h) (hd_last_oracle_price_twap_ts h) 300)
       (\<lambda>oracle_price_twap_5min.
     let h' = h\<lparr>hd_last_oracle_price := op_price oracle, hd_last_oracle_conf := op_confidence oracle,
                hd_last_oracle_delay := op_delay oracle\<rparr> in
     Inr (if oracle_price_twap \<noteq> hd_last_oracle_price_twap h \<or> since_last \<ge> 60 then
            h'\<lparr>hd_last_oracle_price_twap := oracle_price_twap, hd_last_oracle_price_twap_5min := oracle_price_twap_5min,
               hd_last_oracle_price_twap_ts := now\<rparr>
          else h'))))"

definition update_spot_market_twap_stats :: "oracle_price_data option \<Rightarrow> int \<Rightarrow> spot_market \<Rightarrow> spot_market res" where
  "update_spot_market_twap_stats oracle now m =
     and_then (cast_i 64 (int (mk_last_twap_ts m))) (\<lambda>last_twap_ts.
     and_then (safe_i 64 (now - last_twap_ts)) (\<lambda>elapsed.
     let since_last = max 0 elapsed in
     and_then (safe_i 64 (SPOT_MARKET_TOKEN_TWAP_WINDOW - since_last)) (\<lambda>rest.
     let from_start = max 1 rest in
     and_then (get_token_amount (mk_deposit_balance m) m Deposit) (\<lambda>deposits.
     and_then (get_token_amount (mk_borrow_balance m) m Borrow) (\<lambda>borrows.
     and_then (token_twap deposits (mk_deposit_token_twap m) since_last from_start) (\<lambda>deposit_twap.
     and_then (token_twap borrows (mk_borrow_token_twap m) since_last from_start) (\<lambda>borrow_twap.
     and_then (calculate_utilization deposits borrows) (\<lambda>utilization.
     and_then (token_twap utilization (mk_utilization_twap m) since_last from_start) (\<lambda>utilization_twap.
     and_then
       (case oracle of
          None \<Rightarrow> Inr (mk_oracle_data m)
        | Some oracle \<Rightarrow>
            update_oracle_twaps oracle now since_last (get_sanitize_clamp_denominator (mk_asset_tier m)) (mk_oracle_data m))
       (\<lambda>oracle_data.
     and_then (cast_u 64 now) (\<lambda>ts.
     Inr (m\<lparr>mk_deposit_token_twap := deposit_twap, mk_borrow_token_twap := borrow_twap,
            mk_utilization_twap := utilization_twap, mk_oracle_data := oracle_data, mk_last_twap_ts := ts\<rparr>))))))))))))"

text \<open>The interest due since the last update, and the share of the insurance fund, which enters the revenue pool.\<close>

definition accrue_interest :: "int \<Rightarrow> nat \<times> nat \<Rightarrow> spot_market \<Rightarrow> spot_market res" where
  "accrue_interest now interest m =
     (case interest of (borrow_interest, deposit_interest) \<Rightarrow>
        if deposit_interest > 0 \<and> borrow_interest > 1 then
          and_then (safe_mul 128 deposit_interest (if_total_factor (mk_insurance_fund m))) (\<lambda>product.
          and_then (safe_div product IF_FACTOR_PRECISION) (\<lambda>for_stakers.
          and_then (safe_sub deposit_interest for_stakers) (\<lambda>for_lenders.
          if for_lenders > 0 then
            and_then (safe_add 128 (mk_cumulative_deposit_interest m) for_lenders) (\<lambda>deposit.
            and_then (safe_add 128 (mk_cumulative_borrow_interest m) borrow_interest) (\<lambda>borrow.
            and_then (cast_u 64 now) (\<lambda>ts.
            let m = m\<lparr>mk_cumulative_deposit_interest := deposit, mk_cumulative_borrow_interest := borrow,
                      mk_last_interest_ts := ts\<rparr> in
            and_then (get_interest_token_amount (mk_deposit_balance m) m for_stakers) (\<lambda>token_amount.
            update_revenue_pool_balances token_amount Deposit m))))
          else Inr m)))
        else Inr m)"

definition update_spot_market_cumulative_interest ::
  "oracle_price_data option \<Rightarrow> int \<Rightarrow> spot_market \<Rightarrow> spot_market res" where
  "update_spot_market_cumulative_interest oracle now m =
     (if mk_paused_operations m AND 1 \<noteq> 0 then update_spot_market_twap_stats oracle now m
      else
        and_then (calculate_accumulated_interest m now) (\<lambda>interest.
        and_then (accrue_interest now interest m) (\<lambda>m. update_spot_market_twap_stats oracle now m)))"

end
