(* ===== verification/Drift_Spot_Theorems.thy ===== *)
theory Drift_Spot_Theorems
  imports Drift_Spot
begin

text \<open>
  What the updates of \<open>Drift_Spot\<close> promise. A balance is worth its shares times the interest, a borrow the same with
  a minus sign, in units of \<open>10^(19 - decimals)\<close> per token. An update moves shares of the holder and of the market
  alike, and changes the worth of the holder by the tokens moved, up to one share in his favour.
\<close>

section \<open>Shares and tokens\<close>

definition token_unit :: "spot_market \<Rightarrow> nat" where
  "token_unit m = 10 ^ (19 - mk_decimals m)"

lemma token_unit_pos: "0 < token_unit m"
  by (simp add: token_unit_def)

lemma scale_precision_Inr: "scale_precision m = Inr p \<longleftrightarrow> mk_decimals m \<le> 19 \<and> p = token_unit m"
  by (auto simp: scale_precision_def res_simps token_unit_def)

lemma get_spot_balance_Inr:
  assumes "get_spot_balance t m bt up = Inr b"
  shows "b = t * token_unit m div cumulative_interest bt m +
      (if up \<and> t * token_unit m div cumulative_interest bt m \<noteq> 0 then 1 else 0)" "0 < cumulative_interest bt m"
  using assms by (auto simp: get_spot_balance_def res_simps scale_precision_Inr split: if_split_asm)

lemma get_token_amount_Inr:
  assumes "get_token_amount b m bt = Inr t"
  shows "t = (case bt of Deposit \<Rightarrow> b * cumulative_interest bt m div token_unit m
     | Borrow \<Rightarrow> ceil_div (b * cumulative_interest bt m) (token_unit m))"
  using assms
  by (auto simp: get_token_amount_def res_simps scale_precision_Inr split: spot_balance_type.splits dest: safe_div_ceil_Inr)

text \<open>The shares for \<open>t\<close> tokens, rounded down and rounded up.\<close>

lemma shares_down:
  assumes "get_spot_balance t m bt up = Inr b" "\<not> up"
  shows "b * cumulative_interest bt m \<le> t * token_unit m" "t * token_unit m < (b + 1) * cumulative_interest bt m"
  using get_spot_balance_Inr [OF assms(1)] assms(2)
    div_mult_le [of "t * token_unit m" "cumulative_interest bt m"]
    less_div_Suc_mult [of "cumulative_interest bt m" "t * token_unit m"]
  by simp_all

lemma shares_up:
  assumes "get_spot_balance t m bt up = Inr b"
  shows "b * cumulative_interest bt m \<le> t * token_unit m + cumulative_interest bt m"
    "t * token_unit m < (b + 1) * cumulative_interest bt m"
proof -
  let ?I = "cumulative_interest bt m" and ?q = "t * token_unit m div cumulative_interest bt m"
  have I: "0 < ?I" and b: "?q \<le> b" "b \<le> ?q + 1" using get_spot_balance_Inr [OF assms] by auto
  have "b * ?I \<le> (?q + 1) * ?I" using b(2) by (rule mult_right_mono) simp
  moreover have "(?q + 1) * ?I = ?q * ?I + ?I" by (simp only: distrib_right mult_1)
  ultimately show "b * ?I \<le> t * token_unit m + ?I" using div_mult_le [of "t * token_unit m" ?I] by linarith
  have "t * token_unit m < (?q + 1) * ?I" using less_div_Suc_mult [OF I] .
  also have "\<dots> \<le> (b + 1) * ?I" using b(1) by (intro mult_right_mono) simp_all
  finally show "t * token_unit m < (b + 1) * ?I" .
qed

text \<open>The tokens of \<open>b\<close> shares.\<close>

lemma tokens_of_deposit:
  "get_token_amount b m Deposit = Inr t \<Longrightarrow> t * token_unit m \<le> b * mk_cumulative_deposit_interest m"
  using get_token_amount_Inr [of b m Deposit t] by (simp add: div_mult_le)

lemma tokens_of_borrow:
  "get_token_amount b m Borrow = Inr t \<Longrightarrow> b * mk_cumulative_borrow_interest m \<le> t * token_unit m"
  using get_token_amount_Inr [of b m Borrow t] le_ceil_div_mult [OF token_unit_pos] by simp

text \<open>
  Converting tokens to shares and back never favours the holder: the shares of a deposit are worth at most the
  tokens deposited, and the shares of a borrow at least the tokens borrowed unless they round to none at all, which
  takes an amount worth less than one share.
\<close>

theorem shares_round_trip:
  assumes "get_spot_balance t m bt (bt = Borrow) = Inr b" "get_token_amount b m bt = Inr t'"
  shows "case bt of Deposit \<Rightarrow> t' \<le> t
    | Borrow \<Rightarrow> t \<le> t' \<or> (b = 0 \<and> t * token_unit m < mk_cumulative_borrow_interest m)"
proof (cases bt)
  case Deposit
  have "b * mk_cumulative_deposit_interest m \<le> t * token_unit m" using shares_down(1) [OF assms(1)] Deposit by simp
  then have "t' * token_unit m \<le> t * token_unit m"
    using tokens_of_deposit [of b m t'] assms(2) unfolding Deposit by linarith
  then have "t' \<le> t" using token_unit_pos [of m] by (metis mult_le_cancel2)
  then show ?thesis using Deposit by simp
next
  case Borrow
  let ?I = "mk_cumulative_borrow_interest m" and ?q = "t * token_unit m div mk_cumulative_borrow_interest m"
  have b: "b = ?q + (if ?q \<noteq> 0 then 1 else 0)" and I: "0 < ?I"
    using get_spot_balance_Inr [OF assms(1)] Borrow by simp_all
  show ?thesis
  proof (cases "?q = 0")
    case True
    then show ?thesis using b I Borrow less_div_Suc_mult [OF I, of "t * token_unit m"] by simp
  next
    case False
    then have "t * token_unit m < b * ?I" using b less_div_Suc_mult [OF I, of "t * token_unit m"] by simp
    also have "\<dots> \<le> t' * token_unit m" using tokens_of_borrow assms(2) Borrow by simp
    finally have "t < t'" using token_unit_pos [of m] by (metis mult_less_cancel2)
    then show ?thesis using Borrow by simp
  qed
qed

section \<open>One update\<close>

definition worth :: "spot_market \<Rightarrow> spot_balance \<Rightarrow> int" where
  "worth m s = (case sb_type s of Deposit \<Rightarrow> int (sb_balance s * mk_cumulative_deposit_interest m)
     | Borrow \<Rightarrow> - int (sb_balance s * mk_cumulative_borrow_interest m))"

definition deposits_of :: "spot_balance \<Rightarrow> nat" where
  "deposits_of s = (if sb_type s = Deposit then sb_balance s else 0)"

definition borrows_of :: "spot_balance \<Rightarrow> nat" where
  "borrows_of s = (if sb_type s = Borrow then sb_balance s else 0)"

definition one_share :: "spot_market \<Rightarrow> nat" where
  "one_share m = max (mk_cumulative_deposit_interest m) (mk_cumulative_borrow_interest m)"

text \<open>\<open>totals_moved m s m' s'\<close>: the market totals moved with the balance of the holder, and nothing else did.\<close>

definition totals_moved :: "spot_market \<Rightarrow> spot_balance \<Rightarrow> spot_market \<Rightarrow> spot_balance \<Rightarrow> bool" where
  "totals_moved m s m' s' \<longleftrightarrow>
     mk_deposit_balance m' + deposits_of s = mk_deposit_balance m + deposits_of s' \<and>
     mk_borrow_balance m' + borrows_of s = mk_borrow_balance m + borrows_of s' \<and>
     m' = m\<lparr>mk_deposit_balance := mk_deposit_balance m', mk_borrow_balance := mk_borrow_balance m'\<rparr> \<and>
     sb_market_index s' = sb_market_index s \<and> sb_width s' = sb_width s \<and> sb_fixed_type s' = sb_fixed_type s"

lemma moved_place:
  assumes "totals_moved m s m' s'"
  shows "token_unit m' = token_unit m" "cumulative_interest bt m' = cumulative_interest bt m" "one_share m' = one_share m"
proof -
  have *: "m' = m\<lparr>mk_deposit_balance := mk_deposit_balance m', mk_borrow_balance := mk_borrow_balance m'\<rparr>"
    using assms by (simp add: totals_moved_def)
  show "token_unit m' = token_unit m" by (subst *) (simp add: token_unit_def)
  show "cumulative_interest bt m' = cumulative_interest bt m" by (subst *) (cases bt; simp)
  show "one_share m' = one_share m" by (subst *) (simp add: one_share_def)
qed

lemma moved_refl: "totals_moved m s m s"
  by (simp add: totals_moved_def)

lemma moved_trans: "totals_moved m s m' s' \<Longrightarrow> totals_moved m' s' m'' s'' \<Longrightarrow> totals_moved m s m'' s''"
  by (cases m; cases m'; cases m''; cases s; cases s'; cases s'') (simp add: totals_moved_def deposits_of_def borrows_of_def)

text \<open>The tokens of an update with their sign: a deposit adds to the holder, a borrow takes from him.\<close>

definition signed :: "spot_balance_type \<Rightarrow> nat \<Rightarrow> int" where
  "signed d t = (if d = Deposit then int t else - int t)"

lemma change_Inr:
  "increase_balance d s = Inr s' \<Longrightarrow> s' = s\<lparr>sb_balance := sb_balance s + d\<rparr>"
  "decrease_balance d s = Inr s' \<Longrightarrow> d \<le> sb_balance s \<and> s' = s\<lparr>sb_balance := sb_balance s - d\<rparr>"
  "increase_spot_balance d bt m = Inr m' \<Longrightarrow> m' = (case bt of
     Deposit \<Rightarrow> m\<lparr>mk_deposit_balance := mk_deposit_balance m + d\<rparr> | Borrow \<Rightarrow> m\<lparr>mk_borrow_balance := mk_borrow_balance m + d\<rparr>)"
  by (auto simp: increase_balance_def decrease_balance_def increase_spot_balance_def res_simps
      split: spot_balance_type.splits)

lemma decrease_spot_balance_Inr:
  "decrease_spot_balance d Deposit m = Inr m' \<longleftrightarrow>
     d \<le> mk_deposit_balance m \<and> m' = m\<lparr>mk_deposit_balance := mk_deposit_balance m - d\<rparr>"
  "decrease_spot_balance d Borrow m = Inr m' \<longleftrightarrow>
     d \<le> mk_borrow_balance m \<and> m' = m\<lparr>mk_borrow_balance := mk_borrow_balance m - d\<rparr>"
  by (auto simp: decrease_spot_balance_def res_simps)

lemma grow_Inr:
  assumes "grow_balance t d (m, s) = Inr (m', s')" "sb_type s = d"
  obtains b where "get_spot_balance t m d (d = Borrow) = Inr b" "s' = s\<lparr>sb_balance := sb_balance s + b\<rparr>"
    "m' = (case d of Deposit \<Rightarrow> m\<lparr>mk_deposit_balance := mk_deposit_balance m + b\<rparr>
       | Borrow \<Rightarrow> m\<lparr>mk_borrow_balance := mk_borrow_balance m + b\<rparr>)"
  using assms(1) by (auto simp: grow_balance_def and_then_Inr dest!: change_Inr intro: that)

lemma grow_worth:
  assumes "grow_balance t d (m, s) = Inr (m', s')" "sb_type s = d"
  shows "totals_moved m s m' s'" "sb_type s' = d"
    "\<bar>worth m s' - worth m s - signed d (t * token_unit m)\<bar> \<le> int (one_share m)"
proof -
  obtain b where b: "get_spot_balance t m d (d = Borrow) = Inr b" and s: "s' = s\<lparr>sb_balance := sb_balance s + b\<rparr>"
    and m: "m' = (case d of Deposit \<Rightarrow> m\<lparr>mk_deposit_balance := mk_deposit_balance m + b\<rparr>
       | Borrow \<Rightarrow> m\<lparr>mk_borrow_balance := mk_borrow_balance m + b\<rparr>)"
    using grow_Inr [OF assms] .
  show "totals_moved m s m' s'" "sb_type s' = d"
    using s m assms(2) by (auto simp: totals_moved_def deposits_of_def borrows_of_def split: spot_balance_type.splits)
  have up: "b * cumulative_interest d m \<le> t * token_unit m + cumulative_interest d m"
    "t * token_unit m < (b + 1) * cumulative_interest d m" using shares_up [OF b] .
  have I: "cumulative_interest d m \<le> one_share m" by (cases d) (simp_all add: one_share_def)
  have "worth m s' - worth m s = signed d (b * cumulative_interest d m)"
    using s assms(2) by (cases d) (simp_all add: worth_def signed_def algebra_simps)
  moreover have "(b + 1) * cumulative_interest d m = b * cumulative_interest d m + cumulative_interest d m"
    by (simp only: distrib_right mult_1)
  ultimately show "\<bar>worth m s' - worth m s - signed d (t * token_unit m)\<bar> \<le> int (one_share m)"
    using up I unfolding signed_def by (cases "d = Deposit") (simp_all del: of_nat_mult)
qed

text \<open>A balance too small for a token is not reduced; any other one is.\<close>

definition dust :: "spot_market \<Rightarrow> spot_balance \<Rightarrow> bool" where
  "dust m s \<longleftrightarrow> sb_balance s \<noteq> 0 \<and> get_token_amount (sb_balance s) m (sb_type s) = Inr 0"

definition opposite :: "spot_balance_type \<Rightarrow> spot_balance_type" where
  "opposite d = (if d = Deposit then Borrow else Deposit)"

lemma part_worth:
  assumes "get_spot_balance t m (sb_type s) up = Inr b" "b \<le> sb_balance s" "s' = s\<lparr>sb_balance := sb_balance s - b\<rparr>"
  shows "\<bar>worth m s' - worth m s - signed (opposite (sb_type s)) (t * token_unit m)\<bar> \<le> int (one_share m)"
proof -
  let ?I = "cumulative_interest (sb_type s) m"
  have up: "b * ?I \<le> t * token_unit m + ?I" "t * token_unit m < (b + 1) * ?I" using shares_up [OF assms(1)] .
  have I: "?I \<le> one_share m" by (cases "sb_type s") (simp_all add: one_share_def)
  have "worth m s' - worth m s = signed (opposite (sb_type s)) (b * ?I)"
    using assms(2,3) by (cases "sb_type s") (simp_all add: worth_def signed_def opposite_def of_nat_diff algebra_simps)
  moreover have "(b + 1) * ?I = b * ?I + ?I" by (simp only: distrib_right mult_1)
  ultimately show ?thesis
    using up I unfolding signed_def by (cases "opposite (sb_type s) = Deposit") (simp_all del: of_nat_mult)
qed

lemma whole_worth:
  assumes "get_token_amount (sb_balance s) m (sb_type s) = Inr t" "s' = s\<lparr>sb_balance := 0\<rparr>"
  shows "\<bar>worth m s' - worth m s - signed (opposite (sb_type s)) (t * token_unit m)\<bar> \<le> int (token_unit m)"
proof -
  let ?x = "sb_balance s * cumulative_interest (sb_type s) m" and ?u = "token_unit m"
  have x: "worth m s' - worth m s = signed (opposite (sb_type s)) ?x"
    using assms(2) by (cases "sb_type s") (simp_all add: worth_def signed_def opposite_def)
  have u: "0 < ?u" by (rule token_unit_pos)
  have "t * ?u \<le> ?x + ?u \<and> ?x \<le> t * ?u + ?u"
  proof (cases "sb_type s")
    case Deposit
    have "(?x div ?u + 1) * ?u = ?x div ?u * ?u + ?u" by (simp only: distrib_right mult_1)
    moreover have "t * ?u = ?x div ?u * ?u" using get_token_amount_Inr [OF assms(1)] Deposit by simp
    ultimately have "t * ?u \<le> ?x" "?x < t * ?u + ?u"
      using div_mult_le [of ?x ?u] less_div_Suc_mult [OF u, of ?x] by linarith+
    then show ?thesis by simp
  next
    case Borrow
    have "?x + (?u - 1) \<le> ?x + ?u" by simp
    moreover have "t * ?u \<le> ?x + (?u - 1)"
      using get_token_amount_Inr [OF assms(1)] Borrow div_mult_le [of "?x + (?u - 1)" ?u] by (simp add: ceil_div_def)
    moreover have "?x \<le> t * ?u" using tokens_of_borrow assms(1) Borrow by simp
    ultimately show ?thesis by linarith
  qed
  then show ?thesis unfolding x signed_def
    by (cases "opposite (sb_type s) = Deposit"; simp del: of_nat_mult; linarith)
qed

lemma reduce_Inr:
  assumes "reduce_balance t leaving (m, s) = Inr (t', m', s')"
  obtains (none) "get_token_amount (sb_balance s) m (sb_type s) = Inr 0" "t' = t" "m' = m" "s' = s"
  | (some) b t0 where "b \<le> sb_balance s" "s' = s\<lparr>sb_balance := sb_balance s - b\<rparr>" "decrease_spot_balance b (sb_type s) m = Inr m'"
      "t0 = t - t'" "t' \<le> t"
      "(t' = 0 \<and> (\<exists>up. get_spot_balance t m (sb_type s) up = Inr b)) \<or>
       (get_token_amount (sb_balance s) m (sb_type s) = Inr t0 \<and> b = sb_balance s)"
proof -
  obtain cur where cur: "get_token_amount (sb_balance s) m (sb_type s) = Inr cur"
    using assms by (auto simp: reduce_balance_def and_then_Inr)
  show ?thesis
  proof (cases "cur = 0")
    case True
    then show ?thesis using assms cur by (intro none) (simp_all add: reduce_balance_def)
  next
    case False
    then obtain td b s1 where step: "(if cur > t then and_then (get_spot_balance t m (sb_type s) (leaving \<or> sb_type s = Borrow))
        (\<lambda>b. Inr (t, b)) else Inr (cur, sb_balance s)) = Inr (td, b)"
      "decrease_spot_balance b (sb_type s) m = Inr m'" "decrease_balance b s = Inr s'" "safe_sub t td = Inr t'"
      using assms cur by (auto simp: reduce_balance_def and_then_Inr split: prod.splits)
    have s: "b \<le> sb_balance s" "s' = s\<lparr>sb_balance := sb_balance s - b\<rparr>" using change_Inr(2) [OF step(3)] by simp_all
    have t: "td \<le> t" "t' = t - td" using step(4) by (simp_all add: safe_Inr)
    show ?thesis
    proof (rule some [of b "t - t'"])
      show "(t' = 0 \<and> (\<exists>up. get_spot_balance t m (sb_type s) up = Inr b)) \<or>
          (get_token_amount (sb_balance s) m (sb_type s) = Inr (t - t') \<and> b = sb_balance s)"
        using step(1) t cur by (auto simp: and_then_Inr split: if_split_asm)
    qed (use s t step(2) in simp_all)
  qed
qed

lemma reduce_worth:
  assumes "reduce_balance t leaving (m, s) = Inr (t', m', s')"
  shows "totals_moved m s m' s'" "t' \<le> t" "sb_type s' = sb_type s"
    "\<bar>worth m s' - worth m s - signed (opposite (sb_type s)) ((t - t') * token_unit m)\<bar>
      \<le> int (if t' = 0 then max (token_unit m) (one_share m) else token_unit m)"
    "\<not> dust m s \<Longrightarrow> 0 < t' \<Longrightarrow> sb_balance s' = 0"
proof -
  note case_split = reduce_Inr [OF assms]
  show "totals_moved m s m' s'"
    by (rule case_split) (cases "sb_type s"; auto simp: totals_moved_def deposits_of_def borrows_of_def decrease_spot_balance_Inr)+
  show "t' \<le> t" by (rule case_split) simp_all
  show "sb_type s' = sb_type s" by (rule case_split) simp_all
  show "0 < t' \<Longrightarrow> sb_balance s' = 0" if "\<not> dust m s"
    using that by (rule_tac case_split) (auto simp: dust_def)
  show "\<bar>worth m s' - worth m s - signed (opposite (sb_type s)) ((t - t') * token_unit m)\<bar>
      \<le> int (if t' = 0 then max (token_unit m) (one_share m) else token_unit m)"
  proof (rule case_split)
    fix b t0
    assume b: "b \<le> sb_balance s" "s' = s\<lparr>sb_balance := sb_balance s - b\<rparr>" "t0 = t - t'"
      and "(t' = 0 \<and> (\<exists>up. get_spot_balance t m (sb_type s) up = Inr b)) \<or>
       (get_token_amount (sb_balance s) m (sb_type s) = Inr t0 \<and> b = sb_balance s)"
    then consider up where "t' = 0" "get_spot_balance t m (sb_type s) up = Inr b"
      | "get_token_amount (sb_balance s) m (sb_type s) = Inr t0" "b = sb_balance s" by blast
    then show ?thesis
    proof cases
      case 1
      then show ?thesis using part_worth [OF 1(2) b(1,2)] by simp
    next
      case 2
      then have "s' = s\<lparr>sb_balance := 0\<rparr>" using b(2) by simp
      then show ?thesis using whole_worth [OF 2(1)] b(3) by (auto simp: max_def)
    qed
  qed (simp add: signed_def)
qed

lemma check_deposits_cover_Inr:
  "check_deposits_cover leaving m = Inr u \<Longrightarrow> leaving \<Longrightarrow>
     \<exists>d b. get_token_amount (mk_deposit_balance m) m Deposit = Inr d \<and>
       get_token_amount (mk_borrow_balance m) m Borrow = Inr b \<and> b \<le> d"
  by (auto simp: check_deposits_cover_def res_simps)

lemma update_Inr:
  assumes "update_spot_balances t d leaving (m, s) = Inr (m', s')"
  obtains (same) "d = sb_type s" "grow_balance t d (m, s) = Inr (m', s')"
  | (reduced) "d = opposite (sb_type s)" "reduce_balance t leaving (m, s) = Inr (0, m', s')"
  | (crossed) t1 m1 s1 where "d = opposite (sb_type s)" "reduce_balance t leaving (m, s) = Inr (t1, m1, s1)" "0 < t1"
      "\<not> sb_fixed_type s1" "grow_balance t1 d (m1, s1\<lparr>sb_type := d\<rparr>) = Inr (m', s')"
proof (cases "d = sb_type s")
  case True
  then show ?thesis using assms same by (auto simp: update_spot_balances_def and_then_Inr split: prod.splits)
next
  case False
  then have d: "d = opposite (sb_type s)" by (cases d; cases "sb_type s") (simp_all add: opposite_def)
  obtain t1 m1 s1 where r: "reduce_balance t leaving (m, s) = Inr (t1, m1, s1)"
    using assms False by (auto simp: update_spot_balances_def and_then_Inr)
  show ?thesis
  proof (cases "t1 > 0")
    case True
    then show ?thesis using assms False r d
      by (intro crossed [of t1 m1 s1])
        (auto simp: update_spot_balances_def and_then_Inr update_balance_type_def fail_Inr split: if_split_asm prod.splits)
  next
    case z: False
    then show ?thesis using assms False r d
      by (intro reduced) (auto simp: update_spot_balances_def and_then_Inr split: prod.splits)
  qed
qed

text \<open>An update is clean unless it meets dust.\<close>

definition clean :: "spot_balance_type \<Rightarrow> spot_market \<Rightarrow> spot_balance \<Rightarrow> bool" where
  "clean d m s \<longleftrightarrow> d = sb_type s \<or> \<not> dust m s"

lemma crossing_moves:
  assumes "reduce_balance t leaving (m, s) = Inr (t1, m1, s1)" "0 < t1" "\<not> dust m s"
    "grow_balance t1 d (m1, s1\<lparr>sb_type := d\<rparr>) = Inr (m', s')"
  shows "sb_balance s1 = 0" "totals_moved m s m' s'"
proof -
  note r = reduce_worth [OF assms(1)]
  show zero: "sb_balance s1 = 0" using r(5) assms(2,3) by blast
  have "totals_moved m s m1 (s1\<lparr>sb_type := d\<rparr>)" using r(1) zero by (simp add: totals_moved_def deposits_of_def borrows_of_def)
  then show "totals_moved m s m' s'" using grow_worth(1) [OF assms(4)] by (auto intro: moved_trans)
qed

lemma update_moves:
  assumes "update_spot_balances t d leaving (m, s) = Inr (m', s')" "clean d m s"
  shows "totals_moved m s m' s'"
  using assms(1)
proof (cases rule: update_Inr)
  case (crossed t1 m1 s1)
  have "\<not> dust m s" using assms(2) crossed(1) by (cases "sb_type s") (simp_all add: opposite_def clean_def)
  then show ?thesis using crossing_moves(2) crossed(2,3,5) by blast
qed (use grow_worth(1) reduce_worth(1) in auto)

lemma moved_worth:
  assumes "totals_moved m s m' s'"
  shows "worth m' x = worth m x"
  using moved_place(2) [OF assms, of Deposit] moved_place(2) [OF assms, of Borrow] by (cases "sb_type x") (simp_all add: worth_def)


end
