(* ===== verification/Drift_Spot_Book.thy ===== *)
theory Drift_Spot_Book
  imports Drift_Spot_Theorems
begin

text \<open>
  A spot market together with the balances of its holders: the operations of \<open>controller/spot_balance.rs\<close> as steps,
  the invariant that the totals of the market are the sums of the shares of its holders, what breaks it, and the
  interest, which is paid by the borrowers.
\<close>

section \<open>The totals are the sums\<close>

type_synonym spot_book = "spot_market \<times> spot_balance list"

definition balanced :: "spot_book \<Rightarrow> bool" where
  "balanced b \<longleftrightarrow> (case b of (m, ss) \<Rightarrow>
     mk_deposit_balance m = deposits_of (mk_revenue_pool m) + (\<Sum>s\<leftarrow>ss. deposits_of s) \<and>
     mk_borrow_balance m = borrows_of (mk_revenue_pool m) + (\<Sum>s\<leftarrow>ss. borrows_of s))"

text \<open>The steps are those that do not meet dust; the holders are named by their place in the book.\<close>

inductive spot_step :: "spot_book \<Rightarrow> spot_book \<Rightarrow> bool" where
  holder: "i < length ss \<Longrightarrow> update_spot_balances t d leaving (m, ss ! i) = Inr (m', s') \<Longrightarrow> clean d m (ss ! i) \<Longrightarrow>
     spot_step (m, ss) (m', ss[i := s'])"
| revenue: "update_revenue_pool_balances t d m = Inr m' \<Longrightarrow> clean d m (mk_revenue_pool m) \<Longrightarrow> spot_step (m, ss) (m', ss)"
| joins: "sb_balance s = 0 \<Longrightarrow> spot_step (m, ss) (m, s # ss)"
| interest: "accrue_interest now interest m = Inr m' \<Longrightarrow> sb_type (mk_revenue_pool m) = Deposit \<Longrightarrow>
     spot_step (m, ss) (m', ss)"
| averages: "update_spot_market_twap_stats oracle now m = Inr m' \<Longrightarrow> spot_step (m, ss) (m', ss)"

inductive_cases spot_stepE: "spot_step b b'"

lemma moved_fields:
  assumes "totals_moved m s m' s'"
  shows "mk_revenue_pool m' = mk_revenue_pool m" "mk_deposit_balance m' + deposits_of s = mk_deposit_balance m + deposits_of s'"
    "mk_borrow_balance m' + borrows_of s = mk_borrow_balance m + borrows_of s'"
    "mk_cumulative_deposit_interest m' = mk_cumulative_deposit_interest m"
    "mk_cumulative_borrow_interest m' = mk_cumulative_borrow_interest m" "mk_decimals m' = mk_decimals m"
proof -
  have *: "m' = m\<lparr>mk_deposit_balance := mk_deposit_balance m', mk_borrow_balance := mk_borrow_balance m'\<rparr>"
    and **: "mk_deposit_balance m' + deposits_of s = mk_deposit_balance m + deposits_of s'"
    "mk_borrow_balance m' + borrows_of s = mk_borrow_balance m + borrows_of s'"
    using assms by (simp_all add: totals_moved_def)
  show "mk_revenue_pool m' = mk_revenue_pool m" by (subst *) simp
  show "mk_cumulative_deposit_interest m' = mk_cumulative_deposit_interest m" by (subst *) simp
  show "mk_cumulative_borrow_interest m' = mk_cumulative_borrow_interest m" by (subst *) simp
  show "mk_decimals m' = mk_decimals m" by (subst *) simp
qed (use assms in \<open>simp_all add: totals_moved_def\<close>)

lemma moved_balanced:
  assumes "totals_moved m (ss ! i) m' s'" "i < length ss" "balanced (m, ss)"
  shows "balanced (m', ss[i := s'])"
  using moved_fields(1-3) [OF assms(1)] assms(3) sum_list_update_nat [OF assms(2), of deposits_of s']
    sum_list_update_nat [OF assms(2), of borrows_of s']
  by (simp add: balanced_def)

lemma revenue_balanced:
  assumes "update_revenue_pool_balances t d m = Inr m'" "clean d m (mk_revenue_pool m)" "balanced (m, ss)"
  shows "balanced (m', ss)"
proof -
  obtain m1 p where u: "update_spot_balances t d False (m, mk_revenue_pool m) = Inr (m1, p)"
    and m': "m' = m1\<lparr>mk_revenue_pool := p\<rparr>"
    using assms(1) by (auto simp: update_revenue_pool_balances_def and_then_Inr)
  show ?thesis using moved_fields(2,3) [OF update_moves [OF u assms(2)]] assms(3) m' by (simp add: balanced_def)
qed

lemma accrue_cases:
  assumes "accrue_interest now (bi, di) m = Inr m'"
  obtains (nothing) "m' = m"
  | (accrued) x lenders token ts m1 where "x \<le> di" "lenders = di - x" "0 < lenders"
      "m1 = m\<lparr>mk_cumulative_deposit_interest := mk_cumulative_deposit_interest m + lenders,
        mk_cumulative_borrow_interest := mk_cumulative_borrow_interest m + bi, mk_last_interest_ts := ts\<rparr>"
      "get_interest_token_amount (mk_deposit_balance m) m1 x = Inr token"
      "update_revenue_pool_balances token Deposit m1 = Inr m'"
proof (cases "m' = m")
  case True
  then show ?thesis by (rule nothing)
next
  case False
  then obtain x deposit borrow ts token m1 where
    "x \<le> di" "di - x > 0" "deposit = mk_cumulative_deposit_interest m + (di - x)"
    "borrow = mk_cumulative_borrow_interest m + bi"
    "m1 = m\<lparr>mk_cumulative_deposit_interest := deposit, mk_cumulative_borrow_interest := borrow, mk_last_interest_ts := ts\<rparr>"
    "get_interest_token_amount (mk_deposit_balance m1) m1 x = Inr token"
    "update_revenue_pool_balances token Deposit m1 = Inr m'"
    using assms by (auto simp: accrue_interest_def and_then_Inr safe_Inr cast_Inr Let_def split: if_split_asm)
  then show ?thesis by (intro accrued [of x "di - x" m1 ts token]) simp_all
qed

lemma twap_stats_frame:
  assumes "update_spot_market_twap_stats oracle now m = Inr m'"
  shows "\<exists>a b c d e. m' = m\<lparr>mk_deposit_token_twap := a, mk_borrow_token_twap := b, mk_utilization_twap := c,
    mk_oracle_data := d, mk_last_twap_ts := e\<rparr>"
proof -
  have "ensures (\<lambda>m'. \<exists>a b c d e. m' = m\<lparr>mk_deposit_token_twap := a, mk_borrow_token_twap := b, mk_utilization_twap := c,
      mk_oracle_data := d, mk_last_twap_ts := e\<rparr>) (update_spot_market_twap_stats oracle now m)"
    unfolding update_spot_market_twap_stats_def Let_def by (intro ensures_and_then ensures_value) blast
  then show ?thesis using assms by (rule ensuresD)
qed

lemma step_balanced: "spot_step b b' \<Longrightarrow> balanced b \<Longrightarrow> balanced b'"
proof (induction rule: spot_step.induct)
  case (holder i ss t d leaving m m' s')
  then show ?case using moved_balanced [OF update_moves] by blast
next
  case (revenue t d m m' ss)
  then show ?case by (rule revenue_balanced)
next
  case (joins s m ss)
  then show ?case by (simp add: balanced_def deposits_of_def borrows_of_def)
next
  case (interest now rates m m' ss)
  obtain bi di where rates: "rates = (bi, di)" by (cases rates)
  show ?case using interest(1) unfolding rates
  proof (cases rule: accrue_cases)
    case nothing
    then show ?thesis using interest by simp
  next
    case (accrued x lenders token ts m1)
    have "balanced (m1, ss)" using interest(3) accrued(4) by (simp add: balanced_def)
    moreover have "clean Deposit m1 (mk_revenue_pool m1)" using interest(2) accrued(4) by (simp add: clean_def)
    ultimately show ?thesis using revenue_balanced accrued(6) by blast
  qed
next
  case (averages data now m m' ss)
  then show ?case using twap_stats_frame by (fastforce simp: balanced_def)
qed

lemma steps_balanced: "spot_step\<^sup>*\<^sup>* b b' \<Longrightarrow> balanced b \<Longrightarrow> balanced b'"
  by (induction rule: rtranclp_induct) (auto intro: step_balanced)


text \<open>A market of a token with 6 decimals, and a holder who deposits and borrows more than that.\<close>

definition usd_market :: spot_market where
  "usd_market = \<lparr>mk_market_index = 0, mk_decimals = 6, mk_deposit_balance = 0, mk_borrow_balance = 0,
     mk_cumulative_deposit_interest = 10 ^ 10, mk_cumulative_borrow_interest = 10 ^ 10, mk_revenue_pool = pool_balance 0 0,
     mk_insurance_fund = \<lparr>if_total_shares = 0, if_user_shares = 0, if_shares_base = 0, if_unstaking_period = 0,
       if_last_revenue_settle_ts = 0, if_revenue_settle_period = 3600, if_total_factor = 100000, if_user_factor = 50000\<rparr>,
     mk_last_interest_ts = 0, mk_optimal_utilization = 500000, mk_optimal_borrow_rate = 200000, mk_max_borrow_rate = 1000000,
     mk_min_borrow_rate = 0, mk_status = Active, mk_paused_operations = 0, mk_if_paused_operations = 0, mk_deposit_token_twap = 0, mk_borrow_token_twap = 0,
     mk_utilization_twap = 0, mk_last_twap_ts = 0,
     mk_oracle_data = \<lparr>hd_last_oracle_price = 1000000, hd_last_oracle_conf = 0, hd_last_oracle_delay = 0,
       hd_last_oracle_price_twap = 1000000, hd_last_oracle_price_twap_5min = 1000000, hd_last_oracle_price_twap_ts = 0\<rparr>,
     mk_asset_tier = Collateral, mk_withdraw_guard_threshold = 0, mk_max_token_deposits = 0,
     mk_max_token_borrows_fraction = 0, mk_pool_id = 0, mk_fuel_boost_insurance = 0\<rparr>"

lemmas spot_eval = usd_market_def update_spot_balances_def grow_balance_def reduce_balance_def get_spot_balance_def
  get_token_amount_def scale_precision_def increase_balance_def decrease_balance_def increase_spot_balance_def
  decrease_spot_balance_def check_deposits_cover_def update_balance_type_def safe_defs spot_position_def
  pool_balance_def clean_def dust_def worth_def signed_def token_unit_def one_share_def totals_moved_def



text \<open>
  C32. A balance worth less than a token is not removed when its holder moves to the other side: its shares change from
  deposit to debt (or from debt to deposit) with the type of the balance, while the totals of the market only count
  the shares of the tokens moved, so from then on they differ from the sums by that balance.
\<close>

theorem dust_changes_side:
  assumes "update_spot_balances t d leaving (m, s) = Inr (m', s')" "dust m s" "d = opposite (sb_type s)" "0 < t"
  shows "\<exists>b. sb_type s' = d \<and> sb_balance s' = sb_balance s + b \<and>
    (if d = Borrow then mk_borrow_balance m' = mk_borrow_balance m + b \<and> mk_deposit_balance m' = mk_deposit_balance m
     else mk_deposit_balance m' = mk_deposit_balance m + b \<and> mk_borrow_balance m' = mk_borrow_balance m)"
proof -
  have zero: "get_token_amount (sb_balance s) m (sb_type s) = Inr 0" using assms(2) by (simp add: dust_def)
  then have r: "reduce_balance t leaving (m, s) = Inr (t, m, s)" by (simp add: reduce_balance_def)
  show ?thesis using assms(1)
  proof (cases rule: update_Inr)
    case (crossed t1 m1 s1)
    then have *: "grow_balance t d (m, s\<lparr>sb_type := d\<rparr>) = Inr (m', s')" using r by simp
    show ?thesis by (rule grow_Inr [OF *]) (auto split: spot_balance_type.splits)
  qed (use r assms(3,4) in \<open>auto simp: opposite_def split: if_split_asm\<close>)
qed

theorem dust_changes_side_witness:
  "update_spot_balances 12 Borrow False (usd_market\<lparr>mk_deposit_balance := 10500\<rparr>, spot_position 0 Deposit 500) =
     Inr (usd_market\<lparr>mk_deposit_balance := 10500, mk_borrow_balance := 12001\<rparr>, spot_position 0 Borrow 12501) \<and>
   sb_balance (spot_position 0 Borrow 12501) = 500 + 12001"
proof -
  have u: "update_spot_balances 12 Borrow False (usd_market\<lparr>mk_deposit_balance := 10500\<rparr>, spot_position 0 Deposit 500) =
     Inr (usd_market\<lparr>mk_deposit_balance := 10500, mk_borrow_balance := 12001\<rparr>, spot_position 0 Borrow 12501)"
    by (simp add: spot_eval)
  have "dust (usd_market\<lparr>mk_deposit_balance := 10500\<rparr>) (spot_position 0 Deposit 500)" by (simp add: spot_eval)
  moreover have "Borrow = opposite (sb_type (spot_position 0 Deposit 500))" by (simp add: opposite_def spot_position_def)
  ultimately show ?thesis using u dust_changes_side [OF u] by (auto simp: spot_position_def usd_market_def)
qed

theorem shares_round_trip_witness:
  "get_spot_balance 12 usd_market Borrow (Borrow = Borrow) = Inr 12001 \<and> get_token_amount 12001 usd_market Borrow = Inr 13 \<and>
   (12 :: nat) \<le> 13"
proof -
  have a: "get_spot_balance 12 usd_market Borrow (Borrow = Borrow) = Inr 12001" by (simp add: spot_eval)
  have b: "get_token_amount 12001 usd_market Borrow = Inr 13" by (simp add: spot_eval)
  show ?thesis using a b shares_round_trip [OF a b] by simp
qed

section \<open>Interest is paid by the borrowers\<close>

definition deposit_worth :: "spot_market \<Rightarrow> nat" where
  "deposit_worth m = mk_deposit_balance m * mk_cumulative_deposit_interest m"

definition borrow_worth :: "spot_market \<Rightarrow> nat" where
  "borrow_worth m = mk_borrow_balance m * mk_cumulative_borrow_interest m"

lemma utilization_le:
  assumes "calculate_utilization d b = Inr u" "b \<le> d"
  shows "u * d \<le> b * SPOT_UTILIZATION_PRECISION"
  using assms div_mult_le [of "b * SPOT_UTILIZATION_PRECISION" d]
  by (auto simp: calculate_utilization_def res_simps checked_div_def split: option.splits if_split_asm)

lemma accumulated_Inr:
  assumes "calculate_accumulated_interest m now = Inr (bi, di)" "calculate_spot_market_utilization m = Inr u"
    "calculate_borrow_rate m u = Inr rate" "(bi, di) \<noteq> (0, 0)"
  defines "R \<equiv> rate * (nat now - mk_last_interest_ts m)"
  shows "bi = mk_cumulative_borrow_interest m * R div ONE_YEAR div SPOT_RATE_PRECISION + 1"
    "di = mk_cumulative_deposit_interest m * (R * u div SPOT_UTILIZATION_PRECISION) div ONE_YEAR div SPOT_RATE_PRECISION"
  using assms
  by (auto simp: calculate_accumulated_interest_def res_simps split: if_split_asm)

text \<open>The deposit interest of all shares, against the borrow interest of all shares, over the units of the rate.\<close>

definition RATE_UNIT :: nat where
  "RATE_UNIT = ONE_YEAR * SPOT_RATE_PRECISION"

lemma interest_bound:
  fixes D B Id Ib R u unit d b di bi :: nat
  assumes d: "d = D * Id div unit" and b: "b = ceil_div (B * Ib) unit" and u: "u * d \<le> b * P"
    and covers: "0 < b" "b \<le> d" and unit: "0 < unit" and P: "0 < P"
    and di: "di = Id * (R * u div P) div Y div S" and bi: "bi = Ib * R div Y div S + 1" and K: "0 < Y * S"
  shows "Y * S * (D * di) \<le> Y * S * (B * bi) + 2 * unit * R"
proof -
  have "u * d \<le> d * P" using u covers(2) by (meson le_trans mult_le_mono1)
  then have uP: "u \<le> P" using covers by (metis less_le_trans mult.commute mult_le_cancel2)
  have "P * (Y * S * (D * di)) = D * P * (di * (Y * S))" by (simp add: mult_ac)
  also have "\<dots> \<le> D * P * (Id * (R * u div P))"
    using di div_mult_le [of "Id * (R * u div P)" "Y * S"] by (intro mult_le_mono2) (simp add: div_mult2_eq)
  also have "\<dots> = D * Id * (R * u div P * P)" by (simp add: mult_ac)
  also have "\<dots> \<le> D * Id * (R * u)" by (intro mult_le_mono2 div_mult_le)
  also have "\<dots> \<le> (d + 1) * unit * (R * u)"
    using less_div_Suc_mult [OF unit, of "D * Id"] unfolding d by (intro mult_le_mono1) simp
  also have "\<dots> = unit * R * (u * d + u)" by (simp add: algebra_simps)
  also have "\<dots> \<le> unit * R * (b * P + P)" using u uP by (intro mult_le_mono2 add_mono)
  also have "\<dots> = P * (unit * R * (b + 1))" by (simp add: algebra_simps)
  finally have 1: "Y * S * (D * di) \<le> unit * R * (b + 1)" using P by simp
  have "b * unit \<le> B * Ib + (unit - 1)" unfolding b ceil_div_def by (rule div_mult_le)
  then have "R * (b * unit) \<le> R * (B * Ib + unit)" by (intro mult_le_mono2) simp
  then have 2: "unit * R * (b + 1) \<le> B * (Ib * R) + 2 * unit * R" by (simp add: algebra_simps)
  have "Ib * R \<le> bi * (Y * S)" using less_div_Suc_mult [OF K, of "Ib * R"] bi by (simp add: div_mult2_eq)
  then have "B * (Ib * R) \<le> B * (bi * (Y * S))" by (rule mult_le_mono2)
  then have "B * (Ib * R) \<le> Y * S * (B * bi)" by (simp add: mult_ac)
  then show ?thesis using 1 2 by linarith
qed

text \<open>An accrual raises the worth of the deposits, the revenue pool included, by the deposit interest at most, and that of
  the borrows by the borrow interest.\<close>

lemma accrued_worth:
  assumes "accrue_interest now (bi, di) m = Inr m'" "sb_type (mk_revenue_pool m) = Deposit"
  shows "m' = m \<or> (deposit_worth m' \<le> deposit_worth m + mk_deposit_balance m * di \<and>
    borrow_worth m' = borrow_worth m + mk_borrow_balance m * bi)"
  using assms(1)
proof (cases rule: accrue_cases)
  case (accrued x lenders token ts m1)
  obtain m2 p where u: "update_spot_balances token Deposit False (m1, mk_revenue_pool m1) = Inr (m2, p)"
    and m': "m' = m2\<lparr>mk_revenue_pool := p\<rparr>"
    using accrued(6) by (auto simp: update_revenue_pool_balances_def and_then_Inr)
  have pool: "sb_type (mk_revenue_pool m1) = Deposit" using assms(2) accrued(4) by simp
  have "grow_balance token Deposit (m1, mk_revenue_pool m1) = Inr (m2, p)"
    using u pool by (auto simp: update_spot_balances_def and_then_Inr split: prod.splits)
  then obtain b where b: "get_spot_balance token m1 Deposit (Deposit = Borrow) = Inr b"
    "m2 = m1\<lparr>mk_deposit_balance := mk_deposit_balance m1 + b\<rparr>"
    using grow_Inr [OF _ pool] by (metis spot_balance_type.simps(3))
  have "b * mk_cumulative_deposit_interest m1 \<le> token * token_unit m1" using shares_down(1) [OF b(1)] by simp
  also have "\<dots> \<le> mk_deposit_balance m * x"
    using accrued(5) div_mult_le [of "mk_deposit_balance m * x" "token_unit m1"]
    by (auto simp: get_interest_token_amount_def res_simps scale_precision_Inr)
  finally have "deposit_worth m' \<le> deposit_worth m + mk_deposit_balance m * lenders + mk_deposit_balance m * x"
    using b(2) m' accrued(4) by (simp add: deposit_worth_def algebra_simps)
  also have "\<dots> = deposit_worth m + mk_deposit_balance m * di"
    using accrued(1,2) by (simp flip: distrib_left)
  finally show ?thesis using b(2) m' accrued(4) by (simp add: borrow_worth_def algebra_simps)
qed simp

text \<open>
  C24. The interest of a spot market is paid by its borrowers: whatever is credited to the depositors and to the revenue
  pool in an accrual is debited to the borrowers, up to the interest of two tokens, as long as the deposits cover the
  borrows. So the claim of the depositors on the vault, deposits less borrows, does not grow by interest.
\<close>

theorem interest_is_funded:
  assumes "calculate_accumulated_interest m now = Inr (bi, di)" "accrue_interest now (bi, di) m = Inr m'"
    "sb_type (mk_revenue_pool m) = Deposit" "get_token_amount (mk_deposit_balance m) m Deposit = Inr d"
    "get_token_amount (mk_borrow_balance m) m Borrow = Inr b" "b \<le> d" "calculate_utilization d b = Inr u"
    "calculate_borrow_rate m u = Inr rate"
  shows "RATE_UNIT * (deposit_worth m' + borrow_worth m) \<le>
    RATE_UNIT * (deposit_worth m + borrow_worth m') + 2 * token_unit m * (rate * (nat now - mk_last_interest_ts m))"
proof (cases "m' = m")
  case False
  let ?R = "rate * (nat now - mk_last_interest_ts m)"
  have nonzero: "(bi, di) \<noteq> (0, 0)" using False assms(2) by (auto simp: accrue_interest_def)
  have util: "calculate_spot_market_utilization m = Inr u" using assms(4,5,7) by (simp add: calculate_spot_market_utilization_def)
  have "u \<noteq> 0" using assms(1) nonzero util by (auto simp: calculate_accumulated_interest_def res_simps split: if_split_asm)
  have ud: "u * d \<le> b * SPOT_UTILIZATION_PRECISION" by (rule utilization_le [OF assms(7,6)])
  have "0 < b"
  proof (rule ccontr)
    assume "\<not> 0 < b"
    then show False using ud \<open>u \<noteq> 0\<close> assms(7)
      by (auto simp: calculate_utilization_def safe_Inr and_then_Inr checked_div_def)
  qed
  have "RATE_UNIT * (mk_deposit_balance m * di) \<le> RATE_UNIT * (mk_borrow_balance m * bi) + 2 * token_unit m * ?R"
    unfolding RATE_UNIT_def
  proof (rule interest_bound [OF _ _ ud \<open>0 < b\<close> assms(6) token_unit_pos])
    show "d = mk_deposit_balance m * mk_cumulative_deposit_interest m div token_unit m"
      "b = ceil_div (mk_borrow_balance m * mk_cumulative_borrow_interest m) (token_unit m)"
      using get_token_amount_Inr assms(4,5) by fastforce+
  qed (use accumulated_Inr [OF assms(1) util assms(8) nonzero] in
      \<open>simp_all add: SPOT_UTILIZATION_PRECISION_def ONE_YEAR_def SPOT_RATE_PRECISION_def\<close>)
  moreover have "RATE_UNIT * deposit_worth m' \<le> RATE_UNIT * (deposit_worth m + mk_deposit_balance m * di)"
    "borrow_worth m' = borrow_worth m + mk_borrow_balance m * bi"
    using accrued_worth [OF assms(2,3)] False by simp_all
  ultimately show ?thesis by (simp add: distrib_left)
qed simp

definition lent_market :: spot_market where
  "lent_market = usd_market\<lparr>mk_deposit_balance := 10 ^ 12, mk_borrow_balance := 5 * 10 ^ 11\<rparr>"

definition accrued_market :: spot_market where
  "accrued_market = lent_market\<lparr>mk_deposit_balance := 1009174311926, mk_cumulative_deposit_interest := 10900000000,
     mk_cumulative_borrow_interest := 12000000001, mk_last_interest_ts := 31536000,
     mk_revenue_pool := pool_balance 0 9174311926\<rparr>"

lemmas interest_eval = calculate_accumulated_interest_def calculate_spot_market_utilization_def calculate_utilization_def
  calculate_borrow_rate_def get_min_borrow_rate_def accrue_interest_def get_interest_token_amount_def
  update_revenue_pool_balances_def lent_market_def accrued_market_def SPOT_UTILIZATION_PRECISION_def SPOT_RATE_PRECISION_def
  IF_FACTOR_PRECISION_def ONE_YEAR_def RATE_UNIT_def deposit_worth_def borrow_worth_def

theorem interest_is_funded_witness:
  "accrue_interest 31536000 (2000000001, 1000000000) lent_market = Inr accrued_market \<and>
   RATE_UNIT * (deposit_worth accrued_market + borrow_worth lent_market) \<le>
     RATE_UNIT * (deposit_worth lent_market + borrow_worth accrued_market) + 2 * 10 ^ 13 * (200000 * 31536000)"
proof -
  have i: "calculate_accumulated_interest lent_market 31536000 = Inr (2000000001, 1000000000)"
    by (simp add: interest_eval spot_eval)
  have a: "accrue_interest 31536000 (2000000001, 1000000000) lent_market = Inr accrued_market"
    by (simp add: interest_eval spot_eval)
  have pool: "sb_type (mk_revenue_pool lent_market) = Deposit" by (simp add: interest_eval spot_eval)
  have d: "get_token_amount (mk_deposit_balance lent_market) lent_market Deposit = Inr 1000000000"
    by (simp add: interest_eval spot_eval)
  have b: "get_token_amount (mk_borrow_balance lent_market) lent_market Borrow = Inr 500000000"
    by (simp add: interest_eval spot_eval)
  have u: "calculate_utilization 1000000000 500000000 = Inr 500000" by (simp add: interest_eval spot_eval)
  have r: "calculate_borrow_rate lent_market 500000 = Inr 200000" by (simp add: interest_eval spot_eval)
  have unit: "token_unit lent_market = 10 ^ 13" "mk_last_interest_ts lent_market = 0" by (simp_all add: interest_eval spot_eval)
  show ?thesis using a interest_is_funded [OF i a pool d b _ u r] unit by simp
qed

end
