(* ===== verification/Drift_Withdraw.thy ===== *)
theory Drift_Withdraw
  imports Drift_Spot_Book
begin

text \<open>
  Deposits and withdrawals of a user of the perpetuals program: the spot positions of \<open>User\<close> (\<open>state/user.rs\<close>), their
  updates (\<open>controller/spot_position.rs\<close>), the limits on withdrawals (\<open>math/spot_withdraw.rs\<close>) and the caps of
  \<open>state/spot_market.rs\<close>. Of \<open>User\<close> the fields these functions use.
\<close>

section \<open>Users\<close>

abbreviation Drift_CouldNotFindSpotPosition :: error_code where "Drift_CouldNotFindSpotPosition \<equiv> ErrorCode 83"
abbreviation Drift_NoSpotPositionAvailable :: error_code where "Drift_NoSpotPositionAvailable \<equiv> ErrorCode 84"
abbreviation Drift_DailyWithdrawLimit :: error_code where "Drift_DailyWithdrawLimit \<equiv> ErrorCode 128"
abbreviation Drift_DefaultError :: error_code where "Drift_DefaultError \<equiv> ErrorCode 129"
abbreviation Drift_MarketWithdrawPaused :: error_code where "Drift_MarketWithdrawPaused \<equiv> ErrorCode 149"
abbreviation Drift_ProtectedAssetTierViolation :: error_code where "Drift_ProtectedAssetTierViolation \<equiv> ErrorCode 150"

record user_spot =
  up_balance :: spot_balance
  up_open_bids :: int
  up_open_asks :: int
  up_cumulative_deposits :: int
  up_open_orders :: nat

record user =
  us_spot_positions :: "user_spot list"
  us_total_deposits :: nat
  us_total_withdraws :: nat

datatype position_direction = Long | Short

definition spot_is_available :: "user_spot \<Rightarrow> bool" where
  "spot_is_available p \<longleftrightarrow> sb_balance (up_balance p) = 0 \<and> up_open_orders p = 0"

text \<open>The first element of a list with a property, by its index (\<open>Iterator::position\<close>).\<close>

fun position_of :: "('a \<Rightarrow> bool) \<Rightarrow> 'a list \<Rightarrow> nat option" where
  "position_of P [] = None"
| "position_of P (x # xs) = (if P x then Some 0 else map_option Suc (position_of P xs))"

definition get_spot_position_index :: "nat \<Rightarrow> user \<Rightarrow> nat res" where
  "get_spot_position_index market_index u =
     (if market_index = 0 then
        require (sb_market_index (up_balance (us_spot_positions u ! 0)) = 0) Drift_DefaultError (Inr 0)
      else
        ok_or (position_of (\<lambda>p. sb_market_index (up_balance p) = market_index) (us_spot_positions u))
          Drift_CouldNotFindSpotPosition)"

definition add_spot_position :: "nat \<Rightarrow> spot_balance_type \<Rightarrow> user \<Rightarrow> (nat \<times> user) res" where
  "add_spot_position market_index balance_type u =
     and_then (ok_or (position_of spot_is_available (tl (us_spot_positions u))) Drift_NoSpotPositionAvailable) (\<lambda>i.
     Inr (Suc i, u\<lparr>us_spot_positions := (us_spot_positions u)[Suc i :=
       \<lparr>up_balance = spot_position market_index balance_type 0, up_open_bids = 0, up_open_asks = 0,
         up_cumulative_deposits = 0, up_open_orders = 0\<rparr>]\<rparr>))"

text \<open>\<open>or_else\<close> on an error; a panic cannot occur there.\<close>

definition force_get_spot_position_index :: "nat \<Rightarrow> user \<Rightarrow> (nat \<times> user) res" where
  "force_get_spot_position_index market_index u =
     (case get_spot_position_index market_index u of
        Inr i \<Rightarrow> Inr (i, u)
      | Inl _ \<Rightarrow> add_spot_position market_index Deposit u)"

section \<open>Updates of a spot position\<close>

definition increase_spot_open_bids_and_asks :: "position_direction \<Rightarrow> nat \<Rightarrow> bool \<Rightarrow> user_spot \<Rightarrow> user_spot res" where
  "increase_spot_open_bids_and_asks direction unfilled update p =
     (if \<not> update then Inr p
      else case direction of
        Long \<Rightarrow> and_then (cast_i 64 (int unfilled)) (\<lambda>x. and_then (safe_i 64 (up_open_bids p + x)) (\<lambda>y.
          Inr (p\<lparr>up_open_bids := y\<rparr>)))
      | Short \<Rightarrow> and_then (cast_i 64 (int unfilled)) (\<lambda>x. and_then (safe_i 64 (up_open_asks p - x)) (\<lambda>y.
          Inr (p\<lparr>up_open_asks := y\<rparr>))))"

definition decrease_spot_open_bids_and_asks :: "position_direction \<Rightarrow> nat \<Rightarrow> bool \<Rightarrow> user_spot \<Rightarrow> user_spot res" where
  "decrease_spot_open_bids_and_asks direction unfilled update p =
     (if \<not> update then Inr p
      else case direction of
        Long \<Rightarrow> and_then (cast_i 64 (int unfilled)) (\<lambda>x. and_then (safe_i 64 (up_open_bids p - x)) (\<lambda>y.
          Inr (p\<lparr>up_open_bids := max y 0\<rparr>)))
      | Short \<Rightarrow> and_then (cast_i 64 (int unfilled)) (\<lambda>x. and_then (safe_i 64 (up_open_asks p + x)) (\<lambda>y.
          Inr (p\<lparr>up_open_asks := min y 0\<rparr>))))"

definition update_spot_balances_and_cumulative_deposits ::
  "nat \<Rightarrow> spot_balance_type \<Rightarrow> bool \<Rightarrow> nat option \<Rightarrow> spot_market \<times> user_spot \<Rightarrow> (spot_market \<times> user_spot) res" where
  "update_spot_balances_and_cumulative_deposits token_amount direction is_leaving_drift delta mp =
     (case mp of (m, p) \<Rightarrow>
        and_then (update_spot_balances token_amount direction is_leaving_drift (m, up_balance p)) (\<lambda>(m, s).
        and_then (cast_i 64 (int (case delta of Some d \<Rightarrow> d | None \<Rightarrow> token_amount))) (\<lambda>d.
        and_then (safe_i 64 (case direction of Deposit \<Rightarrow> up_cumulative_deposits p + d
            | Borrow \<Rightarrow> up_cumulative_deposits p - d)) (\<lambda>c.
        Inr (m, p\<lparr>up_balance := s, up_cumulative_deposits := c\<rparr>)))))"

section \<open>Limits on withdrawals\<close>

definition calculate_min_deposit_token_amount :: "nat \<Rightarrow> nat \<Rightarrow> nat res" where
  "calculate_min_deposit_token_amount deposit_token_twap threshold =
     safe_sub deposit_token_twap (max (deposit_token_twap div 4) (min threshold deposit_token_twap))"

definition calculate_max_borrow_token_amount :: "nat \<Rightarrow> nat \<Rightarrow> nat \<Rightarrow> nat \<Rightarrow> nat \<Rightarrow> nat \<Rightarrow> nat res" where
  "calculate_max_borrow_token_amount deposits deposit_twap borrow_twap threshold max_token_borrows pool_id =
     (let lesser = min deposits deposit_twap; (a, b, c) = (if pool_id = 0 then (3, 5, 14) else (2, 3, 20)) in
      and_then (safe_add 128 borrow_twap (lesser div b)) (\<lambda>friction.
      and_then (safe_sub lesser (lesser div c)) (\<lambda>cap.
      Inr (min (max threshold (min (max (lesser div a) friction) cap)) max_token_borrows))))"

definition calculate_token_utilization_limits :: "nat \<Rightarrow> nat \<Rightarrow> spot_market \<Rightarrow> (nat \<times> nat) res" where
  "calculate_token_utilization_limits deposits borrows m =
     and_then (safe_add 128 (mk_utilization_twap m) ((SPOT_UTILIZATION_PRECISION - mk_utilization_twap m) div 2)) (\<lambda>historic.
     let max_utilization = max (mk_optimal_utilization m) historic in
     and_then (safe_mul 128 borrows SPOT_UTILIZATION_PRECISION) (\<lambda>product.
     and_then (safe_div product max_utilization) (\<lambda>min_deposit.
     and_then (safe_mul 128 max_utilization deposits) (\<lambda>product.
     and_then (safe_div product SPOT_UTILIZATION_PRECISION) (\<lambda>max_borrow.
     Inr (min min_deposit (deposits - mk_withdraw_guard_threshold m), max max_borrow (mk_withdraw_guard_threshold m)))))))"

text \<open>\<open>max_token_deposits * fraction / 10000\<close>, in 64 bits, where the fraction is set.\<close>

definition max_token_borrows_of :: "spot_market \<Rightarrow> nat res" where
  "max_token_borrows_of m =
     (if mk_max_token_borrows_fraction m > 0 then
        and_then (safe_mul 64 (mk_max_token_deposits m) (mk_max_token_borrows_fraction m)) (\<lambda>product. safe_div product 10000)
      else Inr U128_MAX)"

definition check_user_exception_to_withdraw_limits :: "spot_market \<Rightarrow> user option \<Rightarrow> nat option \<Rightarrow> bool res" where
  "check_user_exception_to_withdraw_limits m user withdrawn =
     (case user of
        None \<Rightarrow> Inr False
      | Some u \<Rightarrow>
          and_then (get_spot_position_index (mk_market_index m) u) (\<lambda>i.
          let p = us_spot_positions u ! i in
          and_then (safe_i 128 (int (us_total_deposits u) - int (us_total_withdraws u))) (\<lambda>net_deposits.
          if net_deposits \<ge> 0 \<and> up_cumulative_deposits p \<ge> 0 \<and> sb_type (up_balance p) = Deposit then
            (case withdrawn of
               None \<Rightarrow> Inr False
             | Some w \<Rightarrow>
                 and_then (get_token_amount (sb_balance (up_balance p)) m (sb_type (up_balance p))) (\<lambda>deposit.
                 and_then (safe_add 128 deposit w) (\<lambda>total.
                 Inr (total < mk_withdraw_guard_threshold m div 10))))
          else Inr False)))"

definition check_withdraw_limits :: "spot_market \<Rightarrow> user option \<Rightarrow> nat option \<Rightarrow> bool res" where
  "check_withdraw_limits m user withdrawn =
     and_then (get_token_amount (mk_deposit_balance m) m Deposit) (\<lambda>deposits.
     and_then (get_token_amount (mk_borrow_balance m) m Borrow) (\<lambda>borrows.
     and_then (max_token_borrows_of m) (\<lambda>max_token_borrows.
     and_then (calculate_max_borrow_token_amount deposits (mk_deposit_token_twap m) (mk_borrow_token_twap m)
       (mk_withdraw_guard_threshold m) max_token_borrows (mk_pool_id m)) (\<lambda>max_borrow_for_twap.
     and_then (calculate_token_utilization_limits deposits borrows m) (\<lambda>(min_deposit_for_utilization, max_borrow_for_utilization).
     let max_borrow = min max_borrow_for_twap max_borrow_for_utilization in
     and_then (calculate_min_deposit_token_amount (mk_deposit_token_twap m) (mk_withdraw_guard_threshold m)) (\<lambda>min_deposit_for_twap.
     let min_deposit = max min_deposit_for_twap min_deposit_for_utilization in
     and_then
       (case user of
          None \<Rightarrow> Inr (deposits \<ge> min_deposit \<and> borrows \<le> max_borrow)
        | Some u \<Rightarrow>
            and_then (get_spot_position_index (mk_market_index m) u) (\<lambda>i.
            Inr (if sb_type (up_balance (us_spot_positions u ! i)) = Borrow
                 then borrows \<le> max_borrow \<and> deposits \<ge> min_deposit else deposits \<ge> min_deposit))) (\<lambda>valid_global.
     if valid_global then Inr True else check_user_exception_to_withdraw_limits m user withdrawn)))))))"

definition update_spot_balances_and_cumulative_deposits_with_limits ::
  "nat \<Rightarrow> spot_balance_type \<Rightarrow> spot_market \<times> user \<Rightarrow> (spot_market \<times> user) res" where
  "update_spot_balances_and_cumulative_deposits_with_limits token_amount direction mu =
     (case mu of (m, u) \<Rightarrow>
        and_then (force_get_spot_position_index (mk_market_index m) u) (\<lambda>(i, u).
        and_then (update_spot_balances_and_cumulative_deposits token_amount direction True None
          (m, us_spot_positions u ! i)) (\<lambda>(m, p).
        let u = u\<lparr>us_spot_positions := (us_spot_positions u)[i := p]\<rparr> in
        and_then (check_withdraw_limits m (Some u) (Some token_amount)) (\<lambda>valid.
        require valid Drift_DailyWithdrawLimit
          (require (mk_status m \<in> {Active, ReduceOnly, Settlement}) Drift_MarketWithdrawPaused
            (require (mk_paused_operations m AND 8 = 0) Drift_MarketWithdrawPaused
              (require (\<not> (mk_asset_tier m = Protected \<and> sb_type (up_balance p) = Borrow)) Drift_ProtectedAssetTierViolation
                (Inr (m, u)))))))))"

text \<open>What a user with \<open>token_amount\<close> tokens in the market can take out.\<close>

definition get_max_withdraw_for_market_with_token_amount :: "spot_market \<Rightarrow> int \<Rightarrow> bool \<Rightarrow> nat res" where
  "get_max_withdraw_for_market_with_token_amount m token_amount is_leaving_drift =
     and_then (get_token_amount (mk_deposit_balance m) m Deposit) (\<lambda>deposits.
     and_then (get_token_amount (mk_borrow_balance m) m Borrow) (\<lambda>borrows.
     and_then
       (if is_leaving_drift then calculate_token_utilization_limits deposits borrows m else Inr (0, U128_MAX))
       (\<lambda>(min_deposit_for_utilization, max_borrow_for_utilization).
     and_then
       (if token_amount > 0 then
          and_then (calculate_min_deposit_token_amount (mk_deposit_token_twap m) (mk_withdraw_guard_threshold m))
            (\<lambda>min_deposit_for_twap.
          let withdraw_limit = deposits - max min_deposit_for_twap min_deposit_for_utilization in
          if withdraw_limit \<le> nat token_amount \<and> is_leaving_drift then Inr (True, withdraw_limit)
          else Inr (False, nat token_amount))
        else Inr (False, 0)) (\<lambda>(returns, max_withdraw_amount).
     if returns then Inr max_withdraw_amount
     else
       and_then (max_token_borrows_of m) (\<lambda>max_token_borrows.
       and_then (calculate_max_borrow_token_amount deposits (mk_deposit_token_twap m) (mk_borrow_token_twap m)
         (mk_withdraw_guard_threshold m) max_token_borrows (mk_pool_id m)) (\<lambda>max_borrow_for_twap.
       let max_borrow = min max_borrow_for_twap max_borrow_for_utilization;
           borrow_limit = min (max_borrow - borrows) (deposits - borrows);
           borrow_limit = (if mk_max_token_borrows_fraction m > 0
             then min borrow_limit (max_token_borrows - borrows) else borrow_limit) in
       safe_add 128 max_withdraw_amount borrow_limit))))))"

section \<open>The vault\<close>

definition validate_max_token_deposits_and_borrows :: "bool \<Rightarrow> spot_market \<Rightarrow> unit res" where
  "validate_max_token_deposits_and_borrows do_max_borrow_check m =
     and_then (get_token_amount (mk_deposit_balance m) m Deposit) (\<lambda>deposits.
     require (mk_max_token_deposits m = 0 \<or> deposits \<le> mk_max_token_deposits m) Drift_MaxDeposit
       (if do_max_borrow_check \<and> mk_max_token_borrows_fraction m > 0 \<and> mk_max_token_deposits m > 0 then
          and_then (get_token_amount (mk_borrow_balance m) m Borrow) (\<lambda>borrows.
          and_then (max_token_borrows_of m) (\<lambda>max_token_borrows.
          require (max_token_borrows = 0 \<or> borrows \<le> max_token_borrows) Drift_MaxBorrows (Inr ())))
        else Inr ()))"

definition get_available_deposits :: "spot_market \<Rightarrow> nat res" where
  "get_available_deposits m =
     and_then (get_token_amount (mk_deposit_balance m) m Deposit) (\<lambda>deposits.
     and_then (get_token_amount (mk_borrow_balance m) m Borrow) (\<lambda>borrows. safe_sub deposits borrows))"

definition validate_spot_balances :: "spot_market \<Rightarrow> int res" where
  "validate_spot_balances m =
     and_then (get_token_amount (mk_deposit_balance m) m Deposit) (\<lambda>d.
     and_then (cast_u 64 (int d)) (\<lambda>depositors_amount.
     and_then (get_token_amount (mk_borrow_balance m) m Borrow) (\<lambda>b.
     and_then (cast_u 64 (int b)) (\<lambda>borrowers_amount.
     and_then (get_token_amount (sb_balance (mk_revenue_pool m)) m Deposit) (\<lambda>r.
     and_then (cast_u 64 (int r)) (\<lambda>revenue_amount.
     and_then (cast_i 64 (int depositors_amount)) (\<lambda>d.
     and_then (cast_i 64 (int borrowers_amount)) (\<lambda>b.
     and_then (safe_i 64 (d - b)) (\<lambda>depositors_claim.
     require (revenue_amount \<le> depositors_amount) Drift_SpotMarketVaultInvariantViolated
       (Inr depositors_claim))))))))))"

definition validate_spot_market_vault_amount :: "nat \<Rightarrow> spot_market \<Rightarrow> int res" where
  "validate_spot_market_vault_amount vault_amount m =
     and_then (validate_spot_balances m) (\<lambda>depositors_claim.
     and_then (cast_i 64 (int vault_amount)) (\<lambda>vault.
     require (vault \<ge> depositors_claim) Drift_SpotMarketVaultInvariantViolated (Inr depositors_claim)))"

section \<open>What the limits promise\<close>

lemma min_deposit_Inr:
  "calculate_min_deposit_token_amount twap threshold = Inr x \<Longrightarrow> twap \<le> x + max (twap div 4) (min threshold twap)"
  by (auto simp: calculate_min_deposit_token_amount_def safe_Inr)

lemma exception_Inr:
  "check_user_exception_to_withdraw_limits m user (Some w) = Inr True \<Longrightarrow> w < mk_withdraw_guard_threshold m div 10"
  by (auto simp: check_user_exception_to_withdraw_limits_def res_simps Let_def split: option.splits if_split_asm)

lemma case_prod_Inr: "(case p of (a, b) \<Rightarrow> f a b) = Inr y \<longleftrightarrow> (\<exists>a b. p = (a, b) \<and> f a b = Inr y)"
  by (cases p) simp

lemma check_withdraw_limits_Inr:
  assumes "check_withdraw_limits m user (Some w) = Inr True"
  shows "\<exists>d. get_token_amount (mk_deposit_balance m) m Deposit = Inr d \<and>
    (mk_deposit_token_twap m \<le> d + max (mk_deposit_token_twap m div 4) (min (mk_withdraw_guard_threshold m) (mk_deposit_token_twap m))
      \<or> w < mk_withdraw_guard_threshold m div 10)"
proof -
  obtain d b max_b min_util min_twap valid where d: "get_token_amount (mk_deposit_balance m) m Deposit = Inr d"
    and twap: "calculate_min_deposit_token_amount (mk_deposit_token_twap m) (mk_withdraw_guard_threshold m) = Inr min_twap"
    and check: "(case user of None \<Rightarrow> Inr (d \<ge> max min_twap min_util \<and> b \<le> (max_b :: nat))
      | Some u \<Rightarrow> and_then (get_spot_position_index (mk_market_index m) u) (\<lambda>i.
          Inr (if sb_type (up_balance (us_spot_positions u ! i)) = Borrow
               then b \<le> max_b \<and> d \<ge> max min_twap min_util else d \<ge> max min_twap min_util))) = Inr valid"
    and rest: "(if valid then Inr True else check_user_exception_to_withdraw_limits m user (Some w)) = Inr True"
    using assms unfolding check_withdraw_limits_def Let_def and_then_Inr case_prod_Inr by (elim exE conjE) (rule that)
  have enough: "max min_twap min_util \<le> d" if valid
    using check that by (auto simp: and_then_Inr split: option.splits if_split_asm)
  show ?thesis using d min_deposit_Inr [OF twap] enough rest exception_Inr by (cases valid) fastforce+
qed

lemma update_covers:
  assumes "update_spot_balances t Borrow True (m, s) = Inr (m', s')"
  shows "\<exists>d b. get_token_amount (mk_deposit_balance m') m' Deposit = Inr d \<and>
    get_token_amount (mk_borrow_balance m') m' Borrow = Inr b \<and> b \<le> d"
proof -
  obtain u where "check_deposits_cover True m' = Inr u"
    using assms by (auto simp: update_spot_balances_def and_then_Inr)
  then show ?thesis by (rule check_deposits_cover_Inr) simp
qed

lemma with_limits_Inr:
  assumes "update_spot_balances_and_cumulative_deposits_with_limits t d (m, u) = Inr (m', u')"
  obtains i u1 p where "force_get_spot_position_index (mk_market_index m) u = Inr (i, u1)"
    "update_spot_balances_and_cumulative_deposits t d True None (m, us_spot_positions u1 ! i) = Inr (m', p)"
    "u' = u1\<lparr>us_spot_positions := (us_spot_positions u1)[i := p]\<rparr>" "check_withdraw_limits m' (Some u') (Some t) = Inr True"
    "mk_status m' \<in> {Active, ReduceOnly, Settlement}" "mk_paused_operations m' AND 8 = 0"
    "\<not> (mk_asset_tier m' = Protected \<and> sb_type (up_balance p) = Borrow)"
  using assms
  by (auto simp: update_spot_balances_and_cumulative_deposits_with_limits_def and_then_Inr require_Inr Let_def intro: that)

text \<open>
  C28. A withdrawal that passes its limits leaves deposits that cover the borrows; it takes the deposits below their
  24 hour average by a quarter of it or by the guard threshold at most, unless the amount is below a tenth of that
  threshold; and the market is open and its withdrawals are not paused.
\<close>

theorem withdraw_is_limited:
  assumes "update_spot_balances_and_cumulative_deposits_with_limits t Borrow (m, u) = Inr (m', u')"
  shows "\<exists>d b. get_token_amount (mk_deposit_balance m') m' Deposit = Inr d \<and>
    get_token_amount (mk_borrow_balance m') m' Borrow = Inr b \<and> b \<le> d \<and>
    (mk_deposit_token_twap m' \<le> d + max (mk_deposit_token_twap m' div 4) (min (mk_withdraw_guard_threshold m') (mk_deposit_token_twap m'))
      \<or> t < mk_withdraw_guard_threshold m' div 10) \<and>
    mk_status m' \<in> {Active, ReduceOnly, Settlement} \<and> mk_paused_operations m' AND 8 = 0"
  using assms
proof (cases rule: with_limits_Inr)
  case (1 i u1 p)
  obtain s where "update_spot_balances t Borrow True (m, up_balance (us_spot_positions u1 ! i)) = Inr (m', s)"
    using 1(2) by (auto simp: update_spot_balances_and_cumulative_deposits_def and_then_Inr)
  from update_covers [OF this] show ?thesis using check_withdraw_limits_Inr [OF 1(4)] 1(5,6) by auto
qed

text \<open>A vault that passes its check holds what is owed to the depositors.\<close>

lemma vault_check:
  assumes "validate_spot_market_vault_amount vault m = Inr claim"
  shows "\<exists>d b. get_token_amount (mk_deposit_balance m) m Deposit = Inr d \<and>
    get_token_amount (mk_borrow_balance m) m Borrow = Inr b \<and> claim = int d - int b \<and> d \<le> vault + b"
  using assms
  by (auto simp: validate_spot_market_vault_amount_def validate_spot_balances_def res_simps)

definition depositor :: user where
  "depositor = \<lparr>us_spot_positions = \<lparr>up_balance = spot_position 0 Deposit (10 ^ 12), up_open_bids = 0, up_open_asks = 0,
       up_cumulative_deposits = 1000000000, up_open_orders = 0\<rparr> # replicate 7 \<lparr>up_balance = spot_position 0 Deposit 0,
       up_open_bids = 0, up_open_asks = 0, up_cumulative_deposits = 0, up_open_orders = 0\<rparr>,
     us_total_deposits = 1000000000, us_total_withdraws = 0\<rparr>"

definition calm_market :: spot_market where
  "calm_market = lent_market\<lparr>mk_borrow_balance := 0, mk_deposit_token_twap := 1000000000\<rparr>"

definition left_market :: spot_market where
  "left_market = calm_market\<lparr>mk_deposit_balance := 899999999999\<rparr>"

definition left_user :: user where
  "left_user = depositor\<lparr>us_spot_positions := (us_spot_positions depositor)[0 := \<lparr>up_balance = spot_position 0 Deposit 899999999999,
     up_open_bids = 0, up_open_asks = 0, up_cumulative_deposits = 900000000, up_open_orders = 0\<rparr>]\<rparr>"

lemmas limits_eval = update_spot_balances_and_cumulative_deposits_with_limits_def force_get_spot_position_index_def
  get_spot_position_index_def update_spot_balances_and_cumulative_deposits_def check_withdraw_limits_def
  max_token_borrows_of_def calculate_max_borrow_token_amount_def calculate_token_utilization_limits_def
  calculate_min_deposit_token_amount_def depositor_def calm_market_def left_market_def left_user_def interest_eval

theorem withdraw_is_limited_witness:
  "update_spot_balances_and_cumulative_deposits_with_limits 100000000 Borrow (calm_market, depositor) = Inr (left_market, left_user) \<and>
   get_token_amount (mk_deposit_balance left_market) left_market Deposit = Inr 899999999 \<and>
   (1000000000 :: nat) \<le> 899999999 + max (1000000000 div 4) 0"
proof -
  have u: "update_spot_balances_and_cumulative_deposits_with_limits 100000000 Borrow (calm_market, depositor) =
      Inr (left_market, left_user)"
    by (simp add: limits_eval spot_eval)
  have d: "get_token_amount (mk_deposit_balance left_market) left_market Deposit = Inr 899999999"
    by (simp add: limits_eval spot_eval)
  have "mk_deposit_token_twap left_market = 1000000000" "mk_withdraw_guard_threshold left_market = 0"
    by (simp_all add: limits_eval spot_eval)
  then show ?thesis using u d withdraw_is_limited [OF u] by auto
qed

end
