(* ===== verification/Drift_Insurance.thy ===== *)
theory Drift_Insurance
  imports Drift_Withdraw
begin

text \<open>
  The insurance fund of a spot market of the perpetuals program: shares of its vault (\<open>math/insurance.rs\<close>), the stakes
  of the users (\<open>state/insurance_fund_stake.rs\<close>), staking and unstaking (\<open>controller/insurance.rs\<close>), the
  shares of the protocol and the settlement of revenue. The balances of the vaults are parameters.
\<close>

section \<open>State\<close>

abbreviation Drift_InsufficientDeposit :: error_code where "Drift_InsufficientDeposit \<equiv> ErrorCode 2"
abbreviation Drift_TryingToRemoveLiquidityTooFast :: error_code where
  "Drift_TryingToRemoveLiquidityTooFast \<equiv> ErrorCode 133"
abbreviation Drift_InsufficientIFShares :: error_code where "Drift_InsufficientIFShares \<equiv> ErrorCode 145"
abbreviation Drift_RevenueSettingsCannotSettleToIF :: error_code where
  "Drift_RevenueSettingsCannotSettleToIF \<equiv> ErrorCode 176"
abbreviation Drift_NoRevenueToSettleToIF :: error_code where "Drift_NoRevenueToSettleToIF \<equiv> ErrorCode 177"
abbreviation Drift_InvalidIFUnstake :: error_code where "Drift_InvalidIFUnstake \<equiv> ErrorCode 185"
abbreviation Drift_InvalidIFUnstakeSize :: error_code where "Drift_InvalidIFUnstakeSize \<equiv> ErrorCode 186"
abbreviation Drift_InvalidIFUnstakeCancel :: error_code where "Drift_InvalidIFUnstakeCancel \<equiv> ErrorCode 187"
abbreviation Drift_InvalidIFForNewStakes :: error_code where "Drift_InvalidIFForNewStakes \<equiv> ErrorCode 188"
abbreviation Drift_InvalidIFRebase :: error_code where "Drift_InvalidIFRebase \<equiv> ErrorCode 189"
abbreviation Drift_InvalidInsuranceUnstakeSize :: error_code where "Drift_InvalidInsuranceUnstakeSize \<equiv> ErrorCode 190"
abbreviation Drift_InvalidIFDetected :: error_code where "Drift_InvalidIFDetected \<equiv> ErrorCode 192"
abbreviation Drift_IFWithdrawRequestInProgress :: error_code where "Drift_IFWithdrawRequestInProgress \<equiv> ErrorCode 198"
abbreviation Drift_NoIFWithdrawRequestInProgress :: error_code where
  "Drift_NoIFWithdrawRequestInProgress \<equiv> ErrorCode 199"
abbreviation Drift_IFWithdrawRequestTooSmall :: error_code where "Drift_IFWithdrawRequestTooSmall \<equiv> ErrorCode 200"
abbreviation Drift_InvalidIFSharesDetected :: error_code where "Drift_InvalidIFSharesDetected \<equiv> ErrorCode 203"
abbreviation Drift_InsuranceFundOperationPaused :: error_code where
  "Drift_InsuranceFundOperationPaused \<equiv> ErrorCode 258"
abbreviation Drift_InvalidIfRebalanceSwap :: error_code where "Drift_InvalidIfRebalanceSwap \<equiv> ErrorCode 316"

record insurance_fund_stake =
  fs_if_shares :: nat
  fs_last_withdraw_request_shares :: nat
  fs_if_base :: nat
  fs_last_withdraw_request_value :: nat
  fs_last_withdraw_request_ts :: int
  fs_cost_basis :: int
  fs_market_index :: nat

record user_stats =
  ut_if_staked_quote_asset_amount :: nat
  ut_if_staked_gov_token_amount :: nat
  ut_fuel_insurance :: nat
  ut_last_fuel_if_bonus_update_ts :: nat

definition new_stake :: "nat \<Rightarrow> insurance_fund_stake" where
  "new_stake market_index = \<lparr>fs_if_shares = 0, fs_last_withdraw_request_shares = 0, fs_if_base = 0,
     fs_last_withdraw_request_value = 0, fs_last_withdraw_request_ts = 0, fs_cost_basis = 0,
     fs_market_index = market_index\<rparr>"

text \<open>The fund of a market is written through the market.\<close>

definition upd_fund :: "(insurance_fund \<Rightarrow> insurance_fund) \<Rightarrow> spot_market \<Rightarrow> spot_market" where
  "upd_fund f m = m\<lparr>mk_insurance_fund := f (mk_insurance_fund m)\<rparr>"

definition get_protocol_shares :: "insurance_fund \<Rightarrow> nat res" where
  "get_protocol_shares f = safe_sub (if_total_shares f) (if_user_shares f)"

section \<open>Shares of the vault\<close>

definition vault_amount_to_if_shares :: "nat \<Rightarrow> nat \<Rightarrow> nat \<Rightarrow> nat res" where
  "vault_amount_to_if_shares amount total_if_shares vault_balance =
     (if vault_balance > 0 then get_proportion_u128 amount total_if_shares vault_balance
      else require (total_if_shares = 0) Drift_InvalidIFSharesDetected (Inr amount))"

definition if_shares_to_vault_amount :: "nat \<Rightarrow> nat \<Rightarrow> nat \<Rightarrow> nat res" where
  "if_shares_to_vault_amount n_shares total_if_shares vault_balance =
     require (n_shares \<le> total_if_shares) Drift_InvalidIFSharesDetected
       (if total_if_shares > 0 then
          and_then (get_proportion_u128 vault_balance n_shares total_if_shares) (\<lambda>x. cast_u 64 (int x))
        else Inr 0)"

definition calculate_rebase_info :: "nat \<Rightarrow> nat \<Rightarrow> (nat \<times> nat) res" where
  "calculate_rebase_info total_if_shares vault_balance =
     and_then (safe_div total_if_shares 10) (\<lambda>x.
     and_then (safe_div x vault_balance) (\<lambda>rebase_divisor_full.
     and_then (cast_u 32 (int (log10_iter rebase_divisor_full))) (\<lambda>expo_diff.
     and_then (as_uint 128 (10 ^ expo_diff)) (\<lambda>rebase_divisor. Inr (expo_diff, rebase_divisor)))))"

definition calculate_if_shares_lost :: "insurance_fund_stake \<Rightarrow> spot_market \<Rightarrow> nat \<Rightarrow> nat res" where
  "calculate_if_shares_lost s m vault_balance =
     (let n_shares = fs_last_withdraw_request_shares s; total = if_total_shares (mk_insurance_fund m);
          requested = fs_last_withdraw_request_value s in
      and_then (if_shares_to_vault_amount n_shares total vault_balance) (\<lambda>amount.
      if amount > requested then
        and_then (safe_sub total n_shares) (\<lambda>rest.
        and_then (safe_sub vault_balance requested) (\<lambda>vault_rest.
        and_then (vault_amount_to_if_shares requested rest vault_rest) (\<lambda>new_n_shares.
        require (new_n_shares \<le> n_shares) Drift_InvalidIFSharesDetected (safe_sub n_shares new_n_shares))))
      else Inr 0))"

definition calculate_share_price :: "nat \<Rightarrow> nat \<Rightarrow> nat res" where
  "calculate_share_price total_if_shares vault_balance =
     (if total_if_shares > 0 then
        and_then (safe_mul 128 vault_balance 1000000) (\<lambda>product.
        and_then (safe_div product total_if_shares) (\<lambda>price. cast_u 64 (int price)))
      else Inr 0)"

section \<open>Stakes\<close>

definition checked_if_shares :: "insurance_fund_stake \<Rightarrow> spot_market \<Rightarrow> nat res" where
  "checked_if_shares s m =
     require (fs_if_base s = if_shares_base (mk_insurance_fund m)) Drift_InvalidIFRebase (Inr (fs_if_shares s))"

definition increase_if_shares :: "nat \<Rightarrow> spot_market \<Rightarrow> insurance_fund_stake \<Rightarrow> insurance_fund_stake res" where
  "increase_if_shares delta m s =
     require (fs_if_base s = if_shares_base (mk_insurance_fund m)) Drift_InvalidIFRebase
       (and_then (safe_add 128 (fs_if_shares s) delta) (\<lambda>x. Inr (s\<lparr>fs_if_shares := x\<rparr>)))"

definition decrease_if_shares :: "nat \<Rightarrow> spot_market \<Rightarrow> insurance_fund_stake \<Rightarrow> insurance_fund_stake res" where
  "decrease_if_shares delta m s =
     require (fs_if_base s = if_shares_base (mk_insurance_fund m)) Drift_InvalidIFRebase
       (and_then (safe_sub (fs_if_shares s) delta) (\<lambda>x. Inr (s\<lparr>fs_if_shares := x\<rparr>)))"

text \<open>A fund whose vault lost most of its value has its shares divided by a power of ten, and each stake follows when it
  is next used.\<close>

definition apply_rebase_to_insurance_fund :: "nat \<Rightarrow> spot_market \<Rightarrow> spot_market res" where
  "apply_rebase_to_insurance_fund vault_balance m =
     and_then
       (if vault_balance \<noteq> 0 \<and> vault_balance < if_total_shares (mk_insurance_fund m) then
          and_then (calculate_rebase_info (if_total_shares (mk_insurance_fund m)) vault_balance)
            (\<lambda>(expo_diff, rebase_divisor).
          and_then (safe_div (if_total_shares (mk_insurance_fund m)) rebase_divisor) (\<lambda>total.
          and_then (safe_div (if_user_shares (mk_insurance_fund m)) rebase_divisor) (\<lambda>user.
          and_then (safe_add 128 (if_shares_base (mk_insurance_fund m)) expo_diff) (\<lambda>base.
          Inr (upd_fund (\<lambda>f. f\<lparr>if_total_shares := total, if_user_shares := user, if_shares_base := base\<rparr>) m)))))
        else Inr m) (\<lambda>m.
     Inr (if vault_balance \<noteq> 0 \<and> if_total_shares (mk_insurance_fund m) = 0
          then upd_fund (\<lambda>f. f\<lparr>if_total_shares := vault_balance\<rparr>) m else m))"

definition apply_rebase_to_insurance_fund_stake :: "spot_market \<Rightarrow> insurance_fund_stake \<Rightarrow> insurance_fund_stake res" where
  "apply_rebase_to_insurance_fund_stake m s =
     (let base = if_shares_base (mk_insurance_fund m) in
      if base \<noteq> fs_if_base s then
        require (base > fs_if_base s) Drift_InvalidIFRebase
          (and_then (cast_u 32 (int (base - fs_if_base s))) (\<lambda>expo_diff.
           and_then (as_uint 128 (10 ^ expo_diff)) (\<lambda>rebase_divisor.
           and_then (safe_div (fs_if_shares s) rebase_divisor) (\<lambda>shares.
           and_then (safe_div (fs_last_withdraw_request_shares s) rebase_divisor) (\<lambda>request.
           Inr (s\<lparr>fs_if_base := base, fs_if_shares := shares, fs_last_withdraw_request_shares := request\<rparr>))))))
      else Inr s)"

text \<open>Both, in the order of the callers.\<close>

definition rebase :: "nat \<Rightarrow> spot_market \<times> insurance_fund_stake \<Rightarrow> (spot_market \<times> insurance_fund_stake) res" where
  "rebase vault_amount ms =
     and_then (apply_rebase_to_insurance_fund vault_amount (fst ms)) (\<lambda>m.
     and_then (apply_rebase_to_insurance_fund_stake m (snd ms)) (\<lambda>s. Inr (m, s)))"

definition GOV_SPOT_MARKET_INDEX :: nat where "GOV_SPOT_MARKET_INDEX = 15"
definition FUEL_START_TS :: int where "FUEL_START_TS = 1723147200"
definition FUEL_WINDOW :: nat where "FUEL_WINDOW = 2419200"

definition calculate_insurance_fuel_bonus :: "spot_market \<Rightarrow> nat \<Rightarrow> int \<Rightarrow> nat \<Rightarrow> nat res" where
  "calculate_insurance_fuel_bonus m stake_amount stake_amount_delta fuel_bonus_numerator =
     and_then (safe_mul 128 (stake_amount - nat \<bar>stake_amount_delta\<bar>) fuel_bonus_numerator) (\<lambda>x.
     and_then (safe_mul 128 x (mk_fuel_boost_insurance m)) (\<lambda>x.
     and_then (safe_div x FUEL_WINDOW) (\<lambda>x.
     and_then (cast_u 64 (int x)) (\<lambda>x. Inr (x div 100000)))))"

definition update_user_stats_if_stake_amount ::
  "int \<Rightarrow> nat \<Rightarrow> insurance_fund_stake \<Rightarrow> spot_market \<Rightarrow> int \<Rightarrow> user_stats \<Rightarrow> user_stats res" where
  "update_user_stats_if_stake_amount delta vault_amount s m now u =
     (if mk_market_index m \<noteq> 0 \<and> mk_market_index m \<noteq> GOV_SPOT_MARKET_INDEX \<and> mk_fuel_boost_insurance m = 0 then Inr u
      else
        and_then (checked_if_shares s m) (\<lambda>shares.
        and_then (if delta \<ge> 0 then safe_add 64 vault_amount (nat \<bar>delta\<bar>) else safe_sub vault_amount (nat \<bar>delta\<bar>)) (\<lambda>vault.
        and_then (if_shares_to_vault_amount shares (if_total_shares (mk_insurance_fund m)) vault) (\<lambda>if_stake_amount.
        let u = (if mk_market_index m = 0 then u\<lparr>ut_if_staked_quote_asset_amount := if_stake_amount\<rparr>
                 else if mk_market_index m = GOV_SPOT_MARKET_INDEX then u\<lparr>ut_if_staked_gov_token_amount := if_stake_amount\<rparr>
                 else u) in
        if mk_fuel_boost_insurance m \<noteq> 0 \<and> now \<ge> FUEL_START_TS then
          and_then (cast_u 32 now) (\<lambda>now_u32.
          and_then (safe_sub now_u32 (max (ut_last_fuel_if_bonus_update_ts u) (nat FUEL_START_TS))) (\<lambda>since_last.
          and_then (calculate_insurance_fuel_bonus m if_stake_amount delta since_last) (\<lambda>bonus.
          and_then (cast_u 32 (int bonus)) (\<lambda>bonus.
          Inr (u\<lparr>ut_fuel_insurance := saturating_add 32 (ut_fuel_insurance u) bonus,
                 ut_last_fuel_if_bonus_update_ts := now_u32\<rparr>)))))
        else Inr u))))"

section \<open>Staking and unstaking\<close>

type_synonym staking = "spot_market \<times> insurance_fund_stake \<times> user_stats"

definition add_insurance_fund_stake :: "nat \<Rightarrow> nat \<Rightarrow> int \<Rightarrow> staking \<Rightarrow> staking res" where
  "add_insurance_fund_stake amount vault_amount now msu =
     (case msu of (m, s, u) \<Rightarrow>
        require (\<not> (vault_amount = 0 \<and> if_total_shares (mk_insurance_fund m) \<noteq> 0)) Drift_InvalidIFForNewStakes
          (and_then (rebase vault_amount (m, s)) (\<lambda>(m, s).
           and_then (checked_if_shares s m) (\<lambda>if_shares_before.
           and_then (vault_amount_to_if_shares amount (if_total_shares (mk_insurance_fund m)) vault_amount) (\<lambda>n_shares.
           and_then (cast_i 64 (int amount)) (\<lambda>amount_i.
           and_then (if if_shares_before = 0 then Inr amount_i else safe_i 64 (fs_cost_basis s + amount_i)) (\<lambda>cost_basis.
           and_then (increase_if_shares n_shares m (s\<lparr>fs_cost_basis := cost_basis\<rparr>)) (\<lambda>s.
           and_then (safe_add 128 (if_total_shares (mk_insurance_fund m)) n_shares) (\<lambda>total.
           and_then (safe_add 128 (if_user_shares (mk_insurance_fund m)) n_shares) (\<lambda>user.
           let m = upd_fund (\<lambda>f. f\<lparr>if_total_shares := total, if_user_shares := user\<rparr>) m in
           and_then (update_user_stats_if_stake_amount amount_i vault_amount s m now u) (\<lambda>u. Inr (m, s, u))))))))))))"

definition request_remove_insurance_fund_stake :: "nat \<Rightarrow> nat \<Rightarrow> int \<Rightarrow> staking \<Rightarrow> staking res" where
  "request_remove_insurance_fund_stake n_shares vault_amount now msu =
     (case msu of (m, s, u) \<Rightarrow>
        and_then (rebase vault_amount (m, s\<lparr>fs_last_withdraw_request_shares := n_shares\<rparr>)) (\<lambda>(m, s).
        and_then (checked_if_shares s m) (\<lambda>shares.
        require (fs_last_withdraw_request_shares s \<le> shares) Drift_InvalidInsuranceUnstakeSize
          (and_then (if_shares_to_vault_amount (fs_last_withdraw_request_shares s) (if_total_shares (mk_insurance_fund m))
             vault_amount) (\<lambda>amount.
           let request_value = min amount (vault_amount - 1); s = s\<lparr>fs_last_withdraw_request_value := request_value\<rparr> in
           require (request_value = 0 \<or> request_value < vault_amount) Drift_InvalidIFUnstakeSize
             (and_then (update_user_stats_if_stake_amount 0 vault_amount s m now u) (\<lambda>u.
              Inr (m, s\<lparr>fs_last_withdraw_request_ts := now\<rparr>, u))))))))"

definition cancel_request_remove_insurance_fund_stake :: "nat \<Rightarrow> int \<Rightarrow> staking \<Rightarrow> staking res" where
  "cancel_request_remove_insurance_fund_stake vault_amount now msu =
     (case msu of (m, s, u) \<Rightarrow>
        and_then (rebase vault_amount (m, s)) (\<lambda>(m, s).
        and_then (checked_if_shares s m) (\<lambda>_.
        require (fs_last_withdraw_request_shares s \<noteq> 0) Drift_InvalidIFUnstakeCancel
          (and_then (calculate_if_shares_lost s m vault_amount) (\<lambda>lost.
           and_then (decrease_if_shares lost m s) (\<lambda>s.
           and_then (safe_sub (if_total_shares (mk_insurance_fund m)) lost) (\<lambda>total.
           and_then (safe_sub (if_user_shares (mk_insurance_fund m)) lost) (\<lambda>user.
           let m = upd_fund (\<lambda>f. f\<lparr>if_total_shares := total, if_user_shares := user\<rparr>) m in
           and_then (update_user_stats_if_stake_amount 0 vault_amount s m now u) (\<lambda>u.
           Inr (m, s\<lparr>fs_last_withdraw_request_shares := 0, fs_last_withdraw_request_value := 0,
                     fs_last_withdraw_request_ts := now\<rparr>, u))))))))))"

definition remove_insurance_fund_stake :: "nat \<Rightarrow> int \<Rightarrow> staking \<Rightarrow> (nat \<times> staking) res" where
  "remove_insurance_fund_stake vault_amount now msu =
     (case msu of (m, s, u) \<Rightarrow>
        and_then (safe_i 64 (now - fs_last_withdraw_request_ts s)) (\<lambda>time_since_withdraw_request.
        require (time_since_withdraw_request \<ge> if_unstaking_period (mk_insurance_fund m)) Drift_TryingToRemoveLiquidityTooFast
          (and_then (rebase vault_amount (m, s)) (\<lambda>(m, s).
           and_then (checked_if_shares s m) (\<lambda>if_shares_before.
           let n_shares = fs_last_withdraw_request_shares s in
           require (n_shares > 0) Drift_InvalidIFUnstake
             (require (if_shares_before \<ge> n_shares) Drift_InsufficientIFShares
               (and_then (if_shares_to_vault_amount n_shares (if_total_shares (mk_insurance_fund m)) vault_amount) (\<lambda>amount.
                and_then (calculate_if_shares_lost s m vault_amount) (\<lambda>_.
                let withdraw_amount = min amount (fs_last_withdraw_request_value s) in
                and_then (decrease_if_shares n_shares m s) (\<lambda>s.
                and_then (cast_i 64 (int withdraw_amount)) (\<lambda>w.
                and_then (safe_i 64 (fs_cost_basis s - w)) (\<lambda>cost_basis.
                and_then (safe_sub (if_total_shares (mk_insurance_fund m)) n_shares) (\<lambda>total.
                and_then (safe_sub (if_user_shares (mk_insurance_fund m)) n_shares) (\<lambda>user.
                let m = upd_fund (\<lambda>f. f\<lparr>if_total_shares := total, if_user_shares := user\<rparr>) m;
                    s = s\<lparr>fs_cost_basis := cost_basis, fs_last_withdraw_request_shares := 0,
                          fs_last_withdraw_request_value := 0, fs_last_withdraw_request_ts := now\<rparr> in
                and_then (update_user_stats_if_stake_amount (- w) vault_amount s m now u) (\<lambda>u.
                Inr (withdraw_amount, m, s, u))))))))))))))))"

section \<open>The shares of the protocol\<close>

definition admin_remove_insurance_fund_stake :: "nat \<Rightarrow> nat \<Rightarrow> spot_market \<Rightarrow> (nat \<times> spot_market) res" where
  "admin_remove_insurance_fund_stake vault_amount n_shares m =
     and_then (apply_rebase_to_insurance_fund vault_amount m) (\<lambda>m.
     and_then (get_protocol_shares (mk_insurance_fund m)) (\<lambda>if_shares_before.
     require (if_shares_before \<ge> n_shares) Drift_InsufficientIFShares
       (and_then (if_shares_to_vault_amount n_shares (if_total_shares (mk_insurance_fund m)) vault_amount) (\<lambda>withdraw_amount.
        and_then (safe_sub (if_total_shares (mk_insurance_fund m)) n_shares) (\<lambda>total.
        and_then (safe_sub total (if_user_shares (mk_insurance_fund m))) (\<lambda>_.
        Inr (withdraw_amount, upd_fund (\<lambda>f. f\<lparr>if_total_shares := total\<rparr>) m)))))))"

definition transfer_protocol_insurance_fund_stake :: "nat \<Rightarrow> nat \<Rightarrow> staking \<Rightarrow> (nat \<times> staking) res" where
  "transfer_protocol_insurance_fund_stake vault_amount n_shares msu =
     (case msu of (m, s, u) \<Rightarrow>
        and_then (apply_rebase_to_insurance_fund vault_amount m) (\<lambda>m.
        and_then (get_protocol_shares (mk_insurance_fund m)) (\<lambda>if_shares_before.
        and_then (checked_if_shares s m) (\<lambda>_.
        require (if_shares_before \<ge> n_shares) Drift_InsufficientIFShares
          (and_then (safe_add 128 (if_user_shares (mk_insurance_fund m)) n_shares) (\<lambda>user.
           let m = upd_fund (\<lambda>f. f\<lparr>if_user_shares := user\<rparr>) m in
           and_then (increase_if_shares n_shares m s) (\<lambda>s.
           and_then (checked_if_shares s m) (\<lambda>target_if_shares_after.
           and_then
             (if mk_market_index m = 0 then
                and_then (if_shares_to_vault_amount target_if_shares_after (if_total_shares (mk_insurance_fund m)) vault_amount)
                  (\<lambda>x. Inr (u\<lparr>ut_if_staked_quote_asset_amount := x\<rparr>))
              else if mk_market_index m = GOV_SPOT_MARKET_INDEX then
                and_then (if_shares_to_vault_amount target_if_shares_after (if_total_shares (mk_insurance_fund m)) vault_amount)
                  (\<lambda>x. Inr (u\<lparr>ut_if_staked_gov_token_amount := x\<rparr>))
              else Inr u) (\<lambda>u.
           and_then (if_shares_to_vault_amount n_shares (if_total_shares (mk_insurance_fund m)) vault_amount) (\<lambda>withdraw_amount.
           and_then (get_protocol_shares (mk_insurance_fund m)) (\<lambda>_.
           Inr (withdraw_amount, m, s, u))))))))))))"

section \<open>Settling revenue\<close>

definition MAX_APR_PER_REVENUE_SETTLE :: nat where "MAX_APR_PER_REVENUE_SETTLE = 10000000"
definition MAX_APR_PER_REVENUE_SETTLE_GOV :: nat where "MAX_APR_PER_REVENUE_SETTLE_GOV = 45454"

text \<open>The share of the revenue pool that can be settled now.\<close>

definition revenue_to_settle :: "nat \<Rightarrow> int \<Rightarrow> spot_market \<Rightarrow> nat res" where
  "revenue_to_settle vault_amount depositors_claim m =
     and_then (get_token_amount (sb_balance (mk_revenue_pool m)) m Deposit) (\<lambda>pool_amount.
     and_then (cast_i 64 (int pool_amount)) (\<lambda>pool_i.
     and_then (if depositors_claim < pool_i then cast_u 128 (max depositors_claim 0 div 2) else Inr pool_amount) (\<lambda>token_amount.
     if if_user_shares (mk_insurance_fund m) > 0 then
       and_then (safe_mul 128 vault_amount (if mk_market_index m = GOV_SPOT_MARKET_INDEX
           then MAX_APR_PER_REVENUE_SETTLE_GOV else MAX_APR_PER_REVENUE_SETTLE)) (\<lambda>x.
       and_then (safe_div x 1000000) (\<lambda>x.
       and_then (cast_u 128 (if_revenue_settle_period (mk_insurance_fund m))) (\<lambda>period.
       and_then (safe_div ONE_YEAR period) (\<lambda>periods.
       and_then (safe_div x (max periods 1)) (\<lambda>capped_apr_amount.
       and_then (safe_div token_amount 10) (\<lambda>capped_token_pct_amount.
       Inr (min capped_token_pct_amount capped_apr_amount)))))))
     else Inr token_amount)))"

definition settle_revenue_to_insurance_fund :: "nat \<Rightarrow> nat \<Rightarrow> int \<Rightarrow> bool \<Rightarrow> spot_market \<Rightarrow> (nat \<times> spot_market) res" where
  "settle_revenue_to_insurance_fund spot_vault_amount vault_amount now check_invariants m =
     and_then (update_spot_market_cumulative_interest None now m) (\<lambda>m.
     if if_revenue_settle_period (mk_insurance_fund m) = 0 then Inr (0, m)
     else
       require (if_user_factor (mk_insurance_fund m) \<le> if_total_factor (mk_insurance_fund m))
         Drift_RevenueSettingsCannotSettleToIF
         (and_then (validate_spot_market_vault_amount spot_vault_amount m) (\<lambda>depositors_claim.
          and_then (revenue_to_settle vault_amount depositors_claim m) (\<lambda>token_amount.
          and_then (get_proportion_u128 token_amount 1 1) (\<lambda>x.
          and_then (cast_u 64 (int x)) (\<lambda>amount.
          require (check_invariants \<longrightarrow> amount \<noteq> 0) Drift_NoRevenueToSettleToIF
            (let m = upd_fund (\<lambda>f. f\<lparr>if_last_revenue_settle_ts := now\<rparr>) m; f = mk_insurance_fund m in
             and_then (safe_sub (if_total_factor f) (if_user_factor f)) (\<lambda>protocol_if_factor.
             and_then
               (if protocol_if_factor > 0 then
                  and_then (safe_mul 64 amount protocol_if_factor) (\<lambda>x.
                  and_then (safe_div x (if_total_factor f)) (\<lambda>x.
                  and_then (vault_amount_to_if_shares x (if_total_shares f) vault_amount) (\<lambda>n_shares.
                  and_then (safe_add 128 (if_total_shares f) n_shares) (\<lambda>total.
                  Inr (upd_fund (\<lambda>f. f\<lparr>if_total_shares := total\<rparr>) m)))))
                else Inr m) (\<lambda>m.
             and_then (update_revenue_pool_balances amount Borrow m) (\<lambda>m. Inr (amount, m)))))))))))"

text \<open>\<open>send\<close> is the answer of the token program to the transfer.\<close>

definition attempt_settle_revenue_to_insurance_fund :: "(nat \<Rightarrow> unit res) \<Rightarrow> nat \<Rightarrow> nat \<Rightarrow> int \<Rightarrow> spot_market \<Rightarrow> spot_market res" where
  "attempt_settle_revenue_to_insurance_fund send spot_vault_amount vault_amount now m =
     (let f = mk_insurance_fund m in
      and_then
        (if if_revenue_settle_period f > 0 then
           and_then (on_the_hour_update now (if_last_revenue_settle_ts f) (if_revenue_settle_period f)) (\<lambda>time. Inr (time = 0))
         else Inr False) (\<lambda>valid_revenue_settle_time.
      if valid_revenue_settle_time then
        and_then (settle_revenue_to_insurance_fund spot_vault_amount vault_amount now False m) (\<lambda>(token_amount, m).
        and_then (if token_amount > 0 then send token_amount else Inr ()) (\<lambda>_.
        Inr (upd_fund (\<lambda>f. f\<lparr>if_last_revenue_settle_ts := now\<rparr>) m)))
      else Inr m))"

end
