(* ===== verification/Drift_Insurance_Theorems.thy ===== *)
theory Drift_Insurance_Theorems
  imports Drift_Insurance
begin

text \<open>
  What the insurance fund promises its stakers: shares bought and sold at once gain nothing and dilute nobody, the
  stakes of the users never exceed the shares of the users, whatever rebases happen in between, and an unstake waits
  and pays at most what was requested.
\<close>

section \<open>No free shares\<close>

lemma proportion_div: "get_proportion_u128 v n d = Inr p \<Longrightarrow> 0 < d \<Longrightarrow> p = v * n div d"
  using proportion_Inr [of v n d p] by auto

lemma shares_bought:
  assumes "vault_amount_to_if_shares a T V = Inr n"
  shows "n * V \<le> a * T" "V = 0 \<longrightarrow> T = 0 \<and> n = a"
  using assms proportion_div [of a T V n] div_mult_le [of "a * T" V]
  by (auto simp: vault_amount_to_if_shares_def require_Inr split: if_split_asm)

lemma shares_sold:
  assumes "if_shares_to_vault_amount n T V = Inr a"
  shows "n \<le> T" "a * T \<le> V * n" "T = 0 \<longrightarrow> a = 0"
proof -
  show "n \<le> T" "T = 0 \<longrightarrow> a = 0" using assms by (auto simp: if_shares_to_vault_amount_def require_Inr)
  show "a * T \<le> V * n"
  proof (cases "T = 0")
    case False
    then have "get_proportion_u128 V n T = Inr a"
      using assms by (auto simp: if_shares_to_vault_amount_def require_Inr and_then_Inr cast_Inr)
    then show ?thesis using proportion_div [of V n T a] False div_mult_le [of "V * n" T] by simp
  qed simp
qed

text \<open>
  Shares of the insurance fund that are bought and sold at once return at most the amount paid, and buying them does
  not lower the worth of the shares of the others: the vault per share does not fall.
\<close>

theorem staking_is_fair:
  assumes "vault_amount_to_if_shares a T V = Inr n" "if_shares_to_vault_amount n (T + n) (V + a) = Inr a'"
  shows "a' \<le> a \<and> V * (T + n) \<le> (V + a) * T"
proof -
  note b = shares_bought [OF assms(1)] and s = shares_sold [OF assms(2)]
  have "a' * (T + n) \<le> (V + a) * n" by (rule s(2))
  also have "\<dots> = n * V + a * n" by (simp add: algebra_simps)
  also have "\<dots> \<le> a * (T + n)" using b(1) by (simp add: algebra_simps)
  finally have "a' * (T + n) \<le> a * (T + n)" .
  then have "a' \<le> a" using s(3) mult_le_cancel2 [of a' "T + n" a] by (metis add_is_0 gr0I le0)
  moreover have "V * (T + n) \<le> (V + a) * T" using b(1) by (simp add: algebra_simps)
  ultimately show ?thesis ..
qed

theorem staking_is_fair_witness:
  "vault_amount_to_if_shares 1000 7 9 = Inr 777 \<and> if_shares_to_vault_amount 777 (7 + 777) (9 + 1000) = Inr 999 \<and> (999 :: nat) \<le> 1000"
proof -
  have a: "vault_amount_to_if_shares 1000 7 9 = Inr 777"
    using proportion_exact [of 1000 7 9] by (simp add: vault_amount_to_if_shares_def)
  have b: "if_shares_to_vault_amount 777 (7 + 777) (9 + 1000) = Inr 999"
    using proportion_exact [of 1009 777 784] by (simp add: if_shares_to_vault_amount_def cast_u_def)
  show ?thesis using a b staking_is_fair [OF a b] by simp
qed

section \<open>The stakes are covered\<close>

text \<open>The shares of a stake once it has followed the rebases of the fund.\<close>

definition rebased_shares :: "spot_market \<Rightarrow> insurance_fund_stake \<Rightarrow> nat" where
  "rebased_shares m s = fs_if_shares s div 10 ^ (if_shares_base (mk_insurance_fund m) - fs_if_base s)"

definition covered :: "spot_market \<Rightarrow> insurance_fund_stake list \<Rightarrow> bool" where
  "covered m ss \<longleftrightarrow> (\<Sum>s\<leftarrow>ss. rebased_shares m s) \<le> if_user_shares (mk_insurance_fund m) \<and>
     if_user_shares (mk_insurance_fund m) \<le> if_total_shares (mk_insurance_fund m) \<and>
     (\<forall>s\<in>set ss. fs_if_base s \<le> if_shares_base (mk_insurance_fund m))"

lemma sum_list_div_le: "(\<Sum>x\<leftarrow>xs. f x div k) \<le> (\<Sum>x\<leftarrow>xs. f x) div (k :: nat)"
proof (induction xs)
  case (Cons x xs)
  have "f x div k + (\<Sum>x\<leftarrow>xs. f x) div k \<le> (f x + (\<Sum>x\<leftarrow>xs. f x)) div k"
    using div_add1_eq [of "f x" "\<Sum>x\<leftarrow>xs. f x" k] by (metis le_add1)
  then show ?case using Cons by simp
qed simp

lemma fund_rebased:
  assumes "apply_rebase_to_insurance_fund v m = Inr m'"
  shows "\<exists>e. if_shares_base (mk_insurance_fund m') = if_shares_base (mk_insurance_fund m) + e \<and>
    if_user_shares (mk_insurance_fund m') = if_user_shares (mk_insurance_fund m) div 10 ^ e \<and>
    (if_user_shares (mk_insurance_fund m) \<le> if_total_shares (mk_insurance_fund m) \<longrightarrow>
       if_user_shares (mk_insurance_fund m') \<le> if_total_shares (mk_insurance_fund m'))"
proof -
  have "\<exists>m1 e. if_shares_base (mk_insurance_fund m1) = if_shares_base (mk_insurance_fund m) + e \<and>
      if_user_shares (mk_insurance_fund m1) = if_user_shares (mk_insurance_fund m) div 10 ^ e \<and>
      if_total_shares (mk_insurance_fund m1) = if_total_shares (mk_insurance_fund m) div 10 ^ e \<and>
      m' = (if v \<noteq> 0 \<and> if_total_shares (mk_insurance_fund m1) = 0 then upd_fund (\<lambda>f. f\<lparr>if_total_shares := v\<rparr>) m1 else m1)"
  proof (cases "v \<noteq> 0 \<and> v < if_total_shares (mk_insurance_fund m)")
    case True
    then obtain e k m1 where info: "calculate_rebase_info (if_total_shares (mk_insurance_fund m)) v = Inr (e, k)"
      and m1: "m1 = upd_fund (\<lambda>f. f\<lparr>if_total_shares := if_total_shares (mk_insurance_fund m) div k,
          if_user_shares := if_user_shares (mk_insurance_fund m) div k,
          if_shares_base := if_shares_base (mk_insurance_fund m) + e\<rparr>) m"
        "m' = (if v \<noteq> 0 \<and> if_total_shares (mk_insurance_fund m1) = 0 then upd_fund (\<lambda>f. f\<lparr>if_total_shares := v\<rparr>) m1 else m1)"
      using assms by (auto simp: apply_rebase_to_insurance_fund_def and_then_Inr safe_Inr)
    have "k = 10 ^ e" using info by (auto simp: calculate_rebase_info_def and_then_Inr as_uint_Inr)
    then show ?thesis using m1 by (intro exI [of _ m1] exI [of _ e]) (simp add: upd_fund_def)
  next
    case False
    then show ?thesis using assms
      by (intro exI [of _ m] exI [of _ 0]) (auto simp: apply_rebase_to_insurance_fund_def)
  qed
  then obtain m1 e where "if_shares_base (mk_insurance_fund m1) = if_shares_base (mk_insurance_fund m) + e"
      "if_user_shares (mk_insurance_fund m1) = if_user_shares (mk_insurance_fund m) div 10 ^ e"
      "if_total_shares (mk_insurance_fund m1) = if_total_shares (mk_insurance_fund m) div 10 ^ e"
      "m' = (if v \<noteq> 0 \<and> if_total_shares (mk_insurance_fund m1) = 0 then upd_fund (\<lambda>f. f\<lparr>if_total_shares := v\<rparr>) m1 else m1)"
    by blast
  then show ?thesis using div_le_mono [of "if_user_shares (mk_insurance_fund m)" "if_total_shares (mk_insurance_fund m)" "10 ^ e"]
    by (intro exI [of _ e]) (auto simp: upd_fund_def)
qed

lemma covered_rebased:
  assumes "apply_rebase_to_insurance_fund v m = Inr m'" "covered m ss"
  shows "covered m' ss"
proof -
  obtain e where e: "if_shares_base (mk_insurance_fund m') = if_shares_base (mk_insurance_fund m) + e"
    "if_user_shares (mk_insurance_fund m') = if_user_shares (mk_insurance_fund m) div 10 ^ e"
    "if_user_shares (mk_insurance_fund m') \<le> if_total_shares (mk_insurance_fund m')"
    using fund_rebased [OF assms(1)] assms(2) by (auto simp: covered_def)
  have "rebased_shares m' s = rebased_shares m s div 10 ^ e" if "s \<in> set ss" for s
  proof -
    have "if_shares_base (mk_insurance_fund m') - fs_if_base s = (if_shares_base (mk_insurance_fund m) - fs_if_base s) + e"
      using that assms(2) e(1) by (simp add: covered_def)
    then show ?thesis unfolding rebased_shares_def by (simp only: power_add div_mult2_eq)
  qed
  then have "(\<Sum>s\<leftarrow>ss. rebased_shares m' s) = (\<Sum>s\<leftarrow>ss. rebased_shares m s div 10 ^ e)" by (simp cong: map_cong)
  also have "\<dots> \<le> (\<Sum>s\<leftarrow>ss. rebased_shares m s) div 10 ^ e" by (rule sum_list_div_le)
  also have "\<dots> \<le> if_user_shares (mk_insurance_fund m) div 10 ^ e" using assms(2) by (simp add: covered_def div_le_mono)
  finally show ?thesis using e assms(2) by (auto simp: covered_def)
qed

lemma stake_rebased:
  assumes "apply_rebase_to_insurance_fund_stake m s = Inr s'"
  shows "fs_if_base s' = if_shares_base (mk_insurance_fund m)" "fs_if_shares s' = rebased_shares m s"
  using assms
  by (auto simp: apply_rebase_to_insurance_fund_stake_def rebased_shares_def Let_def res_simps split: if_split_asm)

text \<open>Replacing a stake by one that moved with the shares of the users.\<close>

lemma covered_replace:
  assumes "covered m ss" "i < length ss" "fs_if_base s' = if_shares_base (mk_insurance_fund m)"
    "if_shares_base (mk_insurance_fund m') = if_shares_base (mk_insurance_fund m)"
    "if_user_shares (mk_insurance_fund m') + rebased_shares m (ss ! i) = if_user_shares (mk_insurance_fund m) + fs_if_shares s'"
    "if_user_shares (mk_insurance_fund m') \<le> if_total_shares (mk_insurance_fund m')"
  shows "covered m' (ss[i := s'])"
proof -
  have same: "rebased_shares m' s = rebased_shares m s" for s using assms(4) by (simp add: rebased_shares_def)
  have new: "rebased_shares m s' = fs_if_shares s'" using assms(3) by (simp add: rebased_shares_def)
  have "(\<Sum>s\<leftarrow>ss[i := s']. rebased_shares m s) + rebased_shares m (ss ! i) = (\<Sum>s\<leftarrow>ss. rebased_shares m s) + fs_if_shares s'"
    using sum_list_update_nat [OF assms(2), of "rebased_shares m" s'] new by simp
  moreover have "set (ss[i := s']) \<subseteq> insert s' (set ss)" by (rule set_update_subset_insert)
  ultimately show ?thesis using assms(1,3-6) same by (auto simp: covered_def)
qed

lemma rebase_Inr:
  assumes "rebase v (m, s) = Inr (m1, s1)"
  shows "apply_rebase_to_insurance_fund v m = Inr m1" "fs_if_base s1 = if_shares_base (mk_insurance_fund m1)"
    "fs_if_shares s1 = rebased_shares m1 s"
  using assms stake_rebased [of m1 s s1] by (auto simp: rebase_def and_then_Inr)

text \<open>An operation on a stake rebases, and then moves \<open>a\<close> shares in or \<open>b\<close> shares out.\<close>

definition moves_shares :: "nat \<Rightarrow> spot_market \<times> insurance_fund_stake \<Rightarrow> spot_market \<times> insurance_fund_stake \<Rightarrow> nat \<Rightarrow> nat \<Rightarrow> bool" where
  "moves_shares v b b' x y \<longleftrightarrow> (case (b, b') of ((m, s), (m', s')) \<Rightarrow> \<exists>m1 s0 s1. rebase v (m, s0) = Inr (m1, s1) \<and>
     fs_if_shares s0 = fs_if_shares s \<and> fs_if_base s0 = fs_if_base s \<and> fs_if_base s' = fs_if_base s1 \<and>
     fs_if_shares s' + y = fs_if_shares s1 + x \<and> y \<le> if_user_shares (mk_insurance_fund m1) \<and>
     mk_insurance_fund m' = (mk_insurance_fund m1)\<lparr>if_total_shares := if_total_shares (mk_insurance_fund m1) + x - y,
       if_user_shares := if_user_shares (mk_insurance_fund m1) + x - y\<rparr>)"

lemma moves_covered:
  assumes "moves_shares v (m, ss ! i) (m', s') x y" "covered m ss" "i < length ss"
  shows "covered m' (ss[i := s'])"
proof -
  obtain m1 s0 s1 where r: "rebase v (m, s0) = Inr (m1, s1)" "fs_if_shares s0 = fs_if_shares (ss ! i)"
      "fs_if_base s0 = fs_if_base (ss ! i)"
    and s: "fs_if_base s' = fs_if_base s1" "fs_if_shares s' + y = fs_if_shares s1 + x" "y \<le> if_user_shares (mk_insurance_fund m1)"
      "mk_insurance_fund m' = (mk_insurance_fund m1)\<lparr>if_total_shares := if_total_shares (mk_insurance_fund m1) + x - y,
         if_user_shares := if_user_shares (mk_insurance_fund m1) + x - y\<rparr>"
    using assms(1) by (auto simp: moves_shares_def)
  note rb = rebase_Inr [OF r(1)]
  have "covered m1 ss" by (rule covered_rebased [OF rb(1) assms(2)])
  then show ?thesis
  proof (rule covered_replace [OF _ assms(3)])
    show "if_user_shares (mk_insurance_fund m') + rebased_shares m1 (ss ! i) = if_user_shares (mk_insurance_fund m1) + fs_if_shares s'"
      using s rb(3) r(2,3) by (simp add: rebased_shares_def)
    show "if_user_shares (mk_insurance_fund m') \<le> if_total_shares (mk_insurance_fund m')"
      using s(4) \<open>covered m1 ss\<close> by (simp add: covered_def diff_le_mono)
  qed (use s rb(2) in simp_all)
qed

lemma change_shares_Inr:
  "increase_if_shares n m s = Inr s' \<Longrightarrow> s' = s\<lparr>fs_if_shares := fs_if_shares s + n\<rparr>"
  "decrease_if_shares n m s = Inr s' \<Longrightarrow> n \<le> fs_if_shares s \<and> s' = s\<lparr>fs_if_shares := fs_if_shares s - n\<rparr>"
  by (auto simp: increase_if_shares_def decrease_if_shares_def res_simps)

lemma add_moves:
  assumes "add_insurance_fund_stake a v now (m, s, u) = Inr (m', s', u')"
  shows "\<exists>n. moves_shares v (m, s) (m', s') n 0"
proof -
  obtain m1 s1 n c s2 where r: "rebase v (m, s) = Inr (m1, s1)"
    and s2: "increase_if_shares n m1 (s1\<lparr>fs_cost_basis := c\<rparr>) = Inr s2" and "s' = s2"
    and m': "m' = upd_fund (\<lambda>f. f\<lparr>if_total_shares := if_total_shares (mk_insurance_fund m1) + n,
        if_user_shares := if_user_shares (mk_insurance_fund m1) + n\<rparr>) m1"
    using assms by (auto simp: add_insurance_fund_stake_def and_then_Inr require_Inr safe_Inr Let_def)
  then show ?thesis using change_shares_Inr(1) [OF s2]
    by (intro exI [of _ n]) (auto simp: moves_shares_def upd_fund_def)
qed

lemma request_moves:
  assumes "request_remove_insurance_fund_stake n v now (m, s, u) = Inr (m', s', u')"
  shows "moves_shares v (m, s) (m', s') 0 0"
proof -
  obtain m1 s1 a where r: "rebase v (m, s\<lparr>fs_last_withdraw_request_shares := n\<rparr>) = Inr (m1, s1)" and "m' = m1"
    and "s' = s1\<lparr>fs_last_withdraw_request_value := a, fs_last_withdraw_request_ts := now\<rparr>"
    using assms by (auto simp: request_remove_insurance_fund_stake_def and_then_Inr require_Inr Let_def)
  then show ?thesis unfolding moves_shares_def prod.case
    by (intro exI [of _ m1], rule_tac exI [of _ "s\<lparr>fs_last_withdraw_request_shares := n\<rparr>"], intro exI [of _ s1]) simp_all
qed

lemma cancel_moves:
  assumes "cancel_request_remove_insurance_fund_stake v now (m, s, u) = Inr (m', s', u')"
  shows "\<exists>n. moves_shares v (m, s) (m', s') 0 n"
proof -
  obtain m1 s1 n s2 where r: "rebase v (m, s) = Inr (m1, s1)"
    and s2: "decrease_if_shares n m1 s1 = Inr s2" and "n \<le> if_user_shares (mk_insurance_fund m1)"
    and "s' = s2\<lparr>fs_last_withdraw_request_shares := 0, fs_last_withdraw_request_value := 0, fs_last_withdraw_request_ts := now\<rparr>"
    and m': "m' = upd_fund (\<lambda>f. f\<lparr>if_total_shares := if_total_shares (mk_insurance_fund m1) - n,
        if_user_shares := if_user_shares (mk_insurance_fund m1) - n\<rparr>) m1"
    using assms by (auto simp: cancel_request_remove_insurance_fund_stake_def and_then_Inr require_Inr safe_Inr Let_def)
  then show ?thesis using change_shares_Inr(2) [OF s2]
    by (intro exI [of _ n]) (auto simp: moves_shares_def upd_fund_def)
qed

lemma remove_Inr:
  assumes "remove_insurance_fund_stake v now (m, s, u) = Inr (w, m', s', u')"
  obtains m1 s1 n a s2 c where "rebase v (m, s) = Inr (m1, s1)" "n = fs_last_withdraw_request_shares s1" "0 < n"
    "if_unstaking_period (mk_insurance_fund m) \<le> now - fs_last_withdraw_request_ts s"
    "if_shares_to_vault_amount n (if_total_shares (mk_insurance_fund m1)) v = Inr a"
    "w = min a (fs_last_withdraw_request_value s1)" "decrease_if_shares n m1 s1 = Inr s2"
    "n \<le> if_user_shares (mk_insurance_fund m1)"
    "s' = s2\<lparr>fs_cost_basis := c, fs_last_withdraw_request_shares := 0, fs_last_withdraw_request_value := 0,
       fs_last_withdraw_request_ts := now\<rparr>"
    "m' = upd_fund (\<lambda>f. f\<lparr>if_total_shares := if_total_shares (mk_insurance_fund m1) - n,
       if_user_shares := if_user_shares (mk_insurance_fund m1) - n\<rparr>) m1"
  using assms
  by (auto simp: remove_insurance_fund_stake_def and_then_Inr require_Inr safe_Inr safe_i_Inr Let_def intro: that)

lemma remove_moves:
  assumes "remove_insurance_fund_stake v now (m, s, u) = Inr (w, m', s', u')"
  shows "\<exists>n. moves_shares v (m, s) (m', s') 0 n"
  using assms
proof (cases rule: remove_Inr)
  case (1 m1 s1 n a s2 c)
  then show ?thesis using change_shares_Inr(2) [OF 1(7)]
    by (intro exI [of _ n]) (auto simp: moves_shares_def upd_fund_def)
qed

lemma transfer_covered:
  assumes "transfer_protocol_insurance_fund_stake v n (m, ss ! i, u) = Inr (w, m', s', u')" "covered m ss" "i < length ss"
  shows "covered m' (ss[i := s'])"
proof -
  obtain m1 s1 where r: "apply_rebase_to_insurance_fund v m = Inr m1"
    and base: "fs_if_base (ss ! i) = if_shares_base (mk_insurance_fund m1)"
    and total: "n \<le> if_total_shares (mk_insurance_fund m1) - if_user_shares (mk_insurance_fund m1)"
      "if_user_shares (mk_insurance_fund m1) \<le> if_total_shares (mk_insurance_fund m1)"
    and m': "m' = upd_fund (\<lambda>f. f\<lparr>if_user_shares := if_user_shares (mk_insurance_fund m1) + n\<rparr>) m1"
    and s': "increase_if_shares n m' (ss ! i) = Inr s'"
    using assms(1)
    by (auto simp: transfer_protocol_insurance_fund_stake_def and_then_Inr require_Inr safe_Inr Let_def checked_if_shares_def
        get_protocol_shares_def)
  have "covered m1 ss" by (rule covered_rebased [OF r assms(2)])
  then show ?thesis
    by (rule covered_replace [OF _ assms(3)])
      (use base total m' change_shares_Inr(1) [OF s'] in \<open>simp_all add: upd_fund_def rebased_shares_def\<close>)
qed

lemma covered_fund:
  assumes "covered m ss" "if_shares_base (mk_insurance_fund m') = if_shares_base (mk_insurance_fund m)"
    "if_user_shares (mk_insurance_fund m') = if_user_shares (mk_insurance_fund m)"
    "if_user_shares (mk_insurance_fund m') \<le> if_total_shares (mk_insurance_fund m')"
  shows "covered m' ss"
  using assms by (simp add: covered_def rebased_shares_def)

lemma admin_covered:
  assumes "admin_remove_insurance_fund_stake v n m = Inr (w, m')" "covered m ss"
  shows "covered m' ss"
proof -
  obtain m1 where r: "apply_rebase_to_insurance_fund v m = Inr m1"
    and total: "if_user_shares (mk_insurance_fund m1) \<le> if_total_shares (mk_insurance_fund m1) - n"
    and m': "m' = upd_fund (\<lambda>f. f\<lparr>if_total_shares := if_total_shares (mk_insurance_fund m1) - n\<rparr>) m1"
    using assms(1) by (auto simp: admin_remove_insurance_fund_stake_def and_then_Inr require_Inr safe_Inr)
  show ?thesis
    by (rule covered_fund [OF covered_rebased [OF r assms(2)]]) (use total m' in \<open>simp_all add: upd_fund_def\<close>)
qed

text \<open>Nothing in the spot market touches the shares of the fund but the settlement of revenue, which adds to the protocol's.\<close>

lemma update_frame_fund:
  "update_spot_balances t d leaving (m, s) = Inr (m', s') \<Longrightarrow> mk_insurance_fund m' = mk_insurance_fund m"
proof (erule update_Inr)
  have grow: "mk_insurance_fund m' = mk_insurance_fund m" if "grow_balance t d (m, s) = Inr (m', s')" for t d m s m' s'
    using that by (cases d) (auto simp: grow_balance_def increase_spot_balance_def res_simps)
  have reduce: "mk_insurance_fund m' = mk_insurance_fund m" if r: "reduce_balance t leaving (m, s) = Inr (t', m', s')" for t m s t' m' s'
    by (rule reduce_Inr [OF r]) (cases "sb_type s"; auto simp: decrease_spot_balance_Inr)+
  show "grow_balance t d (m, s) = Inr (m', s') \<Longrightarrow> mk_insurance_fund m' = mk_insurance_fund m" by (rule grow)
  show "reduce_balance t leaving (m, s) = Inr (0, m', s') \<Longrightarrow> mk_insurance_fund m' = mk_insurance_fund m" by (rule reduce)
  show "reduce_balance t leaving (m, s) = Inr (t1, m1, s1) \<Longrightarrow> grow_balance t1 d (m1, s1\<lparr>sb_type := d\<rparr>) = Inr (m', s') \<Longrightarrow>
      mk_insurance_fund m' = mk_insurance_fund m" for t1 m1 s1
    using grow reduce by metis
qed

lemma revenue_frame_fund: "update_revenue_pool_balances t d m = Inr m' \<Longrightarrow> mk_insurance_fund m' = mk_insurance_fund m"
  by (auto simp: update_revenue_pool_balances_def and_then_Inr dest: update_frame_fund)

lemma interest_frame_fund:
  assumes "update_spot_market_cumulative_interest data now m = Inr m'"
  shows "mk_insurance_fund m' = mk_insurance_fund m"
proof -
  have accrue: "mk_insurance_fund m1 = mk_insurance_fund m" if "accrue_interest now i m = Inr m1" for i m1
  proof -
    obtain bi di where i: "i = (bi, di)" by (cases i)
    show ?thesis using that unfolding i by (cases rule: accrue_cases) (auto dest: revenue_frame_fund)
  qed
  have stats: "mk_insurance_fund m1 = mk_insurance_fund m" if "update_spot_market_twap_stats data now m = Inr m1" for m m1
    using twap_stats_frame [OF that] by auto
  show ?thesis using assms accrue stats
    by (auto simp: update_spot_market_cumulative_interest_def and_then_Inr split: if_split_asm)
qed

lemma settle_covered:
  assumes "settle_revenue_to_insurance_fund sv v now check m = Inr (w, m')" "covered m ss"
  shows "covered m' ss"
proof -
  obtain m1 where i: "update_spot_market_cumulative_interest None now m = Inr m1"
    using assms(1) by (auto simp: settle_revenue_to_insurance_fund_def and_then_Inr)
  have fund: "mk_insurance_fund m1 = mk_insurance_fund m" by (rule interest_frame_fund [OF i])
  let ?keeps = "\<lambda>m2. if_shares_base (mk_insurance_fund m2) = if_shares_base (mk_insurance_fund m1) \<and>
    if_user_shares (mk_insurance_fund m2) = if_user_shares (mk_insurance_fund m1) \<and>
    if_total_shares (mk_insurance_fund m1) \<le> if_total_shares (mk_insurance_fund m2)"
  have *: "m' = m1 \<or> (\<exists>m2. update_revenue_pool_balances w Borrow m2 = Inr m' \<and> ?keeps m2)"
  proof (cases "if_revenue_settle_period (mk_insurance_fund m1) = 0")
    case True
    then show ?thesis using assms(1) i by (simp add: settle_revenue_to_insurance_fund_def)
  next
    case False
    let ?m = "upd_fund (\<lambda>f. f\<lparr>if_last_revenue_settle_ts := now\<rparr>) m1"
    let ?f = "mk_insurance_fund ?m"
    obtain p m2 where "(if p > 0 then
           and_then (safe_mul 64 w p) (\<lambda>x. and_then (safe_div x (if_total_factor ?f)) (\<lambda>x.
           and_then (vault_amount_to_if_shares x (if_total_shares ?f) v) (\<lambda>n_shares.
           and_then (safe_add 128 (if_total_shares ?f) n_shares) (\<lambda>total.
           Inr (upd_fund (\<lambda>f. f\<lparr>if_total_shares := total\<rparr>) ?m))))) else Inr ?m) = Inr m2"
      and m2: "update_revenue_pool_balances w Borrow m2 = Inr m'"
      using assms(1) False i by (auto simp: settle_revenue_to_insurance_fund_def and_then_Inr require_Inr Let_def)
    then have "m2 = ?m \<or> (\<exists>n. m2 = upd_fund (\<lambda>f. f\<lparr>if_total_shares := if_total_shares ?f + n\<rparr>) ?m)"
      by (auto simp: and_then_Inr safe_Inr split: if_split_asm)
    then have "?keeps m2" by (auto simp: upd_fund_def)
    then show ?thesis using m2 by blast
  qed
  then have "if_shares_base (mk_insurance_fund m') = if_shares_base (mk_insurance_fund m)"
    "if_user_shares (mk_insurance_fund m') = if_user_shares (mk_insurance_fund m)"
    "if_total_shares (mk_insurance_fund m) \<le> if_total_shares (mk_insurance_fund m')"
    using fund revenue_frame_fund by fastforce+
  then show ?thesis using assms(2) by (intro covered_fund [OF assms(2)]) (simp_all add: covered_def)
qed

type_synonym fund_state = "spot_market \<times> insurance_fund_stake list"

inductive fund_step :: "fund_state \<Rightarrow> fund_state \<Rightarrow> bool" where
  joins: "fund_step (m, ss) (m, new_stake k # ss)"
| stakes: "i < length ss \<Longrightarrow> add_insurance_fund_stake a v now (m, ss ! i, u) = Inr (m', s', u') \<Longrightarrow>
     fund_step (m, ss) (m', ss[i := s'])"
| requests: "i < length ss \<Longrightarrow> request_remove_insurance_fund_stake n v now (m, ss ! i, u) = Inr (m', s', u') \<Longrightarrow>
     fund_step (m, ss) (m', ss[i := s'])"
| cancels: "i < length ss \<Longrightarrow> cancel_request_remove_insurance_fund_stake v now (m, ss ! i, u) = Inr (m', s', u') \<Longrightarrow>
     fund_step (m, ss) (m', ss[i := s'])"
| unstakes: "i < length ss \<Longrightarrow> remove_insurance_fund_stake v now (m, ss ! i, u) = Inr (w, m', s', u') \<Longrightarrow>
     fund_step (m, ss) (m', ss[i := s'])"
| transfers: "i < length ss \<Longrightarrow> transfer_protocol_insurance_fund_stake v n (m, ss ! i, u) = Inr (w, m', s', u') \<Longrightarrow>
     fund_step (m, ss) (m', ss[i := s'])"
| admin: "admin_remove_insurance_fund_stake v n m = Inr (w, m') \<Longrightarrow> fund_step (m, ss) (m', ss)"
| settles: "settle_revenue_to_insurance_fund sv v now check m = Inr (w, m') \<Longrightarrow> fund_step (m, ss) (m', ss)"

lemma fund_step_covered: "fund_step b b' \<Longrightarrow> covered (fst b) (snd b) \<Longrightarrow> covered (fst b') (snd b')"
proof (induction rule: fund_step.induct)
  case (joins m ss k)
  then show ?case by (simp add: covered_def rebased_shares_def new_stake_def)
next
  case (stakes i ss a v now m u m' s' u')
  then show ?case using add_moves moves_covered by (metis fst_conv snd_conv)
next
  case (requests i ss n v now m u m' s' u')
  then show ?case using request_moves moves_covered by (metis fst_conv snd_conv)
next
  case (cancels i ss v now m u m' s' u')
  then show ?case using cancel_moves moves_covered by (metis fst_conv snd_conv)
next
  case (unstakes i ss v now m u w m' s' u')
  then show ?case using remove_moves moves_covered by (metis fst_conv snd_conv)
qed (auto intro: transfer_covered admin_covered settle_covered)

text \<open>
  C26. However staking, requests to unstake and their cancellations, unstaking, transfers of the protocol's shares,
  settlements of revenue and rebases of the fund follow one another, the shares of all stakes, each brought to the
  present base, are covered by the shares of the users, and these by the shares of the fund.
\<close>

theorem stakes_are_covered:
  assumes "fund_step\<^sup>*\<^sup>* (m, []) (m', ss)" "if_user_shares (mk_insurance_fund m) \<le> if_total_shares (mk_insurance_fund m)"
  shows "(\<Sum>s\<leftarrow>ss. rebased_shares m' s) \<le> if_user_shares (mk_insurance_fund m') \<and>
    if_user_shares (mk_insurance_fund m') \<le> if_total_shares (mk_insurance_fund m')"
proof -
  have "covered (fst (m, [])) (snd (m, []))" using assms(2) by (simp add: covered_def)
  with assms(1) have "covered (fst (m', ss)) (snd (m', ss))"
    by (induction rule: rtranclp_induct) (auto intro: fund_step_covered)
  then show ?thesis by (simp add: covered_def)
qed

definition no_stats :: user_stats where
  "no_stats = \<lparr>ut_if_staked_quote_asset_amount = 0, ut_if_staked_gov_token_amount = 0, ut_fuel_insurance = 0,
     ut_last_fuel_if_bonus_update_ts = 0\<rparr>"

definition staked :: insurance_fund_stake where
  "staked = (new_stake 0)\<lparr>fs_if_shares := 1000, fs_cost_basis := 1000\<rparr>"

definition staked_market :: spot_market where
  "staked_market = upd_fund (\<lambda>f. f\<lparr>if_total_shares := 1000, if_user_shares := 1000\<rparr>) usd_market"

lemmas fund_eval = rebase_def apply_rebase_to_insurance_fund_def apply_rebase_to_insurance_fund_stake_def
  checked_if_shares_def vault_amount_to_if_shares_def if_shares_to_vault_amount_def get_proportion_u128_def
  increase_if_shares_def decrease_if_shares_def update_user_stats_if_stake_amount_def upd_fund_def
  calculate_if_shares_lost_def staked_market_def staked_def new_stake_def no_stats_def usd_market_def

theorem stakes_are_covered_witness:
  "fund_step\<^sup>*\<^sup>* (usd_market, []) (staked_market, [staked]) \<and> (1000 :: nat) \<le> if_user_shares (mk_insurance_fund staked_market)"
proof -
  have a: "add_insurance_fund_stake 1000 0 5 (usd_market, new_stake 0, no_stats) =
      Inr (staked_market, staked, no_stats\<lparr>ut_if_staked_quote_asset_amount := 1000\<rparr>)"
    by (simp add: add_insurance_fund_stake_def fund_eval safe_defs)
  have "fund_step (usd_market, []) (usd_market, [new_stake 0])" by (rule joins)
  moreover have "fund_step (usd_market, [new_stake 0]) (staked_market, [new_stake 0][0 := staked])"
    by (rule stakes [of 0 _ 1000 0 5 _ no_stats _ _ "no_stats\<lparr>ut_if_staked_quote_asset_amount := 1000\<rparr>"]) (use a in simp_all)
  ultimately have steps: "fund_step\<^sup>*\<^sup>* (usd_market, []) (staked_market, [staked])" by simp
  have "if_user_shares (mk_insurance_fund usd_market) \<le> if_total_shares (mk_insurance_fund usd_market)" by (simp add: usd_market_def)
  from stakes_are_covered [OF steps this] show ?thesis using steps
    by (simp add: rebased_shares_def fund_eval)
qed

section \<open>Unstaking\<close>

lemma rebase_keeps_value: "rebase v (m, s) = Inr (m1, s1) \<Longrightarrow> fs_last_withdraw_request_value s1 = fs_last_withdraw_request_value s"
  by (auto simp: rebase_def and_then_Inr apply_rebase_to_insurance_fund_stake_def Let_def require_Inr split: if_split_asm)

text \<open>
  C27. An unstake waits for the unstaking period after its request, pays at most the value of the request and at most the
  part of the vault that its shares are of the fund, and leaves no request behind that could be paid again.
\<close>

theorem unstake_is_limited:
  assumes "remove_insurance_fund_stake v now (m, s, u) = Inr (w, m', s', u')"
  shows "if_unstaking_period (mk_insurance_fund m) \<le> now - fs_last_withdraw_request_ts s \<and>
    w \<le> fs_last_withdraw_request_value s \<and> fs_last_withdraw_request_shares s' = 0 \<and> fs_last_withdraw_request_value s' = 0 \<and>
    (\<exists>m1 s1. rebase v (m, s) = Inr (m1, s1) \<and> fs_if_shares s' + fs_last_withdraw_request_shares s1 = fs_if_shares s1 \<and>
      w * if_total_shares (mk_insurance_fund m1) \<le> v * fs_last_withdraw_request_shares s1)"
  using assms
proof (cases rule: remove_Inr)
  case (1 m1 s1 n a s2 c)
  have "w * if_total_shares (mk_insurance_fund m1) \<le> a * if_total_shares (mk_insurance_fund m1)" using 1(6) by simp
  also have "\<dots> \<le> v * n" by (rule shares_sold(2) [OF 1(5)])
  finally have "w * if_total_shares (mk_insurance_fund m1) \<le> v * n" .
  moreover have "n \<le> fs_if_shares s1" "s2 = s1\<lparr>fs_if_shares := fs_if_shares s1 - n\<rparr>" using change_shares_Inr(2) [OF 1(7)] by simp_all
  ultimately show ?thesis using 1(1,2,4,6,9) rebase_keeps_value [OF 1(1)] by simp
qed

definition requested :: insurance_fund_stake where
  "requested = staked\<lparr>fs_last_withdraw_request_shares := 500, fs_last_withdraw_request_value := 500\<rparr>"

theorem unstake_is_limited_witness:
  "\<exists>m' s' u'. remove_insurance_fund_stake 1000 10 (staked_market, requested, no_stats) = Inr (500, m', s', u') \<and>
     fs_if_shares s' = 500 \<and> (500 :: nat) \<le> fs_last_withdraw_request_value requested \<and> fs_last_withdraw_request_shares s' = 0"
proof -
  obtain m' s' u' where r: "remove_insurance_fund_stake 1000 10 (staked_market, requested, no_stats) = Inr (500, m', s', u')"
    and "fs_if_shares s' = 500"
    by (simp add: remove_insurance_fund_stake_def requested_def fund_eval safe_defs)
  then show ?thesis using unstake_is_limited [OF r] by blast
qed

end
