(* ===== verification/Drift_Rebalance.thy ===== *)
theory Drift_Rebalance
  imports Drift_Insurance_Theorems
begin

text \<open>
  Swaps between insurance funds (\<open>state/if_rebalance_config.rs\<close>, \<open>controller/insurance.rs\<close>), the way of their proceeds
  into the revenue pool, and the guards of the staking instructions (\<open>instructions/if_staker.rs\<close>). The balances of
  the vaults are parameters.
\<close>

section \<open>Rebalancing swaps\<close>

record if_rebalance_config =
  rb_total_in_amount :: nat
  rb_current_in_amount :: nat
  rb_current_out_amount :: nat
  rb_current_out_amount_transferred :: nat
  rb_epoch_start_ts :: int
  rb_epoch_in_amount :: nat
  rb_epoch_max_in_amount :: nat
  rb_epoch_duration :: int
  rb_max_slippage_bps :: nat

definition max_transfer_amount :: "if_rebalance_config \<Rightarrow> nat res" where
  "max_transfer_amount c = safe_sub (rb_current_out_amount c) (rb_current_out_amount_transferred c)"

text \<open>\<open>get_precision\<close> is the unchecked power \<open>10_u64.pow(decimals)\<close>.\<close>

definition get_precision :: "spot_market \<Rightarrow> nat res" where
  "get_precision m = as_uint 64 (10 ^ mk_decimals m)"

definition calculate_fill_price :: "nat \<Rightarrow> nat \<Rightarrow> nat \<Rightarrow> nat res" where
  "calculate_fill_price quote_asset_amount base_asset_amount base_precision =
     and_then (safe_mul 128 quote_asset_amount base_precision) (\<lambda>product.
     and_then (safe_div product base_asset_amount) (\<lambda>price. cast_u 64 (int price)))"

type_synonym rebalancing = "if_rebalance_config \<times> spot_market \<times> spot_market"

definition handle_if_begin_swap :: "nat \<Rightarrow> nat \<Rightarrow> int \<Rightarrow> rebalancing \<Rightarrow> rebalancing res" where
  "handle_if_begin_swap in_vault_amount out_vault_amount now cio =
     (case cio of (c, in_market, out_market) \<Rightarrow>
        and_then (safe_i 64 (rb_epoch_start_ts c + rb_epoch_duration c)) (\<lambda>epoch_end.
        let c = (if now > epoch_end then c\<lparr>rb_epoch_start_ts := now, rb_epoch_in_amount := 0\<rparr> else c) in
        and_then (apply_rebase_to_insurance_fund in_vault_amount in_market) (\<lambda>in_market.
        and_then (apply_rebase_to_insurance_fund out_vault_amount out_market) (\<lambda>out_market.
        Inr (c, in_market, out_market)))))"

text \<open>\<open>price_before - price_after <= 1\<close>, an unchecked subtraction.\<close>

definition share_price_check :: "nat \<Rightarrow> nat \<Rightarrow> unit res" where
  "share_price_check price_before price_after =
     (if price_before > 0 \<and> price_after > 0 then
        and_then (sub_u price_before price_after) (\<lambda>d. require (d \<le> 1) Drift_InvalidIfRebalanceSwap (Inr ()))
      else Inr ())"

definition handle_if_end_swap :: "nat \<Rightarrow> nat \<Rightarrow> nat \<Rightarrow> nat \<Rightarrow> nat \<Rightarrow> rebalancing \<Rightarrow> rebalancing res" where
  "handle_if_end_swap in_vault_after out_vault_after in_amount out_amount out_oracle_price cio =
     (case cio of (c, in_market, out_market) \<Rightarrow>
        let in_total = if_total_shares (mk_insurance_fund in_market); out_total = if_total_shares (mk_insurance_fund out_market) in
        and_then (safe_add 64 in_vault_after in_amount) (\<lambda>in_vault_before.
        and_then (safe_sub out_vault_after out_amount) (\<lambda>out_vault_before.
        and_then (calculate_share_price in_total in_vault_before) (\<lambda>in_price_before.
        and_then (calculate_share_price out_total out_vault_before) (\<lambda>out_price_before.
        and_then (vault_amount_to_if_shares in_amount in_total in_vault_before) (\<lambda>in_shares.
        and_then (vault_amount_to_if_shares out_amount out_total out_vault_before) (\<lambda>out_shares.
        and_then (get_protocol_shares (mk_insurance_fund in_market)) (\<lambda>protocol_shares.
        require (in_shares < protocol_shares) Drift_InsufficientIFShares
          (and_then (safe_sub in_total in_shares) (\<lambda>in_total.
           and_then (safe_add 128 out_total out_shares) (\<lambda>out_total.
           let in_market = upd_fund (\<lambda>f. f\<lparr>if_total_shares := in_total\<rparr>) in_market;
               out_market = upd_fund (\<lambda>f. f\<lparr>if_total_shares := out_total\<rparr>) out_market in
           and_then (calculate_share_price in_total in_vault_after) (\<lambda>in_price_after.
           and_then (calculate_share_price out_total out_vault_after) (\<lambda>out_price_after.
           and_then (share_price_check in_price_before in_price_after) (\<lambda>_.
           and_then (share_price_check out_price_before out_price_after) (\<lambda>_.
           and_then (safe_add 64 (rb_current_in_amount c) in_amount) (\<lambda>current_in.
           and_then (safe_add 64 (rb_epoch_in_amount c) in_amount) (\<lambda>epoch_in.
           and_then (safe_add 64 (rb_current_out_amount c) out_amount) (\<lambda>current_out.
           let c = c\<lparr>rb_current_in_amount := current_in, rb_epoch_in_amount := epoch_in, rb_current_out_amount := current_out\<rparr> in
           require (epoch_in \<le> rb_epoch_max_in_amount c) Drift_InvalidIfRebalanceSwap
             (require (current_in \<le> rb_total_in_amount c) Drift_InvalidIfRebalanceSwap
               (and_then (cast_u 64 (hd_last_oracle_price_twap (mk_oracle_data out_market))) (\<lambda>oracle_twap.
                require (out_oracle_price \<le> oracle_twap) Drift_InvalidIfRebalanceSwap
                  (and_then (get_precision out_market) (\<lambda>precision.
                   and_then (calculate_fill_price in_amount out_amount precision) (\<lambda>swap_price.
                   and_then (div_u 10000 (max (rb_max_slippage_bps c) 1)) (\<lambda>parts.
                   and_then (div_u out_oracle_price parts) (\<lambda>max_slippage.
                   and_then (safe_add 64 out_oracle_price max_slippage) (\<lambda>max_price.
                   require (swap_price \<le> max_price) Drift_InvalidIfRebalanceSwap
                     (Inr (c, in_market, out_market)))))))))))))))))))))))))))))"

definition transfer_protocol_if_shares_to_revenue_pool ::
  "nat \<Rightarrow> nat \<Rightarrow> if_rebalance_config \<times> spot_market \<Rightarrow> (if_rebalance_config \<times> spot_market) res" where
  "transfer_protocol_if_shares_to_revenue_pool vault_amount_before amount cm =
     (case cm of (c, m) \<Rightarrow>
        and_then (apply_rebase_to_insurance_fund vault_amount_before m) (\<lambda>m.
        and_then (vault_amount_to_if_shares amount (if_total_shares (mk_insurance_fund m)) vault_amount_before) (\<lambda>shares.
        and_then (get_protocol_shares (mk_insurance_fund m)) (\<lambda>protocol_shares.
        require (shares \<le> protocol_shares) Drift_InsufficientIFShares
          (and_then (max_transfer_amount c) (\<lambda>max_transfer.
           require (amount \<le> max_transfer) Drift_DefaultError
             (and_then (safe_sub (if_total_shares (mk_insurance_fund m)) shares) (\<lambda>total.
              let m = upd_fund (\<lambda>f. f\<lparr>if_total_shares := total\<rparr>) m in
              and_then (update_revenue_pool_balances amount Deposit m) (\<lambda>m.
              and_then (safe_add 64 (rb_current_out_amount_transferred c) amount) (\<lambda>transferred.
              Inr (c\<lparr>rb_current_out_amount_transferred := transferred\<rparr>, m)))))))))))"

section \<open>The staking instructions\<close>

abbreviation Drift_IncorrectSpotMarketAccountPassed :: error_code where
  "Drift_IncorrectSpotMarketAccountPassed \<equiv> ErrorCode 201"

text \<open>The bits of \<open>InsuranceFundOperation\<close>: adding 2, requesting 4, removing 8.\<close>

definition is_insurance_fund_operation_paused :: "8 word \<Rightarrow> spot_market \<Rightarrow> bool" where
  "is_insurance_fund_operation_paused operation m \<longleftrightarrow> mk_if_paused_operations m AND operation \<noteq> 0"

text \<open>\<open>send\<close> and \<open>receive\<close> are the answers of the token program, \<open>spot_vault'\<close> and \<open>vault'\<close> the balances it reports after
  the settlement.\<close>

definition handle_add_insurance_fund_stake ::
  "(nat \<Rightarrow> unit res) \<Rightarrow> (nat \<Rightarrow> unit res) \<Rightarrow> nat \<times> nat \<Rightarrow> nat \<times> nat \<Rightarrow> int \<Rightarrow> nat \<Rightarrow> nat \<Rightarrow> staking \<Rightarrow> staking res" where
  "handle_add_insurance_fund_stake send receive vaults vaults' now market_index amount msu =
     (case msu of (m, s, u) \<Rightarrow>
        if amount = 0 then fail Drift_InsufficientDeposit
        else
          require (\<not> is_insurance_fund_operation_paused 2 m) Drift_InsuranceFundOperationPaused
            (require (fs_market_index s = market_index) Drift_IncorrectSpotMarketAccountPassed
              (require (mk_status m \<noteq> Initialized) Drift_InvalidSpotMarketState
                (require (fs_last_withdraw_request_shares s = 0 \<and> fs_last_withdraw_request_value s = 0)
                   Drift_IFWithdrawRequestInProgress
                  (and_then (attempt_settle_revenue_to_insurance_fund send (fst vaults) (snd vaults) now m) (\<lambda>m.
                   and_then (validate_spot_market_vault_amount (fst vaults') m) (\<lambda>_.
                   and_then (add_insurance_fund_stake amount (snd vaults') now (m, s, u)) (\<lambda>msu.
                   and_then (receive amount) (\<lambda>_. Inr msu)))))))))"

definition handle_request_remove_insurance_fund_stake :: "nat \<Rightarrow> int \<Rightarrow> nat \<Rightarrow> nat \<Rightarrow> staking \<Rightarrow> staking res" where
  "handle_request_remove_insurance_fund_stake vault_amount now market_index amount msu =
     (case msu of (m, s, u) \<Rightarrow>
        require (\<not> is_insurance_fund_operation_paused 4 m) Drift_InsuranceFundOperationPaused
          (require (fs_market_index s = market_index) Drift_IncorrectSpotMarketAccountPassed
            (require (fs_last_withdraw_request_shares s = 0) Drift_IFWithdrawRequestInProgress
              (and_then (vault_amount_to_if_shares amount (if_total_shares (mk_insurance_fund m)) vault_amount) (\<lambda>n_shares.
               require (n_shares > 0) Drift_IFWithdrawRequestTooSmall
                 (and_then (checked_if_shares s m) (\<lambda>user_if_shares.
                  require (user_if_shares \<ge> n_shares) Drift_InsufficientIFShares
                    (request_remove_insurance_fund_stake n_shares vault_amount now (m, s, u)))))))))"

definition handle_cancel_request_remove_insurance_fund_stake :: "nat \<Rightarrow> int \<Rightarrow> nat \<Rightarrow> staking \<Rightarrow> staking res" where
  "handle_cancel_request_remove_insurance_fund_stake vault_amount now market_index msu =
     (case msu of (m, s, u) \<Rightarrow>
        require (fs_market_index s = market_index) Drift_IncorrectSpotMarketAccountPassed
          (require (fs_last_withdraw_request_shares s \<noteq> 0) Drift_NoIFWithdrawRequestInProgress
            (cancel_request_remove_insurance_fund_stake vault_amount now (m, s, u))))"

definition is_healthy_utilization :: "spot_market \<Rightarrow> bool res" where
  "is_healthy_utilization m =
     and_then (calculate_spot_market_utilization m) (\<lambda>u.
     and_then (cast_u 64 (int u)) (\<lambda>utilization. Inr (mk_utilization_twap m \<le> 900000 \<and> utilization \<le> 900000)))"

definition handle_remove_insurance_fund_stake ::
  "(nat \<Rightarrow> unit res) \<Rightarrow> nat \<Rightarrow> nat \<Rightarrow> int \<Rightarrow> nat \<Rightarrow> staking \<Rightarrow> (nat \<times> staking) res" where
  "handle_remove_insurance_fund_stake send vault_amount vault_amount' now market_index msu =
     (case msu of (m, s, u) \<Rightarrow>
        require (\<not> is_insurance_fund_operation_paused 8 m) Drift_InsuranceFundOperationPaused
          (require (fs_market_index s = market_index) Drift_IncorrectSpotMarketAccountPassed
            (and_then (is_healthy_utilization m) (\<lambda>healthy.
             require healthy Drift_SpotMarketInsufficientDeposits
               (and_then (remove_insurance_fund_stake vault_amount now (m, s, u)) (\<lambda>(amount, m, s, u).
                and_then (send amount) (\<lambda>_.
                require (vault_amount' > 0) Drift_InvalidIFDetected
                  (and_then (validate_spot_balances m) (\<lambda>_. Inr (amount, m, s, u))))))))))"

definition handle_admin_withdraw_from_insurance_fund_vault ::
  "(nat \<Rightarrow> unit res) \<Rightarrow> nat \<Rightarrow> nat \<Rightarrow> spot_market \<Rightarrow> spot_market res" where
  "handle_admin_withdraw_from_insurance_fund_vault send vault_before amount m =
     and_then (apply_rebase_to_insurance_fund vault_before m) (\<lambda>m.
     let total = if_total_shares (mk_insurance_fund m) in
     and_then (calculate_share_price total vault_before) (\<lambda>price_before.
     and_then (vault_amount_to_if_shares amount total vault_before) (\<lambda>shares.
     require (shares > 0) Drift_InsufficientIFShares
       (and_then (get_protocol_shares (mk_insurance_fund m)) (\<lambda>protocol_shares.
        require (shares < protocol_shares) Drift_InsufficientIFShares
          (and_then (safe_sub total shares) (\<lambda>total.
           let m = upd_fund (\<lambda>f. f\<lparr>if_total_shares := total\<rparr>) m in
           and_then (get_protocol_shares (mk_insurance_fund m)) (\<lambda>_.
           and_then (send amount) (\<lambda>_.
           and_then (safe_sub vault_before amount) (\<lambda>vault_after.
           and_then (calculate_share_price total vault_after) (\<lambda>price_after.
           and_then (share_price_check price_before price_after) (\<lambda>_. Inr m))))))))))))"

section \<open>What a swap cannot exceed\<close>

lemma end_swap_Inr:
  assumes "handle_if_end_swap in_vault out_vault a b price (c, m, n) = Inr (c', m', n')"
  obtains in_shares out_shares precision swap_price parts where
    "in_shares < if_total_shares (mk_insurance_fund m) - if_user_shares (mk_insurance_fund m)"
    "if_user_shares (mk_insurance_fund m) \<le> if_total_shares (mk_insurance_fund m)"
    "m' = upd_fund (\<lambda>f. f\<lparr>if_total_shares := if_total_shares (mk_insurance_fund m) - in_shares\<rparr>) m"
    "n' = upd_fund (\<lambda>f. f\<lparr>if_total_shares := if_total_shares (mk_insurance_fund n) + out_shares\<rparr>) n"
    "c' = c\<lparr>rb_current_in_amount := rb_current_in_amount c + a, rb_epoch_in_amount := rb_epoch_in_amount c + a,
       rb_current_out_amount := rb_current_out_amount c + b\<rparr>"
    "rb_epoch_in_amount c' \<le> rb_epoch_max_in_amount c'" "rb_current_in_amount c' \<le> rb_total_in_amount c'"
    "int price \<le> hd_last_oracle_price_twap (mk_oracle_data n)" "get_precision n = Inr precision"
    "calculate_fill_price a b precision = Inr swap_price" "parts = 10000 div max (rb_max_slippage_bps c) 1"
    "swap_price \<le> price + price div parts"
proof -
  obtain in_shares protocol out_shares precision swap_price where *:
    "get_protocol_shares (mk_insurance_fund m) = Inr protocol" "in_shares < protocol"
    "m' = upd_fund (\<lambda>f. f\<lparr>if_total_shares := if_total_shares (mk_insurance_fund m) - in_shares\<rparr>) m"
    "n' = upd_fund (\<lambda>f. f\<lparr>if_total_shares := if_total_shares (mk_insurance_fund n) + out_shares\<rparr>) n"
    "c' = c\<lparr>rb_current_in_amount := rb_current_in_amount c + a, rb_epoch_in_amount := rb_epoch_in_amount c + a,
       rb_current_out_amount := rb_current_out_amount c + b\<rparr>"
    "rb_epoch_in_amount c + a \<le> rb_epoch_max_in_amount c" "rb_current_in_amount c + a \<le> rb_total_in_amount c"
    "int price \<le> hd_last_oracle_price_twap (mk_oracle_data n')" "get_precision n' = Inr precision"
    "calculate_fill_price a b precision = Inr swap_price"
    "swap_price \<le> price + price div (10000 div max (rb_max_slippage_bps c) 1)"
    using assms unfolding handle_if_end_swap_def prod.case Let_def
    by (auto simp: and_then_Inr require_Inr safe_Inr cast_Inr arith_u_Inr)
  have "get_precision n' = get_precision n" "mk_oracle_data n' = mk_oracle_data n"
    using *(4) by (simp_all add: get_precision_def upd_fund_def)
  then show ?thesis using * by (intro that [of in_shares out_shares precision swap_price]) (simp_all add: get_protocol_shares_def safe_Inr)
qed

text \<open>
  A rebalancing swap stays within its configuration: the epoch and the whole programme do not exceed their amounts,
  only shares of the protocol are sold (the stakes of the users stay covered), and the price paid exceeds the price
  of the oracle, itself at most its average, by the allowed slippage at most.
\<close>

theorem rebalance_is_bounded:
  assumes "handle_if_end_swap in_vault out_vault a b price (c, m, n) = Inr (c', m', n')" "covered m ss"
  shows "rb_epoch_in_amount c' \<le> rb_epoch_max_in_amount c' \<and> rb_current_in_amount c' \<le> rb_total_in_amount c' \<and>
    covered m' ss \<and> int price \<le> hd_last_oracle_price_twap (mk_oracle_data n) \<and>
    a * 10 ^ mk_decimals n < (price + price div (10000 div max (rb_max_slippage_bps c) 1) + 1) * b"
  using assms(1)
proof (cases rule: end_swap_Inr)
  case (1 in_shares out_shares precision swap_price parts)
  have "covered m' ss" using 1(1-3) by (intro covered_fund [OF assms(2)]) (simp_all add: upd_fund_def)
  have p: "precision = 10 ^ mk_decimals n" using 1(9) by (simp add: get_precision_def as_uint_Inr)
  have "swap_price = a * precision div b" "0 < b"
    using 1(10) by (auto simp: calculate_fill_price_def and_then_Inr safe_Inr cast_Inr)
  then have "a * precision < (swap_price + 1) * b" using less_div_Suc_mult by simp
  also have "\<dots> \<le> (price + price div parts + 1) * b" using 1(12) by (intro mult_le_mono1) simp
  finally show ?thesis using 1(5-8,11) p \<open>covered m' ss\<close> by simp
qed

definition rebalance_config :: if_rebalance_config where
  "rebalance_config = \<lparr>rb_total_in_amount = 1000, rb_current_in_amount = 0, rb_current_out_amount = 0,
     rb_current_out_amount_transferred = 0, rb_epoch_start_ts = 0, rb_epoch_in_amount = 0, rb_epoch_max_in_amount = 1000,
     rb_epoch_duration = 3600, rb_max_slippage_bps = 100\<rparr>"

definition protocol_market :: spot_market where
  "protocol_market = upd_fund (\<lambda>f. f\<lparr>if_total_shares := 1000\<rparr>) usd_market"

theorem rebalance_is_bounded_witness:
  "\<exists>c' m' n'. handle_if_end_swap 900 1100 100 100 1000000 (rebalance_config, protocol_market, protocol_market) = Inr (c', m', n') \<and>
     covered m' [] \<and> rb_epoch_in_amount c' = 100 \<and> (100 :: nat) * 10 ^ 6 < (1000000 + 10000 + 1) * 100"
proof -
  obtain c' m' n' where r: "handle_if_end_swap 900 1100 100 100 1000000 (rebalance_config, protocol_market, protocol_market) =
      Inr (c', m', n')" and "rb_epoch_in_amount c' = 100"
    by (simp add: handle_if_end_swap_def rebalance_config_def protocol_market_def fund_eval safe_defs calculate_share_price_def
        share_price_check_def get_protocol_shares_def get_precision_def calculate_fill_price_def)
  moreover have "covered protocol_market []" by (simp add: covered_def protocol_market_def fund_eval)
  ultimately show ?thesis using rebalance_is_bounded [OF r] by auto
qed

text \<open>
  A fund that receives the proceeds of a swap rounds the new shares down, so its price per share may rise by more than
  nothing. The check of the source subtracts the new price from the old one without a test, which then panics.
\<close>

lemma price_rise_panics: "0 < p \<Longrightarrow> p < q \<Longrightarrow> share_price_check p q = Inl Panic"
  by (simp add: share_price_check_def sub_u_def checked_sub_def)

lemma price_can_rise:
  "vault_amount_to_if_shares 1 3 2 = Inr 1 \<and> calculate_share_price 3 2 = Inr 666666 \<and> calculate_share_price (3 + 1) (2 + 1) = Inr 750000"
  by (simp add: fund_eval safe_defs calculate_share_price_def)

end
