(* ===== verification/Drift_Perp.thy ===== *)
theory Drift_Perp
  imports Drift_Withdraw
begin

text \<open>
  Perpetual positions and their market: the positions of a user (\<open>state/user.rs\<close>), what a fill does to a position and
  to the totals of the market (\<open>controller/position.rs\<close>, \<open>math/position.rs\<close>), and funding
  (\<open>math/funding.rs\<close>, \<open>controller/funding.rs\<close>, the fee pool of \<open>math/repeg.rs\<close>). Of the market and its AMM the
  fields that these functions use; events are left out.
\<close>

section \<open>Positions and markets\<close>

abbreviation Drift_MaxNumberOfPositions :: error_code where "Drift_MaxNumberOfPositions \<equiv> ErrorCode 5"
abbreviation Drift_UserHasNoPositionInMarket :: error_code where "Drift_UserHasNoPositionInMarket \<equiv> ErrorCode 10"
abbreviation Drift_InvalidFundingProfitability :: error_code where "Drift_InvalidFundingProfitability \<equiv> ErrorCode 40"
abbreviation Drift_InvalidPositionLastFundingRate :: error_code where
  "Drift_InvalidPositionLastFundingRate \<equiv> ErrorCode 123"
abbreviation Drift_InvalidPerpPositionDetected :: error_code where "Drift_InvalidPerpPositionDetected \<equiv> ErrorCode 166"

record perp_position =
  pq_last_cumulative_funding_rate :: int
  pq_base_asset_amount :: int
  pq_quote_asset_amount :: int
  pq_quote_break_even_amount :: int
  pq_quote_entry_amount :: int
  pq_open_bids :: int
  pq_open_asks :: int
  pq_settled_pnl :: int
  pq_isolated_position_scaled_balance :: nat
  pq_max_margin_ratio :: nat
  pq_market_index :: nat
  pq_open_orders :: nat
  pq_position_flag :: "8 word"

record drift_amm =
  am_quote_asset_amount :: int
  am_base_asset_amount_long :: int
  am_base_asset_amount_short :: int
  am_quote_entry_amount_long :: int
  am_quote_entry_amount_short :: int
  am_quote_break_even_amount_long :: int
  am_quote_break_even_amount_short :: int
  am_cumulative_funding_rate_long :: int
  am_cumulative_funding_rate_short :: int
  am_order_step_size :: nat
  am_base_asset_amount_with_amm :: int
  am_net_unsettled_funding_pnl :: int
  am_total_fee_minus_distributions :: int
  am_net_revenue_since_last_funding :: int
  am_total_exchange_fee :: nat
  am_total_liquidation_fee :: nat
  am_total_fee_withdrawn :: nat

record drift_market =
  dm_market_index :: nat
  dm_number_of_users :: nat
  dm_number_of_users_with_base :: nat
  dm_amm :: drift_amm

definition default_perp_position :: perp_position where
  "default_perp_position = \<lparr>pq_last_cumulative_funding_rate = 0, pq_base_asset_amount = 0, pq_quote_asset_amount = 0,
     pq_quote_break_even_amount = 0, pq_quote_entry_amount = 0, pq_open_bids = 0, pq_open_asks = 0, pq_settled_pnl = 0,
     pq_isolated_position_scaled_balance = 0, pq_max_margin_ratio = 0, pq_market_index = 0, pq_open_orders = 0,
     pq_position_flag = 0\<rparr>"

definition is_isolated :: "perp_position \<Rightarrow> bool" where
  "is_isolated p \<longleftrightarrow> pq_position_flag p AND 1 > 0"

definition is_being_liquidated :: "perp_position \<Rightarrow> bool" where
  "is_being_liquidated p \<longleftrightarrow> pq_position_flag p AND (2 OR 4) > 0"

definition is_bankrupt :: "perp_position \<Rightarrow> bool" where
  "is_bankrupt p \<longleftrightarrow> pq_position_flag p AND 4 > 0"

definition has_open_order :: "perp_position \<Rightarrow> bool" where
  "has_open_order p \<longleftrightarrow> pq_open_orders p \<noteq> 0 \<or> pq_open_bids p \<noteq> 0 \<or> pq_open_asks p \<noteq> 0"

definition has_unsettled_pnl :: "perp_position \<Rightarrow> bool" where
  "has_unsettled_pnl p \<longleftrightarrow> pq_base_asset_amount p = 0 \<and> pq_quote_asset_amount p \<noteq> 0"

definition perp_is_available :: "perp_position \<Rightarrow> bool" where
  "perp_is_available p \<longleftrightarrow> pq_base_asset_amount p = 0 \<and> \<not> has_open_order p \<and> \<not> has_unsettled_pnl p \<and>
     pq_isolated_position_scaled_balance p = 0 \<and> \<not> is_being_liquidated p"

definition is_for :: "nat \<Rightarrow> perp_position \<Rightarrow> bool" where
  "is_for market_index p \<longleftrightarrow> pq_market_index p = market_index \<and> \<not> perp_is_available p"

definition get_direction :: "perp_position \<Rightarrow> position_direction" where
  "get_direction p = (if pq_base_asset_amount p \<ge> 0 then Long else Short)"

definition get_direction_to_close :: "perp_position \<Rightarrow> position_direction" where
  "get_direction_to_close p = (if pq_base_asset_amount p \<ge> 0 then Short else Long)"

definition add_new_position :: "nat \<Rightarrow> perp_position list \<Rightarrow> (nat \<times> perp_position list) res" where
  "add_new_position market_index ps =
     and_then (ok_or (position_of perp_is_available ps) Drift_MaxNumberOfPositions) (\<lambda>i.
     Inr (i, ps[i := default_perp_position\<lparr>pq_market_index := market_index, pq_max_margin_ratio :=
       (if pq_market_index (ps ! i) = market_index then pq_max_margin_ratio (ps ! i) else 0)\<rparr>]))"

definition get_position_index :: "nat \<Rightarrow> perp_position list \<Rightarrow> nat res" where
  "get_position_index market_index ps = ok_or (position_of (is_for market_index) ps) Drift_UserHasNoPositionInMarket"

section \<open>Updating a position\<close>

datatype position_update_type = Open | Increase | Reduce | Close | Flip

text \<open>A delta is its base and its quote amount.\<close>

definition get_position_update_type :: "perp_position \<Rightarrow> int \<Rightarrow> position_update_type res" where
  "get_position_update_type p base_delta =
     (if pq_base_asset_amount p = 0 then Inr Open
      else if sgn (pq_base_asset_amount p) = sgn base_delta then Inr Increase
      else
        and_then (arith_i 64 \<bar>pq_base_asset_amount p\<bar>) (\<lambda>base.
        and_then (arith_i 64 \<bar>base_delta\<bar>) (\<lambda>delta.
        Inr (if base > delta then Reduce else if base = delta then Close else Flip))))"

definition get_new_position_amounts :: "perp_position \<Rightarrow> int \<Rightarrow> int \<Rightarrow> (int \<times> int) res" where
  "get_new_position_amounts p base_delta quote_delta =
     and_then (safe_i 64 (pq_quote_asset_amount p + quote_delta)) (\<lambda>quote.
     and_then (safe_i 64 (pq_base_asset_amount p + base_delta)) (\<lambda>base. Inr (base, quote)))"

text \<open>\<open>x - x * a / b\<close> as the source computes it, in 128 bits and back.\<close>

definition less_part :: "int \<Rightarrow> int \<Rightarrow> int \<Rightarrow> int res" where
  "less_part x a b =
     and_then (safe_i 128 (x * a)) (\<lambda>product.
     and_then (safe_div_i 128 product b) (\<lambda>q.
     and_then (cast_i 64 q) (\<lambda>part. safe_i 64 (x - part))))"

text \<open>The new entry and break-even amounts and the profit of the update.\<close>

definition new_entry_amounts :: "position_update_type \<Rightarrow> perp_position \<Rightarrow> int \<Rightarrow> int \<Rightarrow> (int \<times> int \<times> int) res" where
  "new_entry_amounts update_type p base_delta quote_delta =
     (case update_type of
        Flip \<Rightarrow>
          and_then (less_part quote_delta \<bar>pq_base_asset_amount p\<bar> \<bar>base_delta\<bar>) (\<lambda>break_even.
          and_then (safe_i 64 (quote_delta - break_even)) (\<lambda>rest.
          and_then (safe_i 64 (pq_quote_entry_amount p + rest)) (\<lambda>pnl. Inr (break_even, break_even, pnl))))
      | _ \<Rightarrow>
          if update_type = Open \<or> update_type = Increase then
            and_then (safe_i 64 (pq_quote_entry_amount p + quote_delta)) (\<lambda>entry.
            and_then (safe_i 64 (pq_quote_break_even_amount p + quote_delta)) (\<lambda>break_even. Inr (entry, break_even, 0)))
          else
            and_then (less_part (pq_quote_entry_amount p) \<bar>base_delta\<bar> \<bar>pq_base_asset_amount p\<bar>) (\<lambda>entry.
            and_then (less_part (pq_quote_break_even_amount p) \<bar>base_delta\<bar> \<bar>pq_base_asset_amount p\<bar>) (\<lambda>break_even.
            and_then (safe_i 64 (pq_quote_entry_amount p - entry)) (\<lambda>closed.
            and_then (safe_i 64 (closed + quote_delta)) (\<lambda>pnl. Inr (entry, break_even, pnl))))))"

definition count_users :: "position_update_type \<Rightarrow> perp_position \<Rightarrow> int \<Rightarrow> int \<Rightarrow> drift_market \<Rightarrow> drift_market res" where
  "count_users update_type p new_base new_quote m =
     (case update_type of
        Open \<Rightarrow>
          and_then (if pq_quote_asset_amount p = 0 \<and> pq_base_asset_amount p = 0 then safe_add 32 (dm_number_of_users m) 1
            else Inr (dm_number_of_users m)) (\<lambda>n.
          and_then (safe_add 32 (dm_number_of_users_with_base m) 1) (\<lambda>b.
          Inr (m\<lparr>dm_number_of_users := n, dm_number_of_users_with_base := b\<rparr>)))
      | Close \<Rightarrow>
          Inr (m\<lparr>dm_number_of_users := (if new_base = 0 \<and> new_quote = 0 then dm_number_of_users m - 1 else dm_number_of_users m),
                 dm_number_of_users_with_base := dm_number_of_users_with_base m - 1\<rparr>)
      | _ \<Rightarrow> Inr m)"

text \<open>The base, entry and break-even totals of one side move by the three amounts.\<close>

definition move_long :: "int \<Rightarrow> int \<Rightarrow> int \<Rightarrow> drift_amm \<Rightarrow> drift_amm res" where
  "move_long base entry break_even a =
     and_then (safe_i 128 (am_base_asset_amount_long a + base)) (\<lambda>x.
     and_then (safe_i 128 (am_quote_entry_amount_long a + entry)) (\<lambda>y.
     and_then (safe_i 128 (am_quote_break_even_amount_long a + break_even)) (\<lambda>z.
     Inr (a\<lparr>am_base_asset_amount_long := x, am_quote_entry_amount_long := y, am_quote_break_even_amount_long := z\<rparr>))))"

definition move_short :: "int \<Rightarrow> int \<Rightarrow> int \<Rightarrow> drift_amm \<Rightarrow> drift_amm res" where
  "move_short base entry break_even a =
     and_then (safe_i 128 (am_base_asset_amount_short a + base)) (\<lambda>x.
     and_then (safe_i 128 (am_quote_entry_amount_short a + entry)) (\<lambda>y.
     and_then (safe_i 128 (am_quote_break_even_amount_short a + break_even)) (\<lambda>z.
     Inr (a\<lparr>am_base_asset_amount_short := x, am_quote_entry_amount_short := y, am_quote_break_even_amount_short := z\<rparr>))))"

definition move_totals :: "position_update_type \<Rightarrow> perp_position \<Rightarrow> int \<Rightarrow> int \<Rightarrow> int \<times> int \<times> int \<Rightarrow> drift_amm \<Rightarrow> drift_amm res" where
  "move_totals update_type p base_delta quote_delta new a =
     (case new of (new_base, new_entry, new_break_even) \<Rightarrow>
        if update_type = Open \<or> update_type = Increase then
          (if new_base > 0 then move_long base_delta quote_delta quote_delta a
           else move_short base_delta quote_delta quote_delta a)
        else if update_type = Reduce \<or> update_type = Close then
          and_then (safe_i 64 (pq_quote_entry_amount p - new_entry)) (\<lambda>entry.
          and_then (safe_i 64 (pq_quote_break_even_amount p - new_break_even)) (\<lambda>break_even.
          if pq_base_asset_amount p > 0 then move_long base_delta (- entry) (- break_even) a
          else move_short base_delta (- entry) (- break_even) a))
        else if new_base > 0 then
          and_then (move_short (- pq_base_asset_amount p) (- pq_quote_entry_amount p) (- pq_quote_break_even_amount p) a)
            (move_long new_base new_entry new_break_even)
        else
          and_then (move_long (- pq_base_asset_amount p) (- pq_quote_entry_amount p) (- pq_quote_break_even_amount p) a)
            (move_short new_base new_entry new_break_even))"

text \<open>The position must have settled its funding.\<close>

definition check_funding_rate :: "perp_position \<Rightarrow> drift_amm \<Rightarrow> unit res" where
  "check_funding_rate p a =
     (case get_direction p of
        Long \<Rightarrow>
          if pq_base_asset_amount p \<noteq> 0 then
            require (pq_last_cumulative_funding_rate p = am_cumulative_funding_rate_long a)
              Drift_InvalidPositionLastFundingRate (Inr ())
          else Inr ()
      | Short \<Rightarrow>
          and_then (cast_i 64 (am_cumulative_funding_rate_short a)) (\<lambda>rate.
          require (pq_last_cumulative_funding_rate p = rate) Drift_InvalidPositionLastFundingRate (Inr ())))"

definition new_funding_rate :: "position_update_type \<Rightarrow> int \<Rightarrow> drift_amm \<Rightarrow> perp_position \<Rightarrow> int res" where
  "new_funding_rate update_type new_base a p =
     (case update_type of
        Close \<Rightarrow> Inr 0
      | Reduce \<Rightarrow> Inr (pq_last_cumulative_funding_rate p)
      | _ \<Rightarrow> cast_i 64 (if new_base > 0 then am_cumulative_funding_rate_long a else am_cumulative_funding_rate_short a))"

definition is_multiple_of_step_size :: "nat \<Rightarrow> nat \<Rightarrow> bool res" where
  "is_multiple_of_step_size base_asset_amount step_size =
     (if step_size = 0 then fail Drift_MathError else Inr (base_asset_amount mod step_size = 0))"

definition update_quote_asset_amount :: "int \<Rightarrow> perp_position \<times> drift_market \<Rightarrow> (perp_position \<times> drift_market) res" where
  "update_quote_asset_amount delta pm =
     (case pm of (p, m) \<Rightarrow>
        if delta = 0 then Inr (p, m)
        else
          and_then (if pq_quote_asset_amount p = 0 \<and> pq_base_asset_amount p = 0 then safe_add 32 (dm_number_of_users m) 1
            else Inr (dm_number_of_users m)) (\<lambda>n.
          and_then (safe_i 64 (pq_quote_asset_amount p + delta)) (\<lambda>quote.
          and_then (safe_i 128 (am_quote_asset_amount (dm_amm m) + delta)) (\<lambda>total.
          Inr (p\<lparr>pq_quote_asset_amount := quote\<rparr>,
               m\<lparr>dm_number_of_users := (if quote = 0 \<and> pq_base_asset_amount p = 0 then n - 1 else n),
                 dm_amm := (dm_amm m)\<lparr>am_quote_asset_amount := total\<rparr>\<rparr>)))))"

definition update_quote_break_even_amount :: "int \<Rightarrow> perp_position \<times> drift_market \<Rightarrow> (perp_position \<times> drift_market) res" where
  "update_quote_break_even_amount delta pm =
     (case pm of (p, m) \<Rightarrow>
        if delta = 0 \<or> pq_base_asset_amount p = 0 then Inr (p, m)
        else
          and_then (safe_i 64 (pq_quote_break_even_amount p + delta)) (\<lambda>break_even.
          and_then
            (case get_direction p of
               Long \<Rightarrow> and_then (safe_i 128 (am_quote_break_even_amount_long (dm_amm m) + delta)) (\<lambda>x.
                 Inr ((dm_amm m)\<lparr>am_quote_break_even_amount_long := x\<rparr>))
             | Short \<Rightarrow> and_then (safe_i 128 (am_quote_break_even_amount_short (dm_amm m) + delta)) (\<lambda>x.
                 Inr ((dm_amm m)\<lparr>am_quote_break_even_amount_short := x\<rparr>))) (\<lambda>a.
          Inr (p\<lparr>pq_quote_break_even_amount := break_even\<rparr>, m\<lparr>dm_amm := a\<rparr>))))"

definition update_quote_asset_and_break_even_amount ::
  "int \<Rightarrow> perp_position \<times> drift_market \<Rightarrow> (perp_position \<times> drift_market) res" where
  "update_quote_asset_and_break_even_amount delta pm =
     and_then (update_quote_asset_amount delta pm) (update_quote_break_even_amount delta)"

definition update_position_and_market ::
  "int \<Rightarrow> int \<Rightarrow> perp_position \<times> drift_market \<Rightarrow> (int \<times> perp_position \<times> drift_market) res" where
  "update_position_and_market base_delta quote_delta pm =
     (case pm of (p, m) \<Rightarrow>
        if base_delta = 0 then
          and_then (update_quote_asset_amount quote_delta (p, m)) (\<lambda>(p, m). Inr (quote_delta, p, m))
        else
          and_then (get_position_update_type p base_delta) (\<lambda>update_type.
          and_then (get_new_position_amounts p base_delta quote_delta) (\<lambda>(new_base, new_quote).
          and_then (new_entry_amounts update_type p base_delta quote_delta) (\<lambda>(new_entry, new_break_even, pnl).
          and_then (count_users update_type p new_base new_quote m) (\<lambda>m.
          and_then (safe_i 128 (am_quote_asset_amount (dm_amm m) + quote_delta)) (\<lambda>total.
          and_then (move_totals update_type p base_delta quote_delta (new_base, new_entry, new_break_even)
            ((dm_amm m)\<lparr>am_quote_asset_amount := total\<rparr>)) (\<lambda>a.
          and_then (check_funding_rate p a) (\<lambda>_.
          and_then (new_funding_rate update_type new_base a p) (\<lambda>rate.
          and_then (is_multiple_of_step_size (nat \<bar>pq_base_asset_amount p\<bar>) (am_order_step_size a)) (\<lambda>multiple.
          require multiple Drift_InvalidPerpPositionDetected
            (Inr (pnl,
                  p\<lparr>pq_last_cumulative_funding_rate := rate, pq_base_asset_amount := new_base,
                    pq_quote_asset_amount := new_quote, pq_quote_entry_amount := new_entry,
                    pq_quote_break_even_amount := new_break_even\<rparr>,
                  m\<lparr>dm_amm := a\<rparr>))))))))))))"

definition increase_open_bids_and_asks :: "position_direction \<Rightarrow> nat \<Rightarrow> bool \<Rightarrow> perp_position \<Rightarrow> perp_position res" where
  "increase_open_bids_and_asks direction unfilled update p =
     (if \<not> update then Inr p
      else case direction of
        Long \<Rightarrow> and_then (cast_i 64 (int unfilled)) (\<lambda>x. and_then (safe_i 64 (pq_open_bids p + x)) (\<lambda>y.
          Inr (p\<lparr>pq_open_bids := y\<rparr>)))
      | Short \<Rightarrow> and_then (cast_i 64 (int unfilled)) (\<lambda>x. and_then (safe_i 64 (pq_open_asks p - x)) (\<lambda>y.
          Inr (p\<lparr>pq_open_asks := y\<rparr>))))"

definition decrease_open_bids_and_asks :: "position_direction \<Rightarrow> nat \<Rightarrow> bool \<Rightarrow> perp_position \<Rightarrow> perp_position res" where
  "decrease_open_bids_and_asks direction unfilled update p =
     (if \<not> update then Inr p
      else case direction of
        Long \<Rightarrow> and_then (cast_i 64 (int unfilled)) (\<lambda>x. and_then (safe_i 64 (pq_open_bids p - x)) (\<lambda>y.
          Inr (p\<lparr>pq_open_bids := max y 0\<rparr>)))
      | Short \<Rightarrow> and_then (cast_i 64 (int unfilled)) (\<lambda>x. and_then (safe_i 64 (pq_open_asks p + x)) (\<lambda>y.
          Inr (p\<lparr>pq_open_asks := min y 0\<rparr>))))"

section \<open>Funding\<close>

text \<open>\<open>_calculate_funding_payment\<close>: the magnitude in 192 bits, the sign from both factors.\<close>

definition funding_payment_of :: "int \<Rightarrow> int \<Rightarrow> int res" where
  "funding_payment_of funding_rate_delta base_asset_amount =
     (let delta_sign = (if funding_rate_delta > 0 then 1 else - 1 :: int); base_sign = (if base_asset_amount > 0 then - 1 else 1) in
      and_then (safe_mul 192 (nat \<bar>funding_rate_delta\<bar>) (nat \<bar>base_asset_amount\<bar>)) (\<lambda>x.
      and_then (safe_div x 1000000) (\<lambda>x.
      and_then (safe_div x 1000) (\<lambda>x.
      and_then (if x < 2 ^ 128 then Inr x else fail Drift_BnConversionError) (\<lambda>x.
      and_then (cast_i 128 (int x)) (\<lambda>x.
      and_then (safe_i 128 (x * base_sign)) (\<lambda>x. safe_i 128 (x * delta_sign))))))))"

definition calculate_funding_payment :: "int \<Rightarrow> perp_position \<Rightarrow> int res" where
  "calculate_funding_payment amm_cumulative_funding_rate p =
     and_then (safe_i 128 (amm_cumulative_funding_rate - pq_last_cumulative_funding_rate p)) (\<lambda>delta.
     if delta = 0 then Inr 0
     else
       and_then (funding_payment_of delta (pq_base_asset_amount p)) (\<lambda>payment.
       and_then (safe_div_i 128 payment 1000) (\<lambda>payment. cast_i 64 payment)))"

definition calculate_funding_payment_in_quote_precision :: "int \<Rightarrow> int \<Rightarrow> int res" where
  "calculate_funding_payment_in_quote_precision funding_rate_delta base_asset_amount =
     and_then (funding_payment_of funding_rate_delta base_asset_amount) (\<lambda>payment. safe_div_i 128 payment 1000)"

definition calculate_funding_rate_from_pnl_limit :: "int \<Rightarrow> int \<Rightarrow> int res" where
  "calculate_funding_rate_from_pnl_limit pnl_limit base_asset_amount =
     (if base_asset_amount = 0 then Inr 0
      else
        and_then (if pnl_limit < 0 then safe_i 128 (pnl_limit + 1) else Inr pnl_limit) (\<lambda>biased.
        and_then (safe_i 128 (biased * 10 ^ 12)) (\<lambda>product. safe_div_i 128 product base_asset_amount)))"

definition get_total_fee_lower_bound :: "drift_amm \<Rightarrow> nat res" where
  "get_total_fee_lower_bound a = and_then (safe_mul 128 (am_total_exchange_fee a) 1) (\<lambda>x. safe_div x 2)"

text \<open>A lower bound that does not fit the signed type counts as 0.\<close>

definition calculate_fee_pool :: "drift_amm \<Rightarrow> nat res" where
  "calculate_fee_pool a =
     and_then (get_total_fee_lower_bound a) (\<lambda>bound.
     and_then (safe_add 128 bound (am_total_liquidation_fee a)) (\<lambda>x.
     and_then (safe_sub x (am_total_fee_withdrawn a)) (\<lambda>x.
     let bound = (if x < 2 ^ 127 then int x else 0) in
     if am_total_fee_minus_distributions a > bound then
       and_then (safe_i 128 (am_total_fee_minus_distributions a - bound)) (\<lambda>pool. cast_u 128 pool)
     else Inr 0)))"

text \<open>The result is the capped rate and the capped profit of the protocol.\<close>

definition calculate_capped_funding_rate :: "drift_amm \<Rightarrow> int \<Rightarrow> int \<Rightarrow> (int \<times> int) res" where
  "calculate_capped_funding_rate a uncapped_funding_pnl funding_rate =
     and_then (calculate_fee_pool a) (\<lambda>fee_pool.
     and_then (cast_i 128 (int fee_pool)) (\<lambda>pool.
     and_then (safe_div_i 128 pool 3) (\<lambda>third.
     let funding_rate_pnl_limit = - third; capped_funding_pnl = max uncapped_funding_pnl funding_rate_pnl_limit in
     if uncapped_funding_pnl < funding_rate_pnl_limit then
       and_then (calculate_funding_payment_in_quote_precision funding_rate
         (if funding_rate > 0 then am_base_asset_amount_long a else am_base_asset_amount_short a)) (\<lambda>from_users.
       and_then (safe_i 128 (funding_rate_pnl_limit - \<bar>from_users\<bar>)) (\<lambda>limit.
       and_then (calculate_funding_rate_from_pnl_limit limit
         (if funding_rate < 0 then am_base_asset_amount_long a else am_base_asset_amount_short a)) (\<lambda>capped_rate.
       Inr (capped_rate, capped_funding_pnl))))
     else Inr (funding_rate, capped_funding_pnl))))"

text \<open>The rates of both sides and the profit of the protocol before the cap. \<open>as i64\<close> wraps.\<close>

definition calculate_funding_rate_long_short :: "int \<Rightarrow> drift_amm \<Rightarrow> ((int \<times> int \<times> int) \<times> drift_amm) res" where
  "calculate_funding_rate_long_short funding_rate a =
     and_then (calculate_funding_payment_in_quote_precision funding_rate (am_base_asset_amount_with_amm a)) (\<lambda>payment.
     and_then (arith_i 128 (- payment)) (\<lambda>uncapped_funding_pnl.
     if uncapped_funding_pnl \<ge> 0 then
       and_then (safe_i 128 (am_total_fee_minus_distributions a + uncapped_funding_pnl)) (\<lambda>total.
       and_then (safe_i 64 (am_net_revenue_since_last_funding a + wrap_int 64 uncapped_funding_pnl)) (\<lambda>revenue.
       Inr ((funding_rate, funding_rate, uncapped_funding_pnl),
            a\<lparr>am_total_fee_minus_distributions := total, am_net_revenue_since_last_funding := revenue\<rparr>)))
     else
       and_then (calculate_capped_funding_rate a uncapped_funding_pnl funding_rate) (\<lambda>(capped_rate, capped_pnl).
       and_then (safe_i 128 (am_total_fee_minus_distributions a + capped_pnl)) (\<lambda>total.
       and_then
         (if capped_pnl \<noteq> 0 then
            and_then (get_total_fee_lower_bound a) (\<lambda>bound.
            and_then (cast_i 128 (int bound)) (\<lambda>bound.
            require (\<not> total < bound) Drift_InvalidFundingProfitability (Inr ())))
          else Inr ()) (\<lambda>_.
       and_then (safe_i 64 (am_net_revenue_since_last_funding a - wrap_int 64 \<bar>capped_pnl\<bar>)) (\<lambda>revenue.
       Inr ((if funding_rate < 0 then capped_rate else funding_rate,
             if funding_rate > 0 then capped_rate else funding_rate, uncapped_funding_pnl),
            a\<lparr>am_total_fee_minus_distributions := total, am_net_revenue_since_last_funding := revenue\<rparr>)))))))"

text \<open>The funding of the position of a user in the market, if he has one; the result has the new total of the user.\<close>

definition settle_funding_payment ::
  "int \<times> perp_position list \<times> drift_market \<Rightarrow> (int \<times> perp_position list \<times> drift_market) res" where
  "settle_funding_payment upm =
     (case upm of (user_funding, ps, m) \<Rightarrow>
        (case get_position_index (dm_market_index m) ps of
           Inl _ \<Rightarrow> Inr (user_funding, ps, m)
         | Inr i \<Rightarrow>
             let p = ps ! i; a = dm_amm m in
             if pq_base_asset_amount p = 0 then Inr (user_funding, ps, m)
             else
               let rate = (if pq_base_asset_amount p > 0 then am_cumulative_funding_rate_long a
                           else am_cumulative_funding_rate_short a) in
               if rate \<noteq> pq_last_cumulative_funding_rate p then
                 and_then (calculate_funding_payment rate p) (\<lambda>payment.
                 and_then (safe_i 64 (user_funding + payment)) (\<lambda>user_funding.
                 and_then (cast_i 64 rate) (\<lambda>rate.
                 and_then (update_quote_asset_and_break_even_amount payment
                   (p\<lparr>pq_last_cumulative_funding_rate := rate\<rparr>, m)) (\<lambda>(p, m).
                 and_then (safe_i 64 (am_net_unsettled_funding_pnl (dm_amm m) - payment)) (\<lambda>unsettled.
                 Inr (user_funding, ps[i := p],
                      m\<lparr>dm_amm := (dm_amm m)\<lparr>am_net_unsettled_funding_pnl := unsettled\<rparr>\<rparr>))))))
               else Inr (user_funding, ps, m)))"

end
