(* ===== verification/Drift_Perp_Theorems.thy ===== *)
theory Drift_Perp_Theorems
  imports Drift_Perp
begin

text \<open>
  What the updates of \<open>Drift_Perp\<close> promise: the totals of a market are the sums over its positions, on each side; the
  profit reported by an update is the change of the unrealized balance of the position; the funding paid is the exact
  product, truncated; and the fees pay for at most a third of themselves in funding.
\<close>

section \<open>The totals of a market\<close>

definition long_of :: "(perp_position \<Rightarrow> int) \<Rightarrow> perp_position \<Rightarrow> int" where
  "long_of f p = (if pq_base_asset_amount p > 0 then f p else 0)"

definition short_of :: "(perp_position \<Rightarrow> int) \<Rightarrow> perp_position \<Rightarrow> int" where
  "short_of f p = (if pq_base_asset_amount p < 0 then f p else 0)"

text \<open>A position without base has neither entry nor break-even amount.\<close>

definition flat_ok :: "perp_position \<Rightarrow> bool" where
  "flat_ok p \<longleftrightarrow> (pq_base_asset_amount p = 0 \<longrightarrow> pq_quote_entry_amount p = 0 \<and> pq_quote_break_even_amount p = 0)"

definition totals_are :: "drift_amm \<Rightarrow> perp_position list \<Rightarrow> bool" where
  "totals_are a ps \<longleftrightarrow>
     am_quote_asset_amount a = (\<Sum>p\<leftarrow>ps. pq_quote_asset_amount p) \<and>
     am_base_asset_amount_long a = (\<Sum>p\<leftarrow>ps. long_of pq_base_asset_amount p) \<and>
     am_base_asset_amount_short a = (\<Sum>p\<leftarrow>ps. short_of pq_base_asset_amount p) \<and>
     am_quote_entry_amount_long a = (\<Sum>p\<leftarrow>ps. long_of pq_quote_entry_amount p) \<and>
     am_quote_entry_amount_short a = (\<Sum>p\<leftarrow>ps. short_of pq_quote_entry_amount p) \<and>
     am_quote_break_even_amount_long a = (\<Sum>p\<leftarrow>ps. long_of pq_quote_break_even_amount p) \<and>
     am_quote_break_even_amount_short a = (\<Sum>p\<leftarrow>ps. short_of pq_quote_break_even_amount p)"

text \<open>A position and the totals move together.\<close>

definition moves_with :: "drift_amm \<Rightarrow> perp_position \<Rightarrow> drift_amm \<Rightarrow> perp_position \<Rightarrow> bool" where
  "moves_with a p a' p' \<longleftrightarrow>
     am_quote_asset_amount a' - am_quote_asset_amount a = pq_quote_asset_amount p' - pq_quote_asset_amount p \<and>
     am_base_asset_amount_long a' - am_base_asset_amount_long a = long_of pq_base_asset_amount p' - long_of pq_base_asset_amount p \<and>
     am_base_asset_amount_short a' - am_base_asset_amount_short a = short_of pq_base_asset_amount p' - short_of pq_base_asset_amount p \<and>
     am_quote_entry_amount_long a' - am_quote_entry_amount_long a = long_of pq_quote_entry_amount p' - long_of pq_quote_entry_amount p \<and>
     am_quote_entry_amount_short a' - am_quote_entry_amount_short a = short_of pq_quote_entry_amount p' - short_of pq_quote_entry_amount p \<and>
     am_quote_break_even_amount_long a' - am_quote_break_even_amount_long a =
       long_of pq_quote_break_even_amount p' - long_of pq_quote_break_even_amount p \<and>
     am_quote_break_even_amount_short a' - am_quote_break_even_amount_short a =
       short_of pq_quote_break_even_amount p' - short_of pq_quote_break_even_amount p"

lemma moves_totals:
  assumes "moves_with a (ps ! i) a' p'" "i < length ps" "totals_are a ps"
  shows "totals_are a' (ps[i := p'])"
  using assms(1,3) unfolding totals_are_def moves_with_def sum_list_update_int [OF assms(2)] by linarith

lemma moves_with_refl: "moves_with a p a p"
  by (simp add: moves_with_def)

lemma moves_with_trans: "moves_with a p a' p' \<Longrightarrow> moves_with a' p' a'' p'' \<Longrightarrow> moves_with a p a'' p''"
  unfolding moves_with_def by linarith

lemma quote_moves:
  assumes "update_quote_asset_amount d (p, m) = Inr (p', m')"
  shows "moves_with (dm_amm m) p (dm_amm m') p'" "pq_base_asset_amount p' = pq_base_asset_amount p"
    "flat_ok p \<Longrightarrow> flat_ok p'" "pq_quote_asset_amount p' = pq_quote_asset_amount p + d"
    "pq_quote_entry_amount p' = pq_quote_entry_amount p"
  using assms
  by (auto simp: update_quote_asset_amount_def res_simps moves_with_def long_of_def short_of_def flat_ok_def split: if_split_asm)

lemma break_even_moves:
  assumes "update_quote_break_even_amount d (p, m) = Inr (p', m')"
  shows "moves_with (dm_amm m) p (dm_amm m') p'" "flat_ok p \<Longrightarrow> flat_ok p'"
  using assms
  by (auto simp: update_quote_break_even_amount_def res_simps moves_with_def long_of_def short_of_def flat_ok_def get_direction_def
      split: if_split_asm)

lemma move_long_Inr: "move_long b e f a = Inr a' \<Longrightarrow> a' = a\<lparr>am_base_asset_amount_long := am_base_asset_amount_long a + b,
    am_quote_entry_amount_long := am_quote_entry_amount_long a + e, am_quote_break_even_amount_long := am_quote_break_even_amount_long a + f\<rparr>"
  by (auto simp: move_long_def res_simps)

lemma move_short_Inr: "move_short b e f a = Inr a' \<Longrightarrow> a' = a\<lparr>am_base_asset_amount_short := am_base_asset_amount_short a + b,
    am_quote_entry_amount_short := am_quote_entry_amount_short a + e, am_quote_break_even_amount_short := am_quote_break_even_amount_short a + f\<rparr>"
  by (auto simp: move_short_def res_simps)

lemma less_part_Inr:
  assumes "less_part x a b = Inr y"
  shows "y = x - (x * a) sdiv b" "b \<noteq> 0"
  using assms by (auto simp: less_part_def res_simps)

lemma less_part_all: "less_part x a a = Inr y \<Longrightarrow> y = 0"
  using less_part_Inr [of x a a y] by (auto simp: signed_divide_int_def abs_mult sgn_mult sgn_if zero_less_mult_iff split: if_splits)

lemma update_type_cases:
  assumes "get_position_update_type p d = Inr ut"
  shows "case ut of Open \<Rightarrow> pq_base_asset_amount p = 0
    | Increase \<Rightarrow> pq_base_asset_amount p \<noteq> 0 \<and> sgn (pq_base_asset_amount p) = sgn d
    | Reduce \<Rightarrow> pq_base_asset_amount p \<noteq> 0 \<and> sgn (pq_base_asset_amount p) \<noteq> sgn d \<and> \<bar>d\<bar> < \<bar>pq_base_asset_amount p\<bar>
    | Close \<Rightarrow> pq_base_asset_amount p \<noteq> 0 \<and> sgn (pq_base_asset_amount p) \<noteq> sgn d \<and> \<bar>d\<bar> = \<bar>pq_base_asset_amount p\<bar>
    | Flip \<Rightarrow> pq_base_asset_amount p \<noteq> 0 \<and> sgn (pq_base_asset_amount p) \<noteq> sgn d \<and> \<bar>pq_base_asset_amount p\<bar> < \<bar>d\<bar>"
  using assms by (auto simp: get_position_update_type_def res_simps split: if_split_asm)

lemma update_position_Inr:
  assumes "update_position_and_market d q (p, m) = Inr (pnl, p', m')" "d \<noteq> 0"
  obtains ut base entry break_even m1 a rate where "get_position_update_type p d = Inr ut" "base = pq_base_asset_amount p + d"
    "new_entry_amounts ut p d q = Inr (entry, break_even, pnl)"
    "count_users ut p base (pq_quote_asset_amount p + q) m = Inr m1"
    "move_totals ut p d q (base, entry, break_even)
       ((dm_amm m1)\<lparr>am_quote_asset_amount := am_quote_asset_amount (dm_amm m1) + q\<rparr>) = Inr a"
    "check_funding_rate p a = Inr ()" "am_order_step_size a \<noteq> 0"
    "nat \<bar>pq_base_asset_amount p\<bar> mod am_order_step_size a = 0"
    "p' = p\<lparr>pq_last_cumulative_funding_rate := rate, pq_base_asset_amount := base,
       pq_quote_asset_amount := pq_quote_asset_amount p + q, pq_quote_entry_amount := entry, pq_quote_break_even_amount := break_even\<rparr>"
    "m' = m1\<lparr>dm_amm := a\<rparr>"
  using assms
  by (auto simp: update_position_and_market_def and_then_Inr and_then_pair_Inr and_then_triple_Inr require_Inr
      get_new_position_amounts_def safe_i_Inr is_multiple_of_step_size_def fail_Inr split: if_split_asm intro: that)

lemma count_users_amm: "count_users ut p b q m = Inr m' \<Longrightarrow> dm_amm m' = dm_amm m"
  by (cases ut) (auto simp: count_users_def res_simps split: if_split_asm)

lemmas side_simps = moves_with_def long_of_def short_of_def

text \<open>The totals, type by type of the update.\<close>

lemma position_update_moves:
  assumes "update_position_and_market d q (p, m) = Inr (pnl, p', m')" "flat_ok p"
  shows "moves_with (dm_amm m) p (dm_amm m') p' \<and> flat_ok p' \<and>
    pq_quote_asset_amount p' - pq_quote_entry_amount p' = pq_quote_asset_amount p - pq_quote_entry_amount p + pnl"
proof (cases "d = 0")
  case True
  then have "update_quote_asset_amount q (p, m) = Inr (p', m')" "pnl = q"
    using assms(1) by (auto simp: update_position_and_market_def and_then_pair_Inr)
  then show ?thesis using quote_moves [of q p m p' m'] assms(2) by simp
next
  case False
  show ?thesis
  proof (rule update_position_Inr [OF assms(1) False])
    fix ut base entry break_even m1 a rate
    assume ut: "get_position_update_type p d = Inr ut" and base: "base = pq_base_asset_amount p + d"
      and amounts: "new_entry_amounts ut p d q = Inr (entry, break_even, pnl)"
      and users: "count_users ut p base (pq_quote_asset_amount p + q) m = Inr m1"
      and totals: "move_totals ut p d q (base, entry, break_even)
        ((dm_amm m1)\<lparr>am_quote_asset_amount := am_quote_asset_amount (dm_amm m1) + q\<rparr>) = Inr a"
      and p': "p' = p\<lparr>pq_last_cumulative_funding_rate := rate, pq_base_asset_amount := base,
        pq_quote_asset_amount := pq_quote_asset_amount p + q, pq_quote_entry_amount := entry, pq_quote_break_even_amount := break_even\<rparr>"
      and m': "m' = m1\<lparr>dm_amm := a\<rparr>"
    have amm: "dm_amm m1 = dm_amm m" using count_users_amm [OF users] .
    note kind = update_type_cases [OF ut]
    show ?thesis
    proof (cases ut)
      case Open
      then show ?thesis using kind base False amounts totals p' m' amm assms(2)
        by (auto simp: new_entry_amounts_def move_totals_def res_simps side_simps flat_ok_def dest!: move_long_Inr move_short_Inr)
    next
      case Increase
      then have "0 < pq_base_asset_amount p \<and> 0 < d \<or> pq_base_asset_amount p < 0 \<and> d < 0"
        using kind by (auto simp: sgn_if split: if_split_asm)
      then show ?thesis using Increase base amounts totals p' m' amm
        by (auto simp: new_entry_amounts_def move_totals_def res_simps side_simps flat_ok_def dest!: move_long_Inr move_short_Inr)
    next
      case Reduce
      then have "0 < pq_base_asset_amount p \<and> 0 < base \<or> pq_base_asset_amount p < 0 \<and> base < 0"
        using kind base by (auto simp: sgn_if split: if_split_asm)
      then show ?thesis using Reduce base amounts totals p' m' amm
        by (auto simp: new_entry_amounts_def move_totals_def res_simps side_simps flat_ok_def dest!: move_long_Inr move_short_Inr)
    next
      case Close
      then have "base = 0" using kind base False by (auto simp: sgn_if split: if_split_asm)
      moreover have "entry = 0" "break_even = 0"
        using amounts Close kind by (auto simp: new_entry_amounts_def and_then_Inr dest: less_part_all)
      ultimately show ?thesis using Close kind base amounts totals p' m' amm
        by (auto simp: new_entry_amounts_def move_totals_def res_simps side_simps flat_ok_def dest!: move_long_Inr move_short_Inr)
    next
      case Flip
      then have "0 < pq_base_asset_amount p \<and> base < 0 \<or> pq_base_asset_amount p < 0 \<and> 0 < base"
        using kind base False by (auto simp: sgn_if split: if_split_asm)
      then show ?thesis using Flip base amounts totals p' m' amm
        by (auto simp: new_entry_amounts_def move_totals_def res_simps side_simps flat_ok_def dest!: move_long_Inr move_short_Inr)
    qed
  qed
qed

text \<open>The positions of all users in one market: fills, changes of the quote amount, and the funding of a user, whose own
  position is the one in this market.\<close>

type_synonym perp_book = "drift_market \<times> perp_position list"

inductive perp_step :: "perp_book \<Rightarrow> perp_book \<Rightarrow> bool" where
  fills: "i < length ps \<Longrightarrow> update_position_and_market d q (ps ! i, m) = Inr (pnl, p', m') \<Longrightarrow>
     perp_step (m, ps) (m', ps[i := p'])"
| pays: "i < length ps \<Longrightarrow> update_quote_asset_and_break_even_amount d (ps ! i, m) = Inr (p', m') \<Longrightarrow>
     perp_step (m, ps) (m', ps[i := p'])"
| opens: "perp_step (m, ps) (m, default_perp_position\<lparr>pq_market_index := k, pq_max_margin_ratio := r\<rparr> # ps)"
| settles: "i < length ps \<Longrightarrow> settle_funding_payment (f, [ps ! i], m) = Inr (f', [p'], m') \<Longrightarrow>
     perp_step (m, ps) (m', ps[i := p'])"
| funding: "calculate_funding_rate_long_short r (dm_amm m) = Inr (rates, a) \<Longrightarrow> perp_step (m, ps) (m\<lparr>dm_amm := a\<rparr>, ps)"
| rates: "perp_step (m, ps) (m\<lparr>dm_amm := (dm_amm m)\<lparr>am_cumulative_funding_rate_long := l, am_cumulative_funding_rate_short := s\<rparr>\<rparr>, ps)"

definition perp_ok :: "perp_book \<Rightarrow> bool" where
  "perp_ok b \<longleftrightarrow> (case b of (m, ps) \<Rightarrow> totals_are (dm_amm m) ps \<and> (\<forall>p\<in>set ps. flat_ok p))"

lemma both_move:
  assumes "update_quote_asset_and_break_even_amount d (p, m) = Inr (p', m')"
  shows "moves_with (dm_amm m) p (dm_amm m') p'" "flat_ok p \<Longrightarrow> flat_ok p'"
proof -
  obtain p1 m1 where q: "update_quote_asset_amount d (p, m) = Inr (p1, m1)" "update_quote_break_even_amount d (p1, m1) = Inr (p', m')"
    using assms by (auto simp: update_quote_asset_and_break_even_amount_def and_then_Inr)
  note a = quote_moves [OF q(1)] and b = break_even_moves [OF q(2)]
  show "moves_with (dm_amm m) p (dm_amm m') p'" by (rule moves_with_trans [OF a(1) b(1)])
  show "flat_ok p \<Longrightarrow> flat_ok p'" using a(3) b(2) by blast
qed

lemma settle_moves:
  assumes "settle_funding_payment (f, [p], m) = Inr (f', [p'], m')"
  shows "moves_with (dm_amm m) p (dm_amm m') p' \<and> (flat_ok p \<longrightarrow> flat_ok p')"
proof (cases "p' = p \<and> m' = m")
  case True
  then show ?thesis by (simp add: moves_with_refl)
next
  case False
  then obtain payment r m1 where "update_quote_asset_and_break_even_amount payment (p\<lparr>pq_last_cumulative_funding_rate := r\<rparr>, m) = Inr (p', m1)"
      "\<exists>u. m' = m1\<lparr>dm_amm := (dm_amm m1)\<lparr>am_net_unsettled_funding_pnl := u\<rparr>\<rparr>"
    using assms
    by (auto simp: settle_funding_payment_def get_position_index_def and_then_Inr and_then_pair_Inr safe_i_Inr cast_Inr Let_def
        split: if_split_asm sum.split_asm)
  then show ?thesis using both_move by (fastforce simp: side_simps flat_ok_def)
qed

lemma funding_frame:
  assumes "calculate_funding_rate_long_short r a = Inr (rates, a')"
  shows "\<exists>t n. a' = a\<lparr>am_total_fee_minus_distributions := t, am_net_revenue_since_last_funding := n\<rparr>"
  using assms by (auto simp: calculate_funding_rate_long_short_def and_then_Inr and_then_pair_Inr split: if_split_asm)

lemma replace_ok:
  assumes "moves_with (dm_amm m) (ps ! i) (dm_amm m') p'" "flat_ok (ps ! i) \<longrightarrow> flat_ok p'" "i < length ps" "perp_ok (m, ps)"
  shows "perp_ok (m', ps[i := p'])"
  using assms moves_totals [OF assms(1,3)] set_update_subset_insert [of ps i p'] by (auto simp: perp_ok_def)

lemma perp_step_ok: "perp_step b b' \<Longrightarrow> perp_ok b \<Longrightarrow> perp_ok b'"
proof (induction rule: perp_step.induct)
  case (fills i ps d q m pnl p' m')
  have "flat_ok (ps ! i)" using fills(1,3) by (simp add: perp_ok_def)
  then show ?case using replace_ok position_update_moves [OF fills(2)] fills(1,3) by blast
next
  case (pays i ps d m p' m')
  then show ?case using replace_ok both_move [OF pays(2)] by blast
next
  case (opens m ps k r)
  then show ?case by (simp add: perp_ok_def totals_are_def long_of_def short_of_def flat_ok_def default_perp_position_def)
next
  case (settles i ps f m f' p' m')
  then show ?case using replace_ok settle_moves [OF settles(2)] by blast
next
  case (funding r m rates a ps)
  then show ?case using funding_frame [OF funding(1)] by (auto simp: perp_ok_def totals_are_def)
next
  case (rates m ps l s)
  then show ?case by (simp add: perp_ok_def totals_are_def)
qed

lemma perp_steps_ok: "perp_step\<^sup>*\<^sup>* b b' \<Longrightarrow> perp_ok b \<Longrightarrow> perp_ok b'"
  by (induction rule: rtranclp_induct) (auto intro: perp_step_ok)

definition empty_amm :: "nat \<Rightarrow> drift_amm" where
  "empty_amm step = \<lparr>am_quote_asset_amount = 0, am_base_asset_amount_long = 0, am_base_asset_amount_short = 0,
     am_quote_entry_amount_long = 0, am_quote_entry_amount_short = 0, am_quote_break_even_amount_long = 0,
     am_quote_break_even_amount_short = 0, am_cumulative_funding_rate_long = 0, am_cumulative_funding_rate_short = 0,
     am_order_step_size = step, am_base_asset_amount_with_amm = 0, am_net_unsettled_funding_pnl = 0,
     am_total_fee_minus_distributions = 0, am_net_revenue_since_last_funding = 0, am_total_exchange_fee = 0,
     am_total_liquidation_fee = 0, am_total_fee_withdrawn = 0\<rparr>"

definition empty_market :: "nat \<Rightarrow> nat \<Rightarrow> drift_market" where
  "empty_market k step = \<lparr>dm_market_index = k, dm_number_of_users = 0, dm_number_of_users_with_base = 0, dm_amm = empty_amm step\<rparr>"

text \<open>
  C25. Whatever fills, payments and funding follow one another, the totals of a perpetual market, the quote amount and on
  each side the base, entry and break-even amounts, are the sums over the positions of its users.
\<close>

theorem perp_totals_are_sums:
  assumes "perp_step\<^sup>*\<^sup>* (empty_market k step, []) (m, ps)"
  shows "totals_are (dm_amm m) ps"
proof -
  have "perp_ok (empty_market k step, [])" by (simp add: perp_ok_def totals_are_def empty_market_def empty_amm_def)
  with perp_steps_ok [OF assms] show ?thesis by (simp add: perp_ok_def)
qed

definition flat :: perp_position where
  "flat = default_perp_position\<lparr>pq_market_index := 2, pq_max_margin_ratio := 0\<rparr>"

definition long_position :: perp_position where
  "long_position = flat\<lparr>pq_base_asset_amount := 100, pq_quote_asset_amount := - 2000, pq_quote_entry_amount := - 2000,
     pq_quote_break_even_amount := - 2000\<rparr>"

definition long_market :: drift_market where
  "long_market = (empty_market 2 10)\<lparr>dm_number_of_users := 1, dm_number_of_users_with_base := 1, dm_amm := (empty_amm 10)
     \<lparr>am_quote_asset_amount := - 2000, am_base_asset_amount_long := 100, am_quote_entry_amount_long := - 2000,
      am_quote_break_even_amount_long := - 2000\<rparr>\<rparr>"

lemmas perp_eval = update_position_and_market_def get_position_update_type_def get_new_position_amounts_def new_entry_amounts_def
  count_users_def move_totals_def move_long_def move_short_def check_funding_rate_def new_funding_rate_def get_direction_def
  is_multiple_of_step_size_def empty_market_def empty_amm_def flat_def default_perp_position_def long_position_def long_market_def
  safe_defs arith_i_def

lemma opens_long: "update_position_and_market 100 (- 2000) (flat, empty_market 2 10) = Inr (0, long_position, long_market)"
  by (simp add: perp_eval)

theorem perp_totals_are_sums_witness:
  "perp_step\<^sup>*\<^sup>* (empty_market 2 10, []) (long_market, [long_position]) \<and> am_base_asset_amount_long (dm_amm long_market) = 100"
proof -
  have "perp_step (empty_market 2 10, []) (empty_market 2 10, [flat])" unfolding flat_def by (rule opens)
  moreover have "perp_step (empty_market 2 10, [flat]) (long_market, [flat][0 := long_position])"
    by (rule fills [of 0 _ 100 "- 2000" _ 0]) (simp_all add: opens_long)
  ultimately have steps: "perp_step\<^sup>*\<^sup>* (empty_market 2 10, []) (long_market, [long_position])" by simp
  then show ?thesis using perp_totals_are_sums [OF steps] by (simp add: totals_are_def long_of_def long_position_def)
qed

section \<open>Sizes\<close>

text \<open>
  C31. The check of the size of a position looks at the size before the update. A fill whose size is not a multiple of the
  step passes it, and from then on no fill of the position passes, so it cannot be reduced or closed.
\<close>

theorem odd_size_is_locked:
  assumes "update_position_and_market d q (p, m) = Inr (pnl, p', m')" "d \<noteq> 0"
    "\<not> int (am_order_step_size (dm_amm m)) dvd pq_base_asset_amount p + d"
    "am_order_step_size (dm_amm m'') = am_order_step_size (dm_amm m)" "d' \<noteq> 0"
  shows "int (am_order_step_size (dm_amm m)) dvd pq_base_asset_amount p \<and>
    (\<forall>r. update_position_and_market d' q' (p', m'') \<noteq> Inr r)"
proof -
  have step: "am_order_step_size a' = am_order_step_size a" if "move_totals ut p d q new a = Inr a'" for ut p d q new a a'
    using that
    by (cases new) (auto simp: move_totals_def res_simps dest!: move_long_Inr move_short_Inr split: if_split_asm)
  have sized: "int (am_order_step_size (dm_amm m)) dvd pq_base_asset_amount p"
    if "update_position_and_market d q (p, m) = Inr (pnl, p', m')" "d \<noteq> 0" for d q p m pnl p' m'
  proof (rule update_position_Inr [OF that])
    fix ut base entry break_even m1 a
    assume "count_users ut p base (pq_quote_asset_amount p + q) m = Inr m1" and t: "move_totals ut p d q (base, entry, break_even)
        ((dm_amm m1)\<lparr>am_quote_asset_amount := am_quote_asset_amount (dm_amm m1) + q\<rparr>) = Inr a"
      "nat \<bar>pq_base_asset_amount p\<bar> mod am_order_step_size a = 0"
    then have "am_order_step_size a = am_order_step_size (dm_amm m)" using step [OF t(1)] count_users_amm by simp
    then have "am_order_step_size (dm_amm m) dvd nat \<bar>pq_base_asset_amount p\<bar>" using t(2) by (simp add: mod_eq_0_iff_dvd)
    then show ?thesis by (simp add: int_dvd_int_iff [symmetric])
  qed
  have base: "pq_base_asset_amount p' = pq_base_asset_amount p + d"
    by (rule update_position_Inr [OF assms(1,2)]) simp
  have "update_position_and_market d' q' (p', m'') \<noteq> Inr r" for r
  proof
    assume "update_position_and_market d' q' (p', m'') = Inr r"
    then have "int (am_order_step_size (dm_amm m'')) dvd pq_base_asset_amount p'"
      using sized [OF _ assms(5)] by (metis prod_cases3)
    then show False using base assms(3,4) by simp
  qed
  then show ?thesis using sized [OF assms(1,2)] by blast
qed

theorem odd_size_is_locked_witness:
  "\<exists>p' m'. update_position_and_market 5 (- 100) (flat, empty_market 2 10) = Inr (0, p', m') \<and> pq_base_asset_amount p' = 5 \<and>
     (\<forall>r. update_position_and_market (- 5) 100 (p', m') \<noteq> Inr r)"
proof -
  obtain p' m' where u: "update_position_and_market 5 (- 100) (flat, empty_market 2 10) = Inr (0, p', m')"
    and *: "pq_base_asset_amount p' = 5" "am_order_step_size (dm_amm m') = 10"
    by (simp add: perp_eval)
  have "\<not> int (am_order_step_size (dm_amm (empty_market 2 10))) dvd pq_base_asset_amount flat + 5"
    "am_order_step_size (dm_amm m') = am_order_step_size (dm_amm (empty_market 2 10))"
    using *(2) by (simp_all add: perp_eval)
  from odd_size_is_locked [OF u _ this, of "- 5" 100] show ?thesis using u * by auto
qed

section \<open>Funding\<close>

lemma sdiv_sgn: "0 < c \<Longrightarrow> (sgn x * y) sdiv c = sgn x * (y div c)" if "0 \<le> y" for x y c :: int
  using that by (auto simp: signed_divide_int_def sgn_mult abs_mult sgn_if)

lemma funding_payment_Inr:
  assumes "funding_payment_of r b = Inr x" "r \<noteq> 0"
  shows "x = - sgn (r * b) * (\<bar>r * b\<bar> div 10 ^ 9)"
proof -
  have x: "x = int (nat \<bar>r\<bar> * nat \<bar>b\<bar> div 1000000 div 1000) * (if b > 0 then - 1 else 1) * (if r > 0 then 1 else - 1)"
    using assms(1) by (auto simp: funding_payment_of_def Let_def res_simps split: if_split_asm)
  have n: "int (nat \<bar>r\<bar> * nat \<bar>b\<bar> div 1000000 div 1000) = \<bar>r * b\<bar> div 10 ^ 9"
    by (simp add: div_mult2_eq [symmetric] zdiv_int abs_mult)
  show ?thesis
  proof (cases "b = 0")
    case True
    then show ?thesis using x by simp
  next
    case False
    then have signs: "(if b > 0 then - 1 else 1) * (if r > 0 then 1 else - 1) = - sgn (r * b)"
      using assms(2) by (auto simp: sgn_mult)
    show ?thesis unfolding x n mult.assoc signs by (rule mult.commute)
  qed
qed

text \<open>
  C30. The funding of a position is the change of the cumulative rate times its size, exactly, truncated to a whole unit:
  longs pay when the rate has risen and receive when it has fallen, shorts the other way round.
\<close>

theorem funding_is_exact:
  assumes "calculate_funding_payment rate p = Inr x"
  shows "x = - (((rate - pq_last_cumulative_funding_rate p) * pq_base_asset_amount p) sdiv 10 ^ 12)"
proof -
  let ?d = "rate - pq_last_cumulative_funding_rate p" and ?b = "pq_base_asset_amount p"
  show ?thesis
  proof (cases "?d = 0")
    case True
    then show ?thesis using assms by (auto simp: calculate_funding_payment_def res_simps)
  next
    case False
    then obtain y where y: "funding_payment_of ?d ?b = Inr y" "x = y sdiv 1000"
      using assms by (auto simp: calculate_funding_payment_def res_simps)
    have "y = sgn (- (?d * ?b)) * (\<bar>?d * ?b\<bar> div 10 ^ 9)" using funding_payment_Inr [OF y(1) False] by (simp add: sgn_minus)
    then have "x = sgn (- (?d * ?b)) * (\<bar>?d * ?b\<bar> div 10 ^ 9 div 1000)" using y(2) sdiv_sgn by simp
    also have "\<bar>?d * ?b\<bar> div 10 ^ 9 div 1000 = \<bar>?d * ?b\<bar> div 10 ^ 12" by (simp add: zdiv_zmult2_eq [symmetric])
    finally show ?thesis by (simp add: signed_divide_int_def sgn_minus)
  qed
qed

theorem funding_is_exact_witness:
  "calculate_funding_payment 3000000000 (long_position\<lparr>pq_base_asset_amount := 7000\<rparr>) = Inr (- 21) \<and>
   (- 21 :: int) = - (((3000000000 - 0) * 7000) sdiv 10 ^ 12)"
proof -
  have f: "funding_payment_of 3000000000 7000 = Inr (- 21000)" by (simp add: funding_payment_of_def safe_defs)
  have d: "safe_div_i 128 (- 21000) 1000 = Inr (- 21)" by (simp add: safe_defs signed_divide_int_def)
  let ?p = "long_position\<lparr>pq_base_asset_amount := 7000\<rparr>"
  have p: "pq_base_asset_amount ?p = 7000" "pq_last_cumulative_funding_rate ?p = 0"
    by (simp_all add: long_position_def flat_def default_perp_position_def)
  have c: "calculate_funding_payment 3000000000 ?p = Inr (- 21)"
    by (simp add: calculate_funding_payment_def f d p safe_i_def cast_i_def checked_i_def fits_i_def)
  show ?thesis using c funding_is_exact [OF c] unfolding p by (rule conjI)
qed

lemma capped_Inr:
  assumes "calculate_capped_funding_rate a u r = Inr (rate, p)" "calculate_fee_pool a = Inr pool"
  shows "p = max u (- int (pool div 3))"
proof -
  have third: "int pool sdiv 3 = int (pool div 3)" by (cases "pool = 0") (simp_all add: signed_divide_int_eq_divide_int zdiv_int)
  show ?thesis using assms(1) third unfolding calculate_capped_funding_rate_def assms(2) and_then_simps
    by (auto simp: and_then_Inr safe_div_i_Inr cast_Inr Let_def split: if_split_asm)
qed

lemma fee_pool_bound: "calculate_fee_pool a = Inr pool \<Longrightarrow> \<exists>bound. get_total_fee_lower_bound a = Inr bound"
  by (auto simp: calculate_fee_pool_def and_then_Inr)

text \<open>
  C29. The protocol pays for funding out of its fees: an update of the rates lowers the undistributed fees by at most a
  third of the fee pool, and leaves them at or above the part of the exchange fees that is reserved.
\<close>

theorem funding_cost_is_capped:
  assumes "calculate_funding_rate_long_short r a = Inr ((l, s, pnl), a')" "calculate_fee_pool a = Inr pool"
  shows "am_total_fee_minus_distributions a - int (pool div 3) \<le> am_total_fee_minus_distributions a' \<and>
    (am_total_fee_minus_distributions a' < am_total_fee_minus_distributions a \<longrightarrow>
       int (am_total_exchange_fee a div 2) \<le> am_total_fee_minus_distributions a')"
proof -
  obtain bound where bound: "get_total_fee_lower_bound a = Inr bound" using fee_pool_bound [OF assms(2)] by blast
  have reserved: "bound = am_total_exchange_fee a div 2"
    using bound by (auto simp: get_total_fee_lower_bound_def and_then_Inr safe_Inr)
  obtain payment u where f: "(if u \<ge> 0 then
      and_then (safe_i 128 (am_total_fee_minus_distributions a + u)) (\<lambda>total.
      and_then (safe_i 64 (am_net_revenue_since_last_funding a + wrap_int 64 u)) (\<lambda>revenue.
      Inr ((r, r, u), a\<lparr>am_total_fee_minus_distributions := total, am_net_revenue_since_last_funding := revenue\<rparr>)))
    else
      and_then (calculate_capped_funding_rate a u r) (\<lambda>(capped_rate, capped_pnl).
      and_then (safe_i 128 (am_total_fee_minus_distributions a + capped_pnl)) (\<lambda>total.
      and_then
        (if capped_pnl \<noteq> 0 then
           and_then (get_total_fee_lower_bound a) (\<lambda>bound.
           and_then (cast_i 128 (int bound)) (\<lambda>bound.
           require (\<not> total < bound) Drift_InvalidFundingProfitability (Inr ())))
         else Inr ()) (\<lambda>_.
      and_then (safe_i 64 (am_net_revenue_since_last_funding a - wrap_int 64 \<bar>capped_pnl\<bar>)) (\<lambda>revenue.
      Inr ((if r < 0 then capped_rate else r, if r > 0 then capped_rate else r, u),
           a\<lparr>am_total_fee_minus_distributions := total, am_net_revenue_since_last_funding := revenue\<rparr>)))))) = Inr ((l, s, pnl), a')"
    using assms(1) unfolding calculate_funding_rate_long_short_def and_then_Inr by (elim exE conjE) (rule that)
  show ?thesis
  proof (cases "u \<ge> 0")
    case True
    then show ?thesis using f by (auto simp: and_then_Inr safe_i_Inr)
  next
    case False
    then obtain rate p where p: "calculate_capped_funding_rate a u r = Inr (rate, p)"
      and rest: "am_total_fee_minus_distributions a' = am_total_fee_minus_distributions a + p"
        "p \<noteq> 0 \<longrightarrow> int bound \<le> am_total_fee_minus_distributions a'"
      using f unfolding if_not_P [OF False] bound and_then_simps and_then_Inr case_prod_Inr
      by (elim exE conjE, intro that) (auto simp: safe_i_Inr and_then_Inr require_Inr cast_Inr)
    have "p = max u (- int (pool div 3))" by (rule capped_Inr [OF p assms(2)])
    then show ?thesis using rest reserved by auto
  qed
qed

definition fee_amm :: drift_amm where
  "fee_amm = (empty_amm 10)\<lparr>am_base_asset_amount_with_amm := 10 ^ 9, am_base_asset_amount_long := 10 ^ 9,
     am_total_fee_minus_distributions := 3000000, am_total_exchange_fee := 0\<rparr>"

theorem funding_cost_is_capped_witness:
  "\<exists>a'. calculate_funding_rate_long_short (- 2000000000) fee_amm = Inr ((- 999999000, - 2000000000, - 2000000), a') \<and>
     calculate_fee_pool fee_amm = Inr 3000000 \<and> 3000000 - 1000000 \<le> am_total_fee_minus_distributions a'"
proof -
  have fields: "am_base_asset_amount_with_amm fee_amm = 10 ^ 9" "am_base_asset_amount_long fee_amm = 10 ^ 9"
    "am_base_asset_amount_short fee_amm = 0" "am_total_fee_minus_distributions fee_amm = 3000000"
    "am_total_exchange_fee fee_amm = 0" "am_net_revenue_since_last_funding fee_amm = 0"
    "am_total_liquidation_fee fee_amm = 0" "am_total_fee_withdrawn fee_amm = 0"
    by (simp_all add: fee_amm_def empty_amm_def)
  have bound: "get_total_fee_lower_bound fee_amm = Inr 0" by (simp add: get_total_fee_lower_bound_def fields safe_defs)
  have pool: "calculate_fee_pool fee_amm = Inr 3000000" by (simp add: calculate_fee_pool_def bound fields safe_defs)
  have pay: "calculate_funding_payment_in_quote_precision (- 2000000000) (10 ^ 9) = Inr 2000000"
    by (simp add: calculate_funding_payment_in_quote_precision_def funding_payment_of_def safe_defs signed_divide_int_def)
  have from_users: "calculate_funding_payment_in_quote_precision (- 2000000000) 0 = Inr 0"
    by (simp add: calculate_funding_payment_in_quote_precision_def funding_payment_of_def safe_defs signed_divide_int_def)
  have limit: "calculate_funding_rate_from_pnl_limit (- 1000000) (10 ^ 9) = Inr (- 999999000)"
    by (simp add: calculate_funding_rate_from_pnl_limit_def safe_defs signed_divide_int_def)
  have capped: "calculate_capped_funding_rate fee_amm (- 2000000) (- 2000000000) = Inr (- 999999000, - 1000000)"
    by (simp add: calculate_capped_funding_rate_def pool from_users limit [simplified] fields safe_defs signed_divide_int_def)
  obtain a' where c: "calculate_funding_rate_long_short (- 2000000000) fee_amm = Inr ((- 999999000, - 2000000000, - 2000000), a')"
    by (simp add: calculate_funding_rate_long_short_def pay [simplified] capped bound fields safe_defs arith_i_def wrap_int_def)
  show ?thesis using c pool funding_cost_is_capped [OF c pool] by (simp add: fields)
qed

end
