(* ===== verification/Spec2Isabelle.thy ===== *)
theory Spec2Isabelle
  imports Swap_Math Limit_Order Pool_Bitmap Pool_Reward Oracle Liquidity_Handlers Swap_Theorems
    Swap_V2 Arb_Sweep Perp_Shield Fee_Collection Position_Fees Active_Liquidity Swap_V2_Theorems
    Limit_Order_Life Pool_Creation Position_Entries Shield_Program Nft_Position
    Drift_Rebalance Drift_Perp_Theorems
begin

text \<open>
  A verification development for the programs of nebula-dex: a concentrated-liquidity AMM with a defence against
  sandwich attacks and a small perpetuals market (\<open>programs/amm\<close>), the stand-alone version of that defence
  (\<open>programs/nebula-shield\<close>), positions as NFTs (\<open>programs/nebula-nft-position\<close>), and of the perpetuals exchange
  Drift, which the repository carries (\<open>programs/drift\<close>), the arithmetic, the spot markets, the insurance fund and the
  perpetual positions.

  \<^bold>\<open>How the programs are modelled.\<close> An instruction is a function from the accounts it reads, with the clock and the
  answers of other programs as arguments, to the accounts it writes, and the amounts of the token transfers it makes.
  Its result type \<open>'a res\<close> (\<open>Prelude\<close>) is a sum: \<open>Inl\<close> is an error of the program (\<open>ErrorCode n\<close>, the variant at position
  \<open>n\<close> of the error enumeration of its program; the abbreviations have the names of the source), a violated account
  constraint, or a panic. The programs are built with overflow checks, so an unchecked operation out of range is \<open>Panic\<close>,
  and \<open>checked_add\<close>, \<open>saturating_sub\<close> and the others are definitions that take the width of their type. Amounts, prices,
  liquidity and shares are naturals, ticks and signed amounts integers; the growth of fees and rewards, which the code lets
  wrap, is \<open>128 word\<close>, a bitmap is a list of 64-bit words or a \<open>512 word\<close>, and bytes of flags are \<open>8 word\<close>. Public keys are
  naturals. Account structures are records with one prefix each; a record lists the fields that the modelled code uses.

  \<^bold>\<open>The AMM, \<open>programs/amm/src\<close>.\<close>
  \<^item> \<open>Full_Math\<close>, \<open>Big_Num\<close>, \<open>Tick_Math\<close>, \<open>Sqrt_Price_Math\<close>, \<open>Liquidity_Math\<close>, \<open>Swap_Math\<close>: the files of \<open>libraries\<close> of these
    names. Prices of ticks grow strictly; the amounts of a range are the exact curve amounts, rounded in favour of the
    pool; a step of a swap keeps its bounds and charges at least its fee; the limbs of \<open>U1024\<close> implement a word.
  \<^item> \<open>Tick_State\<close>, \<open>Tick_Array\<close>, \<open>Tick_Bitmap\<close>, \<open>Pool_State\<close>, \<open>Pool_Bitmap\<close>: ticks with their limit orders, arrays of ticks, the
    bitmaps of the pool and of its extension (\<open>states/tick_array.rs\<close>, \<open>states/tickarray_bitmap_extension.rs\<close>,
    \<open>libraries/tick_array_bit_map.rs\<close>, \<open>states/pool.rs\<close>). The search of a swap returns the nearest flagged array, a flip
    changes exactly one flag, and crossing a tick keeps the fee growth inside every range.
  \<^item> \<open>Pool_Fee\<close>, \<open>Amm_Config\<close>, \<open>Pool_Reward\<close>, \<open>Oracle\<close>, \<open>Fee_Collection\<close>: dynamic fees, fee configurations, rewards, the ring of
    observations, and the collection of fees, with the invariants that every operation keeps.
  \<^item> \<open>Position\<close>, \<open>Position_Fees\<close>, \<open>Active_Liquidity\<close>, \<open>Liquidity_Handlers\<close>, \<open>Position_Entries\<close>: positions and the instructions on
    them (\<open>open_position*.rs\<close>, \<open>increase_liquidity*.rs\<close>, \<open>decrease_liquidity*.rs\<close>, \<open>close_position.rs\<close>). The active
    liquidity of a pool is the sum of the positions around its tick, in every reachable state, and the fees owed to the
    positions are covered by the share of the providers.
  \<^item> \<open>Limit_Order\<close>, \<open>Limit_Order_Handlers\<close>, \<open>Limit_Order_Life\<close>: limit orders and their instructions
    (\<open>states/limit_order.rs\<close>, \<open>instructions/limit_order\<close>). The orders of a tick never claim more than it holds, and an
    order that is opened and cancelled leaves no trace.
  \<^item> \<open>Swap_State\<close>, \<open>Swap_Loop\<close>, \<open>Swap_Safety\<close>, \<open>Swap_Example\<close>, \<open>Swap_Theorems\<close>: \<open>instructions/swap.rs\<close>. A swap conserves its fees, keeps
    the limit of the price and the specified amount, and its inner loop ends except in a case that is exhibited.
  \<^item> \<open>Nebula_Shield\<close>, \<open>Arb_Sweep\<close>, \<open>Swap_V2\<close>, \<open>Swap_V2_Theorems\<close>: the hooks of the shield, the sweep, and \<open>swap_v2.rs\<close>, which
    calls both hooks around \<open>swap_internal\<close>. The manipulation tax is backed by the transfers.
  \<^item> \<open>Perp_Market\<close>, \<open>Perp_Shield\<close>: the perpetuals market of the AMM and its circuit breaker.
  \<^item> \<open>Pool_Creation\<close>: \<open>create_pool.rs\<close>, \<open>create_customizable_pool.rs\<close>, the accepted mints and the administration. That a new
    pool satisfies the invariants of all components is proved below.

  \<^bold>\<open>The shield and the NFTs.\<close> \<open>Shield_Program\<close> is \<open>programs/nebula-shield\<close>, with runs of transactions that keep its
  configuration valid and limit its sweeps; \<open>Nft_Position\<close> is \<open>programs/nebula-nft-position\<close>.

  \<^bold>\<open>Drift, \<open>programs/drift/src\<close>.\<close>
  \<^item> \<open>Drift_Math\<close>: \<open>math/safe_math.rs\<close>, \<open>casting.rs\<close>, the rounding divisions, \<open>helpers.rs\<close>, \<open>stats.rs\<close>.
  \<^item> \<open>Drift_Spot\<close>, \<open>Drift_Spot_Theorems\<close>, \<open>Drift_Spot_Book\<close>: scaled balances and interest (\<open>math/spot_balance.rs\<close>,
    \<open>controller/spot_balance.rs\<close>). An update changes the worth of a holder by the tokens moved, the totals of a market are
    the sums over its holders, and interest is paid by the borrowers. The exception, a balance worth less than a token,
    is exhibited.
  \<^item> \<open>Drift_Withdraw\<close>: the spot positions of a user and the limits on withdrawals (\<open>math/spot_withdraw.rs\<close>).
  \<^item> \<open>Drift_Insurance\<close>, \<open>Drift_Insurance_Theorems\<close>, \<open>Drift_Rebalance\<close>: shares and stakes of the insurance fund, the settlement
    of revenue, rebalancing swaps and the staking instructions (\<open>controller/insurance.rs\<close>, \<open>instructions/if_staker.rs\<close>).
    Stakes stay covered by the shares of the fund through every sequence of operations.
  \<^item> \<open>Drift_Perp\<close>, \<open>Drift_Perp_Theorems\<close>: positions and their market (\<open>controller/position.rs\<close>) and funding
    (\<open>math/funding.rs\<close>, \<open>controller/funding.rs\<close>). The totals of a market are the sums over its positions.

  \<^bold>\<open>Interfaces.\<close> The laws of rounding, of a monotone scale of prices and of wide bit vectors are the locales \<open>rounding\<close>,
  \<open>price_scale\<close>, \<open>wide_bits\<close> and \<open>wide_flip\<close>; they are interpreted on \<open>mul_div_floor\<close> and \<open>mul_div_ceil\<close>, on the prices of
  ticks, and on both representations of bitmaps.

  \<^bold>\<open>Loops and bounds.\<close> The loops of a swap have no bound in the code; they are partial functions into \<open>option\<close>, and \<open>None\<close> is
  a loop that does not end. The search over the bitmaps (\<open>search_loop\<close>) has fuel 32: a round moves to the next of at most
  30 bitmaps or leaves the range of ticks, so at most 31 rounds are made. All other loops are structural or have a measure.

  \<^bold>\<open>Parameters and hypotheses.\<close> The clock, the slot, derived addresses, the keys of administrators, balances of vaults and what
  the token programs answer are arguments. The oracle of Drift is the price it returns. No theorem assumes more of them
  than its statement shows.

  \<^bold>\<open>Not modelled.\<close> Events, logs and compute-budget calls have no effect on the accounts. Creating accounts, mints and
  metadata is done by other programs (\<open>util/system.rs\<close> and the metadata calls of the instructions). The swap router
  (\<open>swap_router_base_in.rs\<close>) parses its accounts into hops of \<open>exact_internal_v2\<close>, which is modelled. Of Drift, orders and
  their matching, margin, liquidation, the virtual AMM, liquidity pools, oracles and the instructions that load their
  accounts are left out, as are the functions of its feature \<open>drift-rs\<close>, test code, and in \<open>controller\<close> the functions
  \<open>resolve_perp_pnl_deficit\<close>, \<open>update_funding_rate\<close>, \<open>transfer_spot_position_deposit\<close> and \<open>update_spot_market_and_check_validity\<close>,
  which need them. The client and the scripts are input and output.
\<close>

section \<open>A new pool\<close>

text \<open>The invariants of the components hold where a pool begins.\<close>

lemma new_pool_fields [simp]:
  "ps_liquidity (new_pool e a p t c m0 m1 f) = 0" "ps_tick_spacing (new_pool e a p t c m0 m1 f) = ac_tick_spacing c"
  "ps_tick_array_bitmap (new_pool e a p t c m0 m1 f) = limbs_zero 16"
  "ps_reward_infos (new_pool e a p t c m0 m1 f) = replicate REWARD_NUM (new_reward_info (pa_creator a))"
  "get_dynamic_fee_info (new_pool e a p t c m0 m1 f) = None"
  "ps_sqrt_price_x64 (new_pool e a p t c m0 m1 f) = p" "ps_tick_current (new_pool e a p t c m0 m1 f) = t"
  by (simp_all add: new_pool_def pool_initialize_def get_dynamic_fee_info_def)

lemma dynamic_fee_initialized:
  assumes "initialize_dynamic_fee_info t fp dp rf dc mv pool = Inr pool'" "mv < 2 ^ 32"
  shows "\<exists>d. pool' = pool\<lparr>ps_dynamic_fee_info := d\<rparr> \<and> valid_dynamic_fee (ps_tick_spacing pool) d"
  using assms
  by (auto simp: initialize_dynamic_fee_info_def fail_Inr and_then_Inr valid_dynamic_fee_def default_dynamic_fee_info_def
      split: if_split_asm)

lemma no_flags:
  assumes "spacing_ok s" "index_ok s k"
  shows "\<not> array_flag (limbs_zero 16) (bitmap_extension_initialize key ext) k"
proof -
  have "\<not> lbit (limbs_zero 16) i" for i
    using limbs_is_zero_iff [of "limbs_zero 16"] by (simp add: limbs_is_zero_def limbs_zero_def list_all_length)
  moreover have "nat (- (k div 512) - 2) < 14 \<or> \<not> k < - 512" "nat (k div 512 - 1) < 14 \<or> \<not> 512 \<le> k"
    using index_bounds [OF assms] by linarith+
  ultimately show ?thesis
    by (auto simp: array_flag_def pool_flag_def extension_flag_def bitmap_extension_initialize_def
        EXTENSION_TICKARRAY_BITMAP_SIZE_def)
qed

lemmas created_simps = create_pool_def create_customizable_pool_def check_mints_def require_plain_Inr require_Inr
  and_then_Inr ok_or_Inr Let_def

text \<open>
  C37. A pool that \<open>create_customizable_pool\<close> or \<open>create_pool\<close> returns is a state of the model: its bitmaps have their
  sizes and flag no tick array, its rewards and its history of observations satisfy their invariants, the dynamic
  fee is off or valid for its spacing, and with no position and no tick it starts a book whose active liquidity is
  exact.
\<close>

theorem created_pool_well_formed:
  assumes "create_pool policy epoch now a config m0 m1 remaining fresh price open_time = Inr (pool, observation, bitmap) \<or>
      create_customizable_pool policy epoch a config m0 m1 remaining dynamic_config fresh params
        = Inr (pool, observation, bitmap)"
    and "spacing_ok (ac_tick_spacing config)"
    and "\<And>d. dynamic_config = Some (Inr d) \<Longrightarrow> dc_max_volatility_accumulator d < 2 ^ 32"
  shows "pool_ok pool \<and> extension_ok bitmap \<and> rewards_ok pool \<and> ring_of [] observation \<and>
    (\<forall>d. get_dynamic_fee_info pool = Some d \<longrightarrow> valid_dynamic_fee (ps_tick_spacing pool) d) \<and>
    (\<forall>k. index_ok (ps_tick_spacing pool) k \<longrightarrow> \<not> array_flag (ps_tick_array_bitmap pool) bitmap k) \<and>
    liquidity_reachable \<lparr>bk_pool = pool, bk_ticks = (\<lambda>t. default_tick_state), bk_positions = []\<rparr>"
proof -
  have obs: "observation = observation_initialize epoch (pa_pool a)"
    and bm: "bitmap = bitmap_extension_initialize (pa_pool a) fresh"
    and "\<exists>p t f. pool = new_pool epoch a p t config m0 m1 f \<or>
      (\<exists>d. pool = (new_pool epoch a p t config m0 m1 f)\<lparr>ps_dynamic_fee_info := d\<rparr> \<and>
        valid_dynamic_fee (ac_tick_spacing config) d)"
    using assms(1)
    by (auto simp: created_simps dest!: dynamic_fee_initialized dest: assms(3) split: if_split_asm) blast+
  then obtain q where q: "pool = q \<or> (\<exists>d. pool = q\<lparr>ps_dynamic_fee_info := d\<rparr> \<and> valid_dynamic_fee (ac_tick_spacing config) d)"
    and fields: "ps_liquidity q = 0" "ps_tick_spacing q = ac_tick_spacing config" "ps_tick_array_bitmap q = limbs_zero 16"
      "ps_reward_infos q = replicate REWARD_NUM (new_reward_info (pa_creator a))" "get_dynamic_fee_info q = None"
    by (metis new_pool_fields(1-5))
  have same: "ps_liquidity pool = 0" "ps_tick_spacing pool = ac_tick_spacing config" "ps_tick_array_bitmap pool = limbs_zero 16"
      "ps_reward_infos pool = replicate REWARD_NUM (new_reward_info (pa_creator a))"
    using q fields by auto
  have "valid_dynamic_fee (ps_tick_spacing pool) d" if "get_dynamic_fee_info pool = Some d" for d
    using q fields that by (auto simp: get_dynamic_fee_info_def split: if_split_asm)
  moreover have "pool_ok pool" "rewards_ok pool"
    using same assms(2) by (simp_all add: pool_ok_def limbs_zero_def rewards_ok_def reward_ok_def new_reward_info_def)
  moreover have "extension_ok bitmap"
    by (simp add: bm extension_ok_def bitmap_extension_initialize_def EXTENSION_TICKARRAY_BITMAP_SIZE_def)
  moreover have "\<not> array_flag (ps_tick_array_bitmap pool) bitmap k" if "index_ok (ps_tick_spacing pool) k" for k
    using no_flags [OF assms(2)] that same bm by simp
  moreover have "liquidity_reachable \<lparr>bk_pool = pool, bk_ticks = (\<lambda>t. default_tick_state), bk_positions = []\<rparr>"
    by (rule empty_book [OF same(1)])
  ultimately show ?thesis using ring_of_init by (simp add: obs)
qed

definition classic_mint :: "nat \<Rightarrow> mint_account" where
  "classic_mint key = \<lparr>mi_key = key, mi_decimals = 6, mi_classic = True, mi_token_2022 = False, mi_extensions = [],
     mi_freeze_authority = None, mi_default_frozen = False, mi_permanent_delegate = None\<rparr>"

theorem created_pool_well_formed_witness:
  "\<exists>pool observation bitmap.
     create_pool \<lparr>mp_whitelist = [], mp_allowlist = 0, mp_support_address = (\<lambda>m. m + 100)\<rparr> 7 1000
       \<lparr>pa_pool = 1, pa_bump = 255, pa_creator = 2, pa_vault_0 = 3, pa_vault_1 = 4, pa_observation = 5, pa_config = 6\<rparr>
       example_config (classic_mint 10) (classic_mint 11) [] empty_extension 18446744073709551616 0
       = Inr (pool, observation, bitmap) \<and> pool_ok pool \<and> rewards_ok pool \<and> ring_of [] observation"
  (is "\<exists>pool observation bitmap. ?create = Inr (pool, observation, bitmap) \<and> _")
proof -
  have "\<exists>pool observation bitmap. ?create = Inr (pool, observation, bitmap)"
    by (simp add: create_pool_def check_mints_def require_def require_plain_def tick_at_one classic_mint_def
        support_mint_associated_is_initialized_def is_supported_mint_def)
  then obtain pool observation bitmap where created: "?create = Inr (pool, observation, bitmap)" by blast
  have "spacing_ok (ac_tick_spacing example_config)" by (simp add: spacing_ok_def example_config_def)
  from created_pool_well_formed [OF disjI1 [OF created] this, of None] show ?thesis using created by blast
qed

end
